(* ===== verification/Prelude.thy ===== *)
theory Prelude
  imports Main "HOL-Library.Word" "HOL-Library.Multiset"
begin

text \<open>
  Shared vocabulary of the development: the C integer types as words, C strings and the
  functions of \<^verbatim>\<open>string.h\<close> the sources call, bounded copies into fixed buffers, the halt of
  \<open>configASSERT\<close>, the contract of a bounded first-in first-out queue (the interface through which
  the MQTT agent and the OTA agent exchange messages), the contract of a pool of slots and the
  contract of a table of registrations.
\<close>

unbundle bit_operations_syntax

section \<open>Machine types\<close>

type_synonym u8 = "8 word"
type_synonym u16 = "16 word"
type_synonym u32 = "32 word"
type_synonym u64 = "64 word"

text \<open>An address; 0 is \<open>NULL\<close>. Function pointers are addresses too.\<close>
type_synonym ptr = nat

text \<open>The bytes found from an address onwards. A C string ends at its first NUL.\<close>
type_synonym memory = "ptr \<Rightarrow> string"

abbreviation NUL :: char where "NUL \<equiv> CHR 0x00"

text \<open>
  \<open>configASSERT\<close> expands to a call of \<open>vAssertCalled\<close> when its argument is 0, and \<open>vAssertCalled\<close>
  loops for ever: a failed assertion is the result \<open>None\<close>.
\<close>

named_theorems model_simps \<open>definitions of the model a component's proofs unfold together\<close>
named_theorems lens_simps \<open>frame facts: what an operation leaves unchanged\<close>

text \<open>Widening keeps the value.\<close>

lemma unat_ucast_16_32 [simp]: "unat (ucast (x :: u16) :: u32) = unat x"
  by (simp add: unsigned_ucast_eq take_bit_nat_eq_self order_less_trans [OF unsigned_less])

lemma unat_ucast_32_64 [simp]: "unat (ucast (x :: u32) :: u64) = unat x"
  by (simp add: unsigned_ucast_eq take_bit_nat_eq_self order_less_trans [OF unsigned_less])

lemma uint_ucast_32_64 [simp]: "uint (ucast (x :: u32) :: u64) = uint x"
  by (simp add: unsigned_ucast_eq take_bit_int_eq_self order_less_trans [OF unsigned_less])

lemma unat_ucast_8_32 [simp]: "unat (ucast (x :: u8) :: u32) = unat x"
  by (simp add: unsigned_ucast_eq take_bit_nat_eq_self order_less_trans [OF unsigned_less])

lemma ucast_8_32_8 [simp]: "ucast (ucast (x :: u8) :: u32) = x"
proof -
  have "unat x < 2 ^ 8" using unsigned_less [of x, where ?'a = nat] by simp
  then show ?thesis
    by (intro word_unat_eq_iff [THEN iffD2]) (simp add: unsigned_ucast_eq [of "ucast x :: u32"] take_bit_nat_eq_self)
qed

text \<open>The result of the backoff library, which two components use.\<close>

datatype BackoffAlgorithmStatus = BackoffAlgorithmSuccess | BackoffAlgorithmRetriesExhausted

section \<open>Strings\<close>

definition c_hd :: "string \<Rightarrow> char" where
  "c_hd s = (case s of [] \<Rightarrow> NUL | c # _ \<Rightarrow> c)"

definition c_str :: "string \<Rightarrow> string" where
  "c_str s = takeWhile (\<lambda>c. c \<noteq> NUL) s"

fun strncmp :: "nat \<Rightarrow> string \<Rightarrow> string \<Rightarrow> int" where
  "strncmp 0 s t = 0"
| "strncmp (Suc n) s t =
     (if c_hd s \<noteq> c_hd t then of_char (c_hd s) - of_char (c_hd t)
      else if c_hd s = NUL then 0
      else strncmp n (tl s) (tl t))"

definition strlen :: "string \<Rightarrow> nat" where
  "strlen s = length (c_str s)"

lemma c_str_Nil [simp]: "c_str [] = []"
  by (simp add: c_str_def)

lemma c_str_Cons [simp]: "c_str (c # s) = (if c = NUL then [] else c # c_str s)"
  by (simp add: c_str_def)

lemma c_hd_simps [simp]: "c_hd [] = NUL" "c_hd (c # s) = c"
  by (simp_all add: c_hd_def)

lemma c_str_idem [simp]: "c_str (c_str s) = c_str s"
  by (induction s) auto

lemma of_char_int_eq_0 [simp]: "(of_char c :: int) = 0 \<longleftrightarrow> c = NUL"
proof -
  have "(of_char NUL :: int) = 0" by simp
  then show ?thesis by (metis of_char_eq_iff)
qed

lemma of_char_diff_eq_0 [simp]:
  "(of_char c :: int) - of_char d = 0 \<longleftrightarrow> c = d"
  by (metis of_char_eq_iff right_minus_eq)

text \<open>\<open>strncmp\<close> returns 0 exactly when the two C strings agree on their first \<open>n\<close> characters.\<close>

lemma strncmp_eq_0_iff: "strncmp n s t = 0 \<longleftrightarrow> take n (c_str s) = take n (c_str t)"
proof (induction n s t rule: strncmp.induct)
  case (1 s t)
  show ?case by simp
next
  case (2 n s t)
  show ?case
  proof (cases "c_hd s = c_hd t \<and> c_hd s \<noteq> NUL")
    case True
    then obtain c s' t' where "s = c # s'" and "t = c # t'" and "c \<noteq> NUL"
      by (cases s; cases t) auto
    with 2 show ?thesis by simp
  next
    case False
    then show ?thesis by (cases s; cases t) auto
  qed
qed

lemma strncmp_refl [simp]: "strncmp n s s = 0"
  by (simp add: strncmp_eq_0_iff)

lemma strncmp_sym_0: "strncmp n s t = 0 \<longleftrightarrow> strncmp n t s = 0"
  by (auto simp: strncmp_eq_0_iff)

section \<open>Copies into a fixed buffer\<close>

text \<open>
  \<open>memcpy( dst + off, src, n )\<close> into a buffer of \<open>length dst\<close> bytes. \<open>buf_write\<close> is the buffer
  afterwards with the bytes outside it dropped, \<open>buf_fits\<close> says whether every byte written was
  inside the buffer. The operations of the model log a fault where it does not.
\<close>

definition buf_write :: "'a list \<Rightarrow> nat \<Rightarrow> 'a list \<Rightarrow> 'a list" where
  "buf_write dst off src =
     take (length dst) (take off dst @ src @ drop (off + length src) dst)"

definition buf_fits :: "'a list \<Rightarrow> nat \<Rightarrow> nat \<Rightarrow> bool" where
  "buf_fits dst off n \<longleftrightarrow> off + n \<le> length dst"

lemma length_buf_write [simp]: "off \<le> length dst \<Longrightarrow> length (buf_write dst off src) = length dst"
  by (simp add: buf_write_def)

lemma take_buf_write:
  "buf_fits dst 0 (length src) \<Longrightarrow> take (length src) (buf_write dst 0 src) = src"
  by (simp add: buf_write_def buf_fits_def)

lemma buf_write_0:
  "buf_fits dst 0 (length src) \<Longrightarrow> buf_write dst 0 src = src @ drop (length src) dst"
  by (simp add: buf_write_def buf_fits_def)

section \<open>Lists\<close>

lemma list_all_update [intro]:
  "list_all P xs \<Longrightarrow> P x \<Longrightarrow> list_all P (xs[i := x])"
  by (auto simp: list_all_iff dest!: set_update_subset_insert [THEN subsetD])

lemma nth_list_update_if:
  "j < length xs \<Longrightarrow> xs[i := x] ! j = (if i = j then x else xs ! j)"
  by (simp add: nth_list_update)

text \<open>The least index below \<open>n\<close> with a property: the reference for the scans of the sources.\<close>

definition first_index :: "(nat \<Rightarrow> bool) \<Rightarrow> nat \<Rightarrow> nat option" where
  "first_index P n = find P [0..<n]"

lemma first_index_Some:
  "first_index P n = Some i \<longleftrightarrow> i < n \<and> P i \<and> (\<forall>j<i. \<not> P j)"
proof
  assume "first_index P n = Some i"
  then show "i < n \<and> P i \<and> (\<forall>j<i. \<not> P j)"
    by (auto simp: first_index_def find_Some_iff)
next
  assume "i < n \<and> P i \<and> (\<forall>j<i. \<not> P j)"
  then show "first_index P n = Some i"
    by (auto simp: first_index_def find_Some_iff intro!: exI [of _ i])
qed

lemma first_index_None: "first_index P n = None \<longleftrightarrow> (\<forall>i<n. \<not> P i)"
  by (auto simp: first_index_def find_None_iff)

lemma first_index_Suc:
  "first_index P (Suc n) =
     (case first_index P n of None \<Rightarrow> (if P n then Some n else None) | Some i \<Rightarrow> Some i)"
proof (cases "first_index P n")
  case None
  then have "\<forall>i<n. \<not> P i" by (simp add: first_index_None)
  then have "first_index P (Suc n) = (if P n then Some n else None)"
    by (auto simp: first_index_None first_index_Some less_Suc_eq)
  with None show ?thesis by simp
next
  case (Some i)
  then have "first_index P (Suc n) = Some i" by (simp add: first_index_Some)
  with Some show ?thesis by simp
qed

lemma first_index_cong:
  "(\<And>i. i < n \<Longrightarrow> P i = Q i) \<Longrightarrow> first_index P n = first_index Q n"
proof (induction n)
  case 0
  show ?case by (simp add: first_index_def)
next
  case (Suc n)
  then show ?case by (simp add: first_index_Suc)
qed

section \<open>The contract of a bounded queue\<close>

text \<open>
  A FreeRTOS queue of fixed length seen through two calls that do not block: \<open>snd_op q m\<close> adds
  \<open>m\<close> at the back and reports success, \<open>rcv_op q\<close> takes the front item. \<open>items\<close> is the content.
  The kernel's own code is not part of the repository: its documented behaviour is this contract,
  and the message layers of the MQTT agent and of the OTA agent are shown to keep it.
\<close>

locale bounded_fifo =
  fixes snd_op :: "'q \<Rightarrow> 'm \<Rightarrow> bool \<times> 'q"
    and rcv_op :: "'q \<Rightarrow> 'm option \<times> 'q"
    and items :: "'q \<Rightarrow> 'm list"
    and cap :: nat
  assumes snd_room: "length (items q) < cap \<Longrightarrow>
      fst (snd_op q m) \<and> items (snd (snd_op q m)) = items q @ [m]"
    and snd_full: "cap \<le> length (items q) \<Longrightarrow>
      \<not> fst (snd_op q m) \<and> items (snd (snd_op q m)) = items q"
    and rcv_empty: "items q = [] \<Longrightarrow> fst (rcv_op q) = None \<and> items (snd (rcv_op q)) = []"
    and rcv_front: "items q = m # ms \<Longrightarrow> fst (rcv_op q) = Some m \<and> items (snd (rcv_op q)) = ms"
begin

fun send_all :: "'q \<Rightarrow> 'm list \<Rightarrow> 'q" where
  "send_all q [] = q"
| "send_all q (m # ms) = send_all (snd (snd_op q m)) ms"

fun recv_n :: "nat \<Rightarrow> 'q \<Rightarrow> 'm list \<times> 'q" where
  "recv_n 0 q = ([], q)"
| "recv_n (Suc n) q =
     (case rcv_op q of
        (None, q') \<Rightarrow> ([], q')
      | (Some m, q') \<Rightarrow> (let (ms, q'') = recv_n n q' in (m # ms, q'')))"

lemma send_iff: "fst (snd_op q m) \<longleftrightarrow> length (items q) < cap"
  using snd_room snd_full by (cases "length (items q) < cap") auto

lemma items_send: "items (snd (snd_op q m)) = items q @ (if length (items q) < cap then [m] else [])"
  using snd_room snd_full by (cases "length (items q) < cap") auto

lemma length_items_send: "length (items q) \<le> cap \<Longrightarrow> length (items (snd (snd_op q m))) \<le> cap"
  by (simp add: items_send)

lemma items_rcv: "items (snd (rcv_op q)) = tl (items q)"
  using rcv_empty rcv_front by (cases "items q") auto

lemma rcv_value: "fst (rcv_op q) = (case items q of [] \<Rightarrow> None | m # _ \<Rightarrow> Some m)"
  using rcv_empty rcv_front by (cases "items q") auto

lemma rcv_pair: "rcv_op q = (fst (rcv_op q), snd (rcv_op q))"
  by simp

lemma items_send_all:
  "length (items q) + length ms \<le> cap \<Longrightarrow> items (send_all q ms) = items q @ ms"
  by (induction ms arbitrary: q) (auto simp: items_send)

lemma items_send_all_take:
  "length (items q) \<le> cap \<Longrightarrow>
   items (send_all q ms) = items q @ take (cap - length (items q)) ms"
proof (induction ms arbitrary: q)
  case Nil
  then show ?case by simp
next
  case (Cons m ms)
  show ?case
  proof (cases "length (items q) < cap")
    case True
    with Cons show ?thesis by (simp add: items_send take_Cons' Suc_diff_Suc)
  next
    case False
    with Cons show ?thesis by (simp add: items_send)
  qed
qed

lemma recv_n_items:
  "fst (recv_n n q) = take n (items q)" "items (snd (recv_n n q)) = drop n (items q)"
proof (induction n arbitrary: q)
  case (Suc n)
  {
    case 1
    show ?case
      using Suc.IH(1) rcv_value [of q] items_rcv [of q]
      by (cases "items q"; cases "rcv_op q") (auto simp: split_beta Let_def)
  next
    case 2
    show ?case
      using Suc.IH(2) rcv_value [of q] items_rcv [of q]
      by (cases "items q"; cases "rcv_op q") (auto simp: split_beta Let_def)
  }
qed auto

text \<open>Messages come out in the order they went in, none lost while the queue has room.\<close>

lemma fifo_order:
  assumes "items q = []" and "length ms \<le> cap"
  shows "fst (recv_n (length ms) (send_all q ms)) = ms"
  using assms by (simp add: recv_n_items items_send_all)

end

section \<open>The contract of a table of registrations\<close>

text \<open>
  What the MQTT agent and the OTA agent rely on when they add and remove callbacks: \<open>regs t\<close> is
  the set of registrations, \<open>entry k\<close> what the request \<open>k\<close> registers, \<open>hits f r\<close> whether the
  removal request \<open>f\<close> concerns the registration \<open>r\<close>.
\<close>

locale registration_table =
  fixes add :: "'k \<Rightarrow> 't \<Rightarrow> bool \<times> 't"
    and remove :: "'f \<Rightarrow> 't \<Rightarrow> bool \<times> 't"
    and regs :: "'t \<Rightarrow> 'r set"
    and entry :: "'k \<Rightarrow> 'r"
    and hits :: "'f \<Rightarrow> 'r \<Rightarrow> bool"
    and inv :: "'t \<Rightarrow> bool"
  assumes inv_add: "inv t \<Longrightarrow> inv (snd (add k t))"
    and inv_remove: "inv t \<Longrightarrow> inv (snd (remove f t))"
    and regs_add: "inv t \<Longrightarrow> fst (add k t) \<Longrightarrow> regs (snd (add k t)) = insert (entry k) (regs t)"
    and add_refused: "inv t \<Longrightarrow> \<not> fst (add k t) \<Longrightarrow> snd (add k t) = t"
    and regs_remove: "inv t \<Longrightarrow> regs (snd (remove f t)) = {r \<in> regs t. \<not> hits f r}"
    and remove_iff: "inv t \<Longrightarrow> fst (remove f t) \<longleftrightarrow> (\<exists>r \<in> regs t. hits f r)"
begin

definition remove_all :: "'f list \<Rightarrow> 't \<Rightarrow> 't" where
  "remove_all fs t = fold (\<lambda>f t. snd (remove f t)) fs t"

definition add_all :: "'k list \<Rightarrow> 't \<Rightarrow> 't" where
  "add_all ks t = fold (\<lambda>k t. snd (add k t)) ks t"

lemma remove_all_simps [simp]:
  "remove_all [] t = t"
  "remove_all (f # fs) t = remove_all fs (snd (remove f t))"
  by (simp_all add: remove_all_def)

lemma add_all_simps [simp]:
  "add_all [] t = t"
  "add_all (k # ks) t = add_all ks (snd (add k t))"
  by (simp_all add: add_all_def)

lemma inv_remove_all: "inv t \<Longrightarrow> inv (remove_all fs t)"
  by (induction fs arbitrary: t) (auto intro: inv_remove)

lemma inv_add_all: "inv t \<Longrightarrow> inv (add_all ks t)"
  by (induction ks arbitrary: t) (auto intro: inv_add)

lemma regs_remove_all:
  "inv t \<Longrightarrow> regs (remove_all fs t) = {r \<in> regs t. \<forall>f \<in> set fs. \<not> hits f r}"
  by (induction fs arbitrary: t) (auto simp: regs_remove inv_remove)

lemma regs_add_subset: "inv t \<Longrightarrow> regs (snd (add k t)) \<subseteq> insert (entry k) (regs t)"
  using regs_add add_refused by (cases "fst (add k t)") auto

lemma regs_add_mono: "inv t \<Longrightarrow> regs t \<subseteq> regs (snd (add k t))"
  using regs_add add_refused by (cases "fst (add k t)") auto

lemma regs_add_all_bounds:
  "inv t \<Longrightarrow> regs t \<subseteq> regs (add_all ks t) \<and> regs (add_all ks t) \<subseteq> regs t \<union> entry ` set ks"
proof (induction ks arbitrary: t)
  case Nil
  then show ?case by simp
next
  case (Cons k ks)
  from Cons.prems have i: "inv (snd (add k t))" by (rule inv_add)
  from Cons.IH [OF i] regs_add_subset [OF Cons.prems, of k] regs_add_mono [OF Cons.prems, of k]
  show ?case by auto
qed

text \<open>Removing what was added leaves the registrations that were there and are not hit.\<close>

lemma remove_after_add:
  assumes "inv t" and "hits f (entry k)"
  shows "regs (snd (remove f (snd (add k t)))) = {r \<in> regs t. \<not> hits f r}"
proof -
  have "regs (snd (remove f (snd (add k t)))) = {r \<in> regs (snd (add k t)). \<not> hits f r}"
    using assms(1) by (simp add: regs_remove inv_add)
  with assms regs_add_subset [of t k] regs_add_mono [of t k] show ?thesis by auto
qed

end

section \<open>The contract of a pool of slots\<close>

text \<open>
  \<open>acquire p\<close> hands out the index of a slot nobody holds, \<open>put i p\<close> gives slot \<open>i\<close> back. \<open>used p\<close>
  are the slots held, \<open>cap\<close> their number.
\<close>

locale slot_pool =
  fixes acquire :: "'p \<Rightarrow> nat option \<times> 'p"
    and put :: "nat \<Rightarrow> 'p \<Rightarrow> 'p"
    and used :: "'p \<Rightarrow> nat set"
    and cap :: nat
    and inv :: "'p \<Rightarrow> bool"
  assumes inv_get: "inv p \<Longrightarrow> inv (snd (acquire p))"
    and inv_put: "inv p \<Longrightarrow> inv (put i p)"
    and used_bound: "inv p \<Longrightarrow> used p \<subseteq> {..<cap}"
    and get_None: "inv p \<Longrightarrow> fst (acquire p) = None \<longleftrightarrow> used p = {..<cap}"
    and get_None_same: "inv p \<Longrightarrow> fst (acquire p) = None \<Longrightarrow> snd (acquire p) = p"
    and get_Some: "inv p \<Longrightarrow> fst (acquire p) = Some i \<Longrightarrow>
      i \<notin> used p \<and> i < cap \<and> used (snd (acquire p)) = insert i (used p)"
    and used_put: "inv p \<Longrightarrow> used (put i p) = used p - {i}"
begin

lemma get_cases:
  assumes "inv p"
  shows "(\<exists>i. fst (acquire p) = Some i \<and> i \<notin> used p \<and> used (snd (acquire p)) = insert i (used p)) \<or>
         (fst (acquire p) = None \<and> used p = {..<cap} \<and> snd (acquire p) = p)"
  using assms get_None get_None_same get_Some by (cases "fst (acquire p)") auto

lemma get_after_put:
  assumes "inv p" and "i < cap"
  shows "fst (acquire (put i p)) \<noteq> None"
proof
  assume "fst (acquire (put i p)) = None"
  with assms have "used p - {i} = {..<cap}" by (simp add: get_None inv_put used_put)
  with assms(2) show False by auto
qed

lemma card_used: "inv p \<Longrightarrow> card (used p) \<le> cap"
  using used_bound [of p] card_mono [of "{..<cap}" "used p"] by simp

text \<open>The slots handed out in a row, without a \<open>put\<close> in between, are pairwise distinct.\<close>

fun acquire_n :: "nat \<Rightarrow> 'p \<Rightarrow> nat option list \<times> 'p" where
  "acquire_n 0 p = ([], p)"
| "acquire_n (Suc n) p =
     (let (i, p') = acquire p; (is, p'') = acquire_n n p' in (i # is, p''))"

lemma acquire_n_used:
  "inv p \<Longrightarrow> used p \<subseteq> used (snd (acquire_n n p)) \<and>
    (\<forall>i. Some i \<in> set (fst (acquire_n n p)) \<longrightarrow> i \<notin> used p)"
proof (induction n arbitrary: p)
  case 0
  then show ?case by simp
next
  case (Suc n)
  have i: "inv (snd (acquire p))" using Suc.prems by (rule inv_get)
  from Suc.IH [OF i] get_cases [OF Suc.prems] show ?case
    by (auto simp: Let_def split_beta)
qed

lemma acquire_n_distinct:
  "inv p \<Longrightarrow> distinct (filter (\<lambda>i. i \<noteq> None) (fst (acquire_n n p)))"
proof (induction n arbitrary: p)
  case 0
  then show ?case by simp
next
  case (Suc n)
  have i: "inv (snd (acquire p))" using Suc.prems by (rule inv_get)
  from Suc.IH [OF i] acquire_n_used [OF i, of n] get_cases [OF Suc.prems] show ?case
    by (auto simp: Let_def split_beta)
qed

end

text \<open>A concrete queue that keeps the contract: the list of its items.\<close>

definition list_send :: "nat \<Rightarrow> 'm list \<Rightarrow> 'm \<Rightarrow> bool \<times> 'm list" where
  "list_send n q m = (if length q < n then (True, q @ [m]) else (False, q))"

fun list_recv :: "'m list \<Rightarrow> 'm option \<times> 'm list" where
  "list_recv [] = (None, [])"
| "list_recv (m # q) = (Some m, q)"

lemma bounded_fifo_list: "bounded_fifo (list_send n) list_recv (\<lambda>q. q) n"
  by unfold_locales (auto simp: list_send_def)

section \<open>Calls of the kernel\<close>

text \<open>The tick conversion of the target: one tick is one millisecond.\<close>

definition pdMS_TO_TICKS :: "u32 \<Rightarrow> u32" where
  "pdMS_TO_TICKS xTimeInMs = xTimeInMs"

text \<open>
  The two queue calls of the kernel the sources use, with the ticks to wait as last argument. The
  handle's state is \<open>'q\<close>. \<open>kernel_fifo\<close> states their documented behaviour for a queue of length
  \<open>cap\<close> when no other task runs in between: send fails on a full queue, receive on an empty one.
\<close>

record ('q, 'm) kernel_queue =
  xQueueSendToBack :: "'q \<Rightarrow> 'm \<Rightarrow> u32 \<Rightarrow> bool \<times> 'q"
  xQueueReceive :: "'q \<Rightarrow> u32 \<Rightarrow> 'm option \<times> 'q"

definition kernel_fifo :: "('q, 'm) kernel_queue \<Rightarrow> ('q \<Rightarrow> 'm list) \<Rightarrow> nat \<Rightarrow> bool" where
  "kernel_fifo K items cap \<longleftrightarrow>
     (\<forall>t. bounded_fifo (\<lambda>q m. xQueueSendToBack K q m t) (\<lambda>q. xQueueReceive K q t) items cap)"

definition list_kernel :: "nat \<Rightarrow> ('m list, 'm) kernel_queue" where
  "list_kernel n = \<lparr>xQueueSendToBack = (\<lambda>q m t. list_send n q m),
                    xQueueReceive = (\<lambda>q t. list_recv q)\<rparr>"

lemma kernel_fifo_list [simp]: "kernel_fifo (list_kernel n) (\<lambda>q. q) n"
  by (simp add: kernel_fifo_def list_kernel_def bounded_fifo_list)

end
