(* ===== verification/Subscription_Manager.thy ===== *)
theory Subscription_Manager
  imports Prelude
begin

text \<open>
  The subscription manager of the MQTT agent, \<^verbatim>\<open>subscription_manager.c\<close>: a global array of ten
  subscription elements, searched by the four scans of \<open>addSubscription\<close>, \<open>removeSubscription\<close> and
  \<open>handleIncomingPublishes\<close>. A topic filter is stored by pointer, so every operation takes the
  memory \<open>mem\<close> in which the pointers are read.
\<close>

section \<open>Data\<close>

abbreviation SUBSCRIPTION_MANAGER_MAX_SUBSCRIPTIONS :: nat where
  "SUBSCRIPTION_MANAGER_MAX_SUBSCRIPTIONS \<equiv> 10"

record SubscriptionElement =
  pxIncomingPublishCallback :: ptr
  pvIncomingPublishCallbackContext :: ptr
  usFilterStringLength :: u16
  pcSubscriptionFilterString :: ptr

text \<open>An element of the zero-initialised array, and what \<open>memset( .., 0x00, .. )\<close> leaves.\<close>

definition zero_element :: SubscriptionElement where
  "zero_element = \<lparr>pxIncomingPublishCallback = 0, pvIncomingPublishCallbackContext = 0,
     usFilterStringLength = 0, pcSubscriptionFilterString = 0\<rparr>"

type_synonym sub_table = "SubscriptionElement list"

definition xGlobalSubscriptionList_init :: sub_table where
  "xGlobalSubscriptionList_init = replicate SUBSCRIPTION_MANAGER_MAX_SUBSCRIPTIONS zero_element"

record MQTTPublishInfo =
  pTopicName :: string
  topicNameLength :: u16
  pPayload :: string
  payloadLength :: nat

section \<open>Operations\<close>

text \<open>
  The backwards loop of \<open>addSubscription\<close>: \<open>k\<close> is \<open>lIndex + 1\<close>, the result is
  \<open>xAvailableIndex\<close> and \<open>xReturnStatus\<close> when the loop ends or breaks.
\<close>

fun add_scan :: "memory \<Rightarrow> sub_table \<Rightarrow> ptr \<Rightarrow> u16 \<Rightarrow> ptr \<Rightarrow> ptr \<Rightarrow> nat \<Rightarrow> nat \<Rightarrow> nat \<times> bool" where
  "add_scan mem subs pc len cb ctx 0 avail = (avail, False)"
| "add_scan mem subs pc len cb ctx (Suc i) avail =
     (if usFilterStringLength (subs ! i) = 0
      then add_scan mem subs pc len cb ctx i i
      else if usFilterStringLength (subs ! i) = len \<and>
              strncmp (unat len) (mem pc) (mem (pcSubscriptionFilterString (subs ! i))) = 0
      then (if pxIncomingPublishCallback (subs ! i) = cb \<and>
               pvIncomingPublishCallbackContext (subs ! i) = ctx
            then (SUBSCRIPTION_MANAGER_MAX_SUBSCRIPTIONS, True)
            else add_scan mem subs pc len cb ctx i avail)
      else add_scan mem subs pc len cb ctx i avail)"

definition addSubscription ::
  "memory \<Rightarrow> ptr \<Rightarrow> u16 \<Rightarrow> ptr \<Rightarrow> ptr \<Rightarrow> sub_table \<Rightarrow> bool \<times> sub_table" where
  "addSubscription mem pcTopicFilterString usTopicFilterLength cb ctx subs =
     (if pcTopicFilterString = 0 \<or> usTopicFilterLength = 0 \<or> cb = 0
      then (False, subs)
      else
        (let (xAvailableIndex, xReturnStatus) =
               add_scan mem subs pcTopicFilterString usTopicFilterLength cb ctx
                 SUBSCRIPTION_MANAGER_MAX_SUBSCRIPTIONS SUBSCRIPTION_MANAGER_MAX_SUBSCRIPTIONS
         in if xAvailableIndex < SUBSCRIPTION_MANAGER_MAX_SUBSCRIPTIONS
            then (True, subs[xAvailableIndex :=
                    \<lparr>pxIncomingPublishCallback = cb, pvIncomingPublishCallbackContext = ctx,
                     usFilterStringLength = usTopicFilterLength,
                     pcSubscriptionFilterString = pcTopicFilterString\<rparr>])
            else (xReturnStatus, subs)))"

text \<open>The loop of \<open>removeSubscription\<close> over the \<open>n\<close> last elements; it does not stop at a match.\<close>

fun remove_scan :: "memory \<Rightarrow> ptr \<Rightarrow> u16 \<Rightarrow> nat \<Rightarrow> bool \<Rightarrow> sub_table \<Rightarrow> bool \<times> sub_table" where
  "remove_scan mem pc len 0 found subs = (found, subs)"
| "remove_scan mem pc len (Suc n) found subs =
     (let lIndex = SUBSCRIPTION_MANAGER_MAX_SUBSCRIPTIONS - Suc n
      in if usFilterStringLength (subs ! lIndex) = len \<and>
            strncmp (unat len) (mem (pcSubscriptionFilterString (subs ! lIndex))) (mem pc) = 0
         then remove_scan mem pc len n True (subs[lIndex := zero_element])
         else remove_scan mem pc len n found subs)"

definition removeSubscription :: "memory \<Rightarrow> ptr \<Rightarrow> u16 \<Rightarrow> sub_table \<Rightarrow> bool \<times> sub_table" where
  "removeSubscription mem pcTopicFilterString usTopicFilterLength subs =
     (if pcTopicFilterString = 0 \<or> usTopicFilterLength = 0 then (False, subs)
      else remove_scan mem pcTopicFilterString usTopicFilterLength
             SUBSCRIPTION_MANAGER_MAX_SUBSCRIPTIONS False subs)"

text \<open>
  \<open>match topic len filter flen\<close> stands for \<open>MQTT_MatchTopic\<close> of coreMQTT: the flag it stores, or
  \<open>None\<close> when it rejects its parameters and leaves the flag alone. \<open>invoke cb ctx pub\<close> is the
  effect of a callback on the state \<open>'s\<close> of the program, which holds the array (\<open>subs_of\<close>): the
  array is read again after every callback.
\<close>

type_synonym topic_matcher = "string \<Rightarrow> u16 \<Rightarrow> string \<Rightarrow> u16 \<Rightarrow> bool option"

fun handle_scan ::
  "topic_matcher \<Rightarrow> ('s \<Rightarrow> sub_table) \<Rightarrow> (ptr \<Rightarrow> ptr \<Rightarrow> MQTTPublishInfo \<Rightarrow> 's \<Rightarrow> 's) \<Rightarrow> memory \<Rightarrow>
   MQTTPublishInfo \<Rightarrow> nat \<Rightarrow> bool \<Rightarrow> bool \<Rightarrow> 's \<Rightarrow> bool \<times> 's" where
  "handle_scan match subs_of invoke mem pub 0 isMatched handled s = (handled, s)"
| "handle_scan match subs_of invoke mem pub (Suc n) isMatched handled s =
     (let e = subs_of s ! (SUBSCRIPTION_MANAGER_MAX_SUBSCRIPTIONS - Suc n)
      in if usFilterStringLength e > 0
         then
           (let isMatched' =
                  (case match (pTopicName pub) (topicNameLength pub)
                          (mem (pcSubscriptionFilterString e)) (usFilterStringLength e)
                   of None \<Rightarrow> isMatched | Some b \<Rightarrow> b)
            in if isMatched'
               then handle_scan match subs_of invoke mem pub n isMatched' True
                      (invoke (pxIncomingPublishCallback e) (pvIncomingPublishCallbackContext e) pub s)
               else handle_scan match subs_of invoke mem pub n isMatched' handled s)
         else handle_scan match subs_of invoke mem pub n isMatched handled s)"

definition handleIncomingPublishes ::
  "topic_matcher \<Rightarrow> ('s \<Rightarrow> sub_table) \<Rightarrow> (ptr \<Rightarrow> ptr \<Rightarrow> MQTTPublishInfo \<Rightarrow> 's \<Rightarrow> 's) \<Rightarrow> memory \<Rightarrow>
   MQTTPublishInfo option \<Rightarrow> 's \<Rightarrow> bool \<times> 's" where
  "handleIncomingPublishes match subs_of invoke mem pxPublishInfo s =
     (case pxPublishInfo of
        None \<Rightarrow> (False, s)
      | Some pub \<Rightarrow> handle_scan match subs_of invoke mem pub
                      SUBSCRIPTION_MANAGER_MAX_SUBSCRIPTIONS False False s)"

section \<open>Reference semantics\<close>

text \<open>The filter text an element stands for, and when two registrations are the same.\<close>

definition filter_text :: "memory \<Rightarrow> ptr \<Rightarrow> u16 \<Rightarrow> string" where
  "filter_text mem p len = take (unat len) (c_str (mem p))"

definition same_filter :: "memory \<Rightarrow> ptr \<Rightarrow> u16 \<Rightarrow> SubscriptionElement \<Rightarrow> bool" where
  "same_filter mem pc len e \<longleftrightarrow>
     usFilterStringLength e = len \<and>
     filter_text mem (pcSubscriptionFilterString e) len = filter_text mem pc len"

definition duplicate_of :: "memory \<Rightarrow> ptr \<Rightarrow> u16 \<Rightarrow> ptr \<Rightarrow> ptr \<Rightarrow> SubscriptionElement \<Rightarrow> bool" where
  "duplicate_of mem pc len cb ctx e \<longleftrightarrow>
     same_filter mem pc len e \<and> pxIncomingPublishCallback e = cb \<and>
     pvIncomingPublishCallbackContext e = ctx"

abbreviation free_element :: "SubscriptionElement \<Rightarrow> bool" where
  "free_element e \<equiv> usFilterStringLength e = 0"

text \<open>The array always has its ten elements, and an element in use has a callback.\<close>

definition table_ok :: "sub_table \<Rightarrow> bool" where
  "table_ok subs \<longleftrightarrow>
     length subs = SUBSCRIPTION_MANAGER_MAX_SUBSCRIPTIONS \<and>
     list_all (\<lambda>e. \<not> free_element e \<longrightarrow>
        pxIncomingPublishCallback e \<noteq> 0 \<and> pcSubscriptionFilterString e \<noteq> 0) subs"

text \<open>The registration an element holds, and the registrations of a table as its clients see them.\<close>

definition registration_of :: "memory \<Rightarrow> SubscriptionElement \<Rightarrow> string \<times> u16 \<times> ptr \<times> ptr" where
  "registration_of mem e =
     (filter_text mem (pcSubscriptionFilterString e) (usFilterStringLength e),
      usFilterStringLength e, pxIncomingPublishCallback e, pvIncomingPublishCallbackContext e)"

definition registrations :: "memory \<Rightarrow> sub_table \<Rightarrow> (string \<times> u16 \<times> ptr \<times> ptr) set" where
  "registrations mem subs = registration_of mem ` {e \<in> set subs. \<not> free_element e}"

text \<open>No registration occurs twice.\<close>

definition table_distinct :: "memory \<Rightarrow> sub_table \<Rightarrow> bool" where
  "table_distinct mem subs \<longleftrightarrow>
     distinct (map (registration_of mem) (filter (\<lambda>e. \<not> free_element e) subs))"

section \<open>Lemmas\<close>

lemma table_okD:
  "table_ok subs \<Longrightarrow> length subs = SUBSCRIPTION_MANAGER_MAX_SUBSCRIPTIONS"
  by (simp add: table_ok_def)

lemma same_filter_strncmp:
  "same_filter mem pc len e \<longleftrightarrow>
   usFilterStringLength e = len \<and>
   strncmp (unat len) (mem pc) (mem (pcSubscriptionFilterString e)) = 0"
  by (auto simp: same_filter_def filter_text_def strncmp_eq_0_iff)

lemma same_filter_strncmp':
  "same_filter mem pc len e \<longleftrightarrow>
   usFilterStringLength e = len \<and>
   strncmp (unat len) (mem (pcSubscriptionFilterString e)) (mem pc) = 0"
  by (auto simp: same_filter_def filter_text_def strncmp_eq_0_iff)

text \<open>The backwards scan finds a duplicate if there is one, else the lowest free index.\<close>

lemma add_scan_eq:
  assumes "len \<noteq> 0"
  shows "add_scan mem subs pc len cb ctx n avail =
    (if \<exists>i<n. duplicate_of mem pc len cb ctx (subs ! i)
     then (SUBSCRIPTION_MANAGER_MAX_SUBSCRIPTIONS, True)
     else (case first_index (\<lambda>i. free_element (subs ! i)) n of
             None \<Rightarrow> (avail, False) | Some i \<Rightarrow> (i, False)))"
proof (induction n arbitrary: avail)
  case 0
  show ?case by (simp add: first_index_def)
next
  case (Suc n)
  have dup: "duplicate_of mem pc len cb ctx (subs ! n) \<Longrightarrow> \<not> free_element (subs ! n)"
    using assms by (auto simp: duplicate_of_def same_filter_def)
  show ?case
  proof (cases "duplicate_of mem pc len cb ctx (subs ! n)")
    case True
    with dup have "add_scan mem subs pc len cb ctx (Suc n) avail =
        (SUBSCRIPTION_MANAGER_MAX_SUBSCRIPTIONS, True)"
      by (simp add: duplicate_of_def same_filter_strncmp)
    with True show ?thesis by auto
  next
    case False
    then have "add_scan mem subs pc len cb ctx (Suc n) avail =
        add_scan mem subs pc len cb ctx n (if free_element (subs ! n) then n else avail)"
      by (auto simp: duplicate_of_def same_filter_strncmp)
    with False Suc.IH show ?thesis
      by (auto simp: first_index_Suc less_Suc_eq split: option.split)
  qed
qed

text \<open>\<open>addSubscription\<close> against its reference: refuse, do nothing, or take the lowest free slot.\<close>

definition add_reference ::
  "memory \<Rightarrow> ptr \<Rightarrow> u16 \<Rightarrow> ptr \<Rightarrow> ptr \<Rightarrow> sub_table \<Rightarrow> bool \<times> sub_table" where
  "add_reference mem pc len cb ctx subs =
     (if pc = 0 \<or> len = 0 \<or> cb = 0 then (False, subs)
      else if \<exists>e \<in> set subs. duplicate_of mem pc len cb ctx e then (True, subs)
      else case first_index (\<lambda>i. free_element (subs ! i)) (length subs) of
             None \<Rightarrow> (False, subs)
           | Some i \<Rightarrow> (True, subs[i := \<lparr>pxIncomingPublishCallback = cb,
                 pvIncomingPublishCallbackContext = ctx, usFilterStringLength = len,
                 pcSubscriptionFilterString = pc\<rparr>]))"

lemma addSubscription_reference:
  assumes "length subs = SUBSCRIPTION_MANAGER_MAX_SUBSCRIPTIONS"
  shows "addSubscription mem pc len cb ctx subs = add_reference mem pc len cb ctx subs"
proof -
  have dups: "(\<exists>i<SUBSCRIPTION_MANAGER_MAX_SUBSCRIPTIONS.
        duplicate_of mem pc len cb ctx (subs ! i)) \<longleftrightarrow>
      (\<exists>e \<in> set subs. duplicate_of mem pc len cb ctx e)"
    using assms by (metis in_set_conv_nth)
  show ?thesis
  proof (cases "first_index (\<lambda>i. free_element (subs ! i)) SUBSCRIPTION_MANAGER_MAX_SUBSCRIPTIONS")
    case None
    then show ?thesis
      by (simp add: addSubscription_def add_reference_def add_scan_eq dups assms)
  next
    case (Some i)
    then have "i < SUBSCRIPTION_MANAGER_MAX_SUBSCRIPTIONS" by (simp add: first_index_Some)
    with Some show ?thesis
      by (simp add: addSubscription_def add_reference_def add_scan_eq dups assms)
  qed
qed

lemma add_reference_cases [consumes 1, case_names refused duplicate full stored]:
  assumes "add_reference mem pc len cb ctx subs = (r, subs')"
  obtains "pc = 0 \<or> len = 0 \<or> cb = 0" "\<not> r" "subs' = subs"
  | "pc \<noteq> 0" "len \<noteq> 0" "cb \<noteq> 0" "\<exists>e \<in> set subs. duplicate_of mem pc len cb ctx e" "r" "subs' = subs"
  | "\<forall>e \<in> set subs. \<not> free_element e" "\<not> r" "subs' = subs"
  | i where "pc \<noteq> 0" "len \<noteq> 0" "cb \<noteq> 0" "\<forall>e \<in> set subs. \<not> duplicate_of mem pc len cb ctx e"
      "i < length subs" "free_element (subs ! i)" "r"
      "subs' = subs[i := \<lparr>pxIncomingPublishCallback = cb, pvIncomingPublishCallbackContext = ctx,
         usFilterStringLength = len, pcSubscriptionFilterString = pc\<rparr>]"
proof (cases "pc = 0 \<or> len = 0 \<or> cb = 0")
  case True
  with assms have "\<not> r" "subs' = subs" by (simp_all add: add_reference_def)
  with True show ?thesis by (rule that(1))
next
  case False
  then have ok: "pc \<noteq> 0" "len \<noteq> 0" "cb \<noteq> 0" by simp_all
  show ?thesis
  proof (cases "\<exists>e \<in> set subs. duplicate_of mem pc len cb ctx e")
    case True
    with ok assms have "r" "subs' = subs" by (simp_all add: add_reference_def)
    with ok True show ?thesis by (rule that(2))
  next
    case False
    show ?thesis
    proof (cases "first_index (\<lambda>i. free_element (subs ! i)) (length subs)")
      case None
      then have "\<forall>e \<in> set subs. \<not> free_element e"
        by (auto simp: first_index_None in_set_conv_nth)
      moreover from ok False None assms have "\<not> r" "subs' = subs"
        by (simp_all add: add_reference_def)
      ultimately show ?thesis by (rule that(3))
    next
      case (Some i)
      then have i: "i < length subs" "free_element (subs ! i)" by (simp_all add: first_index_Some)
      from False have nodup: "\<forall>e \<in> set subs. \<not> duplicate_of mem pc len cb ctx e" by simp
      from ok False Some assms have "r" and "subs' = subs[i := \<lparr>pxIncomingPublishCallback = cb,
          pvIncomingPublishCallbackContext = ctx, usFilterStringLength = len,
          pcSubscriptionFilterString = pc\<rparr>]"
        by (simp_all add: add_reference_def)
      with ok nodup i show ?thesis by (rule that(4))
    qed
  qed
qed

lemma addSubscription_length [simp]:
  "length (snd (addSubscription mem pc len cb ctx subs)) = length subs"
  by (simp add: addSubscription_def split_beta Let_def)

lemma zero_element_free [simp]: "free_element zero_element"
  by (simp add: zero_element_def)

text \<open>The forward scan of \<open>removeSubscription\<close> zeroes every element with the filter.\<close>

definition clear_filter :: "memory \<Rightarrow> ptr \<Rightarrow> u16 \<Rightarrow> SubscriptionElement \<Rightarrow> SubscriptionElement" where
  "clear_filter mem pc len e = (if same_filter mem pc len e then zero_element else e)"

lemma remove_scan_step:
  assumes "k = SUBSCRIPTION_MANAGER_MAX_SUBSCRIPTIONS - Suc n"
  shows "remove_scan mem pc len (Suc n) found subs =
    (if same_filter mem pc len (subs ! k) then remove_scan mem pc len n True (subs[k := zero_element])
     else remove_scan mem pc len n found subs)"
  by (simp add: assms same_filter_strncmp' Let_def)

lemma remove_scan_eq:
  assumes "length subs = SUBSCRIPTION_MANAGER_MAX_SUBSCRIPTIONS"
    and "k + n = SUBSCRIPTION_MANAGER_MAX_SUBSCRIPTIONS"
  shows "remove_scan mem pc len n found subs =
    (found \<or> (\<exists>e \<in> set (drop k subs). same_filter mem pc len e),
     take k subs @ map (clear_filter mem pc len) (drop k subs))"
  using assms
proof (induction n arbitrary: found subs k)
  case 0
  then show ?case by simp
next
  case (Suc n)
  from Suc.prems have k: "k < length subs" "k = SUBSCRIPTION_MANAGER_MAX_SUBSCRIPTIONS - Suc n"
    "Suc k + n = SUBSCRIPTION_MANAGER_MAX_SUBSCRIPTIONS" by auto
  have split: "drop k subs = subs ! k # drop (Suc k) subs" "take (Suc k) subs = take k subs @ [subs ! k]"
    using k(1) by (simp_all add: Cons_nth_drop_Suc take_Suc_conv_app_nth)
  note IH = Suc.IH [OF _ k(3)]
  show ?case
  proof (cases "same_filter mem pc len (subs ! k)")
    case True
    have "remove_scan mem pc len n True (subs[k := zero_element]) =
       (True, take k subs @ zero_element # map (clear_filter mem pc len) (drop (Suc k) subs))"
      using IH [of "subs[k := zero_element]" True] Suc.prems(1) k(1)
      by (simp add: take_Suc_conv_app_nth)
    with True split show ?thesis
      by (simp add: remove_scan_step [OF k(2)] clear_filter_def del: remove_scan.simps)
  next
    case False
    have "remove_scan mem pc len n found subs =
       (found \<or> (\<exists>e \<in> set (drop (Suc k) subs). same_filter mem pc len e),
        take k subs @ subs ! k # map (clear_filter mem pc len) (drop (Suc k) subs))"
      using IH [of subs found] Suc.prems(1) split by simp
    with False split show ?thesis
      by (simp add: remove_scan_step [OF k(2)] clear_filter_def del: remove_scan.simps)
  qed
qed

lemma removeSubscription_eq:
  assumes "length subs = SUBSCRIPTION_MANAGER_MAX_SUBSCRIPTIONS"
  shows "removeSubscription mem pc len subs =
    (if pc = 0 \<or> len = 0 then (False, subs)
     else (\<exists>e \<in> set subs. same_filter mem pc len e, map (clear_filter mem pc len) subs))"
  using remove_scan_eq [of subs 0] assms by (simp add: removeSubscription_def)

section \<open>The invariant and the registrations\<close>

lemma init_elements:
  "xGlobalSubscriptionList_init = [zero_element, zero_element, zero_element, zero_element,
     zero_element, zero_element, zero_element, zero_element, zero_element, zero_element]"
  by (simp add: xGlobalSubscriptionList_init_def numeral_eq_Suc)

lemma registrations_init [simp]: "registrations mem xGlobalSubscriptionList_init = {}"
  by (auto simp: registrations_def xGlobalSubscriptionList_init_def)

lemma table_ok_init: "table_ok xGlobalSubscriptionList_init"
  by (simp add: table_ok_def xGlobalSubscriptionList_init_def list_all_iff)

lemma table_ok_add:
  assumes "table_ok subs"
  shows "table_ok (snd (addSubscription mem pc len cb ctx subs))"
proof -
  obtain r subs' where eq: "add_reference mem pc len cb ctx subs = (r, subs')" by fastforce
  from eq have "table_ok subs'"
    using assms by (cases rule: add_reference_cases) (auto simp: table_ok_def)
  with eq assms show ?thesis by (simp add: addSubscription_reference table_okD)
qed

lemma table_ok_remove:
  "table_ok subs \<Longrightarrow> table_ok (snd (removeSubscription mem pc len subs))"
  by (auto simp: removeSubscription_eq table_ok_def list_all_iff clear_filter_def)

lemma used_update_free:
  assumes "i < length subs" and "free_element (subs ! i)" and "\<not> free_element e"
  shows "{x \<in> set (subs[i := e]). \<not> free_element x} = insert e {x \<in> set subs. \<not> free_element x}"
proof -
  have "set (subs[i := e]) \<subseteq> insert e (set subs)" by (rule set_update_subset_insert)
  moreover have "e \<in> set (subs[i := e])" using assms(1) by (rule set_update_memI)
  moreover have "x \<in> set (subs[i := e])" if "x \<in> set subs" "\<not> free_element x" for x
  proof -
    from that(1) obtain j where j: "j < length subs" "subs ! j = x" by (auto simp: in_set_conv_nth)
    with that(2) assms(2) have "j \<noteq> i" by auto
    with j have "subs[i := e] ! j = x" "j < length (subs[i := e])" by simp_all
    then show ?thesis by (metis nth_mem)
  qed
  ultimately show ?thesis using assms(3) by auto
qed

lemma duplicate_registration:
  "duplicate_of mem pc len cb ctx e \<longleftrightarrow> registration_of mem e = (filter_text mem pc len, len, cb, ctx)"
  by (auto simp: duplicate_of_def same_filter_def registration_of_def)

lemma registration_of_duplicate:
  assumes "e \<in> set subs" and "duplicate_of mem pc len cb ctx e" and "len \<noteq> 0"
  shows "(filter_text mem pc len, len, cb, ctx) \<in> registrations mem subs"
proof -
  have "\<not> free_element e" using assms(2,3) by (simp add: duplicate_of_def same_filter_def)
  with assms show ?thesis by (auto simp: registrations_def duplicate_registration intro!: image_eqI)
qed

lemma registrations_add:
  assumes "table_ok subs" and "fst (addSubscription mem pc len cb ctx subs)"
  shows "registrations mem (snd (addSubscription mem pc len cb ctx subs)) =
    insert (filter_text mem pc len, len, cb, ctx) (registrations mem subs)"
proof -
  obtain subs' where eq: "add_reference mem pc len cb ctx subs = (True, subs')"
    using assms by (metis addSubscription_reference eq_fst_iff table_okD)
  from eq have "registrations mem subs' =
    insert (filter_text mem pc len, len, cb, ctx) (registrations mem subs)"
  proof (cases rule: add_reference_cases)
    case duplicate
    then show ?thesis by (auto dest: registration_of_duplicate)
  next
    case (stored i)
    then show ?thesis by (simp add: registrations_def used_update_free registration_of_def)
  qed simp_all
  with eq assms(1) show ?thesis by (simp add: addSubscription_reference table_okD)
qed

lemma add_unchanged:
  assumes "table_ok subs" and "\<not> fst (addSubscription mem pc len cb ctx subs)"
  shows "snd (addSubscription mem pc len cb ctx subs) = subs"
proof -
  obtain subs' where eq: "add_reference mem pc len cb ctx subs = (False, subs')"
    using assms by (metis addSubscription_reference eq_fst_iff table_okD)
  from eq have "subs' = subs" by (cases rule: add_reference_cases) simp_all
  with eq assms(1) show ?thesis by (simp add: addSubscription_reference table_okD)
qed

text \<open>A removal request hits the registrations of its filter, if its parameters are valid.\<close>

definition removal_hits ::
  "memory \<Rightarrow> ptr \<times> u16 \<Rightarrow> string \<times> u16 \<times> ptr \<times> ptr \<Rightarrow> bool" where
  "removal_hits mem = (\<lambda>(pc, len) (text, flen, cb, ctx).
     pc \<noteq> 0 \<and> len \<noteq> 0 \<and> flen = len \<and> text = filter_text mem pc len)"

lemma used_clear_filter:
  assumes "len \<noteq> 0"
  shows "{e \<in> clear_filter mem pc len ` set subs. \<not> free_element e} =
    {e \<in> set subs. \<not> free_element e \<and> \<not> same_filter mem pc len e}"
  by (auto simp: clear_filter_def)

lemma registrations_remove:
  assumes "table_ok subs"
  shows "registrations mem (snd (removeSubscription mem pc len subs)) =
    {r \<in> registrations mem subs. \<not> removal_hits mem (pc, len) r}"
proof (cases "pc = 0 \<or> len = 0")
  case True
  then show ?thesis by (auto simp: removeSubscription_def removal_hits_def)
next
  case False
  with assms show ?thesis
    by (auto simp: removeSubscription_eq table_okD registrations_def used_clear_filter
        removal_hits_def same_filter_def registration_of_def)
qed

lemma remove_found:
  assumes "table_ok subs"
  shows "fst (removeSubscription mem pc len subs) \<longleftrightarrow>
    (\<exists>r \<in> registrations mem subs. removal_hits mem (pc, len) r)"
proof (cases "pc = 0 \<or> len = 0")
  case True
  then show ?thesis by (auto simp: removeSubscription_def removal_hits_def)
next
  case False
  with assms show ?thesis
    by (auto simp: removeSubscription_eq table_okD registrations_def removal_hits_def same_filter_def
        registration_of_def)
qed

text \<open>The subscription manager keeps the contract of a table of registrations.\<close>

definition add_request :: "memory \<Rightarrow> ptr \<times> u16 \<times> ptr \<times> ptr \<Rightarrow> sub_table \<Rightarrow> bool \<times> sub_table" where
  "add_request mem = (\<lambda>(pc, len, cb, ctx). addSubscription mem pc len cb ctx)"

definition remove_request :: "memory \<Rightarrow> ptr \<times> u16 \<Rightarrow> sub_table \<Rightarrow> bool \<times> sub_table" where
  "remove_request mem = (\<lambda>(pc, len). removeSubscription mem pc len)"

definition request_entry :: "memory \<Rightarrow> ptr \<times> u16 \<times> ptr \<times> ptr \<Rightarrow> string \<times> u16 \<times> ptr \<times> ptr" where
  "request_entry mem = (\<lambda>(pc, len, cb, ctx). (filter_text mem pc len, len, cb, ctx))"

lemma request_simps [simp]:
  "add_request mem (pc, len, cb, ctx) = addSubscription mem pc len cb ctx"
  "remove_request mem (pc, len) = removeSubscription mem pc len"
  "request_entry mem (pc, len, cb, ctx) = (filter_text mem pc len, len, cb, ctx)"
  by (simp_all add: add_request_def remove_request_def request_entry_def)

interpretation subs_table: registration_table "add_request mem" "remove_request mem"
  "registrations mem" "request_entry mem" "removal_hits mem" table_ok for mem :: memory
  by unfold_locales
    (auto simp: table_ok_add table_ok_remove registrations_add add_unchanged registrations_remove
      remove_found)

section \<open>No duplicates\<close>

lemma filter_update_free:
  assumes "i < length subs" and "free_element (subs ! i)" and "\<not> free_element e"
  shows "mset (filter (\<lambda>e. \<not> free_element e) (subs[i := e])) =
    add_mset e (mset (filter (\<lambda>e. \<not> free_element e) subs))"
proof -
  let ?used = "filter (\<lambda>e. \<not> free_element e)"
  have "?used subs = ?used (take i subs @ subs ! i # drop (Suc i) subs)"
    by (simp only: id_take_nth_drop [OF assms(1), symmetric])
  also have "\<dots> = ?used (take i subs) @ ?used (drop (Suc i) subs)"
    using assms(2) by simp
  finally have old: "mset (?used subs) =
      mset (?used (take i subs)) + mset (?used (drop (Suc i) subs))" by (simp only: mset_append)
  have "?used (subs[i := e]) = ?used (take i subs) @ e # ?used (drop (Suc i) subs)"
    using assms(1,3) by (simp add: upd_conv_take_nth_drop)
  then have "mset (?used (subs[i := e])) =
      add_mset e (mset (?used (take i subs)) + mset (?used (drop (Suc i) subs)))"
    by (simp only: mset_append mset.simps) simp
  with old show ?thesis by (simp only:)
qed

lemma distinct_map_mset:
  "mset xs = mset ys \<Longrightarrow> distinct (map f xs) \<longleftrightarrow> distinct (map f ys)"
  by (metis mset_eq_imp_distinct_iff mset_map)

lemma table_distinct_add:
  assumes "table_ok subs" and "table_distinct mem subs"
  shows "table_distinct mem (snd (addSubscription mem pc len cb ctx subs))"
proof -
  obtain r subs' where eq: "add_reference mem pc len cb ctx subs = (r, subs')" by fastforce
  from eq have "table_distinct mem subs'"
  proof (cases rule: add_reference_cases)
    case (stored i)
    let ?e = "\<lparr>pxIncomingPublishCallback = cb, pvIncomingPublishCallbackContext = ctx,
      usFilterStringLength = len, pcSubscriptionFilterString = pc\<rparr>"
    let ?used = "filter (\<lambda>e. \<not> free_element e)"
    have "registration_of mem ?e \<notin> registration_of mem ` set subs"
      using stored(4) by (auto simp: duplicate_registration registration_of_def)
    then have "distinct (map (registration_of mem) (?e # ?used subs))"
      using assms(2) by (auto simp: table_distinct_def)
    moreover have "mset (?used subs') = mset (?e # ?used subs)"
      using stored filter_update_free [of i subs ?e] by simp
    ultimately show ?thesis
      unfolding table_distinct_def by (metis distinct_map_mset)
  qed (use assms in simp_all)
  with eq assms(1) show ?thesis by (simp add: addSubscription_reference table_okD)
qed

lemma table_distinct_remove:
  assumes "table_ok subs" and "table_distinct mem subs"
  shows "table_distinct mem (snd (removeSubscription mem pc len subs))"
proof -
  have cleared: "filter (\<lambda>e. \<not> free_element e) (map (clear_filter mem pc len) xs) =
      filter (\<lambda>e. \<not> same_filter mem pc len e) (filter (\<lambda>e. \<not> free_element e) xs)"
    for xs
    by (induction xs) (auto simp: clear_filter_def)
  have "table_distinct mem (map (clear_filter mem pc len) subs)"
    using assms(2) unfolding table_distinct_def cleared by (rule distinct_map_filter)
  with assms show ?thesis by (simp add: removeSubscription_eq table_okD)
qed

text \<open>The tables the program can reach by adding and removing subscriptions.\<close>

inductive table_reachable :: "memory \<Rightarrow> sub_table \<Rightarrow> bool" for mem where
  start: "table_reachable mem xGlobalSubscriptionList_init"
| add: "table_reachable mem subs \<Longrightarrow>
    table_reachable mem (snd (addSubscription mem pc len cb ctx subs))"
| remove: "table_reachable mem subs \<Longrightarrow>
    table_reachable mem (snd (removeSubscription mem pc len subs))"

lemma table_reachable_inv: "table_reachable mem subs \<Longrightarrow> table_ok subs \<and> table_distinct mem subs"
proof (induction rule: table_reachable.induct)
  case start
  show ?case
    by (simp add: table_ok_init) (simp add: table_distinct_def xGlobalSubscriptionList_init_def)
qed (simp_all add: table_ok_add table_ok_remove table_distinct_add table_distinct_remove)

section \<open>Dispatch of incoming publishes\<close>

definition receives :: "topic_matcher \<Rightarrow> memory \<Rightarrow> MQTTPublishInfo \<Rightarrow> SubscriptionElement \<Rightarrow> bool" where
  "receives match mem pub e \<longleftrightarrow>
     \<not> free_element e \<and>
     match (pTopicName pub) (topicNameLength pub)
       (mem (pcSubscriptionFilterString e)) (usFilterStringLength e) = Some True"

text \<open>
  \<open>MQTT_MatchTopic\<close> accepts its parameters, and callbacks do not change the table: the two facts
  about the environment the dispatch relies on.
\<close>

definition total_matcher :: "topic_matcher \<Rightarrow> bool" where
  "total_matcher match \<longleftrightarrow> (\<forall>t l f n. match t l f n \<noteq> None)"

definition keeps_table :: "('s \<Rightarrow> sub_table) \<Rightarrow> (ptr \<Rightarrow> ptr \<Rightarrow> MQTTPublishInfo \<Rightarrow> 's \<Rightarrow> 's) \<Rightarrow> bool" where
  "keeps_table subs_of invoke \<longleftrightarrow> (\<forall>cb ctx pub s. subs_of (invoke cb ctx pub s) = subs_of s)"

abbreviation call_element ::
  "(ptr \<Rightarrow> ptr \<Rightarrow> MQTTPublishInfo \<Rightarrow> 's \<Rightarrow> 's) \<Rightarrow> MQTTPublishInfo \<Rightarrow> SubscriptionElement \<Rightarrow> 's \<Rightarrow> 's" where
  "call_element invoke pub e \<equiv>
     invoke (pxIncomingPublishCallback e) (pvIncomingPublishCallbackContext e) pub"

lemma handle_scan_step:
  assumes "total_matcher match" and "k = SUBSCRIPTION_MANAGER_MAX_SUBSCRIPTIONS - Suc n"
  shows "\<exists>im. handle_scan match subs_of invoke mem pub (Suc n) isMatched handled s =
    (if receives match mem pub (subs_of s ! k)
     then handle_scan match subs_of invoke mem pub n im True (call_element invoke pub (subs_of s ! k) s)
     else handle_scan match subs_of invoke mem pub n im handled s)"
proof -
  define e where "e = subs_of s ! k"
  obtain b where "match (pTopicName pub) (topicNameLength pub)
      (mem (pcSubscriptionFilterString e)) (usFilterStringLength e) = Some b"
    using assms(1) by (fastforce simp: total_matcher_def)
  then show ?thesis
    unfolding handle_scan.simps assms(2) [symmetric] e_def [symmetric] Let_def
    by (auto simp: receives_def word_neq_0_conv intro: exI [of _ b])
qed

lemma handle_scan_eq:
  assumes "total_matcher match" and "keeps_table subs_of invoke"
    and "length (subs_of s) = SUBSCRIPTION_MANAGER_MAX_SUBSCRIPTIONS"
    and "k + n = SUBSCRIPTION_MANAGER_MAX_SUBSCRIPTIONS"
  shows "handle_scan match subs_of invoke mem pub n isMatched handled s =
    (handled \<or> (\<exists>e \<in> set (drop k (subs_of s)). receives match mem pub e),
     fold (call_element invoke pub) (filter (receives match mem pub) (drop k (subs_of s))) s)"
  using assms(3,4)
proof (induction n arbitrary: k isMatched handled s)
  case 0
  then show ?case by simp
next
  case (Suc n)
  let ?e = "subs_of s ! k"
  from Suc.prems have k: "k = SUBSCRIPTION_MANAGER_MAX_SUBSCRIPTIONS - Suc n"
    "Suc k + n = SUBSCRIPTION_MANAGER_MAX_SUBSCRIPTIONS" by auto
  have split: "drop k (subs_of s) = ?e # drop (Suc k) (subs_of s)"
    using Suc.prems by (simp add: Cons_nth_drop_Suc)
  have same: "subs_of (call_element invoke pub ?e s) = subs_of s"
    using assms(2) by (simp add: keeps_table_def)
  obtain im where "handle_scan match subs_of invoke mem pub (Suc n) isMatched handled s =
    (if receives match mem pub ?e
     then handle_scan match subs_of invoke mem pub n im True (call_element invoke pub ?e s)
     else handle_scan match subs_of invoke mem pub n im handled s)"
    using handle_scan_step [OF assms(1) k(1), of subs_of invoke mem pub isMatched handled s]
    by (elim exE)
  with split same Suc.IH [OF _ k(2)] Suc.prems(1) show ?case by auto
qed

lemma handleIncomingPublishes_eq:
  assumes "total_matcher match" and "keeps_table subs_of invoke" and "table_ok (subs_of s)"
  shows "handleIncomingPublishes match subs_of invoke mem (Some pub) s =
    (\<exists>e \<in> set (subs_of s). receives match mem pub e,
     fold (call_element invoke pub) (filter (receives match mem pub) (subs_of s)) s)"
  using handle_scan_eq [OF assms(1,2), of s 0] assms(3)
  by (simp add: handleIncomingPublishes_def table_okD)

lemma add_to_init:
  assumes "pc \<noteq> 0" and "len \<noteq> 0" and "cb \<noteq> 0"
  shows "addSubscription mem pc len cb ctx xGlobalSubscriptionList_init =
    (True, xGlobalSubscriptionList_init[0 := \<lparr>pxIncomingPublishCallback = cb,
       pvIncomingPublishCallbackContext = ctx, usFilterStringLength = len,
       pcSubscriptionFilterString = pc\<rparr>])"
proof -
  have "first_index (\<lambda>i. free_element (xGlobalSubscriptionList_init ! i))
      (length xGlobalSubscriptionList_init) = Some 0"
    by (simp add: first_index_Some xGlobalSubscriptionList_init_def)
  moreover have "\<not> (\<exists>e \<in> set xGlobalSubscriptionList_init. duplicate_of mem pc len cb ctx e)"
    using assms by (simp add: xGlobalSubscriptionList_init_def duplicate_of_def same_filter_def
        zero_element_def)
  ultimately show ?thesis
    using assms by (simp add: addSubscription_reference table_okD [OF table_ok_init] add_reference_def)
qed

section \<open>Properties\<close>

text \<open>C7: on a table of ten elements the backwards scan of \<open>addSubscription\<close> computes the reference:
  invalid parameters are refused, an existing registration is reported as success without a change,
  and otherwise the registration is written to the lowest free element, or refused when there is
  none.\<close>

theorem addSubscription_correct:
  assumes "table_ok subs"
  shows "addSubscription mem pc len cb ctx subs = add_reference mem pc len cb ctx subs"
  using assms by (simp add: addSubscription_reference table_okD)

theorem addSubscription_correct_witness:
  "addSubscription (\<lambda>_. ''a/b'') 5 3 7 0 xGlobalSubscriptionList_init =
     add_reference (\<lambda>_. ''a/b'') 5 3 7 0 xGlobalSubscriptionList_init \<and>
   fst (addSubscription (\<lambda>_. ''a/b'') 5 3 7 0 xGlobalSubscriptionList_init)"
proof
  show eq: "addSubscription (\<lambda>_. ''a/b'') 5 3 7 0 xGlobalSubscriptionList_init =
     add_reference (\<lambda>_. ''a/b'') 5 3 7 0 xGlobalSubscriptionList_init"
    by (rule addSubscription_correct [OF table_ok_init])
  show "fst (addSubscription (\<lambda>_. ''a/b'') 5 3 7 0 xGlobalSubscriptionList_init)"
    by (simp add: addSubscription_def add_scan_eq xGlobalSubscriptionList_init_def
        duplicate_of_def same_filter_def zero_element_def first_index_def upt_conv_Cons)
qed

text \<open>C8: every table the program reaches from the zeroed array by adding and removing
  subscriptions, in any order, has its ten elements, a callback in every element in use and no
  registration twice.\<close>

theorem reachable_table_invariant:
  assumes "table_reachable mem subs"
  shows "table_ok subs \<and> table_distinct mem subs"
  using assms by (rule table_reachable_inv)

theorem reachable_table_invariant_witness:
  "\<exists>subs. table_reachable (\<lambda>_. ''a/b'') subs \<and> table_ok subs \<and> table_distinct (\<lambda>_. ''a/b'') subs \<and>
     subs \<noteq> xGlobalSubscriptionList_init"
proof -
  let ?s = "snd (addSubscription (\<lambda>_. ''a/b'') 5 3 7 0 xGlobalSubscriptionList_init)"
  have r: "table_reachable (\<lambda>_. ''a/b'') ?s"
    by (intro table_reachable.add table_reachable.start)
  have "?s \<noteq> xGlobalSubscriptionList_init"
    by (simp add: add_to_init) (simp add: init_elements zero_element_def)
  with r reachable_table_invariant [OF r] show ?thesis by blast
qed

text \<open>C9: \<open>removeSubscription\<close> undoes \<open>addSubscription\<close>: after adding a registration and removing its
  filter, exactly the registrations of other filters remain.\<close>

theorem add_then_remove:
  assumes "table_ok subs" and "pc \<noteq> 0" and "len \<noteq> 0"
  shows "registrations mem (snd (removeSubscription mem pc len
           (snd (addSubscription mem pc len cb ctx subs)))) =
         {r \<in> registrations mem subs. \<not> (fst (snd r) = len \<and> fst r = filter_text mem pc len)}"
proof -
  have hit: "removal_hits mem (pc, len) r \<longleftrightarrow> fst (snd r) = len \<and> fst r = filter_text mem pc len" for r
    using assms(2,3) by (auto simp: removal_hits_def)
  have "removal_hits mem (pc, len) (request_entry mem (pc, len, cb, ctx))"
    by (simp add: hit)
  from subs_table.remove_after_add [OF assms(1) this] show ?thesis
    by (simp only: hit request_simps)
qed

theorem add_then_remove_witness:
  "registrations (\<lambda>_. ''a/b'') (snd (removeSubscription (\<lambda>_. ''a/b'') 5 3
     (snd (addSubscription (\<lambda>_. ''a/b'') 5 3 7 0 xGlobalSubscriptionList_init)))) = {}"
  using add_then_remove [OF table_ok_init, of 5 3 "\<lambda>_. ''a/b''" 7 0]
  by simp


definition demo_matcher :: topic_matcher where
  "demo_matcher t l f n = Some (take (unat l) t = take (unat n) f)"


end
