(* ===== verification/System_Events.thy ===== *)
theory System_Events
  imports Prelude
begin

text \<open>
  The system events of \<^verbatim>\<open>events.c\<close>: one event group through which the network, the MQTT agent, the
  OTA task and the machine learning tasks signal their progress. The event group itself belongs to
  the kernel: its calls are the fields of \<open>event_ops\<close>, its documented behaviour is \<open>event_laws\<close>.
\<close>

section \<open>The kernel's event group\<close>

record 'e event_ops =
  xEventGroupCreateStatic :: "'e option"
  xEventGroupSetBits :: "'e \<Rightarrow> u32 \<Rightarrow> 'e"
  xEventGroupClearBits :: "'e \<Rightarrow> u32 \<Rightarrow> 'e"
  xEventGroupGetBits :: "'e \<Rightarrow> u32"

definition event_laws :: "'e event_ops \<Rightarrow> bool" where
  "event_laws G \<longleftrightarrow>
     (\<forall>e b. xEventGroupGetBits G (xEventGroupSetBits G e b) = xEventGroupGetBits G e OR b) \<and>
     (\<forall>e b. xEventGroupGetBits G (xEventGroupClearBits G e b) = xEventGroupGetBits G e AND NOT b)"

definition word_events :: "u32 event_ops" where
  "word_events = \<lparr>xEventGroupCreateStatic = Some 0, xEventGroupSetBits = (\<lambda>e b. e OR b),
     xEventGroupClearBits = (\<lambda>e b. e AND NOT b), xEventGroupGetBits = (\<lambda>e. e)\<rparr>"

lemma word_events_laws [simp]: "event_laws word_events"
  by (simp add: event_laws_def word_events_def)

section \<open>The events of the system\<close>

definition EVENT_MASK_NETWORK_UP :: u32 where "EVENT_MASK_NETWORK_UP = 0x01"
definition EVENT_MASK_MQTT_INIT :: u32 where "EVENT_MASK_MQTT_INIT = 0x02"
definition EVENT_MASK_MQTT_CONNECTED :: u32 where "EVENT_MASK_MQTT_CONNECTED = 0x04"
definition EVENT_MASK_ML_START :: u32 where "EVENT_MASK_ML_START = 0x08"
definition EVENT_MASK_ML_STOP :: u32 where "EVENT_MASK_ML_STOP = 0x10"
definition EVENT_MASK_DSP_START :: u32 where "EVENT_MASK_DSP_START = 0x20"

lemmas event_masks =
  EVENT_MASK_NETWORK_UP_def EVENT_MASK_MQTT_INIT_def EVENT_MASK_MQTT_CONNECTED_def
  EVENT_MASK_ML_START_def EVENT_MASK_ML_STOP_def EVENT_MASK_DSP_START_def

text \<open>The global handle, and the return value 0 or -1.\<close>

definition xEventHelperInit :: "'e event_ops \<Rightarrow> int \<times> 'e option" where
  "xEventHelperInit G = (if xEventGroupCreateStatic G = None then -1 else 0, xEventGroupCreateStatic G)"

text \<open>
  \<open>xEventGroupWaitBits\<close> for any of \<open>bits\<close> without a time limit: whether it lets the task pass in
  the current state of the group. A task that does not pass stays blocked.
\<close>

definition wait_passes :: "'e event_ops \<Rightarrow> u32 \<Rightarrow> 'e \<Rightarrow> bool" where
  "wait_passes G bits e \<longleftrightarrow> xEventGroupGetBits G e AND bits \<noteq> 0"

text \<open>\<open>None\<close> when the assertion on the handle fails, else whether the wait lets the task pass.\<close>

definition vWaitUntilNetworkIsUp :: "'e event_ops \<Rightarrow> 'e option \<Rightarrow> bool option" where
  "vWaitUntilNetworkIsUp G h = (case h of None \<Rightarrow> None | Some e \<Rightarrow> Some (wait_passes G EVENT_MASK_NETWORK_UP e))"

definition vWaitUntilMQTTAgentReady :: "'e event_ops \<Rightarrow> 'e option \<Rightarrow> bool option" where
  "vWaitUntilMQTTAgentReady G h = (case h of None \<Rightarrow> None | Some e \<Rightarrow> Some (wait_passes G EVENT_MASK_MQTT_INIT e))"

definition vWaitUntilMQTTAgentConnected :: "'e event_ops \<Rightarrow> 'e option \<Rightarrow> bool option" where
  "vWaitUntilMQTTAgentConnected G h =
     (case h of None \<Rightarrow> None | Some e \<Rightarrow> Some (wait_passes G EVENT_MASK_MQTT_CONNECTED e))"

definition xIsMqttAgentConnected :: "'e event_ops \<Rightarrow> 'e \<Rightarrow> bool" where
  "xIsMqttAgentConnected G e \<longleftrightarrow> xEventGroupGetBits G e AND EVENT_MASK_MQTT_CONNECTED \<noteq> 0"

section \<open>Lemmas\<close>

lemma get_set_bits [simp]:
  "event_laws G \<Longrightarrow> xEventGroupGetBits G (xEventGroupSetBits G e b) = xEventGroupGetBits G e OR b"
  by (simp add: event_laws_def)

lemma get_clear_bits [simp]:
  "event_laws G \<Longrightarrow>
   xEventGroupGetBits G (xEventGroupClearBits G e b) = xEventGroupGetBits G e AND NOT b"
  by (simp add: event_laws_def)

lemma and_or_absorb: "((x::u32) OR b) AND b = b"
  by (simp add: bit_eq_iff bit_simps)

lemma and_not_cancel: "((x::u32) AND NOT b) AND b = 0"
  by (simp add: bit_eq_iff bit_simps)

lemma connected_after_set [simp]:
  "event_laws G \<Longrightarrow> xIsMqttAgentConnected G (xEventGroupSetBits G e EVENT_MASK_MQTT_CONNECTED)"
  by (simp add: xIsMqttAgentConnected_def and_or_absorb) (simp add: event_masks)

lemma disconnected_after_clear [simp]:
  "event_laws G \<Longrightarrow> \<not> xIsMqttAgentConnected G (xEventGroupClearBits G e EVENT_MASK_MQTT_CONNECTED)"
  by (simp add: xIsMqttAgentConnected_def and_not_cancel)

lemma connected_set_init [simp]:
  "event_laws G \<Longrightarrow>
   xIsMqttAgentConnected G (xEventGroupSetBits G e EVENT_MASK_MQTT_INIT) = xIsMqttAgentConnected G e"
proof -
  have "(x OR EVENT_MASK_MQTT_INIT) AND EVENT_MASK_MQTT_CONNECTED = x AND EVENT_MASK_MQTT_CONNECTED" for x
    by (simp add: event_masks bit.conj_disj_distrib2)
  then show "event_laws G \<Longrightarrow> ?thesis" by (simp add: xIsMqttAgentConnected_def)
qed

lemma disconnected_clear_mono:
  assumes "event_laws G" and "\<not> xIsMqttAgentConnected G e"
  shows "\<not> xIsMqttAgentConnected G (xEventGroupClearBits G e b)"
proof -
  have "(x AND NOT b) AND m = 0" if "x AND m = 0" for x m :: u32
  proof -
    have "(x AND NOT b) AND m = (x AND m) AND NOT b" by (simp add: ac_simps)
    with that show ?thesis by simp
  qed
  with assms show ?thesis by (simp add: xIsMqttAgentConnected_def)
qed

end
