(* ===== verification/Mqtt_Types.thy ===== *)
theory Mqtt_Types
  imports Subscription_Manager System_Events
begin

text \<open>
  The types the MQTT agent task and the OTA agent share: the status codes of coreMQTT as the
  sources name them, the command context through which a completion callback reports to the task
  that waits, and the task notification calls of the kernel.
\<close>

section \<open>Status codes and packets\<close>

datatype MQTTStatus = MQTTSuccess | MQTTBadParameter | MQTTSendFailed | MQTTRecvFailed

text \<open>The value of the status in a task notification.\<close>

fun mqtt_status_code :: "MQTTStatus \<Rightarrow> u32" where
  "mqtt_status_code MQTTSuccess = 0"
| "mqtt_status_code MQTTBadParameter = 1"
| "mqtt_status_code MQTTSendFailed = 2"
| "mqtt_status_code MQTTRecvFailed = 3"

datatype MQTTQoS = MQTTQoS0 | MQTTQoS1 | MQTTQoS2

record MQTTSubscribeInfo =
  sub_qos :: MQTTQoS
  pTopicFilter :: ptr
  topicFilterLength :: u16

definition MQTTSubAckFailure :: u8 where "MQTTSubAckFailure = 0x80"

record MQTTAgentReturnInfo =
  returnCode :: MQTTStatus
  pSubackCodes :: "u8 list"

section \<open>Command contexts and task notifications\<close>

text \<open>\<open>struct MQTTAgentCommandContext\<close>; \<open>pArgs\<close> is the list of subscriptions of the command.\<close>

record MQTTAgentCommandContext =
  xReturnStatus :: MQTTStatus
  xTaskToNotify :: "nat option"
  pArgs :: "MQTTSubscribeInfo list"

text \<open>The pending notification of the waiting task: \<open>None\<close> when its state is not pending.\<close>

type_synonym notification = "u32 option"

end
