(* ===== verification/Agent_Pool.thy ===== *)
theory Agent_Pool
  imports Prelude
begin

text \<open>
  The message layer of the MQTT agent, \<^verbatim>\<open>freertos_agent_message.c\<close>, and the pool of command
  structures built on it, \<^verbatim>\<open>freertos_command_pool.c\<close>: the pool is a queue that holds the addresses
  of the 32 structures not in use.
\<close>

section \<open>Messages\<close>

text \<open>
  \<open>pMsgCtx\<close> is \<open>None\<close> for \<open>NULL\<close>, otherwise the queue it holds; \<open>pCommandToSend\<close> is \<open>None\<close> for
  \<open>NULL\<close>, otherwise the command pointer it points to.
\<close>

definition Agent_MessageSend ::
  "('q, ptr) kernel_queue \<Rightarrow> 'q option \<Rightarrow> ptr option \<Rightarrow> u32 \<Rightarrow> bool \<times> 'q option" where
  "Agent_MessageSend K pMsgCtx pCommandToSend blockTimeMs =
     (case (pMsgCtx, pCommandToSend) of
        (Some q, Some cmd) \<Rightarrow>
          (let (queueStatus, q') = xQueueSendToBack K q cmd (pdMS_TO_TICKS blockTimeMs)
           in (queueStatus, Some q'))
      | _ \<Rightarrow> (False, pMsgCtx))"

text \<open>
  \<open>pReceivedCommand\<close> is \<open>None\<close> for \<open>NULL\<close>, otherwise the command pointer stored there before the
  call; the result has the value stored there afterwards.
\<close>

definition Agent_MessageReceive ::
  "('q, ptr) kernel_queue \<Rightarrow> 'q option \<Rightarrow> ptr option \<Rightarrow> u32 \<Rightarrow> bool \<times> ptr option \<times> 'q option" where
  "Agent_MessageReceive K pMsgCtx pReceivedCommand blockTimeMs =
     (case (pMsgCtx, pReceivedCommand) of
        (Some q, Some old) \<Rightarrow>
          (case xQueueReceive K q (pdMS_TO_TICKS blockTimeMs) of
             (Some cmd, q') \<Rightarrow> (True, Some cmd, Some q')
           | (None, q') \<Rightarrow> (False, Some old, Some q'))
      | _ \<Rightarrow> (False, pReceivedCommand, pMsgCtx))"

section \<open>The command pool\<close>

abbreviation MQTT_COMMAND_CONTEXTS_POOL_SIZE :: nat where
  "MQTT_COMMAND_CONTEXTS_POOL_SIZE \<equiv> 32"

abbreviation QUEUE_NOT_INITIALIZED :: u8 where "QUEUE_NOT_INITIALIZED \<equiv> 0"
abbreviation QUEUE_INITIALIZED :: u8 where "QUEUE_INITIALIZED \<equiv> 1"

text \<open>The three static variables; \<open>'c\<close> is the structure \<open>MQTTAgentCommand_t\<close> of the agent library.\<close>

record ('q, 'c) pool_state =
  commandStructurePool :: "'c list"
  commandStructMessageCtx :: "'q option"
  initStatus :: u8

text \<open>Where the linker puts the array, and \<open>sizeof( MQTTAgentCommand_t )\<close>.\<close>

record pool_layout =
  pool_base :: ptr
  command_size :: nat

definition command_address :: "pool_layout \<Rightarrow> nat \<Rightarrow> ptr" where
  "command_address L i = pool_base L + i * command_size L"

text \<open>The loop that fills the queue, from index \<open>i\<close> with \<open>n\<close> rounds to go.\<close>

fun pool_fill ::
  "('q, ptr) kernel_queue \<Rightarrow> pool_layout \<Rightarrow> nat \<Rightarrow> nat \<Rightarrow> 'q option \<Rightarrow> 'q option option" where
  "pool_fill K L i 0 ctx = Some ctx"
| "pool_fill K L i (Suc n) ctx =
     (let (commandAdded, ctx') = Agent_MessageSend K ctx (Some (command_address L i)) 0
      in if commandAdded then pool_fill K L (Suc i) n ctx' else None)"

text \<open>\<open>create\<close> stands for \<open>xQueueCreateStatic\<close> with the length of the queue.\<close>

definition Agent_InitializePool ::
  "('q, ptr) kernel_queue \<Rightarrow> (nat \<Rightarrow> 'q option) \<Rightarrow> 'c \<Rightarrow> pool_layout \<Rightarrow>
   ('q, 'c) pool_state \<Rightarrow> ('q, 'c) pool_state option" where
  "Agent_InitializePool K create zero L s =
     (if initStatus s = QUEUE_NOT_INITIALIZED then
        (case create MQTT_COMMAND_CONTEXTS_POOL_SIZE of
           None \<Rightarrow> None
         | Some q \<Rightarrow>
             (case pool_fill K L 0 MQTT_COMMAND_CONTEXTS_POOL_SIZE (Some q) of
                None \<Rightarrow> None
              | Some ctx \<Rightarrow> Some (s\<lparr>
                  commandStructurePool := replicate MQTT_COMMAND_CONTEXTS_POOL_SIZE zero,
                  commandStructMessageCtx := ctx, initStatus := QUEUE_INITIALIZED\<rparr>)))
      else Some s)"

definition Agent_GetCommand ::
  "('q, ptr) kernel_queue \<Rightarrow> u32 \<Rightarrow> ('q, 'c) pool_state \<Rightarrow> (ptr \<times> ('q, 'c) pool_state) option" where
  "Agent_GetCommand K blockTimeMs s =
     (if initStatus s = QUEUE_INITIALIZED then
        (let (structRetrieved, structToUse, ctx) =
               Agent_MessageReceive K (commandStructMessageCtx s) (Some 0) blockTimeMs
         in Some (the structToUse, s\<lparr>commandStructMessageCtx := ctx\<rparr>))
      else None)"

definition Agent_ReleaseCommand ::
  "('q, ptr) kernel_queue \<Rightarrow> pool_layout \<Rightarrow> ptr \<Rightarrow> ('q, 'c) pool_state \<Rightarrow>
   (bool \<times> ('q, 'c) pool_state) option" where
  "Agent_ReleaseCommand K L pCommandToRelease s =
     (if initStatus s = QUEUE_INITIALIZED then
        (if pool_base L \<le> pCommandToRelease \<and>
            pCommandToRelease < command_address L MQTT_COMMAND_CONTEXTS_POOL_SIZE
         then
           (let (structReturned, ctx) =
                  Agent_MessageSend K (commandStructMessageCtx s) (Some pCommandToRelease) 0
            in if structReturned then Some (True, s\<lparr>commandStructMessageCtx := ctx\<rparr>) else None)
         else Some (False, s))
      else None)"

section \<open>The message layer keeps the contract of the kernel's queue\<close>

definition agent_send :: "('q, ptr) kernel_queue \<Rightarrow> u32 \<Rightarrow> 'q \<Rightarrow> ptr \<Rightarrow> bool \<times> 'q" where
  "agent_send K t q m = (let (b, ctx) = Agent_MessageSend K (Some q) (Some m) t in (b, the ctx))"

definition agent_recv :: "('q, ptr) kernel_queue \<Rightarrow> u32 \<Rightarrow> 'q \<Rightarrow> ptr option \<times> 'q" where
  "agent_recv K t q =
     (let (b, cmd, ctx) = Agent_MessageReceive K (Some q) (Some 0) t
      in (if b then cmd else None, the ctx))"

lemma Agent_MessageSend_Some:
  "Agent_MessageSend K (Some q) (Some m) t =
   (fst (agent_send K t q m), Some (snd (agent_send K t q m)))"
  by (simp add: agent_send_def Agent_MessageSend_def split_beta Let_def)

lemma Agent_MessageReceive_Some:
  "Agent_MessageReceive K (Some q) (Some old) t =
   (case fst (agent_recv K t q) of
      None \<Rightarrow> (False, Some old, Some (snd (agent_recv K t q)))
    | Some m \<Rightarrow> (True, Some m, Some (snd (agent_recv K t q))))"
  by (auto simp: agent_recv_def Agent_MessageReceive_def split: prod.splits option.splits)

lemma agent_send_kernel: "agent_send K t = (\<lambda>q m. xQueueSendToBack K q m t)"
  by (intro ext)
    (simp add: agent_send_def Agent_MessageSend_def pdMS_TO_TICKS_def split_beta Let_def)

lemma agent_recv_kernel: "agent_recv K t = (\<lambda>q. xQueueReceive K q t)"
  by (intro ext)
    (auto simp: agent_recv_def Agent_MessageReceive_def pdMS_TO_TICKS_def split: prod.splits option.splits)

lemma agent_messages_fifo:
  "kernel_fifo K items cap \<Longrightarrow> bounded_fifo (agent_send K t) (agent_recv K t) items cap"
  by (simp add: kernel_fifo_def agent_send_kernel agent_recv_kernel)

interpretation agent_msgs: bounded_fifo "agent_send (list_kernel n) t" "agent_recv (list_kernel n) t"
  "\<lambda>q. q" n for n :: nat and t :: u32
  by (rule agent_messages_fifo) simp

section \<open>Lemmas on the pool\<close>

definition pool_addresses :: "pool_layout \<Rightarrow> ptr list" where
  "pool_addresses L = map (command_address L) [0..<MQTT_COMMAND_CONTEXTS_POOL_SIZE]"

text \<open>The array does not start at address 0 and its elements have a size.\<close>

definition layout_ok :: "pool_layout \<Rightarrow> bool" where
  "layout_ok L \<longleftrightarrow> 0 < pool_base L \<and> 0 < command_size L"

lemma length_pool_addresses [simp]: "length (pool_addresses L) = MQTT_COMMAND_CONTEXTS_POOL_SIZE"
  by (simp add: pool_addresses_def)

lemma distinct_pool_addresses: "layout_ok L \<Longrightarrow> distinct (pool_addresses L)"
  by (auto simp: pool_addresses_def distinct_map inj_on_def command_address_def layout_ok_def)

lemma pool_addresses_range:
  assumes "layout_ok L" and "p \<in> set (pool_addresses L)"
  shows "p \<noteq> 0" and "pool_base L \<le> p" and "p < command_address L MQTT_COMMAND_CONTEXTS_POOL_SIZE"
  using assms by (auto simp: pool_addresses_def command_address_def layout_ok_def)

lemma pool_fill_items:
  assumes "kernel_fifo K items cap" and "length (items q) + n \<le> cap"
  shows "\<exists>q'. pool_fill K L i n (Some q) = Some (Some q') \<and>
    items q' = items q @ map (command_address L) [i..<i + n]"
  using assms(2)
proof (induction n arbitrary: i q)
  case 0
  then show ?case by simp
next
  case (Suc n)
  note fifo = agent_messages_fifo [OF assms(1)]
  have "fst (agent_send K 0 q (command_address L i))"
    and "items (snd (agent_send K 0 q (command_address L i))) = items q @ [command_address L i]"
    using Suc.prems by (simp_all add: bounded_fifo.send_iff [OF fifo] bounded_fifo.items_send [OF fifo])
  moreover have "[i..<i + Suc n] = i # [Suc i..<Suc i + n]"
    by (simp add: upt_conv_Cons del: upt_Suc)
  ultimately show ?case
    using Suc.IH [of "snd (agent_send K 0 q (command_address L i))" "Suc i"] Suc.prems
    by (simp add: Agent_MessageSend_Some del: upt_Suc)
qed

section \<open>Clients of the pool\<close>

text \<open>
  The runs of the pool together with its clients, who hold the set \<open>out\<close> of commands: they obtain
  commands, release commands they hold, and may offer any pointer from outside the array.
\<close>

inductive pool_run ::
  "('q, ptr) kernel_queue \<Rightarrow> (nat \<Rightarrow> 'q option) \<Rightarrow> 'c \<Rightarrow> pool_layout \<Rightarrow>
   ('q, 'c) pool_state \<Rightarrow> ptr set \<Rightarrow> bool"
  for K create zero L where
  init: "initStatus s = QUEUE_NOT_INITIALIZED \<Longrightarrow>
    Agent_InitializePool K create zero L s = Some s' \<Longrightarrow> pool_run K create zero L s' {}"
| again: "pool_run K create zero L s out \<Longrightarrow>
    Agent_InitializePool K create zero L s = Some s' \<Longrightarrow> pool_run K create zero L s' out"
| get: "pool_run K create zero L s out \<Longrightarrow> Agent_GetCommand K t s = Some (p, s') \<Longrightarrow>
    pool_run K create zero L s' (if p = 0 then out else insert p out)"
| release: "pool_run K create zero L s out \<Longrightarrow> p \<in> out \<Longrightarrow>
    Agent_ReleaseCommand K L p s = Some (b, s') \<Longrightarrow> pool_run K create zero L s' (out - {p})"
| foreign: "pool_run K create zero L s out \<Longrightarrow>
    p < pool_base L \<or> command_address L MQTT_COMMAND_CONTEXTS_POOL_SIZE \<le> p \<Longrightarrow>
    Agent_ReleaseCommand K L p s = Some (b, s') \<Longrightarrow> pool_run K create zero L s' out"

text \<open>The commands in the queue and those held by clients are all commands, none twice.\<close>

definition pool_inv :: "('q \<Rightarrow> ptr list) \<Rightarrow> pool_layout \<Rightarrow> ('q, 'c) pool_state \<Rightarrow> ptr set \<Rightarrow> bool" where
  "pool_inv items L s out \<longleftrightarrow>
     initStatus s = QUEUE_INITIALIZED \<and>
     (\<exists>q. commandStructMessageCtx s = Some q \<and> distinct (items q) \<and>
          set (items q) \<inter> out = {} \<and> set (items q) \<union> out = set (pool_addresses L))"

text \<open>The kernel creates an empty queue of the length asked for, and it is a FIFO.\<close>

definition pool_kernel_ok ::
  "('q, ptr) kernel_queue \<Rightarrow> (nat \<Rightarrow> 'q option) \<Rightarrow> ('q \<Rightarrow> ptr list) \<Rightarrow> bool" where
  "pool_kernel_ok K create items \<longleftrightarrow>
     kernel_fifo K items MQTT_COMMAND_CONTEXTS_POOL_SIZE \<and>
     (\<exists>q. create MQTT_COMMAND_CONTEXTS_POOL_SIZE = Some q \<and> items q = [])"

lemma Agent_InitializePool_fresh:
  assumes "pool_kernel_ok K create items" and "initStatus s = QUEUE_NOT_INITIALIZED"
  shows "\<exists>q. items q = pool_addresses L \<and>
    Agent_InitializePool K create zero L s = Some (s\<lparr>
      commandStructurePool := replicate MQTT_COMMAND_CONTEXTS_POOL_SIZE zero,
      commandStructMessageCtx := Some q, initStatus := QUEUE_INITIALIZED\<rparr>)"
proof -
  from assms(1) obtain q where q: "create MQTT_COMMAND_CONTEXTS_POOL_SIZE = Some q" "items q = []"
    and K: "kernel_fifo K items MQTT_COMMAND_CONTEXTS_POOL_SIZE"
    by (auto simp: pool_kernel_ok_def)
  from pool_fill_items [OF K, of q MQTT_COMMAND_CONTEXTS_POOL_SIZE L 0] q(2) obtain q' where
    "pool_fill K L 0 MQTT_COMMAND_CONTEXTS_POOL_SIZE (Some q) = Some (Some q')"
    "items q' = pool_addresses L" by (auto simp: pool_addresses_def)
  with q(1) assms(2) show ?thesis by (auto simp: Agent_InitializePool_def)
qed

lemma Agent_InitializePool_again:
  "initStatus s \<noteq> QUEUE_NOT_INITIALIZED \<Longrightarrow> Agent_InitializePool K create zero L s = Some s"
  by (simp add: Agent_InitializePool_def)

lemma Agent_GetCommand_inv:
  assumes K: "kernel_fifo K items MQTT_COMMAND_CONTEXTS_POOL_SIZE"
    and inv: "pool_inv items L s out" and L: "layout_ok L"
  shows "\<exists>p s'. Agent_GetCommand K t s = Some (p, s') \<and>
    (if out = set (pool_addresses L) then p = 0 \<and> pool_inv items L s' out
     else p \<in> set (pool_addresses L) - out \<and> p \<noteq> 0 \<and> pool_inv items L s' (insert p out))"
proof -
  note fifo = agent_messages_fifo [OF K, of t]
  from inv obtain q where q: "commandStructMessageCtx s = Some q" "distinct (items q)"
    "set (items q) \<inter> out = {}" "set (items q) \<union> out = set (pool_addresses L)"
    and st: "initStatus s = QUEUE_INITIALIZED"
    by (auto simp: pool_inv_def)
  show ?thesis
  proof (cases "items q")
    case Nil
    with q st have "out = set (pool_addresses L)" by simp
    with Nil q st show ?thesis
      by (simp add: Agent_GetCommand_def Agent_MessageReceive_Some pool_inv_def
          bounded_fifo.rcv_value [OF fifo] bounded_fifo.items_rcv [OF fifo])
  next
    case (Cons p ps)
    then have p: "p \<in> set (pool_addresses L)" "p \<notin> out" using q by auto
    with pool_addresses_range(1) [OF L] have "p \<noteq> 0" "out \<noteq> set (pool_addresses L)" by auto
    with p Cons q st show ?thesis
      by (auto simp: Agent_GetCommand_def Agent_MessageReceive_Some pool_inv_def
          bounded_fifo.rcv_value [OF fifo] bounded_fifo.items_rcv [OF fifo])
  qed
qed

lemma Agent_ReleaseCommand_inv:
  assumes K: "kernel_fifo K items MQTT_COMMAND_CONTEXTS_POOL_SIZE"
    and inv: "pool_inv items L s out" and L: "layout_ok L" and p: "p \<in> out"
  shows "\<exists>s'. Agent_ReleaseCommand K L p s = Some (True, s') \<and> pool_inv items L s' (out - {p})"
proof -
  note fifo = agent_messages_fifo [OF K, of 0]
  from inv obtain q where q: "commandStructMessageCtx s = Some q" "distinct (items q)"
    "set (items q) \<inter> out = {}" "set (items q) \<union> out = set (pool_addresses L)"
    and st: "initStatus s = QUEUE_INITIALIZED"
    by (auto simp: pool_inv_def)
  from p q(4) have addr: "p \<in> set (pool_addresses L)" by auto
  have "set (items q) \<subset> set (pool_addresses L)" using p q by auto
  then have "length (items q) < MQTT_COMMAND_CONTEXTS_POOL_SIZE"
    using psubset_card_mono [of "set (pool_addresses L)" "set (items q)"]
      distinct_card [OF q(2)] distinct_card [OF distinct_pool_addresses [OF L]] by simp
  with q st p pool_addresses_range [OF L addr] show ?thesis
    by (auto simp: Agent_ReleaseCommand_def Agent_MessageSend_Some pool_inv_def
        bounded_fifo.send_iff [OF fifo] bounded_fifo.items_send [OF fifo])
qed

lemma Agent_ReleaseCommand_foreign:
  assumes "initStatus s = QUEUE_INITIALIZED"
    and "p < pool_base L \<or> command_address L MQTT_COMMAND_CONTEXTS_POOL_SIZE \<le> p"
  shows "Agent_ReleaseCommand K L p s = Some (False, s)"
  using assms by (auto simp: Agent_ReleaseCommand_def)

lemma pool_run_inv:
  assumes "pool_run K create zero L s out" and "pool_kernel_ok K create items" and "layout_ok L"
  shows "pool_inv items L s out"
  using assms(1)
proof (induction rule: pool_run.induct)
  case (init s s')
  from Agent_InitializePool_fresh [OF assms(2) init(1), of L zero] init(2)
  show ?case using distinct_pool_addresses [OF assms(3)] by (auto simp: pool_inv_def)
next
  case (again s out s')
  then show ?case by (simp add: Agent_InitializePool_again pool_inv_def)
next
  case (get s out t p s')
  from assms(2) have K: "kernel_fifo K items MQTT_COMMAND_CONTEXTS_POOL_SIZE"
    by (simp add: pool_kernel_ok_def)
  from Agent_GetCommand_inv [OF K get.IH assms(3), of t] get.hyps(2) show ?case
    by (auto split: if_splits)
next
  case (release s out p b s')
  from assms(2) have K: "kernel_fifo K items MQTT_COMMAND_CONTEXTS_POOL_SIZE"
    by (simp add: pool_kernel_ok_def)
  from Agent_ReleaseCommand_inv [OF K release.IH assms(3) release.hyps(2)] release.hyps(3)
  show ?case by auto
next
  case (foreign s out p b s')
  then show ?case by (auto simp: Agent_ReleaseCommand_foreign pool_inv_def)
qed

section \<open>Properties\<close>

text \<open>C11: in every run of the command pool with clients that release what they hold, at most once,
  and may offer pointers from outside the array, the pool stays initialised and the commands in its
  queue together with the commands held are exactly the 32 structures of the array, none twice.\<close>

theorem pool_conservation:
  assumes "pool_run K create zero L s out" and "pool_kernel_ok K create items" and "layout_ok L"
  shows "initStatus s = QUEUE_INITIALIZED \<and>
    (\<exists>q. commandStructMessageCtx s = Some q \<and> distinct (items q) \<and> set (items q) \<inter> out = {} \<and>
         set (items q) \<union> out = set (pool_addresses L) \<and>
         length (items q) + card out = MQTT_COMMAND_CONTEXTS_POOL_SIZE)"
proof -
  from pool_run_inv [OF assms] obtain q where q: "commandStructMessageCtx s = Some q"
    "distinct (items q)" "set (items q) \<inter> out = {}" "set (items q) \<union> out = set (pool_addresses L)"
    and st: "initStatus s = QUEUE_INITIALIZED"
    by (auto simp: pool_inv_def)
  have "finite out" using q(4) by (metis List.finite_set finite_Un)
  then have "length (items q) + card out = card (set (pool_addresses L))"
    using q(2,3,4) by (metis List.finite_set card_Un_disjoint distinct_card)
  with q st distinct_card [OF distinct_pool_addresses [OF assms(3)]] show ?thesis by auto
qed

definition demo_layout :: pool_layout where
  "demo_layout = \<lparr>pool_base = 4096, command_size = 24\<rparr>"

definition demo_pool :: "(ptr list, unit) pool_state" where
  "demo_pool = \<lparr>commandStructurePool = replicate MQTT_COMMAND_CONTEXTS_POOL_SIZE (),
     commandStructMessageCtx = Some (pool_addresses demo_layout), initStatus = QUEUE_INITIALIZED\<rparr>"

lemma demo_kernel: "pool_kernel_ok (list_kernel 32) (\<lambda>n. Some []) (\<lambda>q. q)"
  by (simp add: pool_kernel_ok_def)

lemma demo_layout_ok: "layout_ok demo_layout"
  by (simp add: layout_ok_def demo_layout_def)

lemma demo_run: "pool_run (list_kernel 32) (\<lambda>n. Some []) () demo_layout demo_pool {}"
proof -
  let ?s = "\<lparr>commandStructurePool = [], commandStructMessageCtx = None, initStatus = 0\<rparr>"
  have "Agent_InitializePool (list_kernel 32) (\<lambda>n. Some []) () demo_layout ?s = Some demo_pool"
    using Agent_InitializePool_fresh [OF demo_kernel, of ?s demo_layout "()"]
    by (simp add: demo_pool_def)
  then show ?thesis by (rule pool_run.init [rotated]) simp
qed

theorem pool_conservation_witness:
  "initStatus demo_pool = QUEUE_INITIALIZED \<and>
    (\<exists>q. commandStructMessageCtx demo_pool = Some q \<and> distinct q \<and> set q \<inter> {} = {} \<and>
         set q \<union> {} = set (pool_addresses demo_layout) \<and>
         length q + card ({} :: ptr set) = MQTT_COMMAND_CONTEXTS_POOL_SIZE)"
  by (rule pool_conservation [OF demo_run demo_kernel demo_layout_ok])

text \<open>\<open>Agent_GetCommand\<close> on a pool in any such run returns: a command of the array that no
  client holds, or \<open>NULL\<close>, and \<open>NULL\<close> only when the clients hold all 32 commands.\<close>

theorem get_command_fresh:
  assumes "pool_run K create zero L s out" and "pool_kernel_ok K create items" and "layout_ok L"
  shows "\<exists>p s'. Agent_GetCommand K t s = Some (p, s') \<and>
    (if out = set (pool_addresses L) then p = 0
     else p \<noteq> 0 \<and> p \<in> set (pool_addresses L) \<and> p \<notin> out)"
proof -
  from assms(2) have "kernel_fifo K items MQTT_COMMAND_CONTEXTS_POOL_SIZE"
    by (simp add: pool_kernel_ok_def)
  from Agent_GetCommand_inv [OF this pool_run_inv [OF assms] assms(3), of t]
  show ?thesis by (auto split: if_splits)
qed

theorem get_command_fresh_witness:
  "\<exists>p s'. Agent_GetCommand (list_kernel 32) 0 demo_pool = Some (p, s') \<and>
    (if {} = set (pool_addresses demo_layout) then p = 0
     else p \<noteq> 0 \<and> p \<in> set (pool_addresses demo_layout) \<and> p \<notin> {})"
  by (rule get_command_fresh [OF demo_run demo_kernel demo_layout_ok])

text \<open>\<open>Agent_ReleaseCommand\<close> accepts every command a client holds: it returns true and neither of
  its assertions fails, so the queue always has room for it.\<close>

theorem release_never_asserts:
  assumes "pool_run K create zero L s out" and "pool_kernel_ok K create items" and "layout_ok L"
    and "p \<in> out"
  shows "\<exists>s'. Agent_ReleaseCommand K L p s = Some (True, s') \<and> pool_run K create zero L s' (out - {p})"
proof -
  from assms(2) have "kernel_fifo K items MQTT_COMMAND_CONTEXTS_POOL_SIZE"
    by (simp add: pool_kernel_ok_def)
  from Agent_ReleaseCommand_inv [OF this pool_run_inv [OF assms(1-3)] assms(3,4)]
  show ?thesis using assms(1,4) by (auto intro: pool_run.release)
qed

definition demo_pool_one_out :: "(ptr list, unit) pool_state" where
  "demo_pool_one_out = demo_pool\<lparr>commandStructMessageCtx := Some (tl (pool_addresses demo_layout))\<rparr>"

lemma pool_addresses_Cons: "pool_addresses L = pool_base L # tl (pool_addresses L)"
  by (simp add: pool_addresses_def command_address_def upt_conv_Cons)

lemma demo_run_one_out:
  "pool_run (list_kernel 32) (\<lambda>n. Some []) () demo_layout demo_pool_one_out {4096}"
proof -
  have "Agent_GetCommand (list_kernel 32) 0 demo_pool = Some (4096, demo_pool_one_out)"
    using pool_addresses_Cons [of demo_layout]
    by (cases "pool_addresses demo_layout")
      (simp_all add: Agent_GetCommand_def Agent_MessageReceive_def demo_pool_def list_kernel_def
        demo_pool_one_out_def demo_layout_def)
  from pool_run.get [OF demo_run this] show ?thesis by simp
qed

theorem release_never_asserts_witness:
  "\<exists>s'. Agent_ReleaseCommand (list_kernel 32) demo_layout 4096 demo_pool_one_out = Some (True, s') \<and>
     pool_run (list_kernel 32) (\<lambda>n. Some []) () demo_layout s' ({4096} - {4096})"
  by (rule release_never_asserts [OF demo_run_one_out demo_kernel demo_layout_ok]) simp

end
