(* ===== verification/Transport_Types.thy ===== *)
theory Transport_Types
  imports Prelude
begin

text \<open>
  The data of the transport interface, \<^verbatim>\<open>transport_interface_api.h\<close>, shared by the MQTT agent, which
  calls it, and by its two implementations. A pointer that may be null is an option; a root
  certificate is its bytes.
\<close>

datatype TransportStatus =
    TRANSPORT_STATUS_SUCCESS | TRANSPORT_STATUS_INVALID_PARAMETER
  | TRANSPORT_STATUS_INSUFFICIENT_MEMORY | TRANSPORT_STATUS_CREDENTIALS_INVALID
  | TRANSPORT_STATUS_INTERNAL_ERROR | TRANSPORT_STATUS_DNS_FAILURE
  | TRANSPORT_STATUS_SOCKET_CREATE_FAILURE | TRANSPORT_STATUS_CONNECT_FAILURE
  | TRANSPORT_STATUS_TLS_FAILURE | TRANSPORT_STATUS_SOCKET_CLOSE_FAILURE

record ServerInfo =
  pHostName :: "string option"
  hostNameLength :: nat
  server_port :: u16

record TLSParams =
  pAlpnProtos :: "string list option"
  disableSni :: bool
  maxFragmentLength :: nat
  pRootCa :: "u8 list option"
  rootCaSize :: nat
  pPrivateKeyLabel :: string
  pClientCertLabel :: string
  pLoginPIN :: "string option"

end
