(* ===== verification/Mqtt_Agent.thy ===== *)
theory Mqtt_Agent
  imports Mqtt_Types Agent_Pool Transport_Types
begin

text \<open>
  The MQTT agent task, \<^verbatim>\<open>mqtt_agent_task.c\<close>: it creates the command queue, connects the TLS
  socket and the MQTT session with exponential backoff, runs the command loop of coreMQTT-Agent and
  reconnects when the loop fails. The transport, coreMQTT, the backoff library, the random number
  service and the kernel's clock are fields of \<open>agent_env\<close>: each is a function on the state \<open>'w\<close> of
  everything outside this file.
\<close>

section \<open>Data\<close>

record MQTTConnectInfo =
  cleanSession :: bool
  keepAliveSeconds :: u16
  pClientIdentifier :: string
  clientIdentifierLength :: u16

text \<open>The configuration headers and credentials of the application.\<close>

record agent_config =
  democonfigUSE_AWS_IOT_CORE_BROKER :: bool
  democonfigCLIENT_USERNAME :: bool
  AWS_IOT_CUSTOM_AUTH_ALPN :: string
  AWS_IOT_MQTT_ALPN :: string
  democonfigMQTT_BROKER_ENDPOINT :: string
  democonfigMQTT_BROKER_PORT :: u16
  democonfigCLIENT_IDENTIFIER :: string
  tlsATS1_ROOT_CERTIFICATE_PEM :: "u8 list"
  tlsATS1_ROOT_CERTIFICATE_LENGTH :: nat
  pkcs11configLABEL_DEVICE_CERTIFICATE_FOR_TLS :: string
  pkcs11configLABEL_DEVICE_PRIVATE_KEY_FOR_TLS :: string
  configPKCS11_DEFAULT_USER_PIN :: string
  appCONFIG_DEVICE_ADVISOR_TEST_ACTIVE :: bool

abbreviation MQTT_AGENT_COMMAND_QUEUE_LENGTH :: nat where
  "MQTT_AGENT_COMMAND_QUEUE_LENGTH \<equiv> 32"

definition MQTT_AGENT_NETWORK_BUFFER_SIZE :: "agent_config \<Rightarrow> nat" where
  "MQTT_AGENT_NETWORK_BUFFER_SIZE cfg =
     (if appCONFIG_DEVICE_ADVISOR_TEST_ACTIVE cfg then 20480 else 10240)"

definition MQTT_AGENT_SEND_BLOCK_TIME_MS :: u32 where "MQTT_AGENT_SEND_BLOCK_TIME_MS = 200"
definition MQTT_AGENT_MS_TO_WAIT_FOR_NOTIFICATION :: u32 where
  "MQTT_AGENT_MS_TO_WAIT_FOR_NOTIFICATION = 5000"

definition RETRY_MAX_BACKOFF_DELAY_MS :: "agent_config \<Rightarrow> u16" where
  "RETRY_MAX_BACKOFF_DELAY_MS cfg =
     (if appCONFIG_DEVICE_ADVISOR_TEST_ACTIVE cfg then 10000 else 20000)"

definition RETRY_BACKOFF_BASE_MS :: u16 where "RETRY_BACKOFF_BASE_MS = 10"
definition MQTT_AGENT_KEEP_ALIVE_INTERVAL_SECONDS :: u16 where
  "MQTT_AGENT_KEEP_ALIVE_INTERVAL_SECONDS = 100"
definition MQTT_AGENT_TRANSPORT_SEND_RECV_TIMEOUT_MS :: u32 where
  "MQTT_AGENT_TRANSPORT_SEND_RECV_TIMEOUT_MS = 750"
definition MQTT_AGENT_CONNACK_RECV_TIMEOUT_MS :: u32 where
  "MQTT_AGENT_CONNACK_RECV_TIMEOUT_MS = 1000"

record 'w agent_env =
  Transport_Connect :: "ServerInfo \<Rightarrow> TLSParams \<Rightarrow> u32 \<Rightarrow> u32 \<Rightarrow> 'w \<Rightarrow> TransportStatus \<times> 'w"
  Transport_Disconnect :: "'w \<Rightarrow> TransportStatus \<times> 'w"
  MQTTAgent_Init :: "nat \<Rightarrow> 'w \<Rightarrow> MQTTStatus \<times> 'w"
  MQTT_Connect :: "MQTTConnectInfo \<Rightarrow> u32 \<Rightarrow> 'w \<Rightarrow> MQTTStatus \<times> bool \<times> 'w"
  MQTTAgent_CancelAll :: "sub_table \<Rightarrow> 'w \<Rightarrow> sub_table \<times> 'w"
  MQTTAgent_ResumeSession :: "bool \<Rightarrow> 'w \<Rightarrow> MQTTStatus \<times> 'w"
  MQTTAgent_Subscribe :: "MQTTSubscribeInfo list \<Rightarrow> u32 \<Rightarrow> 'w \<Rightarrow> MQTTStatus \<times> 'w"
  MQTTAgent_Disconnect :: "u32 \<Rightarrow> 'w \<Rightarrow> MQTTStatus \<times> 'w"
  MQTTAgent_CommandLoop :: "sub_table \<Rightarrow> 'w \<Rightarrow> MQTTStatus \<times> sub_table \<times> 'w"
  BackoffAlgorithm_InitializeParams :: "u16 \<Rightarrow> u16 \<Rightarrow> 'w \<Rightarrow> 'w"
  BackoffAlgorithm_GetNextBackoff :: "u32 \<Rightarrow> u16 \<Rightarrow> 'w \<Rightarrow> BackoffAlgorithmStatus \<times> u16 \<times> 'w"
  psa_generate_random :: "'w \<Rightarrow> u32 option \<times> 'w"
  xTaskGetTickCount :: "'w \<Rightarrow> u32 \<times> 'w"
  vTaskDelay :: "u32 \<Rightarrow> 'w \<Rightarrow> 'w"
  xTaskNotifyWait :: "u32 \<Rightarrow> 'w \<Rightarrow> 'w"

record ('q, 'c, 'e, 'w) agent_state =
  xCommandQueue :: "'q option"
  agent_pool :: "('q, 'c) pool_state"
  xConnectInfo :: MQTTConnectInfo
  agent_subs :: sub_table
  agent_events :: 'e
  usNextRetryBackOff :: u16
  agent_world :: 'w

section \<open>Time and random numbers\<close>

definition TICKS_TO_pdMS :: "u32 \<Rightarrow> u32" where
  "TICKS_TO_pdMS xTicks = xTicks"

definition prvGetTimeMs :: "'w agent_env \<Rightarrow> u32 \<Rightarrow> 'w \<Rightarrow> u32 \<times> 'w" where
  "prvGetTimeMs E ulGlobalEntryTimeMs w =
     (let (xTickCount, w') = xTaskGetTickCount E w
      in (TICKS_TO_pdMS xTickCount - ulGlobalEntryTimeMs, w'))"

definition prvGetRandomNumber :: "'w agent_env \<Rightarrow> 'w \<Rightarrow> u32 \<times> 'w" where
  "prvGetRandomNumber E w =
     (case psa_generate_random E w of
        (Some r, w') \<Rightarrow> (r, w')
      | (None, w') \<Rightarrow> xTaskGetTickCount E w')"

section \<open>The socket\<close>

definition server_info :: "agent_config \<Rightarrow> ServerInfo" where
  "server_info cfg = \<lparr>pHostName = Some (democonfigMQTT_BROKER_ENDPOINT cfg),
     hostNameLength = strlen (democonfigMQTT_BROKER_ENDPOINT cfg),
     server_port = democonfigMQTT_BROKER_PORT cfg\<rparr>"

definition tls_params :: "agent_config \<Rightarrow> TLSParams" where
  "tls_params cfg = \<lparr>
     pAlpnProtos = (if democonfigUSE_AWS_IOT_CORE_BROKER cfg
       then Some [if democonfigCLIENT_USERNAME cfg then AWS_IOT_CUSTOM_AUTH_ALPN cfg
                  else AWS_IOT_MQTT_ALPN cfg]
       else None),
     disableSni = False, maxFragmentLength = 0,
     pRootCa = Some (tlsATS1_ROOT_CERTIFICATE_PEM cfg),
     rootCaSize = tlsATS1_ROOT_CERTIFICATE_LENGTH cfg,
     pPrivateKeyLabel = pkcs11configLABEL_DEVICE_PRIVATE_KEY_FOR_TLS cfg,
     pClientCertLabel = pkcs11configLABEL_DEVICE_CERTIFICATE_FOR_TLS cfg,
     pLoginPIN = Some (configPKCS11_DEFAULT_USER_PIN cfg)\<rparr>"

text \<open>The result is \<open>pdPASS\<close>.\<close>

definition prvSocketConnect ::
  "agent_config \<Rightarrow> 'w agent_env \<Rightarrow> ('q, 'c, 'e, 'w) agent_state \<Rightarrow>
   bool \<times> ('q, 'c, 'e, 'w) agent_state" where
  "prvSocketConnect cfg E s =
     (let (xNetworkStatus, w) = Transport_Connect E (server_info cfg) (tls_params cfg)
            MQTT_AGENT_TRANSPORT_SEND_RECV_TIMEOUT_MS MQTT_AGENT_TRANSPORT_SEND_RECV_TIMEOUT_MS
            (agent_world s)
      in (xNetworkStatus = TRANSPORT_STATUS_SUCCESS, s\<lparr>agent_world := w\<rparr>))"

definition prvSocketDisconnect ::
  "'e event_ops \<Rightarrow> 'w agent_env \<Rightarrow> ('q, 'c, 'e, 'w) agent_state \<Rightarrow>
   bool \<times> ('q, 'c, 'e, 'w) agent_state" where
  "prvSocketDisconnect G E s =
     (let (st, w) = Transport_Disconnect E (agent_world s)
      in if st = TRANSPORT_STATUS_SUCCESS
         then (True, s\<lparr>agent_world := w,
                agent_events := xEventGroupClearBits G (agent_events s) EVENT_MASK_MQTT_CONNECTED\<rparr>)
         else (False, s\<lparr>agent_world := w\<rparr>))"

section \<open>Incoming publishes and completion callbacks\<close>

text \<open>The result tells whether the publish was unsolicited, which is only logged.\<close>

definition prvIncomingPublishCallback ::
  "topic_matcher \<Rightarrow> ('s \<Rightarrow> sub_table) \<Rightarrow> (ptr \<Rightarrow> ptr \<Rightarrow> MQTTPublishInfo \<Rightarrow> 's \<Rightarrow> 's) \<Rightarrow> memory \<Rightarrow>
   MQTTPublishInfo \<Rightarrow> 's \<Rightarrow> bool \<times> 's" where
  "prvIncomingPublishCallback match subs_of invoke mem pxPublishInfo s =
     (let (xPublishHandled, s') = handleIncomingPublishes match subs_of invoke mem (Some pxPublishInfo) s
      in (\<not> xPublishHandled, s'))"

text \<open>The loop over the SUBACK codes, from index \<open>i\<close> with \<open>n\<close> subscriptions to go.\<close>

fun resub_failures ::
  "memory \<Rightarrow> MQTTSubscribeInfo list \<Rightarrow> u8 list \<Rightarrow> sub_table \<Rightarrow> sub_table" where
  "resub_failures mem (info # infos) (code # codes) subs =
     resub_failures mem infos codes
       (if code = MQTTSubAckFailure
        then snd (removeSubscription mem (pTopicFilter info) (topicFilterLength info) subs)
        else subs)"
| "resub_failures mem _ _ subs = subs"

definition prvReSubscriptionCommandCallback ::
  "memory \<Rightarrow> MQTTSubscribeInfo list \<Rightarrow> MQTTAgentReturnInfo \<Rightarrow> sub_table \<Rightarrow> sub_table" where
  "prvReSubscriptionCommandCallback mem pxSubscribeArgs pxReturnInfo subs =
     (if returnCode pxReturnInfo \<noteq> MQTTSuccess
      then resub_failures mem pxSubscribeArgs (pSubackCodes pxReturnInfo) subs
      else subs)"

text \<open>The context after the callback, and the notification sent to the waiting task.\<close>

definition prvDisconnectCommandCallback ::
  "MQTTAgentReturnInfo \<Rightarrow> MQTTAgentCommandContext \<Rightarrow> notification \<Rightarrow>
   MQTTAgentCommandContext \<times> notification" where
  "prvDisconnectCommandCallback pxReturnInfo ctx n =
     (ctx\<lparr>xReturnStatus := returnCode pxReturnInfo\<rparr>,
      if xTaskToNotify ctx \<noteq> None then Some (mqtt_status_code (returnCode pxReturnInfo)) else n)"

section \<open>Initialisation\<close>

definition prvMQTTInit ::
  "agent_config \<Rightarrow> ('q, ptr) kernel_queue \<Rightarrow> (nat \<Rightarrow> 'q option) \<Rightarrow> 'c \<Rightarrow> pool_layout \<Rightarrow>
   'e event_ops \<Rightarrow> 'w agent_env \<Rightarrow> ('q, 'c, 'e, 'w) agent_state \<Rightarrow>
   (MQTTStatus \<times> ('q, 'c, 'e, 'w) agent_state) option" where
  "prvMQTTInit cfg K create zero L G E s =
     (case create MQTT_AGENT_COMMAND_QUEUE_LENGTH of
        None \<Rightarrow> None
      | Some q \<Rightarrow>
          (case Agent_InitializePool K create zero L (agent_pool s) of
             None \<Rightarrow> None
           | Some pool \<Rightarrow>
               (let (xReturn, w) =
                      MQTTAgent_Init E (MQTT_AGENT_NETWORK_BUFFER_SIZE cfg) (agent_world s);
                    s' = s\<lparr>xCommandQueue := Some q, agent_pool := pool, agent_world := w\<rparr>
                in Some (xReturn,
                     if xReturn \<noteq> MQTTSuccess then s'
                     else s'\<lparr>agent_events :=
                            xEventGroupSetBits G (agent_events s) EVENT_MASK_MQTT_INIT\<rparr>))))"

section \<open>Connecting\<close>

text \<open>The first loop of \<open>prvHandleResubscribe\<close>: the entries of \<open>xSubInfo\<close> in table order.\<close>

fun resubscribe_infos :: "sub_table \<Rightarrow> MQTTSubscribeInfo list" where
  "resubscribe_infos [] = []"
| "resubscribe_infos (e # es) =
     (if usFilterStringLength e \<noteq> 0
      then \<lparr>sub_qos = MQTTQoS1, pTopicFilter = pcSubscriptionFilterString e,
            topicFilterLength = usFilterStringLength e\<rparr> # resubscribe_infos es
      else resubscribe_infos es)"

definition prvHandleResubscribe ::
  "'w agent_env \<Rightarrow> ('q, 'c, 'e, 'w) agent_state \<Rightarrow> MQTTStatus \<times> ('q, 'c, 'e, 'w) agent_state" where
  "prvHandleResubscribe E s =
     (let xSubInfo = resubscribe_infos (agent_subs s)
      in if length xSubInfo > 0
         then (let (xResult, w) = MQTTAgent_Subscribe E xSubInfo 0 (agent_world s)
               in (xResult, s\<lparr>agent_world := w\<rparr>))
         else (MQTTSuccess, s))"

definition prvMQTTConnect ::
  "agent_config \<Rightarrow> 'e event_ops \<Rightarrow> 'w agent_env \<Rightarrow> ('q, 'c, 'e, 'w) agent_state \<Rightarrow>
   MQTTStatus \<times> ('q, 'c, 'e, 'w) agent_state" where
  "prvMQTTConnect cfg G E s =
     (let info = (xConnectInfo s)\<lparr>
            pClientIdentifier := democonfigCLIENT_IDENTIFIER cfg,
            clientIdentifierLength := of_nat (strlen (democonfigCLIENT_IDENTIFIER cfg)),
            keepAliveSeconds := MQTT_AGENT_KEEP_ALIVE_INTERVAL_SECONDS\<rparr>;
          (subs, w1) = MQTTAgent_CancelAll E (agent_subs s) (agent_world s);
          (xResult, xSessionPresent, w2) = MQTT_Connect E info MQTT_AGENT_CONNACK_RECV_TIMEOUT_MS w1;
          s' = s\<lparr>xConnectInfo := info, agent_subs := subs, agent_world := w2\<rparr>
      in if xResult = MQTTSuccess \<and> \<not> cleanSession info then
           (let (xResult', w3) = MQTTAgent_ResumeSession E xSessionPresent w2;
                s'' = s'\<lparr>agent_world := w3\<rparr>
            in if xResult' = MQTTSuccess \<and> \<not> xSessionPresent
               then prvHandleResubscribe E s'' else (xResult', s''))
         else if xResult = MQTTSuccess then
           (xResult, s'\<lparr>xConnectInfo := info\<lparr>cleanSession := False\<rparr>,
              agent_events := xEventGroupSetBits G (agent_events s) EVENT_MASK_MQTT_CONNECTED\<rparr>)
         else (xResult, s'))"

text \<open>\<open>None\<close> when the assertion on the status of \<open>MQTTAgent_Disconnect\<close> fails.\<close>

definition prvDisconnectFromMQTTBroker ::
  "'e event_ops \<Rightarrow> 'w agent_env \<Rightarrow> ('q, 'c, 'e, 'w) agent_state \<Rightarrow>
   ('q, 'c, 'e, 'w) agent_state option" where
  "prvDisconnectFromMQTTBroker G E s =
     (let (xCommandStatus, w) = MQTTAgent_Disconnect E MQTT_AGENT_SEND_BLOCK_TIME_MS (agent_world s)
      in if xCommandStatus = MQTTSuccess
         then Some (snd (prvSocketDisconnect G E (s\<lparr>agent_world :=
                xTaskNotifyWait E (pdMS_TO_TICKS MQTT_AGENT_MS_TO_WAIT_FOR_NOTIFICATION) w\<rparr>)))
         else None)"

section \<open>The task\<close>

text \<open>The retry branch, which the loop has twice: after a failed socket and a failed MQTT connect.\<close>

definition agent_retry ::
  "agent_config \<Rightarrow> 'w agent_env \<Rightarrow> ('q, 'c, 'e, 'w) agent_state \<Rightarrow> ('q, 'c, 'e, 'w) agent_state" where
  "agent_retry cfg E s =
     (let (rnd, w1) = prvGetRandomNumber E (agent_world s);
          (xBackoffAlgStatus, b, w2) =
            BackoffAlgorithm_GetNextBackoff E rnd (usNextRetryBackOff s) w1
      in if xBackoffAlgStatus = BackoffAlgorithmSuccess
         then (let b' = (if appCONFIG_DEVICE_ADVISOR_TEST_ACTIVE cfg then b + 8000 else b)
               in s\<lparr>usNextRetryBackOff := b',
                    agent_world := vTaskDelay E (pdMS_TO_TICKS (ucast b')) w2\<rparr>)
         else s\<lparr>usNextRetryBackOff := b, agent_world := w2\<rparr>)"

datatype loop_control = Loop_continue | Loop_break

text \<open>One round of \<open>while( true )\<close>.\<close>

definition agent_iteration ::
  "agent_config \<Rightarrow> 'e event_ops \<Rightarrow> 'w agent_env \<Rightarrow> ('q, 'c, 'e, 'w) agent_state \<Rightarrow>
   loop_control \<times> ('q, 'c, 'e, 'w) agent_state" where
  "agent_iteration cfg G E s =
     (let (xResult, s1) = prvSocketConnect cfg E s
      in if \<not> xResult then (Loop_continue, agent_retry cfg E s1)
         else
           (let s2 = s1\<lparr>xConnectInfo := (xConnectInfo s1)\<lparr>cleanSession := True\<rparr>\<rparr>;
                (xMQTTStatus, s3) = prvMQTTConnect cfg G E s2
            in if xMQTTStatus \<noteq> MQTTSuccess
               then (Loop_continue, agent_retry cfg E (snd (prvSocketDisconnect G E s3)))
               else
                 (let (xMQTTStatus', subs, w) =
                        MQTTAgent_CommandLoop E (agent_subs s3) (agent_world s3);
                      (subs', w') = MQTTAgent_CancelAll E subs w;
                      s4 = s3\<lparr>agent_subs := subs', agent_world := w', agent_events :=
                             xEventGroupClearBits G (agent_events s3) EVENT_MASK_MQTT_CONNECTED\<rparr>
                  in if xMQTTStatus' = MQTTSuccess then (Loop_break, s4)
                     else (Loop_continue, snd (prvSocketDisconnect G E s4)))))"

text \<open>The loop with a bound on its rounds; the flag says that it has ended.\<close>

fun agent_loop ::
  "agent_config \<Rightarrow> 'e event_ops \<Rightarrow> 'w agent_env \<Rightarrow> nat \<Rightarrow> ('q, 'c, 'e, 'w) agent_state \<Rightarrow>
   bool \<times> ('q, 'c, 'e, 'w) agent_state" where
  "agent_loop cfg G E 0 s = (False, s)"
| "agent_loop cfg G E (Suc n) s =
     (case agent_iteration cfg G E s of
        (Loop_break, s') \<Rightarrow> (True, s'\<lparr>agent_events := xEventGroupClearBits G (agent_events s')
            (EVENT_MASK_MQTT_INIT OR EVENT_MASK_MQTT_CONNECTED)\<rparr>)
      | (Loop_continue, s') \<Rightarrow> agent_loop cfg G E n s')"

text \<open>
  The task from the moment the network is up, with \<open>n\<close> rounds of its loop. \<open>None\<close> when an
  assertion fails: no queue, no pool, or \<open>MQTTAgent_Init\<close> fails.
\<close>

definition prvMQTTAgentTask ::
  "agent_config \<Rightarrow> ('q, ptr) kernel_queue \<Rightarrow> (nat \<Rightarrow> 'q option) \<Rightarrow> 'c \<Rightarrow> pool_layout \<Rightarrow>
   'e event_ops \<Rightarrow> 'w agent_env \<Rightarrow> nat \<Rightarrow> ('q, 'c, 'e, 'w) agent_state \<Rightarrow>
   (bool \<times> ('q, 'c, 'e, 'w) agent_state) option" where
  "prvMQTTAgentTask cfg K create zero L G E n s =
     (case prvMQTTInit cfg K create zero L G E s of
        None \<Rightarrow> None
      | Some (xMQTTStatus, s1) \<Rightarrow>
          if xMQTTStatus \<noteq> MQTTSuccess then None
          else Some (agent_loop cfg G E n (s1\<lparr>usNextRetryBackOff := 0,
                 agent_world := BackoffAlgorithm_InitializeParams E RETRY_BACKOFF_BASE_MS
                   (RETRY_MAX_BACKOFF_DELAY_MS cfg) (agent_world s1)\<rparr>)))"

section \<open>Lemmas\<close>

lemmas agent_steps = prvSocketConnect_def prvSocketDisconnect_def agent_retry_def
  prvMQTTConnect_def agent_iteration_def

text \<open>The environment with the two calls of session resumption replaced.\<close>

definition with_resumption ::
  "(bool \<Rightarrow> 'w \<Rightarrow> MQTTStatus \<times> 'w) \<Rightarrow> (MQTTSubscribeInfo list \<Rightarrow> u32 \<Rightarrow> 'w \<Rightarrow> MQTTStatus \<times> 'w) \<Rightarrow>
   'w agent_env \<Rightarrow> 'w agent_env" where
  "with_resumption R S E = E\<lparr>MQTTAgent_ResumeSession := R, MQTTAgent_Subscribe := S\<rparr>"

lemma with_resumption_fields [simp]:
  "Transport_Connect (with_resumption R S E) = Transport_Connect E"
  "Transport_Disconnect (with_resumption R S E) = Transport_Disconnect E"
  "MQTTAgent_Init (with_resumption R S E) = MQTTAgent_Init E"
  "MQTT_Connect (with_resumption R S E) = MQTT_Connect E"
  "MQTTAgent_CancelAll (with_resumption R S E) = MQTTAgent_CancelAll E"
  "MQTTAgent_CommandLoop (with_resumption R S E) = MQTTAgent_CommandLoop E"
  "BackoffAlgorithm_InitializeParams (with_resumption R S E) = BackoffAlgorithm_InitializeParams E"
  "BackoffAlgorithm_GetNextBackoff (with_resumption R S E) = BackoffAlgorithm_GetNextBackoff E"
  "psa_generate_random (with_resumption R S E) = psa_generate_random E"
  "xTaskGetTickCount (with_resumption R S E) = xTaskGetTickCount E"
  "vTaskDelay (with_resumption R S E) = vTaskDelay E"
  by (simp_all add: with_resumption_def)

lemma resumption_frame [simp]:
  "prvSocketConnect cfg (with_resumption R S E) = prvSocketConnect cfg E"
  "prvSocketDisconnect G (with_resumption R S E) = prvSocketDisconnect G E"
  "agent_retry cfg (with_resumption R S E) = agent_retry cfg E"
  by (simp_all add: fun_eq_iff prvSocketConnect_def prvSocketDisconnect_def agent_retry_def
      prvGetRandomNumber_def Let_def split: option.split prod.split)

text \<open>A connect with a clean session does not look at the calls of session resumption.\<close>

lemma prvMQTTConnect_clean:
  assumes "cleanSession (xConnectInfo s)"
  shows "prvMQTTConnect cfg G (with_resumption R S E) s = prvMQTTConnect cfg G E s"
  using assms by (simp add: prvMQTTConnect_def Let_def split_beta)

lemma agent_iteration_resumption:
  "agent_iteration cfg G (with_resumption R S E) s = agent_iteration cfg G E s"
  by (simp add: agent_iteration_def prvMQTTConnect_clean Let_def split_beta)

lemma agent_loop_resumption:
  "agent_loop cfg G (with_resumption R S E) n s = agent_loop cfg G E n s"
  by (induction n arbitrary: s)
    (simp_all add: agent_iteration_resumption split: prod.split loop_control.split)

lemma prvMQTTConnect_events:
  assumes "cleanSession (xConnectInfo s)" and "prvMQTTConnect cfg G E s = (r, s')"
  shows "agent_events s' = (if r = MQTTSuccess
    then xEventGroupSetBits G (agent_events s) EVENT_MASK_MQTT_CONNECTED else agent_events s)"
  using assms by (auto simp: prvMQTTConnect_def Let_def split_beta split: if_splits)

lemma prvSocketDisconnect_events:
  "agent_events (snd (prvSocketDisconnect G E s)) \<in>
   {agent_events s, xEventGroupClearBits G (agent_events s) EVENT_MASK_MQTT_CONNECTED}"
  by (simp add: prvSocketDisconnect_def split_beta Let_def)

lemma socket_disconnect_connectedD:
  assumes "xIsMqttAgentConnected G (agent_events (snd (prvSocketDisconnect G E s)))"
    and "event_laws G"
  shows "xIsMqttAgentConnected G (agent_events s)"
  using prvSocketDisconnect_events [of G E s] assms by auto

lemma retry_events [simp]: "agent_events (agent_retry cfg E s) = agent_events s"
  by (simp add: agent_retry_def split_beta Let_def)

lemma socket_connect_events [simp]: "agent_events (snd (prvSocketConnect cfg E s)) = agent_events s"
  by (simp add: prvSocketConnect_def split_beta Let_def)

lemma agent_iteration_disconnected:
  assumes laws: "event_laws G" and start: "\<not> xIsMqttAgentConnected G (agent_events s)"
  shows "\<not> xIsMqttAgentConnected G (agent_events (snd (agent_iteration cfg G E s)))"
proof -
  define s1 where "s1 = snd (prvSocketConnect cfg E s)"
  define s2 where "s2 = s1\<lparr>xConnectInfo := (xConnectInfo s1)\<lparr>cleanSession := True\<rparr>\<rparr>"
  obtain st s3 where c: "prvMQTTConnect cfg G E s2 = (st, s3)" by fastforce
  have ev2: "agent_events s2 = agent_events s" by (simp add: s2_def s1_def)
  show ?thesis
  proof (cases "fst (prvSocketConnect cfg E s) \<and> st = MQTTSuccess")
    case True
    then show ?thesis
      using c laws
      by (auto simp: agent_iteration_def s2_def s1_def split_beta Let_def
          dest!: socket_disconnect_connectedD)
  next
    case False
    have "\<not> xIsMqttAgentConnected G (agent_events s3)" if "st \<noteq> MQTTSuccess"
      using prvMQTTConnect_events [OF _ c] that start ev2 by (simp add: s2_def)
    with False c laws start show ?thesis
      by (auto simp: agent_iteration_def s2_def s1_def split_beta Let_def
          dest!: socket_disconnect_connectedD)
  qed
qed

lemma agent_loop_disconnected:
  assumes laws: "event_laws G"
  shows "\<not> xIsMqttAgentConnected G (agent_events s) \<Longrightarrow>
    \<not> xIsMqttAgentConnected G (agent_events (snd (agent_loop cfg G E n s)))"
proof (induction n arbitrary: s)
  case (Suc n)
  obtain c s' where it: "agent_iteration cfg G E s = (c, s')" by fastforce
  with agent_iteration_disconnected [OF laws Suc.prems, of cfg E]
  have "\<not> xIsMqttAgentConnected G (agent_events s')" by simp
  with it Suc.IH [of s'] laws show ?case
    by (cases c) (simp_all add: disconnected_clear_mono)
qed simp

lemma resub_failures_remove_all:
  assumes "length infos = length codes"
  shows "resub_failures mem infos codes subs =
    registration_table.remove_all (remove_request mem)
      (map (\<lambda>(i, c). (pTopicFilter i, topicFilterLength i))
         (filter (\<lambda>(i, c). c = MQTTSubAckFailure) (zip infos codes))) subs"
  using assms
  by (induction infos codes arbitrary: subs rule: list_induct2)
    simp_all

lemma resubscribe_infos_eq:
  "resubscribe_infos subs =
   map (\<lambda>e. \<lparr>sub_qos = MQTTQoS1, pTopicFilter = pcSubscriptionFilterString e,
            topicFilterLength = usFilterStringLength e\<rparr>) (filter (\<lambda>e. \<not> free_element e) subs)"
  by (induction subs) auto

section \<open>Properties\<close>

text \<open>the agent task never resumes a session: whatever \<open>MQTTAgent_ResumeSession\<close> and
  \<open>MQTTAgent_Subscribe\<close> do, the task behaves the same, because every round of its loop sets
  \<open>cleanSession\<close> before it connects. The branch of \<open>prvMQTTConnect\<close> that resumes and resubscribes is
  unreachable from the task, so after a reconnect no subscription of the table is sent again.\<close>

theorem task_never_resumes:
  "prvMQTTAgentTask cfg K create zero L G (E\<lparr>MQTTAgent_ResumeSession := R, MQTTAgent_Subscribe := S\<rparr>) n s =
   prvMQTTAgentTask cfg K create zero L G E n s"
proof -
  have "prvMQTTInit cfg K create zero L G (with_resumption R S E) s =
      prvMQTTInit cfg K create zero L G E s"
    by (simp add: prvMQTTInit_def split: option.split)
  then have "prvMQTTAgentTask cfg K create zero L G (with_resumption R S E) n s =
      prvMQTTAgentTask cfg K create zero L G E n s"
    by (simp add: prvMQTTAgentTask_def agent_loop_resumption split: option.split)
  then show ?thesis by (simp only: with_resumption_def)
qed

definition demo_config :: agent_config where
  "demo_config = \<lparr>democonfigUSE_AWS_IOT_CORE_BROKER = True, democonfigCLIENT_USERNAME = False,
     AWS_IOT_CUSTOM_AUTH_ALPN = ''mqtt'', AWS_IOT_MQTT_ALPN = ''x-amzn-mqtt-ca'',
     democonfigMQTT_BROKER_ENDPOINT = ''broker'', democonfigMQTT_BROKER_PORT = 8883,
     democonfigCLIENT_IDENTIFIER = ''thing'', tlsATS1_ROOT_CERTIFICATE_PEM = [],
     tlsATS1_ROOT_CERTIFICATE_LENGTH = 0, pkcs11configLABEL_DEVICE_CERTIFICATE_FOR_TLS = [],
     pkcs11configLABEL_DEVICE_PRIVATE_KEY_FOR_TLS = [], configPKCS11_DEFAULT_USER_PIN = [],
     appCONFIG_DEVICE_ADVISOR_TEST_ACTIVE = True\<rparr>"

text \<open>A demonstration environment: everything succeeds, and the world is the list of the delays.\<close>

definition demo_env :: "u32 list agent_env" where
  "demo_env = \<lparr>Transport_Connect = (\<lambda>_ _ _ _ w. (TRANSPORT_STATUS_SUCCESS, w)),
     Transport_Disconnect = (\<lambda>w. (TRANSPORT_STATUS_SUCCESS, w)),
     MQTTAgent_Init = (\<lambda>_ w. (MQTTSuccess, w)),
     MQTT_Connect = (\<lambda>_ _ w. (MQTTSuccess, False, w)),
     MQTTAgent_CancelAll = (\<lambda>t w. (t, w)),
     MQTTAgent_ResumeSession = (\<lambda>_ w. (MQTTSuccess, w)),
     MQTTAgent_Subscribe = (\<lambda>_ _ w. (MQTTSuccess, w)),
     MQTTAgent_Disconnect = (\<lambda>_ w. (MQTTSuccess, w)),
     MQTTAgent_CommandLoop = (\<lambda>t w. (MQTTRecvFailed, t, w)),
     BackoffAlgorithm_InitializeParams = (\<lambda>_ _ w. w),
     BackoffAlgorithm_GetNextBackoff = (\<lambda>r _ w. (BackoffAlgorithmSuccess, 10000, w)),
     psa_generate_random = (\<lambda>w. (Some 42, w)),
     xTaskGetTickCount = (\<lambda>w. (7, w)),
     vTaskDelay = (\<lambda>d w. w @ [d]),
     xTaskNotifyWait = (\<lambda>_ w. w)\<rparr>"

definition demo_agent :: "(unit, unit, u32, u32 list) agent_state" where
  "demo_agent = \<lparr>xCommandQueue = None,
     agent_pool = \<lparr>commandStructurePool = [], commandStructMessageCtx = None, initStatus = 0\<rparr>,
     xConnectInfo = \<lparr>cleanSession = False, keepAliveSeconds = 0, pClientIdentifier = [],
       clientIdentifierLength = 0\<rparr>,
     agent_subs = xGlobalSubscriptionList_init, agent_events = 0, usNextRetryBackOff = 0,
     agent_world = []\<rparr>"

text \<open>the event \<open>EVENT_MASK_MQTT_CONNECTED\<close> is set when the command loop starts, and only then:
  if it is clear at the head of the task's loop, it is set in the state in which a successful
  connect hands over to the command loop, and clear again after any number of rounds, however the
  rounds end.\<close>

theorem connected_only_in_command_loop:
  assumes "event_laws G" and "\<not> xIsMqttAgentConnected G (agent_events s)"
  shows "(let s1 = snd (prvSocketConnect cfg E s);
              (st, s3) = prvMQTTConnect cfg G E (s1\<lparr>xConnectInfo := (xConnectInfo s1)\<lparr>cleanSession := True\<rparr>\<rparr>)
          in xIsMqttAgentConnected G (agent_events s3) \<longleftrightarrow> st = MQTTSuccess) \<and>
         \<not> xIsMqttAgentConnected G (agent_events (snd (agent_loop cfg G E n s)))"
proof -
  define s2 where "s2 = (snd (prvSocketConnect cfg E s))\<lparr>xConnectInfo :=
    (xConnectInfo (snd (prvSocketConnect cfg E s)))\<lparr>cleanSession := True\<rparr>\<rparr>"
  obtain st s3 where c: "prvMQTTConnect cfg G E s2 = (st, s3)" by fastforce
  have "cleanSession (xConnectInfo s2)" and "agent_events s2 = agent_events s"
    by (simp_all add: s2_def)
  with prvMQTTConnect_events [OF _ c] assms
  have "xIsMqttAgentConnected G (agent_events s3) \<longleftrightarrow> st = MQTTSuccess" by auto
  with c agent_loop_disconnected [OF assms, of cfg E n] show ?thesis
    by (simp add: s2_def Let_def)
qed

theorem connected_only_in_command_loop_witness:
  "\<not> xIsMqttAgentConnected word_events (agent_events demo_agent) \<and>
   \<not> xIsMqttAgentConnected word_events
       (agent_events (snd (agent_loop demo_config word_events demo_env 3 demo_agent)))"
proof -
  have h: "\<not> xIsMqttAgentConnected word_events (agent_events demo_agent)"
    by (simp add: xIsMqttAgentConnected_def word_events_def demo_agent_def)
  from connected_only_in_command_loop [OF word_events_laws h, of demo_config demo_env 3] h
  show ?thesis by simp
qed

text \<open>the delay before a new attempt. When the backoff library returns a delay within the maximum
  it was initialised with, the task waits for that many milliseconds, and for 8000 more in the
  device advisor build: the 16-bit addition does not wrap and the wait is at most 20 seconds.\<close>

theorem retry_delay_bounded:
  assumes "prvGetRandomNumber E (agent_world s) = (r, w1)"
    and "BackoffAlgorithm_GetNextBackoff E r (usNextRetryBackOff s) w1 = (BackoffAlgorithmSuccess, b, w2)"
    and "b \<le> RETRY_MAX_BACKOFF_DELAY_MS cfg"
  shows "\<exists>d. agent_world (agent_retry cfg E s) = vTaskDelay E d w2 \<and>
    unat d = unat b + (if appCONFIG_DEVICE_ADVISOR_TEST_ACTIVE cfg then 8000 else 0) \<and>
    unat d \<le> 20000"
proof (cases "appCONFIG_DEVICE_ADVISOR_TEST_ACTIVE cfg")
  case True
  then have b: "unat b \<le> 10000"
    using assms(3) by (simp add: RETRY_MAX_BACKOFF_DELAY_MS_def word_le_nat_alt)
  then have "unat (b + 8000) = unat b + 8000" by (simp add: unat_word_ariths)
  then have "unat (ucast (b + 8000) :: u32) = unat b + 8000"
    by simp
  with True b assms(1,2) show ?thesis
    by (auto simp: agent_retry_def pdMS_TO_TICKS_def Let_def intro!: exI [of _ "ucast (b + 8000)"])
next
  case False
  then have b: "unat b \<le> 20000"
    using assms(3) by (simp add: RETRY_MAX_BACKOFF_DELAY_MS_def word_le_nat_alt)
  with False assms(1,2) show ?thesis
    by (auto simp: agent_retry_def pdMS_TO_TICKS_def Let_def intro!: exI [of _ "ucast b"])
qed

theorem retry_delay_bounded_witness:
  "\<exists>d. agent_world (agent_retry demo_config demo_env demo_agent) = vTaskDelay demo_env d [] \<and>
     unat d = unat (10000 :: u16) + 8000 \<and> unat d \<le> 20000"
proof -
  have "prvGetRandomNumber demo_env (agent_world demo_agent) = (42, [])"
    and "BackoffAlgorithm_GetNextBackoff demo_env 42 (usNextRetryBackOff demo_agent) [] =
      (BackoffAlgorithmSuccess, 10000, [])"
    and "(10000 :: u16) \<le> RETRY_MAX_BACKOFF_DELAY_MS demo_config"
    by (simp_all add: prvGetRandomNumber_def demo_env_def demo_agent_def demo_config_def
        RETRY_MAX_BACKOFF_DELAY_MS_def)
  from retry_delay_bounded [OF this] show ?thesis by (simp add: demo_config_def)
qed

text \<open>the completion callback of a resubscription. When the broker's answer is an error with one
  code per topic filter, exactly the registrations of the filters with the failure code are removed
  from the table and all others are kept; on success the table is unchanged.\<close>

theorem resubscription_callback_correct:
  assumes "table_ok subs" and "length infos = length (pSubackCodes ri)"
  shows "registrations mem (prvReSubscriptionCommandCallback mem infos ri subs) =
    (if returnCode ri = MQTTSuccess then registrations mem subs
     else {r \<in> registrations mem subs. \<forall>(i, c) \<in> set (zip infos (pSubackCodes ri)).
             c = MQTTSubAckFailure \<longrightarrow> \<not> removal_hits mem (pTopicFilter i, topicFilterLength i) r})"
proof (cases "returnCode ri = MQTTSuccess")
  case True
  then show ?thesis by (simp add: prvReSubscriptionCommandCallback_def)
next
  case False
  then show ?thesis
    using assms
    by (auto simp: prvReSubscriptionCommandCallback_def resub_failures_remove_all
        subs_table.regs_remove_all)
qed

theorem resubscription_callback_correct_witness:
  "registrations (\<lambda>_. ''a/b'') (prvReSubscriptionCommandCallback (\<lambda>_. ''a/b'')
     [\<lparr>sub_qos = MQTTQoS1, pTopicFilter = 5, topicFilterLength = 3\<rparr>]
     \<lparr>returnCode = MQTTRecvFailed, pSubackCodes = [MQTTSubAckFailure]\<rparr>
     (snd (addSubscription (\<lambda>_. ''a/b'') 5 3 7 0 xGlobalSubscriptionList_init))) = {}"
proof -
  let ?t = "snd (addSubscription (\<lambda>_. ''a/b'') 5 3 7 0 xGlobalSubscriptionList_init)"
  have t: "table_ok ?t" by (rule table_ok_add [OF table_ok_init])
  have "registrations (\<lambda>_. ''a/b'') ?t = {(filter_text (\<lambda>_. ''a/b'') 5 3, 3, 7, 0)}"
    using registrations_add [OF table_ok_init, of "\<lambda>_. ''a/b''" 5 3 7 0] by (simp add: add_to_init)
  with resubscription_callback_correct [OF t, of "[\<lparr>sub_qos = MQTTQoS1, pTopicFilter = 5,
      topicFilterLength = 3\<rparr>]" "\<lparr>returnCode = MQTTRecvFailed, pSubackCodes = [MQTTSubAckFailure]\<rparr>"
      "\<lambda>_. ''a/b''"]
  show ?thesis by (simp add: removal_hits_def)
qed

end
