(* ===== verification/Crt_Helpers.thy ===== *)
theory Crt_Helpers
  imports Prelude
begin

text \<open>
  The C library the applications rely on for numbers and strings: \<open>app_strnlen\<close> of
  \<^verbatim>\<open>crt_helpers\<close>, and the two functions of the standard library through which the OTA agent turns
  versions into text and back, \<open>snprintf\<close> with \<open>%u\<close> and \<open>strtoul\<close> in base 10 (an \<open>unsigned long\<close>
  has 32 bits on the target).
\<close>

section \<open>app\_strnlen\<close>

text \<open>The loop from index \<open>idx\<close>, with \<open>n\<close> characters to go before \<open>maxlen\<close>.\<close>

fun strnlen_scan :: "string \<Rightarrow> nat \<Rightarrow> nat \<Rightarrow> nat" where
  "strnlen_scan s 0 idx = idx"
| "strnlen_scan s (Suc n) idx =
     (if c_hd (drop idx s) = NUL then idx else strnlen_scan s n (Suc idx))"

text \<open>A null pointer is \<open>None\<close>. A string that ends without a NUL is read as if one followed.\<close>

definition app_strnlen :: "string option \<Rightarrow> nat \<Rightarrow> nat" where
  "app_strnlen s maxlen = (case s of None \<Rightarrow> 0 | Some t \<Rightarrow> strnlen_scan t maxlen 0)"

section \<open>Decimal text\<close>

definition digit_char :: "nat \<Rightarrow> char" where
  "digit_char d = char_of (48 + d)"

definition isdigit :: "char \<Rightarrow> bool" where
  "isdigit c \<longleftrightarrow> 48 \<le> (of_char c :: nat) \<and> (of_char c :: nat) \<le> 57"

definition isspace :: "char \<Rightarrow> bool" where
  "isspace c \<longleftrightarrow> (of_char c :: nat) = 32 \<or> (9 \<le> (of_char c :: nat) \<and> (of_char c :: nat) \<le> 13)"

text \<open>What \<open>snprintf( .., "%u", n )\<close> prints.\<close>

fun dec_string :: "nat \<Rightarrow> string" where
  "dec_string n =
     (if n < 10 then [digit_char n] else dec_string (n div 10) @ [digit_char (n mod 10)])"

declare dec_string.simps [simp del]

definition digits_value :: "string \<Rightarrow> nat" where
  "digits_value s = foldl (\<lambda>a c. 10 * a + (of_char c - 48)) 0 (takeWhile isdigit s)"

text \<open>
  \<open>strtoul( s, &end, 10 )\<close>: white space, an optional sign, digits. A value that does not fit gives
  \<open>ULONG_MAX\<close>, a minus sign negates the result as an unsigned number.
\<close>

definition strtoul10 :: "string \<Rightarrow> u32" where
  "strtoul10 s =
     (let t = dropWhile isspace s;
          neg = (c_hd t = CHR ''-'');
          u = (if c_hd t = CHR ''-'' \<or> c_hd t = CHR ''+'' then tl t else t);
          v = digits_value u
      in if v < 2 ^ 32 then (if neg then - of_nat v else of_nat v) else - 1)"

section \<open>Lemmas\<close>

lemma strnlen_scan_eq:
  "strnlen_scan s n idx = idx + length (takeWhile (\<lambda>c. c \<noteq> NUL) (take n (drop idx s @ [NUL])))"
proof (induction n arbitrary: idx)
  case 0
  show ?case by simp
next
  case (Suc n)
  show ?case
  proof (cases "drop idx s")
    case Nil
    then show ?thesis by simp
  next
    case (Cons c cs)
    then have "drop (Suc idx) s = cs" by (metis drop_Suc list.sel(3) tl_drop)
    with Cons Suc show ?thesis by (simp del: take_append)
  qed
qed

lemma takeWhile_take_NUL:
  "length (takeWhile (\<lambda>c. c \<noteq> NUL) (take n (s @ [NUL]))) = min n (length (takeWhile (\<lambda>c. c \<noteq> NUL) s))"
proof (induction s arbitrary: n)
  case Nil
  show ?case by (cases n) auto
next
  case (Cons c s)
  then show ?case by (cases n) auto
qed

lemma app_strnlen_eq: "app_strnlen (Some s) maxlen = min maxlen (strlen s)"
  by (simp add: app_strnlen_def strnlen_scan_eq takeWhile_take_NUL strlen_def c_str_def del: take_append)

lemma of_char_digit [simp]: "d < 10 \<Longrightarrow> (of_char (digit_char d) :: nat) = 48 + d"
  by (simp add: digit_char_def)

lemma isdigit_digit [simp]: "d < 10 \<Longrightarrow> isdigit (digit_char d)"
  by (simp add: isdigit_def)

lemma isspace_digit [simp]: "isdigit c \<Longrightarrow> \<not> isspace c"
  by (auto simp: isspace_def isdigit_def)

lemma sign_not_digit: "isdigit c \<Longrightarrow> c \<noteq> CHR ''-'' \<and> c \<noteq> CHR ''+''"
  by (auto simp: isdigit_def)

lemma dec_string_digits: "\<forall>c \<in> set (dec_string n). isdigit c"
proof (induction n rule: dec_string.induct)
  case (1 n)
  then show ?case by (subst dec_string.simps) auto
qed

lemma dec_string_not_Nil [simp]: "dec_string n \<noteq> []"
  by (subst dec_string.simps) simp

lemma digits_value_dec_string [simp]: "digits_value (dec_string n) = n"
proof -
  have "foldl (\<lambda>a c. 10 * a + (of_char c - 48)) 0 (dec_string n) = n"
  proof (induction n rule: dec_string.induct)
    case (1 n)
    then show ?case by (subst dec_string.simps) auto
  qed
  moreover have "takeWhile isdigit (dec_string n) = dec_string n"
    using dec_string_digits by (simp add: takeWhile_eq_all_conv)
  ultimately show ?thesis by (simp add: digits_value_def del: takeWhile_eq_all_conv)
qed

lemma strtoul10_digits:
  assumes "s \<noteq> []" and "\<forall>c \<in> set s. isdigit c"
  shows "strtoul10 s = (if digits_value s < 2 ^ 32 then of_nat (digits_value s) else - 1)"
proof -
  from assms obtain c cs where s: "s = c # cs" and c: "isdigit c" by (cases s) auto
  then have "dropWhile isspace s = s" by simp
  with s c sign_not_digit [OF c] show ?thesis by (simp add: strtoul10_def)
qed

text \<open>Printing and reading back: the identity on 32-bit numbers.\<close>

lemma strtoul10_dec_string:
  "strtoul10 (dec_string n) = (if n < 2 ^ 32 then of_nat n else - 1)"
  by (simp add: strtoul10_digits dec_string_digits)

lemma strtoul10_dec_string_word [simp]: "strtoul10 (dec_string (unat (x :: u32))) = x"
proof -
  have "unat x < 2 ^ 32" using unsigned_less [of x, where ?'a = nat] by simp
  then show ?thesis by (simp add: strtoul10_dec_string)
qed

lemma length_dec_string_le: "n < 10 ^ Suc k \<Longrightarrow> length (dec_string n) \<le> Suc k"
proof (induction k arbitrary: n)
  case 0
  then show ?case by (subst dec_string.simps) simp
next
  case (Suc k)
  then have "n div 10 < 10 ^ Suc k" by (simp add: div_less_iff_less_mult ac_simps)
  with Suc.IH [of "n div 10"] show ?case by (subst dec_string.simps) simp
qed

section \<open>Hexadecimal text\<close>

definition hex_char :: "nat \<Rightarrow> char" where
  "hex_char d = (if d < 10 then char_of (48 + d) else char_of (87 + d))"

text \<open>The value of a hexadecimal digit, in either case.\<close>

definition xdigit_value :: "char \<Rightarrow> nat option" where
  "xdigit_value c =
     (let n = of_char c :: nat
      in if 48 \<le> n \<and> n \<le> 57 then Some (n - 48)
         else if 97 \<le> n \<and> n \<le> 102 then Some (n - 87)
         else if 65 \<le> n \<and> n \<le> 70 then Some (n - 55)
         else None)"

text \<open>What \<open>snprintf( .., "%02x", b )\<close> prints.\<close>

definition hex_byte :: "u8 \<Rightarrow> string" where
  "hex_byte b = [hex_char (unat b div 16), hex_char (unat b mod 16)]"

fun xdigits_value :: "nat \<Rightarrow> string \<Rightarrow> nat" where
  "xdigits_value a [] = a"
| "xdigits_value a (c # cs) =
     (case xdigit_value c of None \<Rightarrow> a | Some d \<Rightarrow> xdigits_value (16 * a + d) cs)"

text \<open>
  \<open>strtoul( s, NULL, 16 )\<close>: white space, an optional sign, an optional \<open>0x\<close> before a digit,
  digits. A value that does not fit gives \<open>ULONG_MAX\<close>, a minus sign negates an unsigned number.
\<close>

definition strtoul16 :: "string \<Rightarrow> u32" where
  "strtoul16 s =
     (let t = dropWhile isspace (c_str s);
          neg = (c_hd t = CHR ''-'');
          u = (if c_hd t = CHR ''-'' \<or> c_hd t = CHR ''+'' then tl t else t);
          x = (if c_hd u = CHR ''0'' \<and> c_hd (tl u) \<in> {CHR ''x'', CHR ''X''} \<and>
                  xdigit_value (c_hd (tl (tl u))) \<noteq> None
               then tl (tl u) else u);
          v = xdigits_value 0 x
      in if v < 2 ^ 32 then (if neg then - of_nat v else of_nat v) else - 1)"

lemma xdigit_hex_char [simp]: "d < 16 \<Longrightarrow> xdigit_value (hex_char d) = Some d"
  by (auto simp: xdigit_value_def hex_char_def Let_def)

lemma hex_char_range:
  "d < 16 \<Longrightarrow> (of_char (hex_char d) :: nat) \<in> {48..57} \<union> {97..102}"
  by (auto simp: hex_char_def)

lemma hex_char_plain:
  assumes "d < 16"
  shows "\<not> isspace (hex_char d) \<and> hex_char d \<notin> {NUL, CHR ''-'', CHR ''+'', CHR ''x'', CHR ''X''}"
proof -
  have "(of_char (hex_char d) :: nat) \<notin> {0, 43, 45, 120, 88, 32} \<union> {9..13}"
    using hex_char_range [OF assms] by auto
  then show ?thesis by (auto simp: isspace_def)
qed

text \<open>Printing a byte in two digits and reading it back.\<close>

lemma strtoul16_hex_byte [simp]: "ucast (strtoul16 (hex_byte b)) = b"
proof -
  have b: "unat b < 256" using unsigned_less [of b, where ?'a = nat] by simp
  then have d: "unat b div 16 < 16" "unat b mod 16 < 16" by (simp_all add: div_less_iff_less_mult)
  have "strtoul16 (hex_byte b) = of_nat (unat b)"
    using b hex_char_plain [OF d(1)] hex_char_plain [OF d(2)] d
    by (simp add: strtoul16_def hex_byte_def Let_def)
  then show ?thesis by simp
qed

end
