(* ===== verification/Ota_Version.thy ===== *)
theory Ota_Version
  imports Crt_Helpers
begin

text \<open>
  The firmware version of \<^verbatim>\<open>ota_appversion32.h\<close>: a union of a struct with major, minor and build
  number and of the 32-bit number the OTA agent compares and prints. The struct's two layouts (one
  per byte order) give the same number.
\<close>

section \<open>Data\<close>

datatype app_version = AppVersion (v_major: u8) (v_minor: u8) (v_build: u16)

definition unsignedVersion32 :: "app_version \<Rightarrow> u32" where
  "unsignedVersion32 v =
     push_bit 24 (ucast (v_major v)) OR push_bit 16 (ucast (v_minor v)) OR ucast (v_build v)"

definition version_of :: "u32 \<Rightarrow> app_version" where
  "version_of x = AppVersion (ucast (drop_bit 24 x)) (ucast (drop_bit 16 x)) (ucast x)"

text \<open>Versions are ordered by major, then minor, then build number.\<close>

instantiation app_version :: linorder
begin

definition less_eq_app_version :: "app_version \<Rightarrow> app_version \<Rightarrow> bool" where
  "less_eq_app_version a b \<longleftrightarrow>
     v_major a < v_major b \<or> v_major a = v_major b \<and>
     (v_minor a < v_minor b \<or> v_minor a = v_minor b \<and> v_build a \<le> v_build b)"

definition less_app_version :: "app_version \<Rightarrow> app_version \<Rightarrow> bool" where
  "less_app_version a b \<longleftrightarrow>
     v_major a < v_major b \<or> v_major a = v_major b \<and>
     (v_minor a < v_minor b \<or> v_minor a = v_minor b \<and> v_build a < v_build b)"

instance
  by standard
    (auto simp: less_eq_app_version_def less_app_version_def intro: app_version.expand)

end

section \<open>The number of a version\<close>

text \<open>The three fields do not overlap, so the number is their weighted sum.\<close>

lemma unat_version:
  "unat (unsignedVersion32 v) =
     unat (v_major v) * 2 ^ 24 + unat (v_minor v) * 2 ^ 16 + unat (v_build v)"
proof -
  let ?a = "push_bit 24 (ucast (v_major v)) :: u32"
  let ?b = "push_bit 16 (ucast (v_minor v)) :: u32"
  let ?c = "ucast (v_build v) :: u32"
  have ma: "unat (v_major v) < 2 ^ 8" using unsigned_less [of "v_major v", where ?'a = nat] by simp
  have mi: "unat (v_minor v) < 2 ^ 8" using unsigned_less [of "v_minor v", where ?'a = nat] by simp
  have bu: "unat (v_build v) < 2 ^ 16" using unsigned_less [of "v_build v", where ?'a = nat] by simp
  have "?a AND ?b = 0" and "?a AND ?c = 0" and "?b AND ?c = 0"
    by (auto simp: bit_eq_iff bit_simps dest: bit_imp_le_length)
  then have "unsignedVersion32 v = ?a + ?b + ?c"
    by (simp add: unsignedVersion32_def disjunctive_add_eq_or bit.conj_disj_distrib2 or.assoc)
  moreover have "unat ?a = unat (v_major v) * 2 ^ 24"
    using ma by (simp add: push_bit_eq_mult unat_word_ariths)
  moreover have "unat ?b = unat (v_minor v) * 2 ^ 16"
    using mi by (simp add: push_bit_eq_mult unat_word_ariths)
  ultimately show ?thesis
    using ma mi bu by (simp add: unat_word_ariths)
qed

lemma lex_sum_less:
  fixes a b c a' b' c' m n :: nat
  assumes "b < m" and "b' < m" and "c < n" and "c' < n"
  shows "(a * (m * n) + b * n + c < a' * (m * n) + b' * n + c') \<longleftrightarrow>
         (a < a' \<or> a = a' \<and> (b < b' \<or> b = b' \<and> c < c'))"
proof -
  have two: "x * k + y < x' * k + y' \<longleftrightarrow> x < x' \<or> x = x' \<and> y < y'"
    if "y < k" and "y' < k" for x y x' y' k :: nat
  proof -
    have "x * k + y < x' * k + y'" if "x < x'"
    proof -
      from that have "Suc x * k \<le> x' * k" by (intro mult_le_mono1) simp
      with \<open>y < k\<close> show ?thesis by simp
    qed
    moreover have "\<not> x * k + y < x' * k + y'" if "x' < x"
    proof -
      from that have "Suc x' * k \<le> x * k" by (intro mult_le_mono1) simp
      with \<open>y' < k\<close> show ?thesis by simp
    qed
    ultimately show ?thesis by (cases x x' rule: linorder_cases) auto
  qed
  have inner: "u * n + v < m * n" if "u < m" and "v < n" for u v
  proof -
    from that(1) have "Suc u * n \<le> m * n" by (intro mult_le_mono1) simp
    with that(2) show ?thesis by simp
  qed
  show ?thesis
    using two [OF inner [OF assms(1,3)] inner [OF assms(2,4)], of a a'] two [OF assms(3,4), of b b']
    by (simp add: add.assoc)
qed

lemma version_less_iff: "unsignedVersion32 a < unsignedVersion32 b \<longleftrightarrow> a < b"
proof -
  have ub: "unat (x :: u8) < 2 ^ 8" "unat (y :: u16) < 2 ^ 16" for x y
    using unsigned_less [of x, where ?'a = nat] unsigned_less [of y, where ?'a = nat] by simp_all
  have "unsignedVersion32 a < unsignedVersion32 b \<longleftrightarrow>
      unat (v_major a) * (2 ^ 8 * 2 ^ 16) + unat (v_minor a) * 2 ^ 16 + unat (v_build a)
      < unat (v_major b) * (2 ^ 8 * 2 ^ 16) + unat (v_minor b) * 2 ^ 16 + unat (v_build b)"
    by (simp add: word_less_nat_alt unat_version)
  also have "\<dots> \<longleftrightarrow> a < b"
    by (subst lex_sum_less [OF ub(1) ub(1) ub(2) ub(2)])
      (auto simp: less_app_version_def word_less_nat_alt dest: unsigned_word_eqI)
  finally show ?thesis .
qed

lemma version_of_unsignedVersion32 [simp]: "version_of (unsignedVersion32 v) = v"
proof (cases v)
  case (AppVersion a b c)
  have "ucast (drop_bit 24 (unsignedVersion32 v)) = a"
    and "ucast (drop_bit 16 (unsignedVersion32 v)) = b"
    and "ucast (unsignedVersion32 v) = c"
    unfolding AppVersion unsignedVersion32_def
    by (auto simp: bit_eq_iff bit_simps simp del: drop_bit_or dest: bit_imp_le_length)
  with AppVersion show ?thesis by (simp add: version_of_def)
qed

lemma unsignedVersion32_version_of [simp]: "unsignedVersion32 (version_of x) = x"
proof (rule bit_word_eqI)
  fix n assume n: "n < LENGTH(32)"
  consider "n < 16" | "16 \<le> n" "n < 24" | "24 \<le> n" by linarith
  then show "bit (unsignedVersion32 (version_of x)) n = bit x n"
    using n by cases (auto simp: version_of_def unsignedVersion32_def bit_simps not_less)
qed

text \<open>The 32-bit number of a firmware version loses nothing and orders versions the way their
  major, minor and build numbers do, whichever union layout the byte order selects.\<close>

theorem version_number_faithful:
  "version_of (unsignedVersion32 v) = v \<and> unsignedVersion32 (version_of x) = x \<and>
   (unsignedVersion32 v < unsignedVersion32 w \<longleftrightarrow> v < w)"
  by (simp add: version_less_iff)

end
