(* ===== verification/Ota_Types.thy ===== *)
theory Ota_Types
  imports Mqtt_Types Ota_Version "HOL-Library.Monad_Syntax"
begin

text \<open>
  The types of the over-the-air update agent (\<^verbatim>\<open>ota_types_definitions.h\<close>, \<^verbatim>\<open>ota_os_freertos.h\<close>,
  \<^verbatim>\<open>mqtt_helpers.h\<close> and the global variables of \<^verbatim>\<open>ota_orchestrator.c\<close>), and the interfaces of the
  code around it: the Jobs and file-streams libraries, the OTA platform layer, the MQTT agent and the
  kernel are the fields of \<open>ota_env\<close>, functions on the state \<open>'w\<close> of everything outside.

  Every operation of the OTA agent is a function on \<open>ota_state\<close> with an optional result; \<open>None\<close>
  means that a \<open>configASSERT\<close> halts the system or that a null handle is used.
\<close>

section \<open>Enumerations\<close>

datatype OtaEvent =
    OtaAgentEventStart | OtaAgentEventRequestJobDocument | OtaAgentEventReceivedJobDocument
  | OtaAgentEventCreateFile | OtaAgentEventRequestFileBlock | OtaAgentEventReceivedFileBlock
  | OtaAgentEventCloseFile | OtaAgentEventActivateImage | OtaAgentEventSuspend
  | OtaAgentEventResume | OtaAgentEventUserAbort | OtaAgentEventShutdown | OtaAgentEventMax

datatype OtaState =
    OtaAgentStateNoTransition | OtaAgentStateInit | OtaAgentStateReady
  | OtaAgentStateRequestingJob | OtaAgentStateWaitingForJob | OtaAgentStateCreatingFile
  | OtaAgentStateRequestingFileBlock | OtaAgentStateWaitingForFileBlock
  | OtaAgentStateClosingFile | OtaAgentStateSuspended | OtaAgentStateShuttingDown
  | OtaAgentStateStopped | OtaAgentStateAll

datatype OtaOsStatus =
    OtaOsSuccess | OtaOsEventQueueCreateFailed | OtaOsEventQueueSendFailed
  | OtaOsEventQueueReceiveFailed | OtaOsEventQueueDeleteFailed

datatype OtaMqttStatus =
    OtaMqttSuccess | OtaMqttPublishFailed | OtaMqttSubscribeFailed | OtaMqttUnsubscribeFailed

text \<open>The values of the Jobs library's and the platform layer's enumerations the sources name.\<close>

datatype JobCurrentStatus = InProgress | Succeeded | Failed
datatype OtaImageState = OtaImageStateAccepted | OtaImageStateRejected
datatype OtaPalJobDocProcessingResult =
    OtaPalJobDocFileCreated | OtaPalJobDocFileCreateFailed | OtaPalNewImageBooted
  | OtaPalNewImageBootFailed | OtaPalJobDocProcessingStateInvalid

section \<open>Sizes\<close>

abbreviation MAX_JOB_ID_LENGTH :: nat where "MAX_JOB_ID_LENGTH \<equiv> 64"
abbreviation JOB_DOC_SIZE :: nat where "JOB_DOC_SIZE \<equiv> 2048"
abbreviation START_JOB_MSG_LENGTH :: nat where "START_JOB_MSG_LENGTH \<equiv> 147"
abbreviation UPDATE_JOB_MSG_LENGTH :: nat where "UPDATE_JOB_MSG_LENGTH \<equiv> 128"
abbreviation OTA_MAX_SIGNATURE_SIZE :: nat where "OTA_MAX_SIGNATURE_SIZE \<equiv> 384"
abbreviation otaconfigMAX_NUM_OTA_DATA_BUFFERS :: nat where "otaconfigMAX_NUM_OTA_DATA_BUFFERS \<equiv> 2"
abbreviation MAX_MESSAGES :: nat where "MAX_MESSAGES \<equiv> 20"

definition mqttFileDownloader_CONFIG_BLOCK_SIZE :: u32 where
  "mqttFileDownloader_CONFIG_BLOCK_SIZE = 4096"
definition DATA_BUFFER_SIZE :: nat where "DATA_BUFFER_SIZE = 8192"
definition otaexampleMQTT_TIMEOUT_MS :: u32 where "otaexampleMQTT_TIMEOUT_MS = 5000"
definition NUM_OF_BLOCKS_REQUESTED :: u32 where "NUM_OF_BLOCKS_REQUESTED = 1"

section \<open>Structures\<close>

text \<open>\<open>size_t\<close> lengths are numbers. The array of a structure keeps its declared length.\<close>

record OtaDataEvent =
  data :: string
  dataLength :: nat
  bufferUsed :: bool

record OtaJobEventData =
  jobData :: string
  jobDataLength :: nat

text \<open>
  \<open>dataEvent\<close> points into \<open>dataBuffers\<close>: it is an index, or \<open>None\<close> for a null pointer. \<open>jobEvent\<close>
  tells whether the other pointer is the address of \<open>jobDocBuffer\<close> or null.
\<close>

record OtaEventMsg =
  dataEvent :: "nat option"
  jobEvent :: bool
  eventId :: OtaEvent

definition zero_event :: OtaEventMsg where
  "zero_event = \<lparr>dataEvent = None, jobEvent = False, eventId = OtaAgentEventStart\<rparr>"

text \<open>The fields of the Jobs library's structures the sources read; a pointer is what it points to.\<close>

record AfrOtaJobDocumentFields =
  signature :: string
  signatureLen :: nat
  imageRef :: string
  imageRefLen :: nat
  filepath :: string
  filepathLen :: nat
  certfile :: string
  certfileLen :: nat
  fileSize :: u32
  fileId :: u32

definition zero_fields :: AfrOtaJobDocumentFields where
  "zero_fields = \<lparr>signature = [], signatureLen = 0, imageRef = [], imageRefLen = 0, filepath = [],
     filepathLen = 0, certfile = [], certfileLen = 0, fileSize = 0, fileId = 0\<rparr>"

record AfrOtaJobDocumentStatusDetails =
  updatedBy :: string
  updatedByLen :: nat

record MqttFileDownloaderContext =
  topicStreamData :: string
  topicStreamDataLength :: nat
  topicGetStream :: string
  topicGetStreamLength :: nat
  dataType :: nat

section \<open>The state of the agent\<close>

text \<open>A write or read outside an array, which C leaves undefined, is logged.\<close>

datatype ota_fault = Job_data_overflow | Job_id_overflow | Job_id_unterminated | Vla_overrun

record ota_job =
  globalJobId :: string
  jobFields :: AfrOtaJobDocumentFields
  jobStatusDetails :: AfrOtaJobDocumentStatusDetails
  OtaImageSignatureDecoded :: string

record ota_download =
  mqttFileDownloaderContext :: MqttFileDownloaderContext
  currentFileId :: u8
  currentBlockOffset :: u32
  numOfBlocksRemaining :: u32
  totalBytesReceived :: u32

text \<open>The static command contexts of \<^verbatim>\<open>mqtt_helpers.c\<close> and the OTA task's pending notification.\<close>

record ota_commands =
  publishContext :: MQTTAgentCommandContext
  subscribeContext :: MQTTAgentCommandContext
  unsubscribeContext :: MQTTAgentCommandContext
  ota_notification :: notification

record ('q, 'w) ota_state =
  otaAgentState :: OtaState
  job :: ota_job
  dl :: ota_download
  jobDocBuffer :: OtaJobEventData
  dataBuffers :: "OtaDataEvent list"
  otaEventQueue :: "'q option"
  ota_subs :: sub_table
  cmds :: ota_commands
  ota_faults :: "ota_fault list"
  ota_world :: 'w

section \<open>The code around the agent\<close>

text \<open>
  What other tasks do while the OTA task waits: the MQTT agent task delivers a publish to one of the
  three callbacks or completes a command, the demo task polls the connection.
\<close>

datatype other_step =
    Job_publish MQTTPublishInfo | Default_publish MQTTPublishInfo | Data_publish MQTTPublishInfo
  | Publish_complete MQTTStatus | Subscribe_complete MQTTStatus | Unsubscribe_complete MQTTStatus
  | Demo_poll bool

datatype ota_callback = Job_callback | Data_callback | Default_callback

record jobs_lib =
  Jobs_IsStartNextAccepted :: "string \<Rightarrow> u16 \<Rightarrow> string \<Rightarrow> nat \<Rightarrow> bool"
  Jobs_GetJobId :: "string \<Rightarrow> nat \<Rightarrow> nat \<times> string"
  Jobs_GetJobDocument :: "string \<Rightarrow> nat \<Rightarrow> nat \<times> string"
  Jobs_StartNext :: "string \<Rightarrow> u16 \<Rightarrow> string \<times> nat"
  Jobs_StartNextMsg :: "string \<Rightarrow> nat \<Rightarrow> nat \<Rightarrow> string \<times> nat"
  Jobs_Update :: "string \<Rightarrow> u16 \<Rightarrow> string \<Rightarrow> u16 \<Rightarrow> string \<times> nat"
  Jobs_UpdateMsg :: "JobCurrentStatus \<Rightarrow> string \<Rightarrow> nat \<Rightarrow> string \<Rightarrow> nat \<Rightarrow> nat \<Rightarrow> string \<times> nat"
  otaParser_parseJobDocFile ::
    "string \<Rightarrow> nat \<Rightarrow> u8 \<Rightarrow> AfrOtaJobDocumentFields \<Rightarrow> u8 \<times> AfrOtaJobDocumentFields"
  populateJobStatusDetailsFields ::
    "string \<Rightarrow> nat \<Rightarrow> AfrOtaJobDocumentStatusDetails \<Rightarrow> AfrOtaJobDocumentStatusDetails"
  base64_Decode :: "nat \<Rightarrow> string \<Rightarrow> nat \<Rightarrow> bool \<times> string"

record downloader_lib =
  mqttDownloader_init ::
    "MqttFileDownloaderContext \<Rightarrow> string \<Rightarrow> nat \<Rightarrow> string \<Rightarrow> nat \<Rightarrow> MqttFileDownloaderContext"
  mqttDownloader_createGetDataBlockRequest ::
    "nat \<Rightarrow> u16 \<Rightarrow> u32 \<Rightarrow> u16 \<Rightarrow> u32 \<Rightarrow> string \<times> nat"
  mqttDownloader_processReceivedDataBlock ::
    "MqttFileDownloaderContext \<Rightarrow> string \<Rightarrow> nat \<Rightarrow> string \<times> nat"

record 'w ota_pal =
  otaPal_CloseFile :: "AfrOtaJobDocumentFields \<Rightarrow> 'w \<Rightarrow> bool \<times> 'w"
  otaPal_ActivateNewImage :: "AfrOtaJobDocumentFields \<Rightarrow> 'w \<Rightarrow> bool \<times> 'w"
  otaPal_GetPlatformImageVersion :: "AfrOtaJobDocumentFields \<Rightarrow> 'w \<Rightarrow> bool \<times> u32 \<times> 'w"
  otaPal_ImageStateIsPendingCommit :: "AfrOtaJobDocumentFields \<Rightarrow> 'w \<Rightarrow> bool \<times> 'w"
  otaPal_SetPlatformImageState :: "AfrOtaJobDocumentFields \<Rightarrow> OtaImageState \<Rightarrow> 'w \<Rightarrow> 'w"
  otaPal_CreateFileForRx :: "AfrOtaJobDocumentFields \<Rightarrow> 'w \<Rightarrow> OtaPalJobDocProcessingResult \<times> 'w"
  otaPal_WriteBlock :: "AfrOtaJobDocumentFields \<Rightarrow> u32 \<Rightarrow> string \<Rightarrow> nat \<Rightarrow> 'w \<Rightarrow> u16 \<times> 'w"
  vOtaActiveHook :: "'w \<Rightarrow> 'w"
  vOtaNotActiveHook :: "'w \<Rightarrow> 'w"

record 'w ota_net =
  ota_MQTTAgent_Subscribe :: "MQTTSubscribeInfo \<Rightarrow> u32 \<Rightarrow> 'w \<Rightarrow> MQTTStatus \<times> 'w"
  ota_MQTTAgent_Unsubscribe :: "MQTTSubscribeInfo \<Rightarrow> u32 \<Rightarrow> 'w \<Rightarrow> MQTTStatus \<times> 'w"
  ota_MQTTAgent_Publish :: "MQTTPublishInfo \<Rightarrow> MQTTQoS \<Rightarrow> u32 \<Rightarrow> 'w \<Rightarrow> MQTTStatus \<times> 'w"
  ota_MatchTopic :: topic_matcher
  other_tasks :: "u32 \<Rightarrow> 'w \<Rightarrow> other_step list \<times> 'w"
  xSemaphoreTake :: "'w \<Rightarrow> bool \<times> 'w"

text \<open>
  \<open>code_address\<close> are the addresses of the callbacks, \<open>stream_topic_address\<close> the address of
  \<open>topicStreamData\<close> in the downloader's context, \<open>default_filter_address\<close> that of the literal
  \<open>OTA_DEFAULT_TOPIC_FILTER\<close> and \<open>ota_rom\<close> the rest of the memory topic filters live in.
\<close>

record ('q, 'w) ota_env =
  jobs :: jobs_lib
  downloader :: downloader_lib
  pal :: "'w ota_pal"
  net :: "'w ota_net"
  kernel :: "('q, OtaEventMsg) kernel_queue"
  OTA_THING_NAME :: string
  ota_task_handle :: nat
  code_address :: "ota_callback \<Rightarrow> ptr"
  stream_topic_address :: ptr
  default_filter_address :: ptr
  ota_rom :: memory

definition OTA_JOB_NOTIFY_TOPIC_FILTER :: string where
  "OTA_JOB_NOTIFY_TOPIC_FILTER = ''$aws/things/+/jobs/start-next''"
definition OTA_JOB_ACCEPTED_RESPONSE_TOPIC_FILTER :: string where
  "OTA_JOB_ACCEPTED_RESPONSE_TOPIC_FILTER = ''$aws/things/+/jobs/start-next/accepted''"
definition OTA_DATA_STREAM_TOPIC_FILTER :: string where
  "OTA_DATA_STREAM_TOPIC_FILTER = ''$aws/things/+/streams/#''"
definition OTA_DEFAULT_TOPIC_FILTER :: string where
  "OTA_DEFAULT_TOPIC_FILTER = ''$aws/things/+/jobs/#''"

text \<open>
  The memory topic filters are read from. The stream topic lives in the downloader's context: a
  subscription that points to it changes its text when the context is initialised again.
\<close>

definition ota_memory :: "('q, 'w) ota_env \<Rightarrow> ('q, 'w) ota_state \<Rightarrow> memory" where
  "ota_memory E s = (ota_rom E)(default_filter_address E := OTA_DEFAULT_TOPIC_FILTER,
     stream_topic_address E := topicStreamData (mqttFileDownloaderContext (dl s)))"

section \<open>A concrete environment\<close>

text \<open>
  An instance of the parameters on which the theorems are applied: the world is the list of what
  other tasks do at each wait; libraries and platform layer are simple functions.
\<close>

definition sample_jobs :: jobs_lib where
  "sample_jobs = \<lparr>Jobs_IsStartNextAccepted = (\<lambda>t n th m. t = ''jobs''),
     Jobs_GetJobId = (\<lambda>d n. if n = 0 then (0, []) else (2, take 2 d)),
     Jobs_GetJobDocument = (\<lambda>d n. (n - 2, drop 2 d)),
     Jobs_StartNext = (\<lambda>th n. (''start'', 5)),
     Jobs_StartNextMsg = (\<lambda>th n m. (''msg'', 3)),
     Jobs_Update = (\<lambda>th n i m. (''update'', 6)),
     Jobs_UpdateMsg = (\<lambda>st v n u un m. (u, un)),
     otaParser_parseJobDocFile = (\<lambda>d n i f. (0, f\<lparr>fileSize := 10000, fileId := 7\<rparr>)),
     populateJobStatusDetailsFields = (\<lambda>d n f. \<lparr>updatedBy = ''70000'', updatedByLen = 5\<rparr>),
     base64_Decode = (\<lambda>m d n. (True, take n d))\<rparr>"

definition sample_context :: MqttFileDownloaderContext where
  "sample_context = \<lparr>topicStreamData = ''stream'', topicStreamDataLength = 6,
     topicGetStream = ''get'', topicGetStreamLength = 3, dataType = 0\<rparr>"

definition sample_downloader :: downloader_lib where
  "sample_downloader = \<lparr>mqttDownloader_init = (\<lambda>c s n t m. sample_context),
     mqttDownloader_createGetDataBlockRequest = (\<lambda>t f b off n. (''request'', 7)),
     mqttDownloader_processReceivedDataBlock = (\<lambda>c d n. (take n d, n))\<rparr>"

definition sample_pal :: "bool \<Rightarrow> u32 \<Rightarrow> u16 \<Rightarrow> other_step list list ota_pal" where
  "sample_pal pending version written = \<lparr>otaPal_CloseFile = (\<lambda>f w. (True, w)),
     otaPal_ActivateNewImage = (\<lambda>f w. (True, w)),
     otaPal_GetPlatformImageVersion = (\<lambda>f w. (True, version, w)),
     otaPal_ImageStateIsPendingCommit = (\<lambda>f w. (pending, w)),
     otaPal_SetPlatformImageState = (\<lambda>f st w. w),
     otaPal_CreateFileForRx = (\<lambda>f w. (OtaPalJobDocFileCreated, w)),
     otaPal_WriteBlock = (\<lambda>f off d n w. (written, w)),
     vOtaActiveHook = (\<lambda>w. w), vOtaNotActiveHook = (\<lambda>w. w)\<rparr>"

definition sample_net :: "other_step list list ota_net" where
  "sample_net = \<lparr>ota_MQTTAgent_Subscribe = (\<lambda>i t w. (MQTTSuccess, w)),
     ota_MQTTAgent_Unsubscribe = (\<lambda>i t w. (MQTTSuccess, w)),
     ota_MQTTAgent_Publish = (\<lambda>i q t w. (MQTTSuccess, w)),
     ota_MatchTopic = (\<lambda>t n f m. Some (t = f)),
     other_tasks = (\<lambda>t w. case w of [] \<Rightarrow> ([], []) | x # xs \<Rightarrow> (x, xs)),
     xSemaphoreTake = (\<lambda>w. (True, w))\<rparr>"

definition sample_env ::
  "bool \<Rightarrow> u32 \<Rightarrow> u16 \<Rightarrow> (OtaEventMsg list, other_step list list) ota_env" where
  "sample_env pending version written = \<lparr>jobs = sample_jobs, downloader = sample_downloader,
     pal = sample_pal pending version written, net = sample_net, kernel = list_kernel MAX_MESSAGES,
     OTA_THING_NAME = ''thing'', ota_task_handle = 1,
     code_address = (\<lambda>cb. case cb of Job_callback \<Rightarrow> 11 | Data_callback \<Rightarrow> 12 | Default_callback \<Rightarrow> 13),
     stream_topic_address = 21, default_filter_address = 22, ota_rom = (\<lambda>_. [])\<rparr>"

definition zero_command :: MQTTAgentCommandContext where
  "zero_command = \<lparr>xReturnStatus = MQTTSuccess, xTaskToNotify = None, pArgs = []\<rparr>"

text \<open>The static variables of the agent at start-up, with the queue not yet created.\<close>

definition initial_state :: "'w \<Rightarrow> ('q, 'w) ota_state" where
  "initial_state w = \<lparr>otaAgentState = OtaAgentStateInit,
     job = \<lparr>globalJobId = replicate MAX_JOB_ID_LENGTH NUL, jobFields = zero_fields,
            jobStatusDetails = \<lparr>updatedBy = [], updatedByLen = 0\<rparr>,
            OtaImageSignatureDecoded = replicate OTA_MAX_SIGNATURE_SIZE NUL\<rparr>,
     dl = \<lparr>mqttFileDownloaderContext = \<lparr>topicStreamData = [], topicStreamDataLength = 0,
             topicGetStream = [], topicGetStreamLength = 0, dataType = 0\<rparr>,
           currentFileId = 0, currentBlockOffset = 0, numOfBlocksRemaining = 0, totalBytesReceived = 0\<rparr>,
     jobDocBuffer = \<lparr>jobData = replicate JOB_DOC_SIZE NUL, jobDataLength = 0\<rparr>,
     dataBuffers = replicate otaconfigMAX_NUM_OTA_DATA_BUFFERS
       \<lparr>data = replicate DATA_BUFFER_SIZE NUL, dataLength = 0, bufferUsed = False\<rparr>,
     otaEventQueue = None, ota_subs = xGlobalSubscriptionList_init,
     cmds = \<lparr>publishContext = zero_command, subscribeContext = zero_command,
             unsubscribeContext = zero_command, ota_notification = None\<rparr>,
     ota_faults = [], ota_world = w\<rparr>"

lemma sample_env_simps [simp]:
  "jobs (sample_env p v r) = sample_jobs" "downloader (sample_env p v r) = sample_downloader"
  "pal (sample_env p v r) = sample_pal p v r" "net (sample_env p v r) = sample_net"
  "kernel (sample_env p v r) = list_kernel MAX_MESSAGES" "ota_task_handle (sample_env p v r) = 1"
  "OTA_THING_NAME (sample_env p v r) = ''thing''"
  by (simp_all add: sample_env_def)

lemmas sample_defs = sample_jobs_def sample_context_def sample_downloader_def sample_pal_def sample_net_def

end
