(* ===== verification/Ota_Events.thy ===== *)
theory Ota_Events
  imports Ota_Types
begin

text \<open>
  The two resources the OTA agent shares with the MQTT agent task: the event queue of
  \<^verbatim>\<open>ota_os_freertos.c\<close> and the data buffers of \<^verbatim>\<open>ota_orchestrator.c\<close>. Each is proved to keep its
  contract: the queue is a bounded first-in first-out queue of 20 events, the buffers are a pool of
  two slots.
\<close>

section \<open>The event queue\<close>

definition OtaInitEvent_FreeRTOS :: "(nat \<Rightarrow> 'q option) \<Rightarrow> OtaOsStatus \<times> 'q option" where
  "OtaInitEvent_FreeRTOS create =
     (case create MAX_MESSAGES of
        None \<Rightarrow> (OtaOsEventQueueCreateFailed, None)
      | Some q \<Rightarrow> (OtaOsSuccess, Some q))"

text \<open>The kernel asserts that the handle is not null.\<close>

definition OtaSendEvent_FreeRTOS ::
  "('q, OtaEventMsg) kernel_queue \<Rightarrow> 'q option \<Rightarrow> OtaEventMsg \<Rightarrow> (OtaOsStatus \<times> 'q option) option"
where
  "OtaSendEvent_FreeRTOS K queue pEventMsg =
     (case queue of
        None \<Rightarrow> None
      | Some q \<Rightarrow>
          (let (retVal, q') = xQueueSendToBack K q pEventMsg 0
           in Some (if retVal then OtaOsSuccess else OtaOsEventQueueSendFailed, Some q')))"

text \<open>\<open>pEventMsg\<close> is the caller's structure before the call; it is only written on success.\<close>

definition OtaReceiveEvent_FreeRTOS ::
  "('q, OtaEventMsg) kernel_queue \<Rightarrow> 'q option \<Rightarrow> OtaEventMsg \<Rightarrow>
   (OtaOsStatus \<times> OtaEventMsg \<times> 'q option) option"
where
  "OtaReceiveEvent_FreeRTOS K queue pEventMsg =
     (case queue of
        None \<Rightarrow> None
      | Some q \<Rightarrow>
          (case xQueueReceive K q (pdMS_TO_TICKS 3000) of
             (Some m, q') \<Rightarrow> Some (OtaOsSuccess, m, Some q')
           | (None, q') \<Rightarrow> Some (OtaOsEventQueueReceiveFailed, pEventMsg, Some q')))"

definition OtaDeinitEvent_FreeRTOS :: "'q option \<Rightarrow> 'q option" where
  "OtaDeinitEvent_FreeRTOS queue = None"

section \<open>The data buffers\<close>

text \<open>The loop of \<open>getOtaDataEventBuffer\<close> from index \<open>ulIndex\<close> with \<open>n\<close> buffers to go.\<close>

fun get_scan :: "OtaDataEvent list \<Rightarrow> nat \<Rightarrow> nat \<Rightarrow> nat option \<times> OtaDataEvent list" where
  "get_scan bufs ulIndex 0 = (None, bufs)"
| "get_scan bufs ulIndex (Suc n) =
     (if \<not> bufferUsed (bufs ! ulIndex)
      then (Some ulIndex, bufs[ulIndex := (bufs ! ulIndex)
              \<lparr>bufferUsed := True, dataLength := DATA_BUFFER_SIZE\<rparr>])
      else get_scan bufs (Suc ulIndex) n)"

text \<open>\<open>taken\<close> is the result of \<open>xSemaphoreTake\<close> on the mutex.\<close>

definition getOtaDataEventBuffer ::
  "bool \<Rightarrow> OtaDataEvent list \<Rightarrow> nat option \<times> OtaDataEvent list" where
  "getOtaDataEventBuffer taken bufs =
     (if taken then get_scan bufs 0 otaconfigMAX_NUM_OTA_DATA_BUFFERS else (None, bufs))"

definition freeOtaDataEventBuffer :: "bool \<Rightarrow> nat \<Rightarrow> OtaDataEvent list \<Rightarrow> OtaDataEvent list" where
  "freeOtaDataEventBuffer taken i bufs =
     (if taken then bufs[i := (bufs ! i)\<lparr>bufferUsed := False\<rparr>] else bufs)"

section \<open>The queue keeps its contract\<close>

definition event_send ::
  "('q, OtaEventMsg) kernel_queue \<Rightarrow> 'q \<Rightarrow> OtaEventMsg \<Rightarrow> bool \<times> 'q" where
  "event_send K q m =
     (case OtaSendEvent_FreeRTOS K (Some q) m of
        Some (st, Some q') \<Rightarrow> (st = OtaOsSuccess, q') | _ \<Rightarrow> (False, q))"

definition event_recv :: "('q, OtaEventMsg) kernel_queue \<Rightarrow> 'q \<Rightarrow> OtaEventMsg option \<times> 'q" where
  "event_recv K q =
     (case OtaReceiveEvent_FreeRTOS K (Some q) zero_event of
        Some (st, m, Some q') \<Rightarrow> (if st = OtaOsSuccess then Some m else None, q') | _ \<Rightarrow> (None, q))"

lemma event_send_eq: "event_send K q m = xQueueSendToBack K q m 0"
  by (simp add: event_send_def OtaSendEvent_FreeRTOS_def split: prod.split)

lemma event_recv_eq: "event_recv K q = xQueueReceive K q (pdMS_TO_TICKS 3000)"
  by (simp add: event_recv_def OtaReceiveEvent_FreeRTOS_def split: prod.split option.split)

lemma OtaSendEvent_eq:
  "OtaSendEvent_FreeRTOS K (Some q) m =
     Some (if fst (event_send K q m) then OtaOsSuccess else OtaOsEventQueueSendFailed,
           Some (snd (event_send K q m)))"
  by (simp add: event_send_eq OtaSendEvent_FreeRTOS_def split: prod.split)

lemma OtaReceiveEvent_eq:
  "OtaReceiveEvent_FreeRTOS K (Some q) buf =
     Some (case fst (event_recv K q) of
             None \<Rightarrow> (OtaOsEventQueueReceiveFailed, buf, Some (snd (event_recv K q)))
           | Some m \<Rightarrow> (OtaOsSuccess, m, Some (snd (event_recv K q))))"
  by (simp add: event_recv_eq OtaReceiveEvent_FreeRTOS_def split: prod.split option.split)

lemma event_queue_fifo:
  "kernel_fifo K items cap \<Longrightarrow> bounded_fifo (event_send K) (event_recv K) items cap"
  unfolding kernel_fifo_def bounded_fifo_def event_send_eq event_recv_eq
  by (meson)

interpretation ota_events: bounded_fifo "event_send (list_kernel n)" "event_recv (list_kernel n)"
  "\<lambda>q. q" n for n :: nat
  by (rule event_queue_fifo) simp

text \<open>The two facts the event loop's proofs use: what a send and a receive do to the content.\<close>

lemma items_event_send:
  assumes "kernel_fifo K items cap"
  shows "items (snd (event_send K q m)) = items q @ (if length (items q) < cap then [m] else [])"
  by (rule bounded_fifo.items_send [OF event_queue_fifo [OF assms]])

lemma items_event_recv:
  assumes "kernel_fifo K items cap"
  shows "fst (event_recv K q) = (case items q of [] \<Rightarrow> None | m # _ \<Rightarrow> Some m)"
    and "items (snd (event_recv K q)) = tl (items q)"
  by (rule bounded_fifo.rcv_value [OF event_queue_fifo [OF assms]],
      rule bounded_fifo.items_rcv [OF event_queue_fifo [OF assms]])

section \<open>The buffers keep their contract\<close>

definition buffers_ok :: "OtaDataEvent list \<Rightarrow> bool" where
  "buffers_ok bufs \<longleftrightarrow> length bufs = otaconfigMAX_NUM_OTA_DATA_BUFFERS \<and>
     (\<forall>b \<in> set bufs. length (data b) = DATA_BUFFER_SIZE)"

definition used_buffers :: "OtaDataEvent list \<Rightarrow> nat set" where
  "used_buffers bufs = {i. i < length bufs \<and> bufferUsed (bufs ! i)}"

lemma get_scan_eq:
  "k + n = length bufs \<Longrightarrow> get_scan bufs k n =
     (case first_index (\<lambda>i. k \<le> i \<and> \<not> bufferUsed (bufs ! i)) (k + n) of
        None \<Rightarrow> (None, bufs)
      | Some i \<Rightarrow> (Some i, bufs[i := (bufs ! i)\<lparr>bufferUsed := True, dataLength := DATA_BUFFER_SIZE\<rparr>]))"
proof (induction n arbitrary: k)
  case 0
  then have "first_index (\<lambda>i. k \<le> i \<and> \<not> bufferUsed (bufs ! i)) k = None"
    by (simp add: first_index_None)
  with 0 show ?case by simp
next
  case (Suc n)
  show ?case
  proof (cases "bufferUsed (bufs ! k)")
    case True
    have "first_index (\<lambda>i. k \<le> i \<and> \<not> bufferUsed (bufs ! i)) (k + Suc n) =
          first_index (\<lambda>i. Suc k \<le> i \<and> \<not> bufferUsed (bufs ! i)) (Suc k + n)"
      using True by (auto intro!: first_index_cong simp: Suc_le_eq le_less)
    with True Suc.IH [of "Suc k"] Suc.prems show ?thesis by simp
  next
    case False
    then have "first_index (\<lambda>i. k \<le> i \<and> \<not> bufferUsed (bufs ! i)) (k + Suc n) = Some k"
      by (auto simp: first_index_Some)
    with False show ?thesis by simp
  qed
qed

lemma get_buffer_eq:
  assumes "length bufs = otaconfigMAX_NUM_OTA_DATA_BUFFERS"
  shows "getOtaDataEventBuffer True bufs =
     (case first_index (\<lambda>i. \<not> bufferUsed (bufs ! i)) otaconfigMAX_NUM_OTA_DATA_BUFFERS of
        None \<Rightarrow> (None, bufs)
      | Some i \<Rightarrow> (Some i, bufs[i := (bufs ! i)\<lparr>bufferUsed := True, dataLength := DATA_BUFFER_SIZE\<rparr>]))"
proof -
  have "0 + otaconfigMAX_NUM_OTA_DATA_BUFFERS = length bufs" using assms by simp
  from get_scan_eq [OF this] show ?thesis
    by (simp only: getOtaDataEventBuffer_def if_True le0 simp_thms add_0)
qed

lemma used_get:
  assumes "length bufs = otaconfigMAX_NUM_OTA_DATA_BUFFERS"
    and "getOtaDataEventBuffer True bufs = (Some i, bufs')"
  shows "i < otaconfigMAX_NUM_OTA_DATA_BUFFERS \<and> i \<notin> used_buffers bufs \<and>
    used_buffers bufs' = insert i (used_buffers bufs)"
proof -
  from assms have i: "first_index (\<lambda>i. \<not> bufferUsed (bufs ! i)) otaconfigMAX_NUM_OTA_DATA_BUFFERS = Some i"
    and b: "bufs' = bufs[i := (bufs ! i)\<lparr>bufferUsed := True, dataLength := DATA_BUFFER_SIZE\<rparr>]"
    by (auto simp: get_buffer_eq split: option.splits)
  from i have "i < otaconfigMAX_NUM_OTA_DATA_BUFFERS \<and> \<not> bufferUsed (bufs ! i)"
    by (simp add: first_index_Some)
  with b assms(1) show ?thesis by (auto simp: used_buffers_def nth_list_update_if)
qed

lemma get_None_iff:
  assumes len: "length bufs = otaconfigMAX_NUM_OTA_DATA_BUFFERS"
  shows "fst (getOtaDataEventBuffer True bufs) = None \<longleftrightarrow>
    used_buffers bufs = {..<otaconfigMAX_NUM_OTA_DATA_BUFFERS}"
proof -
  have "fst (getOtaDataEventBuffer True bufs) = None \<longleftrightarrow>
      (\<forall>i<otaconfigMAX_NUM_OTA_DATA_BUFFERS. bufferUsed (bufs ! i))"
    using first_index_None [of "\<lambda>i. \<not> bufferUsed (bufs ! i)" otaconfigMAX_NUM_OTA_DATA_BUFFERS]
    by (cases "first_index (\<lambda>i. \<not> bufferUsed (bufs ! i)) otaconfigMAX_NUM_OTA_DATA_BUFFERS")
      (simp_all add: get_buffer_eq [OF len])
  with len show ?thesis unfolding used_buffers_def by (simp only:) blast
qed

lemma get_None_same: "getOtaDataEventBuffer True bufs = (None, bufs') \<Longrightarrow>
    length bufs = otaconfigMAX_NUM_OTA_DATA_BUFFERS \<Longrightarrow> bufs' = bufs"
  by (auto simp: get_buffer_eq split: option.splits)

lemma used_free:
  "used_buffers (freeOtaDataEventBuffer True i bufs) = used_buffers bufs - {i}"
  by (auto simp: freeOtaDataEventBuffer_def used_buffers_def nth_list_update_if split: if_splits)

lemma buffers_ok_update:
  "buffers_ok bufs \<Longrightarrow> i < length bufs \<Longrightarrow> length (data b) = DATA_BUFFER_SIZE \<Longrightarrow>
   buffers_ok (bufs[i := b])"
  by (auto simp: buffers_ok_def dest!: set_update_subset_insert [THEN subsetD])

lemma buffers_okD: "buffers_ok bufs \<Longrightarrow> length bufs = otaconfigMAX_NUM_OTA_DATA_BUFFERS"
  by (simp add: buffers_ok_def)

lemma buffers_ok_nth: "buffers_ok bufs \<Longrightarrow> i < length bufs \<Longrightarrow> length (data (bufs ! i)) = DATA_BUFFER_SIZE"
  by (simp add: buffers_ok_def)

lemma buffers_ok_get:
  assumes "buffers_ok bufs"
  shows "buffers_ok (snd (getOtaDataEventBuffer t bufs))"
proof (cases t)
  case True
  with assms show ?thesis
    by (auto simp: get_buffer_eq buffers_okD first_index_Some buffers_ok_nth
        split: option.split intro!: buffers_ok_update)
next
  case False
  with assms show ?thesis by (simp add: getOtaDataEventBuffer_def)
qed

lemma buffers_ok_free:
  "buffers_ok bufs \<Longrightarrow> buffers_ok (freeOtaDataEventBuffer t i bufs)"
  by (cases "i < length bufs")
    (auto simp: freeOtaDataEventBuffer_def list_update_beyond buffers_ok_nth intro!: buffers_ok_update)

interpretation ota_buffers: slot_pool "getOtaDataEventBuffer True" "freeOtaDataEventBuffer True"
  used_buffers otaconfigMAX_NUM_OTA_DATA_BUFFERS buffers_ok
proof unfold_locales
  fix p :: "OtaDataEvent list" and i :: nat
  assume ok: "buffers_ok p"
  show "buffers_ok (snd (getOtaDataEventBuffer True p))" by (rule buffers_ok_get [OF ok])
  show "buffers_ok (freeOtaDataEventBuffer True i p)" by (rule buffers_ok_free [OF ok])
  show "used_buffers p \<subseteq> {..<otaconfigMAX_NUM_OTA_DATA_BUFFERS}"
    using buffers_okD [OF ok] by (auto simp: used_buffers_def)
  show "fst (getOtaDataEventBuffer True p) = None \<longleftrightarrow>
      used_buffers p = {..<otaconfigMAX_NUM_OTA_DATA_BUFFERS}"
    by (rule get_None_iff [OF buffers_okD [OF ok]])
  show "snd (getOtaDataEventBuffer True p) = p" if "fst (getOtaDataEventBuffer True p) = None"
    using that get_None_same [OF _ buffers_okD [OF ok]] by (metis prod.collapse)
  show "i \<notin> used_buffers p \<and> i < otaconfigMAX_NUM_OTA_DATA_BUFFERS \<and>
      used_buffers (snd (getOtaDataEventBuffer True p)) = insert i (used_buffers p)"
    if "fst (getOtaDataEventBuffer True p) = Some i"
    using that used_get [OF buffers_okD [OF ok], of i "snd (getOtaDataEventBuffer True p)"]
    by (metis prod.collapse)
  show "used_buffers (freeOtaDataEventBuffer True i p) = used_buffers p - {i}" by (rule used_free)
qed

text \<open>The pool of OTA data buffers hands out a buffer that nobody holds as long as one of the two
  is free, and a buffer that was freed is available again: after a free, the next request succeeds.\<close>

theorem data_buffers_pool:
  assumes "buffers_ok bufs"
  shows "((\<exists>i. fst (getOtaDataEventBuffer True bufs) = Some i \<and> i \<notin> used_buffers bufs \<and>
             used_buffers (snd (getOtaDataEventBuffer True bufs)) = insert i (used_buffers bufs)) \<or>
          (fst (getOtaDataEventBuffer True bufs) = None \<and> used_buffers bufs = {0, 1} \<and>
           snd (getOtaDataEventBuffer True bufs) = bufs)) \<and>
         (\<forall>i<2. fst (getOtaDataEventBuffer True (freeOtaDataEventBuffer True i bufs)) \<noteq> None)"
proof -
  have two: "{..<otaconfigMAX_NUM_OTA_DATA_BUFFERS} = {0, 1}" by auto
  show ?thesis
    using ota_buffers.get_cases [OF assms, unfolded two] ota_buffers.get_after_put [OF assms]
    by blast
qed

definition two_buffers :: "OtaDataEvent list" where
  "two_buffers = replicate 2 \<lparr>data = replicate DATA_BUFFER_SIZE NUL, dataLength = 0, bufferUsed = False\<rparr>"

lemma two_buffers_ok: "buffers_ok two_buffers"
  by (simp add: buffers_ok_def two_buffers_def)

theorem data_buffers_pool_witness:
  "buffers_ok two_buffers \<and>
   fst (getOtaDataEventBuffer True (freeOtaDataEventBuffer True 0 two_buffers)) \<noteq> None"
  using two_buffers_ok data_buffers_pool [OF two_buffers_ok] by simp

section \<open>Order of events\<close>

text \<open>Events sent one after the other, and \<open>n\<close> receives in a row.\<close>

fun send_events ::
  "('q, OtaEventMsg) kernel_queue \<Rightarrow> OtaEventMsg list \<Rightarrow> 'q option \<Rightarrow> (OtaOsStatus list \<times> 'q option) option"
where
  "send_events K [] h = Some ([], h)"
| "send_events K (m # ms) h =
     do { (st, h') \<leftarrow> OtaSendEvent_FreeRTOS K h m; (sts, h'') \<leftarrow> send_events K ms h'; Some (st # sts, h'') }"

fun receive_events ::
  "('q, OtaEventMsg) kernel_queue \<Rightarrow> nat \<Rightarrow> 'q option \<Rightarrow> OtaEventMsg list option"
where
  "receive_events K 0 h = Some []"
| "receive_events K (Suc n) h =
     do { (_, m, h') \<leftarrow> OtaReceiveEvent_FreeRTOS K h zero_event; ms \<leftarrow> receive_events K n h'; Some (m # ms) }"

lemma send_events_items:
  assumes "kernel_fifo K items cap"
  shows "\<exists>q'. send_events K ms (Some q) =
      Some (replicate (min (length ms) (cap - length (items q))) OtaOsSuccess @
            replicate (length ms - (cap - length (items q))) OtaOsEventQueueSendFailed, Some q') \<and>
    items q' = items q @ take (cap - length (items q)) ms"
proof (induction ms arbitrary: q)
  case Nil
  show ?case by simp
next
  case (Cons m ms)
  let ?q = "snd (event_send K q m)"
  have it: "items ?q = items q @ (if length (items q) < cap then [m] else [])"
    by (rule items_event_send [OF assms])
  have st: "fst (event_send K q m) \<longleftrightarrow> length (items q) < cap"
    by (rule bounded_fifo.send_iff [OF event_queue_fifo [OF assms]])
  from Cons.IH [of ?q] it st show ?case
    by (cases "length (items q) < cap")
      (auto simp: OtaSendEvent_eq take_Cons' min_def Suc_diff_Suc diff_Suc split: nat.split)
qed

lemma receive_events_items:
  assumes "kernel_fifo K items cap"
  shows "receive_events K n (Some q) =
    Some (take n (items q) @ replicate (n - length (items q)) zero_event)"
proof (induction n arbitrary: q)
  case 0
  show ?case by simp
next
  case (Suc n)
  from Suc.IH [of "snd (event_recv K q)"] items_event_recv [OF assms, of q] show ?case
    by (cases "items q") (auto simp: OtaReceiveEvent_eq)
qed

text \<open>Events reach the OTA task in the order they were sent: of the events sent to an empty queue
  the first twenty are delivered, the senders of the others get an error, and a receive that finds
  nothing leaves the caller's structure zeroed.\<close>

theorem event_queue_order:
  assumes "kernel_fifo K items MAX_MESSAGES" and "items q = []"
  shows "\<exists>q'. send_events K ms (Some q) =
      Some (replicate (min (length ms) 20) OtaOsSuccess @
            replicate (length ms - 20) OtaOsEventQueueSendFailed, Some q') \<and>
    receive_events K (length ms) (Some q') =
      Some (take 20 ms @ replicate (length ms - 20) zero_event)"
  using send_events_items [OF assms(1), of ms q] assms(2)
  by (auto simp: receive_events_items [OF assms(1)] min_def)

theorem event_queue_order_witness:
  "\<exists>q'. send_events (list_kernel 20) [zero_event\<lparr>eventId := OtaAgentEventSuspend\<rparr>, zero_event] (Some []) =
      Some ([OtaOsSuccess, OtaOsSuccess], Some q') \<and>
    receive_events (list_kernel 20) 2 (Some q') =
      Some [zero_event\<lparr>eventId := OtaAgentEventSuspend\<rparr>, zero_event]"
  using event_queue_order [OF kernel_fifo_list refl,
    of "[zero_event\<lparr>eventId := OtaAgentEventSuspend\<rparr>, zero_event]"]
  by (simp add: numeral_2_eq_2)

end
