(* ===== verification/Ota_Callbacks.thy ===== *)
theory Ota_Callbacks
  imports Ota_Events
begin

text \<open>
  What runs outside the OTA task and acts on its state: the three callbacks for incoming publishes
  of \<^verbatim>\<open>ota_orchestrator.c\<close>, the completion callbacks of \<^verbatim>\<open>mqtt_helpers.c\<close>, which run in the MQTT agent
  task, and the body of the demo task's loop, which suspends and resumes the OTA agent. \<open>exec_others\<close>
  runs a list of such steps, as they interleave with a wait of the OTA task.
\<close>

section \<open>Sending an event\<close>

definition send_event ::
  "('q, 'w) ota_env \<Rightarrow> OtaEventMsg \<Rightarrow> ('q, 'w) ota_state \<Rightarrow> ('q, 'w) ota_state option" where
  "send_event E eventMsg s =
     (case OtaSendEvent_FreeRTOS (kernel E) (otaEventQueue s) eventMsg of
        None \<Rightarrow> None
      | Some (_, q) \<Rightarrow> Some (s\<lparr>otaEventQueue := q\<rparr>))"

abbreviation simple_event :: "OtaEvent \<Rightarrow> OtaEventMsg" where
  "simple_event e \<equiv> zero_event\<lparr>eventId := e\<rparr>"

definition otaAgentShutdown ::
  "('q, 'w) ota_env \<Rightarrow> ('q, 'w) ota_state \<Rightarrow> ('q, 'w) ota_state option" where
  "otaAgentShutdown E s = send_event E (simple_event OtaAgentEventShutdown) s"

section \<open>Incoming publishes\<close>

text \<open>The copy into \<open>jobData\<close> is not bounded by the array: a longer payload is a fault.\<close>

definition prvMqttJobCallback ::
  "('q, 'w) ota_env \<Rightarrow> MQTTPublishInfo option \<Rightarrow> ('q, 'w) ota_state \<Rightarrow> ('q, 'w) ota_state option"
where
  "prvMqttJobCallback E pxPublishInfo s =
     (case pxPublishInfo of
        None \<Rightarrow> None
      | Some pub \<Rightarrow>
          (if Jobs_IsStartNextAccepted (jobs E) (pTopicName pub) (topicNameLength pub)
                (OTA_THING_NAME E) (strlen (OTA_THING_NAME E))
           then
             (let src = take (payloadLength pub) (pPayload pub);
                  buf = jobDocBuffer s;
                  faults = (if buf_fits (jobData buf) 0 (payloadLength pub) then ota_faults s
                            else ota_faults s @ [Job_data_overflow])
              in send_event E
                   (zero_event\<lparr>jobEvent := True, eventId := OtaAgentEventReceivedJobDocument\<rparr>)
                   (s\<lparr>jobDocBuffer := \<lparr>jobData = buf_write (jobData buf) 0 src,
                                      jobDataLength = payloadLength pub\<rparr>,
                      ota_faults := faults\<rparr>))
           else Some s))"

definition prvMqttDefaultCallback ::
  "('q, 'w) ota_env \<Rightarrow> MQTTPublishInfo option \<Rightarrow> ('q, 'w) ota_state \<Rightarrow> ('q, 'w) ota_state option"
where
  "prvMqttDefaultCallback E pxPublishInfo s =
     (case pxPublishInfo of
        None \<Rightarrow> None
      | Some pub \<Rightarrow>
          (let isMatch =
                 (case ota_MatchTopic (net E) (pTopicName pub) (topicNameLength pub)
                         OTA_JOB_ACCEPTED_RESPONSE_TOPIC_FILTER
                         (of_nat (length OTA_JOB_ACCEPTED_RESPONSE_TOPIC_FILTER))
                  of None \<Rightarrow> False | Some b \<Rightarrow> b)
           in if isMatch then prvMqttJobCallback E (Some pub) s else Some s))"

text \<open>A buffer that is too small, or whose event cannot be queued, is not given back.\<close>

definition prvMqttDataCallback ::
  "('q, 'w) ota_env \<Rightarrow> MQTTPublishInfo option \<Rightarrow> ('q, 'w) ota_state \<Rightarrow> ('q, 'w) ota_state option"
where
  "prvMqttDataCallback E pxPublishInfo s =
     (case pxPublishInfo of
        None \<Rightarrow> None
      | Some pub \<Rightarrow>
          (let (taken, w) = xSemaphoreTake (net E) (ota_world s);
               (pxData, bufs) = getOtaDataEventBuffer taken (dataBuffers s);
               s' = s\<lparr>dataBuffers := bufs, ota_world := w\<rparr>
           in case pxData of
                None \<Rightarrow> Some s'
              | Some i \<Rightarrow>
                  (if dataLength (bufs ! i) \<ge> payloadLength pub
                   then
                     (let b = bufs ! i;
                          b' = b\<lparr>data := buf_write (data b) 0 (take (payloadLength pub) (pPayload pub)),
                                 dataLength := payloadLength pub\<rparr>
                      in send_event E
                           (zero_event\<lparr>eventId := OtaAgentEventReceivedFileBlock, dataEvent := Some i\<rparr>)
                           (s'\<lparr>dataBuffers := bufs[i := b']\<rparr>))
                   else Some s')))"

section \<open>Registering callbacks\<close>

definition otaTopicFilterCallbacks :: "(string \<times> u16 \<times> ota_callback) list" where
  "otaTopicFilterCallbacks =
     [(OTA_JOB_NOTIFY_TOPIC_FILTER, of_nat (length OTA_JOB_NOTIFY_TOPIC_FILTER), Job_callback),
      (OTA_DATA_STREAM_TOPIC_FILTER, of_nat (length OTA_DATA_STREAM_TOPIC_FILTER), Data_callback),
      (OTA_DEFAULT_TOPIC_FILTER, of_nat (length OTA_DEFAULT_TOPIC_FILTER), Default_callback)]"

text \<open>The loop over the table; the assertion on the status of \<open>MQTT_MatchTopic\<close> may fail.\<close>

fun register_scan ::
  "('q, 'w) ota_env \<Rightarrow> memory \<Rightarrow> ptr \<Rightarrow> u16 \<Rightarrow> (string \<times> u16 \<times> ota_callback) list \<Rightarrow>
   sub_table \<Rightarrow> sub_table option"
where
  "register_scan E mem tf len [] subs = Some subs"
| "register_scan E mem tf len ((flt, flen, cb) # rest) subs =
     (case ota_MatchTopic (net E) (mem tf) len flt flen of
        None \<Rightarrow> None
      | Some isMatch \<Rightarrow>
          register_scan E mem tf len rest
            (if isMatch then snd (addSubscription mem tf len (code_address E cb) 0 subs)
             else subs))"

definition prvRegisterOTACallback ::
  "('q, 'w) ota_env \<Rightarrow> ptr \<Rightarrow> u16 \<Rightarrow> ('q, 'w) ota_state \<Rightarrow> ('q, 'w) ota_state option" where
  "prvRegisterOTACallback E tf len s =
     (case register_scan E (ota_memory E s) tf len otaTopicFilterCallbacks (ota_subs s) of
        None \<Rightarrow> None
      | Some subs \<Rightarrow> Some (s\<lparr>ota_subs := subs\<rparr>))"

section \<open>Completion callbacks\<close>

text \<open>
  Each stores the status in the static context of its command and notifies the task named there,
  overwriting the notification value.
\<close>

definition complete ::
  "MQTTStatus \<Rightarrow> MQTTAgentCommandContext \<Rightarrow> notification \<Rightarrow> MQTTAgentCommandContext \<times> notification"
where
  "complete code ctx n =
     (ctx\<lparr>xReturnStatus := code\<rparr>,
      if xTaskToNotify ctx \<noteq> None then Some (mqtt_status_code code) else n)"

definition prvOTAPublishCommandCallback ::
  "MQTTStatus \<Rightarrow> ('q, 'w) ota_state \<Rightarrow> ('q, 'w) ota_state" where
  "prvOTAPublishCommandCallback code s =
     (let c = cmds s; (ctx, n) = complete code (publishContext c) (ota_notification c)
      in s\<lparr>cmds := c\<lparr>publishContext := ctx, ota_notification := n\<rparr>\<rparr>)"

definition prvMQTTUnsubscribeCompleteCallback ::
  "MQTTStatus \<Rightarrow> ('q, 'w) ota_state \<Rightarrow> ('q, 'w) ota_state" where
  "prvMQTTUnsubscribeCompleteCallback code s =
     (let c = cmds s; (ctx, n) = complete code (unsubscribeContext c) (ota_notification c)
      in s\<lparr>cmds := c\<lparr>unsubscribeContext := ctx, ota_notification := n\<rparr>\<rparr>)"

text \<open>The arguments the context points to are those of the latest subscribe; null before the first.\<close>

definition prvMQTTSubscribeCompleteCallback ::
  "('q, 'w) ota_env \<Rightarrow> MQTTStatus \<Rightarrow> ('q, 'w) ota_state \<Rightarrow> ('q, 'w) ota_state option" where
  "prvMQTTSubscribeCompleteCallback E code s =
     (let finish = (\<lambda>s. let c = cmds s; (ctx, n) = complete code (subscribeContext c) (ota_notification c)
                        in s\<lparr>cmds := c\<lparr>subscribeContext := ctx, ota_notification := n\<rparr>\<rparr>)
      in if code = MQTTSuccess
         then (case pArgs (subscribeContext (cmds s)) of
                 [] \<Rightarrow> None
               | info # _ \<Rightarrow>
                   map_option finish
                     (prvRegisterOTACallback E (pTopicFilter info) (topicFilterLength info) s))
         else Some (finish s))"

section \<open>The demo task's loop\<close>

text \<open>One round of the loop of \<open>prvRunOTADemo\<close> when the event group shows \<open>connected\<close>.\<close>

definition demo_poll ::
  "('q, 'w) ota_env \<Rightarrow> bool \<Rightarrow> ('q, 'w) ota_state \<Rightarrow> ('q, 'w) ota_state option" where
  "demo_poll E connected s =
     (if \<not> connected then send_event E (simple_event OtaAgentEventSuspend) s
      else if otaAgentState s = OtaAgentStateSuspended
      then send_event E (simple_event OtaAgentEventResume) s
      else Some s)"

section \<open>Interleaved steps\<close>

fun exec_other ::
  "('q, 'w) ota_env \<Rightarrow> other_step \<Rightarrow> ('q, 'w) ota_state \<Rightarrow> ('q, 'w) ota_state option" where
  "exec_other E (Job_publish pub) s = prvMqttJobCallback E (Some pub) s"
| "exec_other E (Default_publish pub) s = prvMqttDefaultCallback E (Some pub) s"
| "exec_other E (Data_publish pub) s = prvMqttDataCallback E (Some pub) s"
| "exec_other E (Publish_complete code) s = Some (prvOTAPublishCommandCallback code s)"
| "exec_other E (Subscribe_complete code) s = prvMQTTSubscribeCompleteCallback E code s"
| "exec_other E (Unsubscribe_complete code) s = Some (prvMQTTUnsubscribeCompleteCallback code s)"
| "exec_other E (Demo_poll connected) s = demo_poll E connected s"

fun exec_others ::
  "('q, 'w) ota_env \<Rightarrow> other_step list \<Rightarrow> ('q, 'w) ota_state \<Rightarrow> ('q, 'w) ota_state option" where
  "exec_others E [] s = Some s"
| "exec_others E (st # sts) s = do { s' \<leftarrow> exec_other E st s; exec_others E sts s' }"

section \<open>What the other tasks leave alone\<close>

lemma send_event_frame:
  "send_event E m s = Some s' \<Longrightarrow> \<exists>q. s' = s\<lparr>otaEventQueue := q\<rparr>"
  by (auto simp: send_event_def split: option.splits)

text \<open>The state in which \<open>prvMqttJobCallback\<close> sends its event.\<close>

definition job_received :: "MQTTPublishInfo \<Rightarrow> ('q, 'w) ota_state \<Rightarrow> ('q, 'w) ota_state" where
  "job_received pub s =
     s\<lparr>jobDocBuffer := \<lparr>jobData = buf_write (jobData (jobDocBuffer s)) 0
           (take (payloadLength pub) (pPayload pub)), jobDataLength = payloadLength pub\<rparr>,
       ota_faults := (if buf_fits (jobData (jobDocBuffer s)) 0 (payloadLength pub) then ota_faults s
                      else ota_faults s @ [Job_data_overflow])\<rparr>"

definition job_event :: OtaEventMsg where
  "job_event = zero_event\<lparr>jobEvent := True, eventId := OtaAgentEventReceivedJobDocument\<rparr>"

definition is_job_topic :: "('q, 'w) ota_env \<Rightarrow> MQTTPublishInfo \<Rightarrow> bool" where
  "is_job_topic E pub = Jobs_IsStartNextAccepted (jobs E) (pTopicName pub) (topicNameLength pub)
     (OTA_THING_NAME E) (strlen (OTA_THING_NAME E))"

lemma job_callback_eq:
  "prvMqttJobCallback E (Some pub) s =
     (if is_job_topic E pub then send_event E job_event (job_received pub s) else Some s)"
  by (simp add: prvMqttJobCallback_def Let_def is_job_topic_def job_event_def job_received_def)

lemma job_callback_None [simp]: "prvMqttJobCallback E None s = None"
  by (simp add: prvMqttJobCallback_def)

lemma job_callback_cases [consumes 1, case_names ignored queued]:
  assumes "prvMqttJobCallback E p s = Some s'"
  obtains "s' = s" | pub where "p = Some pub" "send_event E job_event (job_received pub s) = Some s'"
proof (cases p)
  case None
  with assms show thesis by simp
next
  case (Some pub)
  show thesis
  proof (cases "is_job_topic E pub")
    case True
    with assms Some have "send_event E job_event (job_received pub s) = Some s'"
      by (simp only: job_callback_eq if_True)
    then show thesis by (rule that(2) [OF Some])
  next
    case False
    with assms Some have "Some s = Some s'" by (simp only: job_callback_eq if_False)
    then show thesis by (intro that(1)) simp
  qed
qed

lemma job_callback_frame:
  assumes "prvMqttJobCallback E p s = Some s'"
  shows "\<exists>q b f. s' = s\<lparr>otaEventQueue := q, jobDocBuffer := b, ota_faults := f\<rparr>"
  using assms
proof (cases rule: job_callback_cases)
  case ignored
  then have "s' = s\<lparr>otaEventQueue := otaEventQueue s, jobDocBuffer := jobDocBuffer s,
    ota_faults := ota_faults s\<rparr>" by simp
  then show ?thesis by blast
next
  case (queued pub)
  from send_event_frame [OF queued(2)] obtain q
    where "s' = (job_received pub s)\<lparr>otaEventQueue := q\<rparr>" ..
  then have "s' = s\<lparr>otaEventQueue := q, jobDocBuffer := jobDocBuffer (job_received pub s),
    ota_faults := ota_faults (job_received pub s)\<rparr>" by (simp add: job_received_def)
  then show ?thesis by blast
qed

lemma default_callback_cases:
  "prvMqttDefaultCallback E p s = Some s' \<Longrightarrow> s' = s \<or> prvMqttJobCallback E p s = Some s'"
  by (auto simp: prvMqttDefaultCallback_def Let_def split: option.splits if_splits)

lemma data_callback_cases [consumes 1, case_names full dropped queued]:
  assumes "prvMqttDataCallback E (Some pub) s = Some s'"
  obtains taken w where "xSemaphoreTake (net E) (ota_world s) = (taken, w)"
      and "fst (getOtaDataEventBuffer taken (dataBuffers s)) = None"
      and "s' = s\<lparr>dataBuffers := snd (getOtaDataEventBuffer taken (dataBuffers s)), ota_world := w\<rparr>"
    | taken w i bufs where "xSemaphoreTake (net E) (ota_world s) = (taken, w)"
      and "getOtaDataEventBuffer taken (dataBuffers s) = (Some i, bufs)"
      and "dataLength (bufs ! i) < payloadLength pub"
      and "s' = s\<lparr>dataBuffers := bufs, ota_world := w\<rparr>"
    | taken w i bufs where "xSemaphoreTake (net E) (ota_world s) = (taken, w)"
      and "getOtaDataEventBuffer taken (dataBuffers s) = (Some i, bufs)"
      and "payloadLength pub \<le> dataLength (bufs ! i)"
      and "send_event E (zero_event\<lparr>eventId := OtaAgentEventReceivedFileBlock, dataEvent := Some i\<rparr>)
        (s\<lparr>ota_world := w, dataBuffers := bufs[i := (bufs ! i)\<lparr>data := buf_write (data (bufs ! i)) 0
             (take (payloadLength pub) (pPayload pub)), dataLength := payloadLength pub\<rparr>]\<rparr>) = Some s'"
proof -
  obtain taken w where t: "xSemaphoreTake (net E) (ota_world s) = (taken, w)" by fastforce
  obtain px bufs where g: "getOtaDataEventBuffer taken (dataBuffers s) = (px, bufs)" by fastforce
  show thesis
  proof (cases px)
    case None
    with assms t g have "s' = s\<lparr>dataBuffers := bufs, ota_world := w\<rparr>"
      by (simp add: prvMqttDataCallback_def)
    with g None show thesis by (intro that(1) [OF t]) simp_all
  next
    case (Some i)
    show thesis
    proof (cases "payloadLength pub \<le> dataLength (bufs ! i)")
      case True
      with assms t g Some show thesis
        by (intro that(3) [OF t]) (simp_all add: prvMqttDataCallback_def Let_def)
    next
      case False
      with assms t g Some have "s' = s\<lparr>dataBuffers := bufs, ota_world := w\<rparr>"
        by (simp add: prvMqttDataCallback_def)
      with t g Some False show thesis by (intro that(2) [OF t]) (simp_all add: not_le)
    qed
  qed
qed

lemma data_callback_frame:
  assumes "prvMqttDataCallback E p s = Some s'"
  shows "\<exists>q bufs w. s' = s\<lparr>otaEventQueue := q, dataBuffers := bufs, ota_world := w\<rparr>"
proof (cases p)
  case None
  with assms show ?thesis by (simp add: prvMqttDataCallback_def)
next
  case (Some pub)
  from assms [unfolded Some] show ?thesis
  proof (cases rule: data_callback_cases)
    case (full taken w)
    then have "s' = s\<lparr>otaEventQueue := otaEventQueue s,
      dataBuffers := snd (getOtaDataEventBuffer taken (dataBuffers s)), ota_world := w\<rparr>" by simp
    then show ?thesis by blast
  next
    case (dropped taken w i bufs)
    then have "s' = s\<lparr>otaEventQueue := otaEventQueue s, dataBuffers := bufs, ota_world := w\<rparr>" by simp
    then show ?thesis by blast
  next
    case (queued taken w i bufs)
    from send_event_frame [OF queued(4)] obtain q where "s' = s\<lparr>ota_world := w, dataBuffers := bufs[i := (bufs ! i)
        \<lparr>data := buf_write (data (bufs ! i)) 0 (take (payloadLength pub) (pPayload pub)),
         dataLength := payloadLength pub\<rparr>]\<rparr>\<lparr>otaEventQueue := q\<rparr>" ..
    then have "s' = s\<lparr>otaEventQueue := q, dataBuffers := bufs[i := (bufs ! i)
        \<lparr>data := buf_write (data (bufs ! i)) 0 (take (payloadLength pub) (pPayload pub)),
         dataLength := payloadLength pub\<rparr>], ota_world := w\<rparr>" by simp
    then show ?thesis by blast
  qed
qed

lemma register_frame:
  "prvRegisterOTACallback E tf len s = Some s' \<Longrightarrow> \<exists>subs. s' = s\<lparr>ota_subs := subs\<rparr>"
  by (auto simp: prvRegisterOTACallback_def split: option.splits)

lemma demo_poll_frame:
  assumes "demo_poll E c s = Some s'" shows "\<exists>q. s' = s\<lparr>otaEventQueue := q\<rparr>"
proof (cases "s' = s")
  case True
  then have "s' = s\<lparr>otaEventQueue := otaEventQueue s\<rparr>" by simp
  then show ?thesis by blast
next
  case False
  with assms show ?thesis by (auto simp: demo_poll_def split: if_splits dest: send_event_frame)
qed

text \<open>
  A state with the same agent state, job and download: what a step of another task gives. The
  components the OTA task works on are its own.
\<close>

definition own_part :: "('q, 'w) ota_state \<Rightarrow> OtaState \<times> ota_job \<times> ota_download" where
  "own_part s = (otaAgentState s, job s, dl s)"

lemma own_part_simps [simp]:
  "own_part (s\<lparr>jobDocBuffer := b\<rparr>) = own_part s" "own_part (s\<lparr>dataBuffers := bufs\<rparr>) = own_part s"
  "own_part (s\<lparr>otaEventQueue := q\<rparr>) = own_part s" "own_part (s\<lparr>ota_subs := subs\<rparr>) = own_part s"
  "own_part (s\<lparr>cmds := c\<rparr>) = own_part s" "own_part (s\<lparr>ota_faults := f\<rparr>) = own_part s"
  "own_part (s\<lparr>ota_world := w\<rparr>) = own_part s"
  by (simp_all add: own_part_def)

lemma own_part_complete:
  "own_part (prvOTAPublishCommandCallback code s) = own_part s"
  "own_part (prvMQTTUnsubscribeCompleteCallback code s) = own_part s"
  "prvMQTTSubscribeCompleteCallback E code s = Some s' \<Longrightarrow> own_part s' = own_part s"
  by (auto simp: prvOTAPublishCommandCallback_def prvMQTTUnsubscribeCompleteCallback_def
      prvMQTTSubscribeCompleteCallback_def Let_def split_beta split: if_splits list.splits
      dest!: register_frame)

lemma own_part_other:
  assumes "exec_other E st s = Some s'" shows "own_part s' = own_part s"
proof (cases st)
  case (Job_publish pub)
  with assms show ?thesis by (auto dest!: job_callback_frame)
next
  case (Default_publish pub)
  with assms show ?thesis by (auto dest!: default_callback_cases job_callback_frame)
next
  case (Data_publish pub)
  with assms show ?thesis by (auto dest!: data_callback_frame)
next
  case (Publish_complete code)
  with assms own_part_complete(1) [of code s] show ?thesis by simp
next
  case (Subscribe_complete code)
  with assms own_part_complete(3) [of E code s s'] show ?thesis by simp
next
  case (Unsubscribe_complete code)
  with assms own_part_complete(2) [of code s] show ?thesis by simp
next
  case (Demo_poll c)
  with assms show ?thesis by (auto dest!: demo_poll_frame)
qed

lemma own_part_others: "exec_others E sts s = Some s' \<Longrightarrow> own_part s' = own_part s"
  by (induction sts arbitrary: s) (auto simp: bind_eq_Some_conv dest!: own_part_other)

end
