(* ===== verification/Ota_Mqtt.thy ===== *)
theory Ota_Mqtt
  imports Ota_Callbacks
begin

text \<open>
  The blocking MQTT calls of the OTA agent, \<^verbatim>\<open>mqtt_helpers.c\<close>: each fills its static command context,
  hands the command to the MQTT agent and waits up to five seconds for the notification its
  completion callback sends. The wait is where the steps of other tasks interleave.
\<close>

section \<open>Waiting\<close>

definition wait_others ::
  "('q, 'w) ota_env \<Rightarrow> u32 \<Rightarrow> ('q, 'w) ota_state \<Rightarrow> ('q, 'w) ota_state option" where
  "wait_others E ticks s =
     (let (steps, w) = other_tasks (net E) ticks (ota_world s)
      in exec_others E steps (s\<lparr>ota_world := w\<rparr>))"

text \<open>\<open>xTaskNotifyWait\<close>: whether a notification is pending when the wait ends; it is then cleared.\<close>

definition notify_wait ::
  "('q, 'w) ota_env \<Rightarrow> u32 \<Rightarrow> ('q, 'w) ota_state \<Rightarrow> (bool \<times> ('q, 'w) ota_state) option" where
  "notify_wait E ticks s =
     (case wait_others E ticks s of
        None \<Rightarrow> None
      | Some s' \<Rightarrow> Some (ota_notification (cmds s') \<noteq> None,
          s'\<lparr>cmds := (cmds s')\<lparr>ota_notification := None\<rparr>\<rparr>))"

section \<open>The calls\<close>

text \<open>\<open>tf\<close> is the address of the topic filter, \<open>len\<close> its length.\<close>

definition prvMQTTSubscribe ::
  "('q, 'w) ota_env \<Rightarrow> ptr \<Rightarrow> u16 \<Rightarrow> MQTTQoS \<Rightarrow> ('q, 'w) ota_state \<Rightarrow>
   (OtaMqttStatus \<times> ('q, 'w) ota_state) option"
where
  "prvMQTTSubscribe E tf len ucQoS s =
     (if tf = 0 \<or> len = 0 then None
      else
        (let info = \<lparr>sub_qos = ucQoS, pTopicFilter = tf, topicFilterLength = len\<rparr>;
             ctx = \<lparr>xReturnStatus = MQTTSendFailed, xTaskToNotify = Some (ota_task_handle E),
                    pArgs = [info]\<rparr>;
             s1 = s\<lparr>cmds := (cmds s)\<lparr>subscribeContext := ctx, ota_notification := None\<rparr>\<rparr>;
             (mqttStatus, w) =
               ota_MQTTAgent_Subscribe (net E) info otaexampleMQTT_TIMEOUT_MS (ota_world s1);
             s2 = s1\<lparr>ota_world := w\<rparr>
         in if mqttStatus = MQTTSuccess
            then (case notify_wait E (pdMS_TO_TICKS otaexampleMQTT_TIMEOUT_MS) s2 of
                    None \<Rightarrow> None
                  | Some (result, s3) \<Rightarrow>
                      (let st = (if result then xReturnStatus (subscribeContext (cmds s3))
                                 else MQTTRecvFailed)
                       in Some (if st \<noteq> MQTTSuccess then OtaMqttSubscribeFailed
                                else OtaMqttSuccess, s3)))
            else Some (OtaMqttSubscribeFailed, s2)))"

definition prvMQTTPublish ::
  "('q, 'w) ota_env \<Rightarrow> string \<Rightarrow> u16 \<Rightarrow> string \<Rightarrow> u32 \<Rightarrow> MQTTQoS \<Rightarrow> ('q, 'w) ota_state \<Rightarrow>
   (OtaMqttStatus \<times> ('q, 'w) ota_state) option"
where
  "prvMQTTPublish E pacTopic topicLen pMsg msgSize ucQoS s =
     (let info = \<lparr>pTopicName = pacTopic, topicNameLength = topicLen, pPayload = pMsg,
                  payloadLength = unat msgSize\<rparr>;
          s1 = s\<lparr>cmds := (cmds s)\<lparr>publishContext :=
                   (publishContext (cmds s))\<lparr>xTaskToNotify := Some (ota_task_handle E)\<rparr>,
                 ota_notification := None\<rparr>\<rparr>;
          (mqttStatus, w) =
            ota_MQTTAgent_Publish (net E) info ucQoS otaexampleMQTT_TIMEOUT_MS (ota_world s1);
          s2 = s1\<lparr>ota_world := w\<rparr>
      in if mqttStatus = MQTTSuccess
         then (case notify_wait E (pdMS_TO_TICKS otaexampleMQTT_TIMEOUT_MS) s2 of
                 None \<Rightarrow> None
               | Some (result, s3) \<Rightarrow>
                   (let st = (if \<not> result then MQTTSendFailed
                              else xReturnStatus (publishContext (cmds s3)))
                    in Some (if st \<noteq> MQTTSuccess then OtaMqttPublishFailed
                             else OtaMqttSuccess, s3)))
         else Some (OtaMqttPublishFailed, s2))"

definition prvMQTTUnsubscribe ::
  "('q, 'w) ota_env \<Rightarrow> ptr \<Rightarrow> u16 \<Rightarrow> MQTTQoS \<Rightarrow> ('q, 'w) ota_state \<Rightarrow>
   (OtaMqttStatus \<times> ('q, 'w) ota_state) option"
where
  "prvMQTTUnsubscribe E tf len ucQoS s =
     (if tf = 0 \<or> len = 0 then None
      else
        (let info = \<lparr>sub_qos = ucQoS, pTopicFilter = tf, topicFilterLength = len\<rparr>;
             ctx = (unsubscribeContext (cmds s))\<lparr>xTaskToNotify := Some (ota_task_handle E)\<rparr>;
             s1 = s\<lparr>cmds := (cmds s)\<lparr>unsubscribeContext := ctx, ota_notification := None\<rparr>\<rparr>;
             (mqttStatus, w) =
               ota_MQTTAgent_Unsubscribe (net E) info otaexampleMQTT_TIMEOUT_MS (ota_world s1);
             s2 = s1\<lparr>ota_world := w\<rparr>
         in if mqttStatus = MQTTSuccess
            then (case notify_wait E (pdMS_TO_TICKS otaexampleMQTT_TIMEOUT_MS) s2 of
                    None \<Rightarrow> None
                  | Some (result, s3) \<Rightarrow>
                      (let st = (if result then xReturnStatus (unsubscribeContext (cmds s3))
                                 else MQTTRecvFailed)
                       in Some (if st \<noteq> MQTTSuccess then OtaMqttUnsubscribeFailed
                                else OtaMqttSuccess, s3)))
            else Some (OtaMqttUnsubscribeFailed, s2)))"

section \<open>What a call leaves alone\<close>

lemma own_part_wait: "wait_others E t s = Some s' \<Longrightarrow> own_part s' = own_part s"
  by (auto simp: wait_others_def split_beta dest!: own_part_others)

lemma own_part_notify_wait: "notify_wait E t s = Some (r, s') \<Longrightarrow> own_part s' = own_part s"
  by (auto simp: notify_wait_def split: option.splits dest!: own_part_wait)

lemma publish_cases [consumes 1, case_names refused waited]:
  assumes "prvMQTTPublish E topic tlen msg ml qos s = Some (st, s')"
  obtains w where "s' = s\<lparr>cmds := (cmds s)\<lparr>publishContext :=
        (publishContext (cmds s))\<lparr>xTaskToNotify := Some (ota_task_handle E)\<rparr>,
        ota_notification := None\<rparr>, ota_world := w\<rparr>" "st = OtaMqttPublishFailed"
    | w result where
      "notify_wait E (pdMS_TO_TICKS otaexampleMQTT_TIMEOUT_MS) (s\<lparr>cmds := (cmds s)\<lparr>publishContext :=
        (publishContext (cmds s))\<lparr>xTaskToNotify := Some (ota_task_handle E)\<rparr>,
        ota_notification := None\<rparr>, ota_world := w\<rparr>) = Some (result, s')"
      "st = (if result \<and> xReturnStatus (publishContext (cmds s')) = MQTTSuccess
             then OtaMqttSuccess else OtaMqttPublishFailed)"
proof -
  let ?s1 = "s\<lparr>cmds := (cmds s)\<lparr>publishContext :=
        (publishContext (cmds s))\<lparr>xTaskToNotify := Some (ota_task_handle E)\<rparr>,
        ota_notification := None\<rparr>\<rparr>"
  obtain m w where p: "ota_MQTTAgent_Publish (net E) \<lparr>pTopicName = topic, topicNameLength = tlen,
      pPayload = msg, payloadLength = unat ml\<rparr> qos otaexampleMQTT_TIMEOUT_MS (ota_world s) = (m, w)"
    by fastforce
  show thesis
  proof (cases "m = MQTTSuccess")
    case False
    with assms p show thesis by (intro that(1) [of w]) (simp_all add: prvMQTTPublish_def Let_def)
  next
    case True
    show thesis
    proof (cases "notify_wait E (pdMS_TO_TICKS otaexampleMQTT_TIMEOUT_MS) (?s1\<lparr>ota_world := w\<rparr>)")
      case None
      with assms p True show thesis by (simp add: prvMQTTPublish_def Let_def)
    next
      case (Some rs)
      obtain result s3 where rs: "rs = (result, s3)" by fastforce
      with assms p True Some have "s3 = s'" and
        "st = (if result \<and> xReturnStatus (publishContext (cmds s')) = MQTTSuccess
             then OtaMqttSuccess else OtaMqttPublishFailed)"
        by (auto simp: prvMQTTPublish_def Let_def split: if_splits)
      with Some rs show thesis by (intro that(2) [of w result]) simp_all
    qed
  qed
qed

lemma own_part_publish:
  assumes "prvMQTTPublish E topic tlen msg ml qos s = Some (st, s')"
  shows "own_part s' = own_part s"
  using assms by (cases rule: publish_cases) (auto dest!: own_part_notify_wait)

lemma subscribe_cases [consumes 1, case_names refused waited]:
  assumes "prvMQTTSubscribe E tf len qos s = Some (st, s')"
  obtains ctx w where "s' = s\<lparr>cmds := (cmds s)\<lparr>subscribeContext := ctx, ota_notification := None\<rparr>,
        ota_world := w\<rparr>" "st = OtaMqttSubscribeFailed"
    | ctx w result where
      "notify_wait E (pdMS_TO_TICKS otaexampleMQTT_TIMEOUT_MS)
        (s\<lparr>cmds := (cmds s)\<lparr>subscribeContext := ctx, ota_notification := None\<rparr>, ota_world := w\<rparr>)
        = Some (result, s')"
proof -
  let ?info = "\<lparr>sub_qos = qos, pTopicFilter = tf, topicFilterLength = len\<rparr>"
  let ?ctx = "\<lparr>xReturnStatus = MQTTSendFailed, xTaskToNotify = Some (ota_task_handle E),
     pArgs = [?info]\<rparr>"
  obtain m w where p: "ota_MQTTAgent_Subscribe (net E) ?info otaexampleMQTT_TIMEOUT_MS (ota_world s)
      = (m, w)" by fastforce
  have ne: "\<not> (tf = 0 \<or> len = 0)"
    using assms by (simp add: prvMQTTSubscribe_def split: if_split_asm)
  let ?s2 = "s\<lparr>cmds := (cmds s)\<lparr>subscribeContext := ?ctx, ota_notification := None\<rparr>, ota_world := w\<rparr>"
  show thesis
  proof (cases "m = MQTTSuccess")
    case False
    with assms p ne show thesis by (intro that(1) [of w ?ctx]) (simp_all add: prvMQTTSubscribe_def Let_def)
  next
    case True
    show thesis
    proof (cases "notify_wait E (pdMS_TO_TICKS otaexampleMQTT_TIMEOUT_MS) ?s2")
      case None
      with assms p True ne show thesis by (simp add: prvMQTTSubscribe_def Let_def)
    next
      case (Some rs)
      obtain result s3 where rs: "rs = (result, s3)" by fastforce
      with assms p True Some ne have "s3 = s'"
        by (auto simp: prvMQTTSubscribe_def Let_def split: if_splits)
      with Some rs show thesis by (intro that(2) [of w ?ctx result]) simp
    qed
  qed
qed

lemma own_part_subscribe:
  assumes "prvMQTTSubscribe E tf len qos s = Some (st, s')"
  shows "own_part s' = own_part s"
  using assms by (cases rule: subscribe_cases) (auto dest!: own_part_notify_wait)

section \<open>The result of a publish\<close>

fun publish_codes :: "other_step list \<Rightarrow> MQTTStatus list" where
  "publish_codes [] = []"
| "publish_codes (Publish_complete code # sts) = code # publish_codes sts"
| "publish_codes (st # sts) = publish_codes sts"

definition other_completion :: "other_step \<Rightarrow> bool" where
  "other_completion st = (case st of Subscribe_complete _ \<Rightarrow> True | Unsubscribe_complete _ \<Rightarrow> True | _ \<Rightarrow> False)"

lemma other_completion_simps [simp]:
  "other_completion (Subscribe_complete c)" "other_completion (Unsubscribe_complete c)"
  "\<not> other_completion (Publish_complete c)" "\<not> other_completion (Job_publish p)"
  "\<not> other_completion (Default_publish p)" "\<not> other_completion (Data_publish p)"
  "\<not> other_completion (Demo_poll b)"
  by (simp_all add: other_completion_def)

definition note_publish :: "MQTTStatus \<Rightarrow> ota_commands \<Rightarrow> ota_commands" where
  "note_publish code c =
     c\<lparr>publishContext := fst (complete code (publishContext c) (ota_notification c)),
       ota_notification := snd (complete code (publishContext c) (ota_notification c))\<rparr>"

lemma cmds_publish_callback: "cmds (prvOTAPublishCommandCallback code s) = note_publish code (cmds s)"
  by (simp add: prvOTAPublishCommandCallback_def note_publish_def Let_def split_beta)

lemma cmds_other:
  assumes "exec_other E st s = Some s'" and "\<not> other_completion st"
  shows "cmds s' = (case st of Publish_complete code \<Rightarrow> note_publish code (cmds s) | _ \<Rightarrow> cmds s)"
proof (cases st)
  case (Job_publish pub)
  with assms show ?thesis by (auto dest!: job_callback_frame)
next
  case (Default_publish pub)
  with assms show ?thesis by (auto dest!: default_callback_cases job_callback_frame)
next
  case (Data_publish pub)
  with assms show ?thesis by (auto dest!: data_callback_frame)
next
  case (Publish_complete code)
  with assms show ?thesis by (auto simp: cmds_publish_callback)
next
  case (Demo_poll c)
  with assms show ?thesis by (auto dest!: demo_poll_frame)
qed (use assms(2) in simp_all)

lemma cmds_others:
  assumes "exec_others E sts s = Some s'" and "\<forall>st \<in> set sts. \<not> other_completion st"
  shows "cmds s' = fold note_publish (publish_codes sts) (cmds s)"
  using assms
proof (induction sts arbitrary: s)
  case (Cons st sts)
  from Cons.prems(1) obtain s1 where s1: "exec_other E st s = Some s1" "exec_others E sts s1 = Some s'"
    by (auto simp: bind_eq_Some_conv)
  have n: "\<not> other_completion st" "\<forall>st \<in> set sts. \<not> other_completion st" using Cons.prems(2) by auto
  from Cons.IH [OF s1(2) n(2)] cmds_other [OF s1(1) n(1)] show ?case
    by (cases st) auto
qed simp

lemma fold_note_publish:
  assumes "xTaskToNotify (publishContext c) \<noteq> None"
  shows "ota_notification (fold note_publish codes c) \<noteq> None \<longleftrightarrow>
           codes \<noteq> [] \<or> ota_notification c \<noteq> None"
    and "xReturnStatus (publishContext (fold note_publish codes c)) =
           (if codes = [] then xReturnStatus (publishContext c) else last codes)"
  using assms
proof (induction codes arbitrary: c)
  case (Cons code codes)
  {
    case 1
    then show ?case using Cons.IH(1) [of "note_publish code c"] by (auto simp: note_publish_def complete_def)
  next
    case 2
    then show ?case using Cons.IH(2) [of "note_publish code c"] by (auto simp: note_publish_def complete_def)
  }
qed auto

text \<open>A publish whose command the MQTT agent accepted succeeds exactly when a publish completes
  while the task waits and the last completion reports success; without a completion in five
  seconds it fails. The command context is static, so the completion of an earlier publish that
  timed out counts as well.\<close>

theorem publish_reports_last_completion:
  assumes "ota_MQTTAgent_Publish (net E) \<lparr>pTopicName = topic, topicNameLength = tlen, pPayload = msg,
             payloadLength = unat mlen\<rparr> qos otaexampleMQTT_TIMEOUT_MS (ota_world s) = (MQTTSuccess, w)"
    and "other_tasks (net E) (pdMS_TO_TICKS otaexampleMQTT_TIMEOUT_MS) w = (steps, w')"
    and "\<forall>st \<in> set steps. \<not> other_completion st"
    and "prvMQTTPublish E topic tlen msg mlen qos s = Some (status, s')"
  shows "status = (if publish_codes steps \<noteq> [] \<and> last (publish_codes steps) = MQTTSuccess
                   then OtaMqttSuccess else OtaMqttPublishFailed)"
proof -
  let ?c = "(cmds s)\<lparr>publishContext :=
        (publishContext (cmds s))\<lparr>xTaskToNotify := Some (ota_task_handle E)\<rparr>,
        ota_notification := None\<rparr>"
  let ?s = "s\<lparr>cmds := ?c, ota_world := w'\<rparr>"
  from assms(1,2,4) obtain s3 where s3: "exec_others E steps ?s = Some s3"
    and st: "status = (if ota_notification (cmds s3) \<noteq> None \<and>
        xReturnStatus (publishContext (cmds s3)) = MQTTSuccess then OtaMqttSuccess else OtaMqttPublishFailed)"
    by (auto simp: prvMQTTPublish_def notify_wait_def wait_others_def Let_def
        split: option.splits if_splits)
  have "cmds s3 = fold note_publish (publish_codes steps) ?c"
    using cmds_others [OF s3 assms(3)] by simp
  with st fold_note_publish [of ?c "publish_codes steps"] show ?thesis by auto
qed

theorem publish_reports_last_completion_witness:
  "fst (the (prvMQTTPublish (sample_env False 0 0) ''t'' 1 ''m'' 1 MQTTQoS0
     (initial_state [[Publish_complete MQTTSendFailed, Publish_complete MQTTSuccess]]))) = OtaMqttSuccess"
proof -
  let ?E = "sample_env False 0 0"
  let ?steps = "[Publish_complete MQTTSendFailed, Publish_complete MQTTSuccess]"
  let ?s = "initial_state [?steps] :: (OtaEventMsg list, other_step list list) ota_state"
  let ?r = "prvMQTTPublish ?E ''t'' 1 ''m'' 1 MQTTQoS0 ?s"
  have p: "ota_MQTTAgent_Publish (net ?E) \<lparr>pTopicName = ''t'', topicNameLength = 1, pPayload = ''m'',
      payloadLength = unat (1::u32)\<rparr> MQTTQoS0 otaexampleMQTT_TIMEOUT_MS (ota_world ?s) = (MQTTSuccess, [?steps])"
    by (simp add: sample_net_def initial_state_def)
  have o: "other_tasks (net ?E) (pdMS_TO_TICKS otaexampleMQTT_TIMEOUT_MS) [?steps] = (?steps, [])"
    by (simp add: sample_net_def)
  have r: "?r = Some (fst (the ?r), snd (the ?r))"
    using p by (simp add: prvMQTTPublish_def notify_wait_def wait_others_def sample_net_def Let_def)
  have n: "\<forall>st \<in> set ?steps. \<not> other_completion st" by simp
  show ?thesis unfolding publish_reports_last_completion [OF p o n r] by simp
qed

end
