(* ===== verification/Ota_Job.thy ===== *)
theory Ota_Job
  imports Ota_Mqtt
begin

text \<open>
  Job documents in the OTA agent: \<^verbatim>\<open>ota_orchestrator_helpers.c\<close> and the part of
  \<^verbatim>\<open>ota_orchestrator.c\<close> that requests a job document, parses it, reports the status of a job and
  decides, in self test mode, whether the new image is accepted.
\<close>

section \<open>Helpers\<close>

text \<open>
  \<open>otaParser_parseJobDocFile\<close> returns the index of the next file as a signed byte, 0 when all files
  are processed and -1 on an error. The loop has no bound of its own: if the parser never returns a
  number below 1, the result is \<open>None\<close>.
\<close>

partial_function (option) parse_files ::
  "jobs_lib \<Rightarrow> string \<Rightarrow> nat \<Rightarrow> u8 \<Rightarrow> AfrOtaJobDocumentFields \<Rightarrow>
   (bool \<times> AfrOtaJobDocumentFields) option"
where
  "parse_files J jobDoc jobDocLength fileIndex jf =
     (let (next, jf') = otaParser_parseJobDocFile J jobDoc jobDocLength fileIndex jf
      in if 0 < sint next then parse_files J jobDoc jobDocLength next jf'
         else Some (next = 0, jf'))"

definition jobDocumentParser ::
  "jobs_lib \<Rightarrow> string \<Rightarrow> nat \<Rightarrow> AfrOtaJobDocumentFields \<Rightarrow> (bool \<times> AfrOtaJobDocumentFields) option"
where
  "jobDocumentParser J message messageLength jf =
     (let (jobDocLength, jobDoc) = Jobs_GetJobDocument J message messageLength
      in if jobDocLength \<noteq> 0 then parse_files J jobDoc jobDocLength 0 jf
         else Some (True, jf))"

text \<open>The result flag, the destination buffer and the job fields, whose signature now points to it.\<close>

definition convertSignatureToDER ::
  "jobs_lib \<Rightarrow> string \<Rightarrow> nat \<Rightarrow> AfrOtaJobDocumentFields \<Rightarrow>
   bool \<times> string \<times> AfrOtaJobDocumentFields"
where
  "convertSignatureToDER J dest destLength jf =
     (let (success, decoded) = base64_Decode J destLength (signature jf) (signatureLen jf);
          dest' = buf_write dest 0 decoded
      in if success
         then (True, dest', jf\<lparr>signature := dest', signatureLen := length decoded\<rparr>)
         else (False, dest', jf))"

section \<open>Status messages\<close>

definition log_fault :: "bool \<Rightarrow> ota_fault \<Rightarrow> ('q, 'w) ota_state \<Rightarrow> ('q, 'w) ota_state" where
  "log_fault b f s = (if b then s\<lparr>ota_faults := ota_faults s @ [f]\<rparr> else s)"

text \<open>\<open>app_strnlen( .., 1000U )\<close> runs past \<open>globalJobId\<close> when its 64 bytes hold no NUL.\<close>

definition job_update_topic ::
  "('q, 'w) ota_env \<Rightarrow> ('q, 'w) ota_state \<Rightarrow> string \<times> nat" where
  "job_update_topic E s =
     Jobs_Update (jobs E) (OTA_THING_NAME E) (of_nat (app_strnlen (Some (OTA_THING_NAME E)) 1000))
       (globalJobId (job s)) (of_nat (app_strnlen (Some (globalJobId (job s))) 1000))"

definition job_id_unterminated :: "('q, 'w) ota_state \<Rightarrow> bool" where
  "job_id_unterminated s \<longleftrightarrow> NUL \<notin> set (globalJobId (job s))"

definition sendStatusDetailsMessage ::
  "('q, 'w) ota_env \<Rightarrow> ('q, 'w) ota_state \<Rightarrow> ('q, 'w) ota_state option" where
  "sendStatusDetailsMessage E s =
     (let (palStatus, version, w) =
            otaPal_GetPlatformImageVersion (pal E) (jobFields (job s)) (ota_world s);
          s1 = log_fault (job_id_unterminated s) Job_id_unterminated (s\<lparr>ota_world := w\<rparr>);
          (topicBuffer, topicBufferLength) = job_update_topic E s1;
          updatedByBuffer = dec_string (unat version);
          (messageBuffer, messageBufferLength) =
            Jobs_UpdateMsg (jobs E) InProgress ''2'' 1 updatedByBuffer (length updatedByBuffer)
              UPDATE_JOB_MSG_LENGTH
      in map_option snd (prvMQTTPublish E topicBuffer (of_nat topicBufferLength) messageBuffer
           (of_nat messageBufferLength) MQTTQoS0 s1))"

definition sendFinalJobStatusMessage ::
  "('q, 'w) ota_env \<Rightarrow> JobCurrentStatus \<Rightarrow> ('q, 'w) ota_state \<Rightarrow> ('q, 'w) ota_state option" where
  "sendFinalJobStatusMessage E status s =
     (let s1 = log_fault (job_id_unterminated s) Job_id_unterminated s;
          (topicBuffer, topicBufferLength) = job_update_topic E s1;
          (messageBuffer, messageBufferLength) =
            Jobs_UpdateMsg (jobs E) status ''3'' 1 (updatedBy (jobStatusDetails (job s1)))
              (updatedByLen (jobStatusDetails (job s1))) UPDATE_JOB_MSG_LENGTH
      in do {
           (_, s2) \<leftarrow> prvMQTTPublish E topicBuffer (of_nat topicBufferLength) messageBuffer
                        (of_nat messageBufferLength) MQTTQoS0 s1;
           Some (s2\<lparr>job := (job s2)\<lparr>globalJobId := (globalJobId (job s2))[0 := NUL]\<rparr>\<rparr>)
         })"

text \<open>
  The four local arrays have exactly the length of the text they receive: the terminator of each is
  written behind its end. The rest of the function only logs.
\<close>

definition printJobParams :: "('q, 'w) ota_state \<Rightarrow> ('q, 'w) ota_state" where
  "printJobParams s = s\<lparr>ota_faults := ota_faults s @ replicate 4 Vla_overrun\<rparr>"

section \<open>Requesting a job and a file\<close>

definition requestJobDocumentHandler ::
  "('q, 'w) ota_env \<Rightarrow> ('q, 'w) ota_state \<Rightarrow> ('q, 'w) ota_state option" where
  "requestJobDocumentHandler E s =
     (let (topicBuffer, topicLength) =
            Jobs_StartNext (jobs E) (OTA_THING_NAME E) (of_nat (strlen (OTA_THING_NAME E)));
          (messageBuffer, messageLength) =
            Jobs_StartNextMsg (jobs E) (OTA_THING_NAME E) (strlen (OTA_THING_NAME E))
              START_JOB_MSG_LENGTH
      in map_option snd (prvMQTTPublish E topicBuffer (of_nat topicLength) messageBuffer
           (of_nat messageLength) MQTTQoS0 s))"

text \<open>The counters of a download of the file \<open>jf\<close> describes, and the topics the streams library prepares.\<close>

definition start_download ::
  "('q, 'w) ota_env \<Rightarrow> AfrOtaJobDocumentFields \<Rightarrow> ota_download \<Rightarrow> ota_download" where
  "start_download E jf d =
     \<lparr>mqttFileDownloaderContext =
        mqttDownloader_init (downloader E) (mqttFileDownloaderContext d) (imageRef jf)
          (imageRefLen jf) (OTA_THING_NAME E) (strlen (OTA_THING_NAME E)),
      currentFileId = ucast (fileId jf),
      currentBlockOffset = 0,
      numOfBlocksRemaining =
        fileSize jf div mqttFileDownloader_CONFIG_BLOCK_SIZE +
        (if fileSize jf mod mqttFileDownloader_CONFIG_BLOCK_SIZE > 0 then 1 else 0),
      totalBytesReceived = 0\<rparr>"

definition initMqttDownloader ::
  "('q, 'w) ota_env \<Rightarrow> ('q, 'w) ota_state \<Rightarrow> ('q, 'w) ota_state option" where
  "initMqttDownloader E s =
     (let s1 = s\<lparr>dl := start_download E (jobFields (job s)) (dl s)\<rparr>
      in map_option snd (prvMQTTSubscribe E (stream_topic_address E)
           (of_nat (topicStreamDataLength (mqttFileDownloaderContext (dl s1)))) MQTTQoS0 s1))"

section \<open>The job document\<close>

text \<open>
  \<open>updatedByVer\<close>, the version the job was started with: the number is cut to 16 bits. The
  terminator is written behind the end of \<open>updatedByBuffer\<close>.
\<close>

definition updated_by_version :: "AfrOtaJobDocumentStatusDetails \<Rightarrow> u16" where
  "updated_by_version details = ucast (strtoul10 (take (updatedByLen details) (updatedBy details)))"

text \<open>The branch of a device in self test mode.\<close>

definition self_test ::
  "('q, 'w) ota_env \<Rightarrow> ('q, 'w) ota_state \<Rightarrow>
   (OtaPalJobDocProcessingResult \<times> ('q, 'w) ota_state) option"
where
  "self_test E s =
     (let (palStatus, version, w) =
            otaPal_GetPlatformImageVersion (pal E) (jobFields (job s)) (ota_world s);
          s1 = log_fault True Vla_overrun (s\<lparr>ota_world := w\<rparr>);
          updatedByVer = updated_by_version (jobStatusDetails (job s))
      in if ucast updatedByVer < version
         then do {
           s2 \<leftarrow> sendFinalJobStatusMessage E Succeeded
                  (s1\<lparr>ota_world := otaPal_SetPlatformImageState (pal E) (jobFields (job s1))
                                     OtaImageStateAccepted (ota_world s1)\<rparr>);
           Some (OtaPalNewImageBooted, s2)
         }
         else do {
           s2 \<leftarrow> sendFinalJobStatusMessage E Failed
                  (s1\<lparr>ota_world := otaPal_SetPlatformImageState (pal E) (jobFields (job s1))
                                     OtaImageStateRejected (ota_world s1)\<rparr>);
           Some (OtaPalNewImageBootFailed, s2)
         })"

text \<open>The branch that starts a download.\<close>

definition begin_download ::
  "('q, 'w) ota_env \<Rightarrow> ('q, 'w) ota_state \<Rightarrow>
   (OtaPalJobDocProcessingResult \<times> ('q, 'w) ota_state) option"
where
  "begin_download E s =
     do {
       s1 \<leftarrow> initMqttDownloader E s;
       let (handled, dest, jf) =
             convertSignatureToDER (jobs E) (OtaImageSignatureDecoded (job s1))
               OTA_MAX_SIGNATURE_SIZE (jobFields (job s1));
           s2 = s1\<lparr>job := (job s1)\<lparr>OtaImageSignatureDecoded := dest, jobFields := jf\<rparr>\<rparr>
       in if handled
          then (let (xResult, w) = otaPal_CreateFileForRx (pal E) jf (ota_world s2)
                in Some (xResult, s2\<lparr>ota_world := w\<rparr>))
          else Some (OtaPalJobDocFileCreateFailed, s2)
     }"

text \<open>The part after the job ID was found to be new.\<close>

definition parse_new_job ::
  "('q, 'w) ota_env \<Rightarrow> ('q, 'w) ota_state \<Rightarrow>
   (OtaPalJobDocProcessingResult \<times> ('q, 'w) ota_state) option"
where
  "parse_new_job E s =
     do {
       (handled, jf) \<leftarrow> jobDocumentParser (jobs E) (jobData (jobDocBuffer s))
                              (jobDataLength (jobDocBuffer s)) (jobFields (job s));
       let s1 = s\<lparr>job := (job s)\<lparr>jobFields := jf,
                 jobStatusDetails := populateJobStatusDetailsFields (jobs E)
                   (jobData (jobDocBuffer s)) (jobDataLength (jobDocBuffer s))
                   (jobStatusDetails (job s))\<rparr>\<rparr>
       in if handled
          then (let s2 = printJobParams s1;
                    (pending, w) = otaPal_ImageStateIsPendingCommit (pal E) (jobFields (job s2))
                                     (ota_world s2);
                    s3 = s2\<lparr>ota_world := w\<rparr>
                in if pending then self_test E s3 else begin_download E s3)
          else Some (OtaPalJobDocFileCreateFailed, s1)
     }"

definition receivedJobDocumentHandler ::
  "('q, 'w) ota_env \<Rightarrow> ('q, 'w) ota_state \<Rightarrow>
   (OtaPalJobDocProcessingResult \<times> ('q, 'w) ota_state) option"
where
  "receivedJobDocumentHandler E s =
     (let s0 = s\<lparr>job := (job s)\<lparr>jobFields := zero_fields\<rparr>\<rparr>;
          (jobIdLength, jobId) =
            Jobs_GetJobId (jobs E) (jobData (jobDocBuffer s)) (jobDataLength (jobDocBuffer s))
      in if jobIdLength \<noteq> 0
         then (if strncmp jobIdLength (globalJobId (job s0)) jobId \<noteq> 0
               then parse_new_job E
                      (log_fault (\<not> buf_fits (globalJobId (job s0)) 0 jobIdLength) Job_id_overflow
                        (s0\<lparr>job := (job s0)\<lparr>globalJobId :=
                              buf_write (globalJobId (job s0)) 0 (take jobIdLength jobId)\<rparr>\<rparr>))
               else Some (OtaPalJobDocFileCreated, s0))
         else Some (OtaPalJobDocFileCreateFailed, s0))"

end
