(* ===== verification/Ota_Orchestrator.thy ===== *)
theory Ota_Orchestrator
  imports Ota_Job
begin

text \<open>
  The event loop of the OTA agent in \<^verbatim>\<open>ota_orchestrator.c\<close>: one handler per event, \<open>processOTAEvents\<close>
  that receives an event and runs its handler, the task's loop and the task that starts it. The
  handlers run in the OTA task; the steps of other tasks interleave where a handler waits for the
  MQTT agent and where the loop waits for an event.
\<close>

section \<open>Blocks\<close>

definition requestDataBlock ::
  "('q, 'w) ota_env \<Rightarrow> ('q, 'w) ota_state \<Rightarrow> ('q, 'w) ota_state option" where
  "requestDataBlock E s =
     (let d = dl s;
          (getStreamRequest, getStreamRequestLength) =
            mqttDownloader_createGetDataBlockRequest (downloader E)
              (dataType (mqttFileDownloaderContext d)) (ucast (currentFileId d))
              mqttFileDownloader_CONFIG_BLOCK_SIZE (ucast (currentBlockOffset d))
              NUM_OF_BLOCKS_REQUESTED
      in map_option snd (prvMQTTPublish E (topicGetStream (mqttFileDownloaderContext d))
           (of_nat (topicGetStreamLength (mqttFileDownloaderContext d))) getStreamRequest
           (of_nat getStreamRequestLength) MQTTQoS0 s))"

text \<open>\<open>int16_t\<close> results are read with \<open>sint\<close>.\<close>

definition handleMqttStreamsBlockArrived ::
  "('q, 'w) ota_env \<Rightarrow> string \<Rightarrow> nat \<Rightarrow> ('q, 'w) ota_state \<Rightarrow> u16 \<times> ('q, 'w) ota_state" where
  "handleMqttStreamsBlockArrived E bytes len s =
     (let (writeblockRes, w) = otaPal_WriteBlock (pal E) (jobFields (job s))
            (totalBytesReceived (dl s)) bytes len (ota_world s);
          s' = s\<lparr>ota_world := w\<rparr>
      in (writeblockRes,
          if 0 < sint writeblockRes
          then s'\<lparr>dl := (dl s')\<lparr>totalBytesReceived :=
                 totalBytesReceived (dl s') + scast writeblockRes\<rparr>\<rparr>
          else s'))"

definition free_buffer ::
  "('q, 'w) ota_env \<Rightarrow> nat \<Rightarrow> ('q, 'w) ota_state \<Rightarrow> ('q, 'w) ota_state" where
  "free_buffer E i s =
     (let (taken, w) = xSemaphoreTake (net E) (ota_world s)
      in s\<lparr>dataBuffers := freeOtaDataEventBuffer taken i (dataBuffers s), ota_world := w\<rparr>)"

definition closeFile ::
  "('q, 'w) ota_env \<Rightarrow> ('q, 'w) ota_state \<Rightarrow> bool \<times> ('q, 'w) ota_state" where
  "closeFile E s =
     (let (r, w) = otaPal_CloseFile (pal E) (jobFields (job s)) (ota_world s)
      in (r, s\<lparr>ota_world := w\<rparr>))"

definition activateImage ::
  "('q, 'w) ota_env \<Rightarrow> ('q, 'w) ota_state \<Rightarrow> bool \<times> ('q, 'w) ota_state" where
  "activateImage E s =
     (let (r, w) = otaPal_ActivateNewImage (pal E) (jobFields (job s)) (ota_world s)
      in (r, s\<lparr>ota_world := w\<rparr>))"

section \<open>Handlers\<close>

definition on_job_document ::
  "('q, 'w) ota_env \<Rightarrow> OtaEventMsg \<Rightarrow> ('q, 'w) ota_state \<Rightarrow> ('q, 'w) ota_state option" where
  "on_job_document E recvEvent s =
     (if otaAgentState s = OtaAgentStateSuspended \<or> otaAgentState s = OtaAgentStateStopped
      then Some s
      else if \<not> jobEvent recvEvent then None
      else do {
        (result, s1) \<leftarrow> receivedJobDocumentHandler E s;
        (case result of
           OtaPalJobDocFileCreated \<Rightarrow>
             do {
               s2 \<leftarrow> send_event E (simple_event OtaAgentEventRequestFileBlock) s1;
               Some (s2\<lparr>otaAgentState := OtaAgentStateCreatingFile,
                        ota_world := vOtaActiveHook (pal E) (ota_world s2)\<rparr>)
             }
         | _ \<Rightarrow> Some (s1\<lparr>ota_world := vOtaNotActiveHook (pal E) (ota_world s1)\<rparr>))
      })"

definition on_request_block ::
  "('q, 'w) ota_env \<Rightarrow> ('q, 'w) ota_state \<Rightarrow> ('q, 'w) ota_state option" where
  "on_request_block E s =
     requestDataBlock E (s\<lparr>otaAgentState := OtaAgentStateRequestingFileBlock\<rparr>)"

text \<open>The counters after a block whose write returned \<open>result\<close>; unsigned, so they wrap around.\<close>

definition count_block :: "u16 \<Rightarrow> ota_download \<Rightarrow> ota_download" where
  "count_block result d =
     (if 0 < sint result
      then d\<lparr>numOfBlocksRemaining := numOfBlocksRemaining d - 1,
             currentBlockOffset := currentBlockOffset d + 1\<rparr>
      else d)"

definition on_file_block ::
  "('q, 'w) ota_env \<Rightarrow> OtaEventMsg \<Rightarrow> ('q, 'w) ota_state \<Rightarrow> ('q, 'w) ota_state option" where
  "on_file_block E recvEvent s =
     (case dataEvent recvEvent of
        None \<Rightarrow> None
      | Some i \<Rightarrow>
          (if otaAgentState s = OtaAgentStateSuspended \<or> otaAgentState s = OtaAgentStateStopped
           then Some (free_buffer E i s)
           else
             (let b = dataBuffers s ! i;
                  (decodedData, decodedDataLength) =
                    mqttDownloader_processReceivedDataBlock (downloader E)
                      (mqttFileDownloaderContext (dl s)) (data b) (dataLength b);
                  (result, s1) = handleMqttStreamsBlockArrived E decodedData decodedDataLength s;
                  s2 = free_buffer E i s1;
                  s3 = s2\<lparr>dl := count_block result (dl s2)\<rparr>
              in if numOfBlocksRemaining (dl s3) = 0
                 then send_event E (simple_event OtaAgentEventCloseFile) s3
                 else send_event E (simple_event OtaAgentEventRequestFileBlock) s3)))"

definition on_close_file ::
  "('q, 'w) ota_env \<Rightarrow> ('q, 'w) ota_state \<Rightarrow> ('q, 'w) ota_state option" where
  "on_close_file E s =
     (let (closed, s1) = closeFile E s
      in if closed then send_event E (simple_event OtaAgentEventActivateImage) s1 else Some s1)"

definition on_activate_image ::
  "('q, 'w) ota_env \<Rightarrow> ('q, 'w) ota_state \<Rightarrow> ('q, 'w) ota_state option" where
  "on_activate_image E s =
     do {
       s1 \<leftarrow> sendStatusDetailsMessage E s;
       let (activated, s2) = activateImage E s1
       in if activated then send_event E (simple_event OtaAgentEventRequestJobDocument) s2
          else Some s2
     }"

section \<open>The event loop\<close>

definition handle_event ::
  "('q, 'w) ota_env \<Rightarrow> OtaEventMsg \<Rightarrow> ('q, 'w) ota_state \<Rightarrow> ('q, 'w) ota_state option" where
  "handle_event E recvEvent s =
     (case eventId recvEvent of
        OtaAgentEventRequestJobDocument \<Rightarrow>
          map_option (\<lambda>s. s\<lparr>otaAgentState := OtaAgentStateRequestingJob\<rparr>)
            (requestJobDocumentHandler E s)
      | OtaAgentEventReceivedJobDocument \<Rightarrow> on_job_document E recvEvent s
      | OtaAgentEventRequestFileBlock \<Rightarrow> on_request_block E s
      | OtaAgentEventReceivedFileBlock \<Rightarrow> on_file_block E recvEvent s
      | OtaAgentEventCloseFile \<Rightarrow> on_close_file E s
      | OtaAgentEventActivateImage \<Rightarrow> on_activate_image E s
      | OtaAgentEventSuspend \<Rightarrow> Some (s\<lparr>otaAgentState := OtaAgentStateSuspended\<rparr>)
      | OtaAgentEventResume \<Rightarrow>
          send_event E (simple_event OtaAgentEventRequestJobDocument)
            (s\<lparr>otaAgentState := OtaAgentStateRequestingJob\<rparr>)
      | OtaAgentEventShutdown \<Rightarrow>
          Some (s\<lparr>otaAgentState := OtaAgentStateStopped,
                  ota_world := vOtaNotActiveHook (pal E) (ota_world s)\<rparr>)
      | _ \<Rightarrow> Some s)"

text \<open>
  While the task is blocked on the queue, for at most three seconds, other tasks run. When nothing
  arrives the event stays zero, which is \<open>OtaAgentEventStart\<close> and falls into the default branch.
\<close>

definition processOTAEvents ::
  "('q, 'w) ota_env \<Rightarrow> ('q, 'w) ota_state \<Rightarrow> ('q, 'w) ota_state option" where
  "processOTAEvents E s =
     do {
       s1 \<leftarrow> wait_others E (pdMS_TO_TICKS 3000) s;
       (_, recvEvent, q) \<leftarrow> OtaReceiveEvent_FreeRTOS (kernel E) (otaEventQueue s1) zero_event;
       handle_event E recvEvent (s1\<lparr>otaEventQueue := q\<rparr>)
     }"

text \<open>The loop with a bound on its rounds; the flag tells that it has ended.\<close>

fun agent_task_loop ::
  "('q, 'w) ota_env \<Rightarrow> nat \<Rightarrow> ('q, 'w) ota_state \<Rightarrow> (bool \<times> ('q, 'w) ota_state) option" where
  "agent_task_loop E n s =
     (if otaAgentState s = OtaAgentStateStopped then Some (True, s)
      else case n of
             0 \<Rightarrow> Some (False, s)
           | Suc m \<Rightarrow> do { s' \<leftarrow> processOTAEvents E s; agent_task_loop E m s' })"

declare agent_task_loop.simps [simp del]

definition prvOTAAgentTask ::
  "('q, 'w) ota_env \<Rightarrow> nat \<Rightarrow> ('q, 'w) ota_state \<Rightarrow> (bool \<times> ('q, 'w) ota_state) option" where
  "prvOTAAgentTask E n s = agent_task_loop E n (s\<lparr>otaAgentState := OtaAgentStateReady\<rparr>)"

section \<open>The demo task\<close>

fun demo_polls ::
  "('q, 'w) ota_env \<Rightarrow> bool list \<Rightarrow> ('q, 'w) ota_state \<Rightarrow> ('q, 'w) ota_state option" where
  "demo_polls E [] s = Some s"
| "demo_polls E (c # cs) s = do { s' \<leftarrow> demo_poll E c s; demo_polls E cs s' }"

text \<open>
  \<open>G\<close> and \<open>h\<close> are the event group and its handle, \<open>create\<close> is the kernel's queue creation,
  \<open>created\<close> the result of \<open>xTaskCreate\<close> and \<open>conns\<close> what the event group shows in the first rounds
  of the loop, which has no end. The first component is the returned status, \<open>None\<close> while the loop
  runs. The result is \<open>None\<close> while a wait for the MQTT agent blocks.
\<close>

definition prvRunOTADemo ::
  "('q, 'w) ota_env \<Rightarrow> 'e event_ops \<Rightarrow> 'e option \<Rightarrow> (nat \<Rightarrow> 'q option) \<Rightarrow> bool \<Rightarrow> bool list \<Rightarrow>
   ('q, 'w) ota_state \<Rightarrow> (bool option \<times> ('q, 'w) ota_state) option"
where
  "prvRunOTADemo E G h create created conns s =
     (if vWaitUntilMQTTAgentReady G h = Some True \<and> vWaitUntilMQTTAgentConnected G h = Some True
      then do {
        let s1 = s\<lparr>otaEventQueue := snd (OtaInitEvent_FreeRTOS create)\<rparr>;
        s2 \<leftarrow> prvRegisterOTACallback E (default_filter_address E)
                (of_nat (length OTA_DEFAULT_TOPIC_FILTER)) s1;
        (if created
         then do {
           s3 \<leftarrow> send_event E (simple_event OtaAgentEventRequestJobDocument) s2;
           s4 \<leftarrow> demo_polls E conns s3;
           Some (None, s4)
         }
         else Some (Some False, s2\<lparr>ota_subs := snd (removeSubscription (ota_memory E s2)
                (default_filter_address E) (of_nat (length OTA_DEFAULT_TOPIC_FILTER))
                (ota_subs s2))\<rparr>))
      }
      else None)"

text \<open>\<open>mutex\<close> tells whether the creation of the buffers' mutex succeeded.\<close>

definition vOtaDemoTask ::
  "('q, 'w) ota_env \<Rightarrow> 'e event_ops \<Rightarrow> 'e option \<Rightarrow> (nat \<Rightarrow> 'q option) \<Rightarrow> bool \<Rightarrow> bool \<Rightarrow> bool list \<Rightarrow>
   ('q, 'w) ota_state \<Rightarrow> ('q, 'w) ota_state option"
where
  "vOtaDemoTask E G h create mutex created conns s =
     (if mutex then map_option snd (prvRunOTADemo E G h create created conns s) else Some s)"

end
