(* ===== verification/Ota_Invariant.thy ===== *)
theory Ota_Invariant
  imports Ota_Orchestrator
begin

text \<open>
  Invariants of the OTA agent's shared state: the event queue and the data buffers. What such an
  invariant must satisfy is a locale, \<open>shared_invariant\<close>: that it survives the elementary steps of
  the program on the set of buffers in use and on the queued events. Its preservation by every
  callback, every handler and the event loop is proved once there, and used twice: for the buffers
  that queued events refer to, and for the state in which all buffers are lost.
\<close>

section \<open>Events and the buffers they hold\<close>

text \<open>
  A plain event carries no buffer, and is not a shutdown: \<open>otaAgentShutdown\<close>, the only function that
  sends one, has no caller.
\<close>

definition plain_event :: "OtaEventMsg \<Rightarrow> bool" where
  "plain_event m \<longleftrightarrow> dataEvent m = None \<and> eventId m \<noteq> OtaAgentEventReceivedFileBlock \<and>
     eventId m \<noteq> OtaAgentEventShutdown \<and>
     (eventId m = OtaAgentEventReceivedJobDocument \<longrightarrow> jobEvent m)"

definition block_event :: "nat \<Rightarrow> OtaEventMsg" where
  "block_event i = zero_event\<lparr>eventId := OtaAgentEventReceivedFileBlock, dataEvent := Some i\<rparr>"

lemma event_simps [simp]:
  "plain_event zero_event" "plain_event job_event" "\<not> plain_event (block_event i)"
  "dataEvent (block_event i) = Some i" "dataEvent zero_event = None"
  "eventId (block_event i) = OtaAgentEventReceivedFileBlock" "eventId zero_event = OtaAgentEventStart"
  by (simp_all add: plain_event_def block_event_def zero_event_def job_event_def)

lemma plain_simple_event [simp]:
  "e \<noteq> OtaAgentEventReceivedFileBlock \<Longrightarrow> e \<noteq> OtaAgentEventReceivedJobDocument \<Longrightarrow>
   e \<noteq> OtaAgentEventShutdown \<Longrightarrow> plain_event (simple_event e)"
  by (simp add: plain_event_def zero_event_def)

lemma plain_eventD: "plain_event m \<Longrightarrow> dataEvent m = None"
  by (simp add: plain_event_def)

section \<open>The cases of the handlers\<close>

lemma on_job_document_cases [consumes 1, case_names dropped created idle]:
  assumes "on_job_document E ev s = Some s'"
  obtains "s' = s" "otaAgentState s = OtaAgentStateSuspended \<or> otaAgentState s = OtaAgentStateStopped"
    | s1 s2 where "receivedJobDocumentHandler E s = Some (OtaPalJobDocFileCreated, s1)"
        "send_event E (simple_event OtaAgentEventRequestFileBlock) s1 = Some s2"
        "s' = s2\<lparr>otaAgentState := OtaAgentStateCreatingFile,
                ota_world := vOtaActiveHook (pal E) (ota_world s2)\<rparr>"
    | r s1 where "receivedJobDocumentHandler E s = Some (r, s1)" "r \<noteq> OtaPalJobDocFileCreated"
        "s' = s1\<lparr>ota_world := vOtaNotActiveHook (pal E) (ota_world s1)\<rparr>"
proof (cases "otaAgentState s = OtaAgentStateSuspended \<or> otaAgentState s = OtaAgentStateStopped")
  case True
  with assms show thesis by (intro that(1)) (simp_all add: on_job_document_def)
next
  case False
  with assms have j: "jobEvent ev" by (simp add: on_job_document_def split: if_splits)
  with False assms obtain r s1 where h: "receivedJobDocumentHandler E s = Some (r, s1)"
    by (cases "receivedJobDocumentHandler E s") (auto simp: on_job_document_def)
  show thesis
  proof (cases "r = OtaPalJobDocFileCreated")
    case True
    with False assms j h obtain s2 where
      "send_event E (simple_event OtaAgentEventRequestFileBlock) s1 = Some s2"
      by (cases "send_event E (simple_event OtaAgentEventRequestFileBlock) s1")
        (auto simp: on_job_document_def)
    with True False assms j h show thesis by (intro that(2)) (auto simp: on_job_document_def)
  next
    case ne: False
    then have "s' = s1\<lparr>ota_world := vOtaNotActiveHook (pal E) (ota_world s1)\<rparr>"
      using False assms j h by (cases r) (simp_all add: on_job_document_def)
    with h ne show thesis by (rule that(3))
  qed
qed

lemma parse_new_job_disj:
  "parse_new_job E s = Some (r, s') \<Longrightarrow>
   (\<exists>j. r = OtaPalJobDocFileCreateFailed \<and> s' = s\<lparr>job := j\<rparr>) \<or>
   (\<exists>j f w. self_test E (s\<lparr>job := j, ota_faults := f, ota_world := w\<rparr>) = Some (r, s')) \<or>
   (\<exists>j f w. begin_download E (s\<lparr>job := j, ota_faults := f, ota_world := w\<rparr>) = Some (r, s'))"
  by (auto simp: parse_new_job_def printJobParams_def Let_def split_beta bind_eq_Some_conv
        split: if_splits)

lemma parse_new_job_cases [consumes 1, case_names unhandled self download]:
  assumes "parse_new_job E s = Some (r, s')"
  obtains j where "r = OtaPalJobDocFileCreateFailed" "s' = s\<lparr>job := j\<rparr>"
    | j f w where "self_test E (s\<lparr>job := j, ota_faults := f, ota_world := w\<rparr>) = Some (r, s')"
    | j f w where "begin_download E (s\<lparr>job := j, ota_faults := f, ota_world := w\<rparr>) = Some (r, s')"
  using parse_new_job_disj [OF assms] by blast

lemma job_document_disj:
  "receivedJobDocumentHandler E s = Some (r, s') \<Longrightarrow>
   (r = OtaPalJobDocFileCreateFailed \<or> r = OtaPalJobDocFileCreated) \<and>
     s' = s\<lparr>job := (job s)\<lparr>jobFields := zero_fields\<rparr>\<rparr> \<or>
   (\<exists>j b. parse_new_job E (log_fault b Job_id_overflow (s\<lparr>job := j\<rparr>)) = Some (r, s'))"
  by (auto simp: receivedJobDocumentHandler_def Let_def split_beta split: if_splits)

lemma job_document_cases [consumes 1, case_names kept new_id]:
  assumes "receivedJobDocumentHandler E s = Some (r, s')"
  obtains "r = OtaPalJobDocFileCreateFailed \<or> r = OtaPalJobDocFileCreated"
      "s' = s\<lparr>job := (job s)\<lparr>jobFields := zero_fields\<rparr>\<rparr>"
    | j b where "parse_new_job E (log_fault b Job_id_overflow (s\<lparr>job := j\<rparr>)) = Some (r, s')"
  using job_document_disj [OF assms] by blast

text \<open>What the block handler does to the counters, given what \<open>otaPal_WriteBlock\<close> returned.\<close>

definition write_counted :: "u16 \<Rightarrow> ota_download \<Rightarrow> ota_download" where
  "write_counted result d =
     (if 0 < sint result then d\<lparr>totalBytesReceived := totalBytesReceived d + scast result\<rparr> else d)"

lemma handle_block_eq:
  "otaPal_WriteBlock (pal E) (jobFields (job s)) (totalBytesReceived (dl s)) bytes len (ota_world s)
     = (result, w) \<Longrightarrow>
   handleMqttStreamsBlockArrived E bytes len s =
     (result, s\<lparr>ota_world := w, dl := write_counted result (dl s)\<rparr>)"
  by (simp add: handleMqttStreamsBlockArrived_def write_counted_def)

lemma dl_free_buffer [simp]: "dl (free_buffer E i s) = dl s"
  by (simp add: free_buffer_def split_beta)

lemma on_file_block_cases [consumes 1, case_names dropped written]:
  assumes "on_file_block E ev s = Some s'"
  obtains i where "dataEvent ev = Some i"
        "otaAgentState s = OtaAgentStateSuspended \<or> otaAgentState s = OtaAgentStateStopped"
        "s' = free_buffer E i s"
    | i result w d e where "dataEvent ev = Some i" "d = write_counted result (dl s)"
        "e = (if numOfBlocksRemaining (count_block result d) = 0 then OtaAgentEventCloseFile
              else OtaAgentEventRequestFileBlock)"
        "send_event E (simple_event e)
          ((free_buffer E i (s\<lparr>ota_world := w, dl := d\<rparr>))\<lparr>dl := count_block result d\<rparr>) = Some s'"
proof (cases "dataEvent ev")
  case None
  with assms show thesis by (simp add: on_file_block_def)
next
  case (Some i)
  show thesis
  proof (cases "otaAgentState s = OtaAgentStateSuspended \<or> otaAgentState s = OtaAgentStateStopped")
    case True
    with assms Some show thesis by (intro that(1) [of i]) (simp_all add: on_file_block_def)
  next
    case False
    let ?p = "mqttDownloader_processReceivedDataBlock (downloader E)
      (mqttFileDownloaderContext (dl s)) (data (dataBuffers s ! i)) (dataLength (dataBuffers s ! i))"
    obtain result w where wr: "otaPal_WriteBlock (pal E) (jobFields (job s))
        (totalBytesReceived (dl s)) (fst ?p) (snd ?p) (ota_world s) = (result, w)"
      by fastforce
    let ?d = "write_counted result (dl s)"
    let ?e = "if numOfBlocksRemaining (count_block result ?d) = 0 then OtaAgentEventCloseFile
              else OtaAgentEventRequestFileBlock"
    have "send_event E (simple_event ?e)
        ((free_buffer E i (s\<lparr>ota_world := w, dl := ?d\<rparr>))\<lparr>dl := count_block result ?d\<rparr>) = Some s'"
      using assms Some False handle_block_eq [OF wr]
      by (simp add: on_file_block_def split_beta Let_def split: if_splits)
    with Some show thesis by (rule that(2) [OF _ refl refl])
  qed
qed

section \<open>The contract of an invariant\<close>

locale shared_invariant =
  fixes I :: "nat set \<Rightarrow> OtaEventMsg list \<Rightarrow> bool"
  assumes I_send: "I U ms \<Longrightarrow> plain_event m \<Longrightarrow> length ms < MAX_MESSAGES \<Longrightarrow> I U (ms @ [m])"
    and I_acquire: "I U ms \<Longrightarrow> i \<notin> U \<Longrightarrow> i < 2 \<Longrightarrow> I (insert i U) ms"
    and I_queue: "I U ms \<Longrightarrow> i \<notin> U \<Longrightarrow> i < 2 \<Longrightarrow> length ms < MAX_MESSAGES \<Longrightarrow>
      I (insert i U) (ms @ [block_event i])"
    and I_event: "I U (m # ms) \<Longrightarrow> plain_event m \<or> (\<exists>i. m = block_event i)"
    and I_receive: "I U (m # ms) \<Longrightarrow> I U ms"
    and I_free: "I U (block_event i # ms) \<Longrightarrow> I (U - {i}) ms"
begin

definition holds :: "('q \<Rightarrow> OtaEventMsg list) \<Rightarrow> ('q, 'w) ota_state \<Rightarrow> bool" where
  "holds items s \<longleftrightarrow> buffers_ok (dataBuffers s) \<and>
     (\<exists>q. otaEventQueue s = Some q \<and> I (used_buffers (dataBuffers s)) (items q))"

lemma holds_simps [simp]:
  "holds items (s\<lparr>jobDocBuffer := b\<rparr>) = holds items s"
  "holds items (s\<lparr>ota_subs := subs\<rparr>) = holds items s"
  "holds items (s\<lparr>cmds := c\<rparr>) = holds items s"
  "holds items (s\<lparr>ota_faults := f\<rparr>) = holds items s"
  "holds items (s\<lparr>ota_world := w\<rparr>) = holds items s"
  "holds items (s\<lparr>job := j\<rparr>) = holds items s"
  "holds items (s\<lparr>dl := d\<rparr>) = holds items s"
  "holds items (s\<lparr>otaAgentState := st\<rparr>) = holds items s"
  by (simp_all add: holds_def)

lemma send_event_queue:
  assumes "kernel_fifo (kernel E) items MAX_MESSAGES" and "otaEventQueue s = Some q"
    and "send_event E m s = Some s'"
  shows "\<exists>q'. s' = s\<lparr>otaEventQueue := Some q'\<rparr> \<and>
    items q' = items q @ (if length (items q) < MAX_MESSAGES then [m] else [])"
  using assms items_event_send [OF assms(1), of q m]
  by (auto simp: send_event_def OtaSendEvent_eq)

lemma send_holds:
  assumes K: "kernel_fifo (kernel E) items MAX_MESSAGES" and "holds items s" and "plain_event m"
    and "send_event E m s = Some s'"
  shows "holds items s'"
proof -
  from assms(2) obtain q where q: "otaEventQueue s = Some q" "buffers_ok (dataBuffers s)"
    "I (used_buffers (dataBuffers s)) (items q)" by (auto simp: holds_def)
  from send_event_queue [OF K q(1) assms(4)] obtain q' where "s' = s\<lparr>otaEventQueue := Some q'\<rparr>"
    and "items q' = items q @ (if length (items q) < MAX_MESSAGES then [m] else [])" by blast
  with q I_send [OF q(3) assms(3)] show ?thesis by (simp add: holds_def)
qed

lemma job_callback_holds:
  assumes "kernel_fifo (kernel E) items MAX_MESSAGES" and "holds items s"
    and "prvMqttJobCallback E p s = Some s'"
  shows "holds items s'"
  using assms(3)
proof (cases rule: job_callback_cases)
  case (queued pub)
  have "holds items (job_received pub s)" using assms(2) by (simp add: job_received_def)
  from send_holds [OF assms(1) this _ queued(2)] show ?thesis by simp
qed (use assms(2) in simp)

lemma used_buffers_update:
  "i < length bufs \<Longrightarrow> bufferUsed b = bufferUsed (bufs ! i) \<Longrightarrow>
   used_buffers (bufs[i := b]) = used_buffers bufs"
  by (auto simp: used_buffers_def nth_list_update_if split: if_splits)

lemma data_callback_holds:
  assumes K: "kernel_fifo (kernel E) items MAX_MESSAGES" and h: "holds items s"
    and "prvMqttDataCallback E (Some pub) s = Some s'"
  shows "holds items s'"
proof -
  from h obtain q where q: "otaEventQueue s = Some q" "buffers_ok (dataBuffers s)"
    "I (used_buffers (dataBuffers s)) (items q)" by (auto simp: holds_def)
  have got: "taken \<and> i < 2 \<and> i \<notin> used_buffers (dataBuffers s) \<and> buffers_ok bufs \<and>
      used_buffers bufs = insert i (used_buffers (dataBuffers s))"
    if "getOtaDataEventBuffer taken (dataBuffers s) = (Some i, bufs)" for taken i bufs
  proof -
    from that have t: "taken" by (cases taken) (auto simp: getOtaDataEventBuffer_def)
    with that used_get [OF buffers_okD [OF q(2)], of i bufs] buffers_ok_get [OF q(2), of taken]
    show ?thesis by simp
  qed
  from assms(3) show ?thesis
  proof (cases rule: data_callback_cases)
    case (full taken w)
    have "snd (getOtaDataEventBuffer taken (dataBuffers s)) = dataBuffers s"
      using full(2) get_None_same [OF _ buffers_okD [OF q(2)]]
      by (cases taken) (auto simp: getOtaDataEventBuffer_def prod_eq_iff)
    with full(3) h show ?thesis by simp
  next
    case (dropped taken w i bufs)
    from got [OF dropped(2)] q I_acquire [OF q(3), of i] dropped(4) show ?thesis
      by (simp add: holds_def)
  next
    case (queued taken w i bufs)
    note g = got [OF queued(2)]
    let ?b = "(bufs ! i)\<lparr>data := buf_write (data (bufs ! i)) 0 (take (payloadLength pub) (pPayload pub)),
      dataLength := payloadLength pub\<rparr>"
    have i: "i < length bufs" using g buffers_okD [of bufs] by simp
    have ok: "buffers_ok (bufs[i := ?b])"
      using g buffers_ok_nth [OF _ i] by (intro buffers_ok_update [OF _ i]) simp_all
    have used: "used_buffers (bufs[i := ?b]) = insert i (used_buffers (dataBuffers s))"
      using g i by (simp add: used_buffers_update)
    from send_event_queue [OF K _ queued(4), of q] q(1) obtain q'
      where s': "s' = s\<lparr>ota_world := w, dataBuffers := bufs[i := ?b]\<rparr>\<lparr>otaEventQueue := Some q'\<rparr>"
        and i': "items q' = items q @ (if length (items q) < MAX_MESSAGES then [block_event i] else [])"
      by (auto simp: block_event_def)
    have "I (insert i (used_buffers (dataBuffers s))) (items q')"
      using i' g I_queue [OF q(3), of i] I_acquire [OF q(3), of i] by auto
    with s' ok used show ?thesis by (simp add: holds_def)
  qed
qed

lemma other_holds:
  assumes K: "kernel_fifo (kernel E) items MAX_MESSAGES" and h: "holds items s"
    and "exec_other E st s = Some s'"
  shows "holds items s'"
proof (cases st)
  case (Job_publish pub)
  with assms show ?thesis by (auto intro: job_callback_holds)
next
  case (Default_publish pub)
  with assms show ?thesis by (auto dest!: default_callback_cases intro: job_callback_holds)
next
  case (Data_publish pub)
  with assms show ?thesis by (auto intro: data_callback_holds)
next
  case (Publish_complete code)
  with assms show ?thesis by (auto simp: prvOTAPublishCommandCallback_def Let_def split_beta)
next
  case (Subscribe_complete code)
  with assms show ?thesis
    by (auto simp: prvMQTTSubscribeCompleteCallback_def Let_def split_beta split: if_splits list.splits
        dest!: register_frame)
next
  case (Unsubscribe_complete code)
  with assms show ?thesis by (auto simp: prvMQTTUnsubscribeCompleteCallback_def Let_def split_beta)
next
  case (Demo_poll c)
  with assms(3) have "s' = s \<or> (\<exists>e. plain_event (simple_event e) \<and> send_event E (simple_event e) s = Some s')"
    by (auto simp: demo_poll_def split: if_splits intro: plain_simple_event)
  then show ?thesis using h send_holds [OF K h] by blast
qed

lemma others_holds:
  assumes "kernel_fifo (kernel E) items MAX_MESSAGES" and "holds items s"
    and "exec_others E sts s = Some s'"
  shows "holds items s'"
  using assms(2,3)
  by (induction sts arbitrary: s) (auto simp: bind_eq_Some_conv dest: other_holds [OF assms(1)])

lemma wait_holds:
  assumes "kernel_fifo (kernel E) items MAX_MESSAGES" and "holds items s"
    and "wait_others E t s = Some s'"
  shows "holds items s'"
  using assms(2,3) by (auto simp: wait_others_def split_beta dest: others_holds [OF assms(1), rotated])

lemma notify_wait_holds:
  assumes "kernel_fifo (kernel E) items MAX_MESSAGES" and "holds items s"
    and "notify_wait E t s = Some (r, s')"
  shows "holds items s'"
  using assms(2,3) by (auto simp: notify_wait_def split: option.splits dest: wait_holds [OF assms(1)])

lemma publish_holds:
  assumes "kernel_fifo (kernel E) items MAX_MESSAGES" and "holds items s"
    and "prvMQTTPublish E topic tlen msg ml qos s = Some (st, s')"
  shows "holds items s'"
  using assms(3,2) by (cases rule: publish_cases) (auto dest: notify_wait_holds [OF assms(1), rotated])

lemma subscribe_holds:
  assumes "kernel_fifo (kernel E) items MAX_MESSAGES" and "holds items s"
    and "prvMQTTSubscribe E tf len qos s = Some (st, s')"
  shows "holds items s'"
  using assms(3,2) by (cases rule: subscribe_cases) (auto dest: notify_wait_holds [OF assms(1), rotated])

lemma log_fault_holds [simp]: "holds items (log_fault b f s) = holds items s"
  by (simp add: log_fault_def)

lemma final_status_holds:
  assumes "kernel_fifo (kernel E) items MAX_MESSAGES" and "holds items s"
    and "sendFinalJobStatusMessage E status s = Some s'"
  shows "holds items s'"
proof -
  from assms(3) obtain t tlen msg ml st s2
    where "prvMQTTPublish E t tlen msg ml MQTTQoS0 (log_fault (job_id_unterminated s) Job_id_unterminated s)
        = Some (st, s2)"
      and "s' = s2\<lparr>job := (job s2)\<lparr>globalJobId := (globalJobId (job s2))[0 := NUL]\<rparr>\<rparr>"
    by (auto simp: sendFinalJobStatusMessage_def Let_def split_beta bind_eq_Some_conv)
  with publish_holds [OF assms(1) _ this(1)] assms(2) show ?thesis by simp
qed

lemma status_details_holds:
  assumes "kernel_fifo (kernel E) items MAX_MESSAGES" and "holds items s"
    and "sendStatusDetailsMessage E s = Some s'"
  shows "holds items s'"
proof -
  from assms(3) obtain t tlen msg ml st w
    where "prvMQTTPublish E t tlen msg ml MQTTQoS0
        (log_fault (job_id_unterminated s) Job_id_unterminated (s\<lparr>ota_world := w\<rparr>)) = Some (st, s')"
    by (auto simp: sendStatusDetailsMessage_def Let_def split_beta)
  from publish_holds [OF assms(1) _ this] assms(2) show ?thesis by simp
qed

lemma request_job_holds:
  assumes "kernel_fifo (kernel E) items MAX_MESSAGES" and "holds items s"
    and "requestJobDocumentHandler E s = Some s'"
  shows "holds items s'"
proof -
  from assms(3) obtain t tlen msg ml st where "prvMQTTPublish E t tlen msg ml MQTTQoS0 s = Some (st, s')"
    by (auto simp: requestJobDocumentHandler_def Let_def split_beta)
  from publish_holds [OF assms(1,2) this] show ?thesis .
qed

lemma request_block_holds:
  assumes "kernel_fifo (kernel E) items MAX_MESSAGES" and "holds items s"
    and "requestDataBlock E s = Some s'"
  shows "holds items s'"
proof -
  from assms(3) obtain t tlen msg ml st where "prvMQTTPublish E t tlen msg ml MQTTQoS0 s = Some (st, s')"
    by (auto simp: requestDataBlock_def Let_def split_beta)
  from publish_holds [OF assms(1,2) this] show ?thesis .
qed

lemma init_downloader_holds:
  assumes "kernel_fifo (kernel E) items MAX_MESSAGES" and "holds items s"
    and "initMqttDownloader E s = Some s'"
  shows "holds items s'"
proof -
  from assms(3) obtain a l st where
    "prvMQTTSubscribe E a l MQTTQoS0 (s\<lparr>dl := start_download E (jobFields (job s)) (dl s)\<rparr>) = Some (st, s')"
    by (auto simp: initMqttDownloader_def Let_def)
  from subscribe_holds [OF assms(1) _ this] assms(2) show ?thesis by simp
qed

lemma self_test_holds:
  assumes "kernel_fifo (kernel E) items MAX_MESSAGES" and "holds items s"
    and "self_test E s = Some (r, s')"
  shows "holds items s'"
proof -
  from assms(3) obtain st w w' where "sendFinalJobStatusMessage E st
      ((log_fault True Vla_overrun (s\<lparr>ota_world := w\<rparr>))\<lparr>ota_world := w'\<rparr>) = Some s'"
    by (auto simp: self_test_def Let_def split_beta bind_eq_Some_conv split: if_splits)
  from final_status_holds [OF assms(1) _ this] assms(2) show ?thesis by simp
qed

lemma begin_download_holds:
  assumes "kernel_fifo (kernel E) items MAX_MESSAGES" and "holds items s"
    and "begin_download E s = Some (r, s')"
  shows "holds items s'"
proof -
  from assms(3) obtain s1 where s1: "initMqttDownloader E s = Some s1"
    and s': "\<exists>j w. s' = s1\<lparr>job := j\<rparr> \<or> s' = s1\<lparr>job := j, ota_world := w\<rparr>"
    by (auto simp: begin_download_def Let_def split_beta bind_eq_Some_conv split: if_splits)
  from init_downloader_holds [OF assms(1,2) s1] s' show ?thesis by auto
qed

lemma parse_new_job_holds:
  assumes "kernel_fifo (kernel E) items MAX_MESSAGES" and "holds items s"
    and "parse_new_job E s = Some (r, s')"
  shows "holds items s'"
  using assms(3)
proof (cases rule: parse_new_job_cases)
  case (self j f w)
  from self_test_holds [OF assms(1) _ self] assms(2) show ?thesis by simp
next
  case (download j f w)
  from begin_download_holds [OF assms(1) _ download] assms(2) show ?thesis by simp
qed (use assms(2) in simp)

lemma job_document_handler_holds:
  assumes "kernel_fifo (kernel E) items MAX_MESSAGES" and "holds items s"
    and "receivedJobDocumentHandler E s = Some (r, s')"
  shows "holds items s'"
  using assms(3)
proof (cases rule: job_document_cases)
  case (new_id j b)
  from parse_new_job_holds [OF assms(1) _ new_id] assms(2) show ?thesis by simp
qed (use assms(2) in simp)

lemma on_job_document_holds:
  assumes K: "kernel_fifo (kernel E) items MAX_MESSAGES" and h: "holds items s"
    and "on_job_document E ev s = Some s'"
  shows "holds items s'"
  using assms(3)
proof (cases rule: on_job_document_cases)
  case (created s1 s2)
  with send_holds [OF K job_document_handler_holds [OF K h created(1)] _ created(2)] show ?thesis by simp
next
  case (idle r s1)
  with job_document_handler_holds [OF K h idle(1)] show ?thesis by simp
qed (use h in simp)

text \<open>The block handler frees the buffer of the event it has taken from the queue.\<close>

lemma free_buffer_holds:
  assumes "holds items s" and "otaEventQueue s = Some q"
    and "I (used_buffers (dataBuffers s) - {i}) (items q)"
  shows "holds items (free_buffer E i s)"
proof -
  obtain taken w where t: "xSemaphoreTake (net E) (ota_world s) = (taken, w)" by fastforce
  show ?thesis
  proof (cases taken)
    case True
    with t assms buffers_ok_free [of "dataBuffers s" True i] show ?thesis
      by (simp add: holds_def free_buffer_def used_free)
  next
    case False
    with t assms(1) show ?thesis
      by (simp add: holds_def free_buffer_def freeOtaDataEventBuffer_def)
  qed
qed

lemma on_file_block_holds:
  assumes K: "kernel_fifo (kernel E) items MAX_MESSAGES" and h: "holds items s"
    and q: "otaEventQueue s = Some q" "I (used_buffers (dataBuffers s) - {i}) (items q)"
    and "on_file_block E (block_event i) s = Some s'"
  shows "holds items s'"
  using assms(5)
proof (cases rule: on_file_block_cases)
  case (dropped i')
  with free_buffer_holds [OF h q] show ?thesis by (simp add: block_event_def)
next
  case (written i' result w d e)
  have "holds items (s\<lparr>ota_world := w, dl := d\<rparr>)" using h by simp
  from free_buffer_holds [OF this, of q i E] q written(1)
  have "holds items (free_buffer E i' (s\<lparr>ota_world := w, dl := d\<rparr>))" by simp
  then have "holds items ((free_buffer E i' (s\<lparr>ota_world := w, dl := d\<rparr>))\<lparr>dl := count_block result d\<rparr>)" by simp
  from send_holds [OF K this _ written(4)] written(3) show ?thesis by simp
qed

lemma handle_plain_holds:
  assumes K: "kernel_fifo (kernel E) items MAX_MESSAGES" and h: "holds items s" and m: "plain_event m"
    and e: "handle_event E m s = Some s'"
  shows "holds items s'"
proof (cases "eventId m")
  case OtaAgentEventRequestJobDocument
  with e h request_job_holds [OF K h] show ?thesis by (auto simp: handle_event_def)
next
  case OtaAgentEventReceivedJobDocument
  with e h on_job_document_holds [OF K h] show ?thesis by (auto simp: handle_event_def)
next
  case OtaAgentEventRequestFileBlock
  with e h request_block_holds [OF K, of "s\<lparr>otaAgentState := OtaAgentStateRequestingFileBlock\<rparr>"]
  show ?thesis by (auto simp: handle_event_def on_request_block_def)
next
  case OtaAgentEventReceivedFileBlock
  with m show ?thesis by (simp add: plain_event_def)
next
  case OtaAgentEventCloseFile
  with e obtain w where c: "s' = s\<lparr>ota_world := w\<rparr> \<or>
      send_event E (simple_event OtaAgentEventActivateImage) (s\<lparr>ota_world := w\<rparr>) = Some s'"
    by (auto simp: handle_event_def on_close_file_def closeFile_def split_beta split: if_splits)
  have "holds items (s\<lparr>ota_world := w\<rparr>)" using h by simp
  with c send_holds [OF K this, of "simple_event OtaAgentEventActivateImage" s'] show ?thesis by auto
next
  case OtaAgentEventActivateImage
  with e obtain s1 w where s1: "sendStatusDetailsMessage E s = Some s1"
    and c: "s' = s1\<lparr>ota_world := w\<rparr> \<or>
      send_event E (simple_event OtaAgentEventRequestJobDocument) (s1\<lparr>ota_world := w\<rparr>) = Some s'"
    by (auto simp: handle_event_def on_activate_image_def activateImage_def split_beta Let_def
        bind_eq_Some_conv split: if_splits)
  have "holds items (s1\<lparr>ota_world := w\<rparr>)" using status_details_holds [OF K h s1] by simp
  with c send_holds [OF K this, of "simple_event OtaAgentEventRequestJobDocument" s'] show ?thesis by auto
next
  case OtaAgentEventResume
  with e have "send_event E (simple_event OtaAgentEventRequestJobDocument)
      (s\<lparr>otaAgentState := OtaAgentStateRequestingJob\<rparr>) = Some s'"
    by (simp add: handle_event_def)
  from send_holds [OF K _ _ this] h show ?thesis by simp
qed (use e h in \<open>auto simp: handle_event_def\<close>)

lemma process_holds:
  assumes K: "kernel_fifo (kernel E) items MAX_MESSAGES" and h: "holds items s"
    and p: "processOTAEvents E s = Some s'"
  shows "holds items s'"
proof -
  from p obtain s1 st ev q' where s1: "wait_others E (pdMS_TO_TICKS 3000) s = Some s1"
    and r: "OtaReceiveEvent_FreeRTOS (kernel E) (otaEventQueue s1) zero_event = Some (st, ev, q')"
    and e: "handle_event E ev (s1\<lparr>otaEventQueue := q'\<rparr>) = Some s'"
    by (auto simp: processOTAEvents_def bind_eq_Some_conv)
  from wait_holds [OF K h s1] obtain q where q: "otaEventQueue s1 = Some q"
    and ok: "buffers_ok (dataBuffers s1)" and i: "I (used_buffers (dataBuffers s1)) (items q)"
    by (auto simp: holds_def)
  let ?s2 = "s1\<lparr>otaEventQueue := Some (snd (event_recv (kernel E) q))\<rparr>"
  note rcv = items_event_recv [OF K, of q]
  show ?thesis
  proof (cases "items q")
    case Nil
    with r q rcv have "ev = zero_event" and "q' = Some (snd (event_recv (kernel E) q))"
      by (auto simp: OtaReceiveEvent_eq)
    moreover have "holds items ?s2" using ok i rcv Nil by (simp add: holds_def)
    ultimately show ?thesis using handle_plain_holds [OF K _ _ e] by simp
  next
    case (Cons m ms)
    with r q rcv have ev: "ev = m" and q': "q' = Some (snd (event_recv (kernel E) q))"
      by (auto simp: OtaReceiveEvent_eq)
    have h2: "holds items ?s2" using ok i rcv Cons I_receive by (simp add: holds_def)
    from I_event [of "used_buffers (dataBuffers s1)" m ms] i Cons
    consider "plain_event m" | k where "m = block_event k" by auto
    then show ?thesis
    proof cases
      case 1
      with ev q' h2 show ?thesis using handle_plain_holds [OF K _ _ e] by simp
    next
      case (2 k)
      have "I (used_buffers (dataBuffers ?s2) - {k}) (items (snd (event_recv (kernel E) q)))"
        using i rcv Cons 2 I_free by simp
      moreover from e ev 2 q' have "on_file_block E (block_event k) ?s2 = Some s'"
        by (simp add: handle_event_def)
      ultimately show ?thesis using on_file_block_holds [OF K h2, of "snd (event_recv (kernel E) q)" k s'] by simp
    qed
  qed
qed

lemma task_loop_holds:
  assumes K: "kernel_fifo (kernel E) items MAX_MESSAGES" and "holds items s"
    and "agent_task_loop E n s = Some (ended, s')"
  shows "holds items s'"
  using assms(2,3)
proof (induction n arbitrary: s)
  case 0
  then show ?case by (subst (asm) agent_task_loop.simps) (auto split: if_splits)
next
  case (Suc n)
  show ?case
  proof (cases "otaAgentState s = OtaAgentStateStopped")
    case True
    with Suc.prems show ?thesis by (subst (asm) agent_task_loop.simps) auto
  next
    case False
    with Suc.prems(2) obtain s1 where "processOTAEvents E s = Some s1"
      and "agent_task_loop E n s1 = Some (ended, s')"
      by (subst (asm) agent_task_loop.simps) (auto simp: bind_eq_Some_conv)
    with Suc.IH process_holds [OF K Suc.prems(1)] show ?thesis by blast
  qed
qed

end

section \<open>The buffers that queued events refer to\<close>

fun held :: "OtaEventMsg list \<Rightarrow> nat list" where
  "held [] = []"
| "held (m # ms) = (case dataEvent m of None \<Rightarrow> held ms | Some i \<Rightarrow> i # held ms)"

definition valid_event :: "OtaEventMsg \<Rightarrow> bool" where
  "valid_event m \<longleftrightarrow> plain_event m \<or> (dataEvent m \<noteq> None \<and> m = block_event (the (dataEvent m)))"

definition queue_ok :: "nat set \<Rightarrow> OtaEventMsg list \<Rightarrow> bool" where
  "queue_ok U ms \<longleftrightarrow> length ms \<le> MAX_MESSAGES \<and> (\<forall>m \<in> set ms. valid_event m) \<and>
     distinct (held ms) \<and> set (held ms) \<subseteq> U"

lemma valid_event_iff: "valid_event m \<longleftrightarrow> plain_event m \<or> (\<exists>i. m = block_event i)"
  by (auto simp: valid_event_def)

lemma held_append [simp]: "held (ms @ ns) = held ms @ held ns"
  by (induction ms) (auto split: option.split)

lemma held_single [simp]: "plain_event m \<Longrightarrow> held [m] = []" "held [block_event i] = [i]"
  by (simp_all add: plain_eventD)

interpretation queued: shared_invariant queue_ok
proof unfold_locales
  fix U :: "nat set" and ms :: "OtaEventMsg list" and m :: OtaEventMsg and i :: nat
  show "queue_ok U (ms @ [m])" if "queue_ok U ms" "plain_event m" "length ms < MAX_MESSAGES"
    using that by (auto simp: queue_ok_def valid_event_def plain_eventD)
  show "queue_ok (insert i U) ms" if "queue_ok U ms" "i \<notin> U" "i < 2"
    using that by (auto simp: queue_ok_def)
  show "queue_ok (insert i U) (ms @ [block_event i])"
    if "queue_ok U ms" "i \<notin> U" "i < 2" "length ms < MAX_MESSAGES"
    using that by (auto simp: queue_ok_def valid_event_def)
  show "plain_event m \<or> (\<exists>i. m = block_event i)" if "queue_ok U (m # ms)"
    using that by (auto simp: queue_ok_def valid_event_iff)
  show "queue_ok U ms" if "queue_ok U (m # ms)"
    using that by (auto simp: queue_ok_def split: option.splits)
  show "queue_ok (U - {i}) ms" if "queue_ok U (block_event i # ms)"
    using that by (auto simp: queue_ok_def)
qed

definition shared_ok :: "('q \<Rightarrow> OtaEventMsg list) \<Rightarrow> ('q, 'w) ota_state \<Rightarrow> bool" where
  "shared_ok items s \<longleftrightarrow> buffers_ok (dataBuffers s) \<and>
     (case otaEventQueue s of
        None \<Rightarrow> False | Some q \<Rightarrow> queue_ok (used_buffers (dataBuffers s)) (items q))"

lemma shared_ok_holds: "shared_ok items s = queued.holds items s"
  by (auto simp: shared_ok_def queued.holds_def split: option.split)

section \<open>Buffers that are lost\<close>

definition lost :: "nat set \<Rightarrow> OtaEventMsg list \<Rightarrow> bool" where
  "lost U ms \<longleftrightarrow> {0, 1} \<subseteq> U \<and> (\<forall>m \<in> set ms. plain_event m)"

interpretation losing: shared_invariant lost
proof unfold_locales
  fix U :: "nat set" and ms :: "OtaEventMsg list" and m :: OtaEventMsg and i :: nat
  show "lost U (ms @ [m])" if "lost U ms" "plain_event m" "length ms < MAX_MESSAGES"
    using that by (auto simp: lost_def)
  have no: False if "lost U ms" "i \<notin> U" "i < 2"
    using that by (cases i) (auto simp: lost_def)
  show "lost (insert i U) ms" if "lost U ms" "i \<notin> U" "i < 2"
    using no that by blast
  show "lost (insert i U) (ms @ [block_event i])"
    if "lost U ms" "i \<notin> U" "i < 2" "length ms < MAX_MESSAGES"
    using no that by blast
  show "plain_event m \<or> (\<exists>i. m = block_event i)" if "lost U (m # ms)"
    using that by (simp add: lost_def)
  show "lost U ms" if "lost U (m # ms)"
    using that by (simp add: lost_def)
  show "lost (U - {i}) ms" if "lost U (block_event i # ms)"
    using that by (simp add: lost_def)
qed

lemma oversized_publish:
  assumes "\<forall>w. fst (xSemaphoreTake (net E) w)" and "buffers_ok (dataBuffers s)"
    and "DATA_BUFFER_SIZE < payloadLength pub" and "prvMqttDataCallback E (Some pub) s = Some s'"
  shows "buffers_ok (dataBuffers s') \<and> otaEventQueue s' = otaEventQueue s \<and>
    (used_buffers (dataBuffers s) \<noteq> {0, 1} \<longrightarrow>
       (\<exists>i<2. i \<notin> used_buffers (dataBuffers s) \<and>
              used_buffers (dataBuffers s') = insert i (used_buffers (dataBuffers s))))"
proof -
  have two: "{..<otaconfigMAX_NUM_OTA_DATA_BUFFERS} = {0, 1}" by auto
  note len = buffers_okD [OF assms(2)]
  have taken: "fst (xSemaphoreTake (net E) (ota_world s))" using assms(1) by blast
  from assms(4) show ?thesis
  proof (cases rule: data_callback_cases)
    case (full taken' w)
    with taken have t: "taken'" by simp
    with full(2) get_None_iff [OF len] two have "used_buffers (dataBuffers s) = {0, 1}" by simp
    with full(3) buffers_ok_get [OF assms(2), of taken'] show ?thesis by simp
  next
    case (dropped taken' w i bufs)
    with taken have "taken'" by simp
    with dropped used_get [OF len, of i bufs] buffers_ok_get [OF assms(2), of taken'] show ?thesis by auto
  next
    case (queued taken' w i bufs)
    with taken have t: "taken'" by simp
    with queued(2) len have "dataLength (bufs ! i) = DATA_BUFFER_SIZE"
      by (auto simp: get_buffer_eq first_index_Some split: option.splits)
    with queued(3) assms(3) show ?thesis by simp
  qed
qed

section \<open>Properties\<close>

text \<open>C2: However the OTA agent's event loop is interleaved with incoming publishes, command completions
  and connection changes, the event queue and the data buffers stay consistent: at most 20 events,
  every block event points to one of the two buffers, that buffer is marked as used, and no two
  queued events share a buffer.\<close>

theorem event_loop_keeps_buffers:
  assumes "kernel_fifo (kernel E) items MAX_MESSAGES" and "shared_ok items s"
    and "prvOTAAgentTask E n s = Some (ended, s')"
  shows "shared_ok items s'"
  using queued.task_loop_holds [OF assms(1) _ assms(3) [unfolded prvOTAAgentTask_def]] assms(2)
  by (simp add: shared_ok_holds)

text \<open>C5: Two data messages larger than a data buffer end all updates until a reboot: each leaks the
  buffer it was given, and from then on, whatever happens, every file block received is dropped.\<close>

theorem oversized_blocks_end_updates:
  assumes "kernel_fifo (kernel E) items MAX_MESSAGES"
    and "\<forall>w. fst (xSemaphoreTake (net E) w)"
    and "buffers_ok (dataBuffers s)" and "used_buffers (dataBuffers s) = {}"
    and "otaEventQueue s = Some q" and "\<forall>m \<in> set (items q). plain_event m"
    and "DATA_BUFFER_SIZE < payloadLength p1" and "DATA_BUFFER_SIZE < payloadLength p2"
    and "exec_others E [Data_publish p1, Data_publish p2] s = Some s1"
    and "agent_task_loop E n s1 = Some (ended, s2)"
    and "prvMqttDataCallback E (Some pub) s2 = Some s3"
  shows "otaEventQueue s3 = otaEventQueue s2 \<and> used_buffers (dataBuffers s3) = {0, 1}"
proof -
  from assms(9) obtain s0 where s0: "prvMqttDataCallback E (Some p1) s = Some s0"
    and s1: "prvMqttDataCallback E (Some p2) s0 = Some s1"
    by (auto simp: bind_eq_Some_conv)
  from oversized_publish [OF assms(2,3,7) s0] assms(4,5) obtain i where i: "i < 2"
    "used_buffers (dataBuffers s0) = {i}" "buffers_ok (dataBuffers s0)" "otaEventQueue s0 = Some q"
    by auto
  have ne: "{i} \<noteq> {0::nat, 1}" by (metis insertI1 insert_commute singletonD zero_neq_one)
  from oversized_publish [OF assms(2) i(3) assms(8) s1] i ne obtain j where j: "j < 2" "j \<noteq> i"
    "used_buffers (dataBuffers s1) = {i, j}" "buffers_ok (dataBuffers s1)" "otaEventQueue s1 = Some q"
    by auto
  from i(1) j(1,2) have "{0, 1} \<subseteq> {i, j}" by (cases i; cases j) auto
  with j(3-5) assms(6) have "losing.holds items s1" by (simp add: losing.holds_def lost_def)
  from losing.task_loop_holds [OF assms(1) this assms(10)] have h2: "losing.holds items s2" .
  then have ok: "buffers_ok (dataBuffers s2)" and sub: "{0, 1} \<subseteq> used_buffers (dataBuffers s2)"
    by (auto simp: losing.holds_def lost_def)
  have two: "{..<otaconfigMAX_NUM_OTA_DATA_BUFFERS} = {0, 1}" by auto
  have all: "used_buffers (dataBuffers s2) = {0, 1}"
    using sub ota_buffers.used_bound [OF ok, unfolded two] by blast
  then have none: "fst (getOtaDataEventBuffer t (dataBuffers s2)) = None" for t
    using get_None_iff [OF buffers_okD [OF ok]] two
    by (cases t) (simp_all add: getOtaDataEventBuffer_def)
  have same: "snd (getOtaDataEventBuffer t (dataBuffers s2)) = dataBuffers s2" for t
    using ota_buffers.get_None_same [OF ok] none [of True]
    by (cases t) (simp_all add: getOtaDataEventBuffer_def)
  from assms(11) show ?thesis
  proof (cases rule: data_callback_cases)
    case (full taken w)
    with same all show ?thesis by simp
  next
    case (dropped taken w i bufs)
    with none [of taken] show ?thesis by simp
  next
    case (queued taken w i bufs)
    with none [of taken] show ?thesis by simp
  qed
qed

section \<open>Witnesses\<close>

text \<open>The agent after the event queue was created, with a world of scheduled steps.\<close>

definition ready_state :: "OtaEventMsg list \<Rightarrow> other_step list list \<Rightarrow> (OtaEventMsg list, other_step list list) ota_state" where
  "ready_state ms w = (initial_state w)\<lparr>otaEventQueue := Some ms\<rparr>"

lemma initial_buffers [simp]:
  "dataBuffers (initial_state w) = replicate otaconfigMAX_NUM_OTA_DATA_BUFFERS
     \<lparr>data = replicate DATA_BUFFER_SIZE NUL, dataLength = 0, bufferUsed = False\<rparr>"
  by (simp add: initial_state_def)

lemma ready_buffers:
  "buffers_ok (dataBuffers (ready_state ms w))" "used_buffers (dataBuffers (ready_state ms w)) = {}"
  by (auto simp: ready_state_def buffers_ok_def used_buffers_def)

lemma ready_shared_ok: "queue_ok {} ms \<Longrightarrow> shared_ok (\<lambda>q. q) (ready_state ms w)"
  using ready_buffers [of ms w] by (simp add: shared_ok_def ready_state_def)

lemma sample_kernel: "kernel_fifo (kernel (sample_env p v r)) (\<lambda>q. q) MAX_MESSAGES"
  by simp

lemma sample_taken: "\<forall>w. fst (xSemaphoreTake (net (sample_env p v r)) w)"
  by (simp add: sample_net_def)

text \<open>A run of one round in which a suspend request arrives and is handled.\<close>

lemma sample_suspend_run:
  "prvOTAAgentTask (sample_env False 0 0) 1 (ready_state [] [[Demo_poll False]]) =
   Some (False, (ready_state [] [])\<lparr>otaAgentState := OtaAgentStateSuspended\<rparr>)"
  by (simp add: prvOTAAgentTask_def agent_task_loop.simps processOTAEvents_def wait_others_def
      demo_poll_def send_event_def OtaSendEvent_FreeRTOS_def OtaReceiveEvent_FreeRTOS_def
      list_kernel_def list_send_def handle_event_def sample_net_def ready_state_def initial_state_def)

theorem event_loop_keeps_buffers_witness:
  "shared_ok (\<lambda>q. q) (the (map_option snd
     (prvOTAAgentTask (sample_env False 0 0) 1 (ready_state [] [[Demo_poll False]]))))"
  using event_loop_keeps_buffers [OF sample_kernel _ sample_suspend_run]
    ready_shared_ok [of "[]" "[[Demo_poll False]]"] sample_suspend_run
  by (simp add: queue_ok_def)

definition big_publish :: MQTTPublishInfo where
  "big_publish = \<lparr>pTopicName = ''stream'', topicNameLength = 6, pPayload = [], payloadLength = 9000\<rparr>"

lemma callback_step:
  "prvMqttDataCallback (sample_env p v r) (Some pub) s \<noteq> None \<or> otaEventQueue s = None"
  by (auto simp: prvMqttDataCallback_def sample_net_def Let_def send_event_def OtaSendEvent_FreeRTOS_def
      split: prod.split option.split)

theorem oversized_blocks_end_updates_witness:
  "\<exists>s1 s3. exec_others (sample_env False 0 0) [Data_publish big_publish, Data_publish big_publish]
        (ready_state [] []) = Some s1 \<and>
     prvMqttDataCallback (sample_env False 0 0) (Some big_publish) s1 = Some s3 \<and>
     otaEventQueue s3 = otaEventQueue s1 \<and> used_buffers (dataBuffers s3) = {0, 1}"
proof -
  let ?E = "sample_env False 0 0"
  let ?s = "ready_state [] []"
  have big: "DATA_BUFFER_SIZE < payloadLength big_publish"
    by (simp add: DATA_BUFFER_SIZE_def big_publish_def)
  have q: "otaEventQueue ?s = Some []" by (simp add: ready_state_def)
  from callback_step [of False 0 0 big_publish ?s] q obtain s0
    where s0: "prvMqttDataCallback ?E (Some big_publish) ?s = Some s0" by auto
  from oversized_publish [OF sample_taken ready_buffers(1) big s0] q
  have o0: "otaEventQueue s0 = Some []" "buffers_ok (dataBuffers s0)" by simp_all
  from callback_step [of False 0 0 big_publish s0] o0 obtain s1
    where s1: "prvMqttDataCallback ?E (Some big_publish) s0 = Some s1" by auto
  from oversized_publish [OF sample_taken o0(2) big s1] o0
  have o1: "otaEventQueue s1 = Some []" by simp
  from callback_step [of False 0 0 big_publish s1] o1 obtain s3
    where s3: "prvMqttDataCallback ?E (Some big_publish) s1 = Some s3" by auto
  have ex: "exec_others ?E [Data_publish big_publish, Data_publish big_publish] ?s = Some s1"
    using s0 s1 by simp
  have run: "agent_task_loop ?E 0 s1 = Some (otaAgentState s1 = OtaAgentStateStopped, s1)"
    by (simp add: agent_task_loop.simps)
  from oversized_blocks_end_updates [OF sample_kernel sample_taken ready_buffers q _ big big ex run s3]
  show ?thesis using ex s3 by auto
qed

end
