(* ===== verification/Ota_Properties.thy ===== *)
theory Ota_Properties
  imports Ota_Invariant
begin

text \<open>
  What the OTA agent does: the states it goes through, the accounting of a download, the decision on
  a new image, and the reactions to events that arrive at the wrong moment.
\<close>

section \<open>The part of the state the OTA task owns\<close>

lemma own_part_send: "send_event E m s = Some s' \<Longrightarrow> own_part s' = own_part s"
  by (auto dest!: send_event_frame)

lemma own_partD:
  "own_part s' = own_part s \<Longrightarrow> otaAgentState s' = otaAgentState s \<and> job s' = job s \<and> dl s' = dl s"
  by (simp add: own_part_def)

lemma state_log_fault [simp]:
  "otaAgentState (log_fault b f s) = otaAgentState s" "job (log_fault b f s) = job s"
  "dl (log_fault b f s) = dl s" "otaEventQueue (log_fault b f s) = otaEventQueue s"
  by (simp_all add: log_fault_def)

lemma free_buffer_simps [simp]:
  "otaAgentState (free_buffer E i s) = otaAgentState s" "job (free_buffer E i s) = job s"
  "otaEventQueue (free_buffer E i s) = otaEventQueue s"
  by (simp_all add: free_buffer_def split_beta)

lemma publish_own:
  "map_option snd (prvMQTTPublish E t tlen msg ml qos s) = Some s' \<Longrightarrow> own_part s' = own_part s"
  by (auto dest: own_part_publish)

lemma request_block_own: "requestDataBlock E s = Some s' \<Longrightarrow> own_part s' = own_part s"
  by (auto simp: requestDataBlock_def Let_def split_beta dest: own_part_publish)

lemma request_job_own: "requestJobDocumentHandler E s = Some s' \<Longrightarrow> own_part s' = own_part s"
  by (auto simp: requestJobDocumentHandler_def Let_def split_beta dest: own_part_publish)

lemma status_details_own:
  assumes "sendStatusDetailsMessage E s = Some s'" shows "own_part s' = own_part s"
proof -
  from assms obtain t tlen msg ml st w
    where "prvMQTTPublish E t tlen msg ml MQTTQoS0
        (log_fault (job_id_unterminated s) Job_id_unterminated (s\<lparr>ota_world := w\<rparr>)) = Some (st, s')"
    by (auto simp: sendStatusDetailsMessage_def Let_def split_beta)
  from own_part_publish [OF this] show ?thesis by (simp add: own_part_def)
qed

section \<open>States\<close>

text \<open>Everything the handler of a job document does leaves the agent state to the event loop.\<close>

lemma final_status_state:
  assumes "sendFinalJobStatusMessage E st s = Some s'"
  shows "otaAgentState s' = otaAgentState s \<and> dl s' = dl s"
proof -
  from assms obtain t tlen msg ml r s2
    where p: "prvMQTTPublish E t tlen msg ml MQTTQoS0 (log_fault (job_id_unterminated s) Job_id_unterminated s)
        = Some (r, s2)"
      and s': "s' = s2\<lparr>job := (job s2)\<lparr>globalJobId := (globalJobId (job s2))[0 := NUL]\<rparr>\<rparr>"
    by (auto simp: sendFinalJobStatusMessage_def Let_def split_beta bind_eq_Some_conv)
  from own_partD [OF own_part_publish [OF p]] s' show ?thesis by simp
qed

lemma self_test_state:
  assumes "self_test E s = Some (r, s')" shows "otaAgentState s' = otaAgentState s"
proof -
  from assms obtain st w w' where "sendFinalJobStatusMessage E st
      ((log_fault True Vla_overrun (s\<lparr>ota_world := w\<rparr>))\<lparr>ota_world := w'\<rparr>) = Some s'"
    by (auto simp: self_test_def Let_def split_beta bind_eq_Some_conv split: if_splits)
  from final_status_state [OF this] show ?thesis by simp
qed

lemma init_downloader_own:
  assumes "initMqttDownloader E s = Some s'"
  shows "otaAgentState s' = otaAgentState s \<and> job s' = job s \<and>
    dl s' = start_download E (jobFields (job s)) (dl s)"
proof -
  from assms obtain a l st where
    "prvMQTTSubscribe E a l MQTTQoS0 (s\<lparr>dl := start_download E (jobFields (job s)) (dl s)\<rparr>) = Some (st, s')"
    by (auto simp: initMqttDownloader_def Let_def)
  from own_partD [OF own_part_subscribe [OF this]] show ?thesis by simp
qed

lemma begin_download_state:
  assumes "begin_download E s = Some (r, s')"
  shows "otaAgentState s' = otaAgentState s \<and> dl s' = start_download E (jobFields (job s)) (dl s)"
proof -
  from assms obtain s1 where s1: "initMqttDownloader E s = Some s1"
    and s': "\<exists>j w. s' = s1\<lparr>job := j\<rparr> \<or> s' = s1\<lparr>job := j, ota_world := w\<rparr>"
    by (auto simp: begin_download_def Let_def split_beta bind_eq_Some_conv split: if_splits)
  from init_downloader_own [OF s1] s' show ?thesis by auto
qed

lemma job_document_state:
  assumes "receivedJobDocumentHandler E s = Some (r, s')" shows "otaAgentState s' = otaAgentState s"
  using assms
proof (cases rule: job_document_cases)
  case (new_id j b)
  from new_id show ?thesis
  proof (cases rule: parse_new_job_cases)
    case (self j f w)
    from self_test_state [OF this] show ?thesis by simp
  next
    case (download j f w)
    from begin_download_state [OF this] show ?thesis by simp
  qed simp
qed simp_all

text \<open>The states the loop is ever in.\<close>

definition loop_states :: "OtaState set" where
  "loop_states = {OtaAgentStateReady, OtaAgentStateRequestingJob, OtaAgentStateCreatingFile,
     OtaAgentStateRequestingFileBlock, OtaAgentStateSuspended, OtaAgentStateStopped}"

lemma handle_event_state:
  assumes "handle_event E m s = Some s'" and "otaAgentState s \<in> loop_states"
  shows "otaAgentState s' \<in> loop_states \<and>
    (otaAgentState s' = OtaAgentStateStopped \<longrightarrow>
       otaAgentState s = OtaAgentStateStopped \<or> eventId m = OtaAgentEventShutdown)"
proof (cases "eventId m")
  case OtaAgentEventRequestJobDocument
  with assms show ?thesis by (auto simp: handle_event_def loop_states_def)
next
  case OtaAgentEventReceivedJobDocument
  with assms(1) have j: "on_job_document E m s = Some s'" by (simp add: handle_event_def)
  then show ?thesis
  proof (cases rule: on_job_document_cases)
    case (created s1 s2)
    then show ?thesis by (simp add: loop_states_def)
  next
    case (idle r s1)
    from job_document_state [OF idle(1)] idle(3) assms(2) show ?thesis by simp
  qed (use assms(2) in simp)
next
  case OtaAgentEventRequestFileBlock
  with assms(1) have "requestDataBlock E (s\<lparr>otaAgentState := OtaAgentStateRequestingFileBlock\<rparr>) = Some s'"
    by (simp add: handle_event_def on_request_block_def)
  from own_partD [OF request_block_own [OF this]] show ?thesis by (simp add: loop_states_def)
next
  case OtaAgentEventReceivedFileBlock
  with assms(1) have b: "on_file_block E m s = Some s'" by (simp add: handle_event_def)
  then have "otaAgentState s' = otaAgentState s"
    by (cases rule: on_file_block_cases) (auto dest!: own_part_send own_partD)
  with assms(2) show ?thesis by simp
next
  case OtaAgentEventCloseFile
  with assms(1) have "otaAgentState s' = otaAgentState s"
    by (auto simp: handle_event_def on_close_file_def closeFile_def split_beta split: if_splits
        dest!: own_part_send own_partD)
  with assms(2) show ?thesis by simp
next
  case OtaAgentEventActivateImage
  with assms(1) have "otaAgentState s' = otaAgentState s"
    by (auto simp: handle_event_def on_activate_image_def activateImage_def split_beta Let_def
        bind_eq_Some_conv split: if_splits dest!: own_part_send status_details_own own_partD)
  with assms(2) show ?thesis by simp
next
  case OtaAgentEventResume
  with assms(1) have "otaAgentState s' = OtaAgentStateRequestingJob"
    by (auto simp: handle_event_def dest!: own_part_send own_partD)
  then show ?thesis by (simp add: loop_states_def)
qed (use assms in \<open>auto simp: handle_event_def loop_states_def\<close>)

lemma wait_own: "wait_others E t s = Some s' \<Longrightarrow> otaAgentState s' = otaAgentState s"
  by (auto dest!: own_part_wait own_partD)

text \<open>An event the loop handles is the zero event or one that was queued.\<close>

lemma process_cases [consumes 2, case_names event]:
  assumes "kernel_fifo (kernel E) items MAX_MESSAGES" and "processOTAEvents E s = Some s'"
  obtains s1 q q' ev where "wait_others E (pdMS_TO_TICKS 3000) s = Some s1"
    "otaEventQueue s1 = Some q" "items q' = tl (items q)"
    "ev = (case items q of [] \<Rightarrow> zero_event | m # _ \<Rightarrow> m)"
    "handle_event E ev (s1\<lparr>otaEventQueue := Some q'\<rparr>) = Some s'"
proof -
  from assms(2) obtain s1 st ev q'' where s1: "wait_others E (pdMS_TO_TICKS 3000) s = Some s1"
    and r: "OtaReceiveEvent_FreeRTOS (kernel E) (otaEventQueue s1) zero_event = Some (st, ev, q'')"
    and e: "handle_event E ev (s1\<lparr>otaEventQueue := q''\<rparr>) = Some s'"
    by (auto simp: processOTAEvents_def bind_eq_Some_conv)
  from r obtain q where q: "otaEventQueue s1 = Some q"
    by (cases "otaEventQueue s1") (auto simp: OtaReceiveEvent_FreeRTOS_def)
  note rcv = items_event_recv [OF assms(1), of q]
  have q'': "q'' = Some (snd (event_recv (kernel E) q))"
    and ev: "ev = (case items q of [] \<Rightarrow> zero_event | m # _ \<Rightarrow> m)"
    using r q rcv by (auto simp: OtaReceiveEvent_eq split: list.splits)
  from that [OF s1 q rcv(2) ev] e q'' show thesis by simp
qed

lemma process_state:
  assumes K: "kernel_fifo (kernel E) items MAX_MESSAGES" and h: "queued.holds items s"
    and "processOTAEvents E s = Some s'" and "otaAgentState s \<in> loop_states - {OtaAgentStateStopped}"
  shows "otaAgentState s' \<in> loop_states - {OtaAgentStateStopped}"
  using K assms(3)
proof (cases rule: process_cases)
  case (event s1 q q' ev)
  from queued.wait_holds [OF K h event(1)] event(2) have ok: "queue_ok (used_buffers (dataBuffers s1)) (items q)"
    by (auto simp: queued.holds_def)
  have "eventId ev \<noteq> OtaAgentEventShutdown"
  proof (cases "items q")
    case Nil
    with event(4) show ?thesis by simp
  next
    case (Cons m ms)
    with queued.I_event [of _ m ms] ok have "plain_event m \<or> (\<exists>i. m = block_event i)" by simp
    with event(4) Cons show ?thesis by (auto simp: plain_event_def)
  qed
  with handle_event_state [OF event(5)] wait_own [OF event(1)] assms(4) show ?thesis by auto
qed

lemma task_loop_state:
  assumes K: "kernel_fifo (kernel E) items MAX_MESSAGES"
    and "queued.holds items s" and "agent_task_loop E n s = Some (ended, s')"
    and "otaAgentState s \<in> loop_states - {OtaAgentStateStopped}"
  shows "\<not> ended \<and> otaAgentState s' \<in> loop_states - {OtaAgentStateStopped}"
  using assms(2-4)
proof (induction n arbitrary: s)
  case 0
  then show ?case by (subst (asm) agent_task_loop.simps) auto
next
  case (Suc n)
  from Suc.prems(2,3) obtain s1 where s1: "processOTAEvents E s = Some s1"
    "agent_task_loop E n s1 = Some (ended, s')"
    by (subst (asm) agent_task_loop.simps) (auto simp: bind_eq_Some_conv)
  show ?case
    by (rule Suc.IH [OF queued.process_holds [OF K Suc.prems(1) s1(1)] s1(2)
          process_state [OF K Suc.prems(1) s1(1) Suc.prems(3)]])
qed

text \<open>C3: The OTA agent task never leaves its loop: no code sends the shutdown event, so whatever the
  other tasks do the agent stays in one of the five states Ready, RequestingJob, CreatingFile,
  RequestingFileBlock and Suspended.\<close>

theorem agent_task_never_stops:
  assumes "kernel_fifo (kernel E) items MAX_MESSAGES" and "shared_ok items s"
    and "prvOTAAgentTask E n s = Some (ended, s')"
  shows "\<not> ended \<and> otaAgentState s' \<in> {OtaAgentStateReady, OtaAgentStateRequestingJob,
    OtaAgentStateCreatingFile, OtaAgentStateRequestingFileBlock, OtaAgentStateSuspended}"
proof -
  let ?s = "s\<lparr>otaAgentState := OtaAgentStateReady\<rparr>"
  have "queued.holds items ?s" using assms(2) by (simp add: shared_ok_holds)
  moreover have "otaAgentState ?s \<in> loop_states - {OtaAgentStateStopped}" by (simp add: loop_states_def)
  ultimately have "\<not> ended \<and> otaAgentState s' \<in> loop_states - {OtaAgentStateStopped}"
    using task_loop_state [OF assms(1) _ assms(3) [unfolded prvOTAAgentTask_def]] by blast
  then show ?thesis by (auto simp: loop_states_def)
qed

theorem agent_task_never_stops_witness:
  "otaAgentState (snd (the (prvOTAAgentTask (sample_env False 0 0) 1 (ready_state [] [[Demo_poll False]]))))
     \<noteq> OtaAgentStateStopped"
  using agent_task_never_stops [OF sample_kernel _ sample_suspend_run]
    ready_shared_ok [of "[]" "[[Demo_poll False]]"] sample_suspend_run
  by (auto simp: queue_ok_def)

section \<open>Suspension\<close>

text \<open>While the agent is suspended or stopped, a file block is thrown away and its buffer goes
  back to the pool, and a job document is ignored: state, job and download stay as they are and
  no event is sent.\<close>

theorem suspended_agent_drops:
  assumes "otaAgentState s = OtaAgentStateSuspended \<or> otaAgentState s = OtaAgentStateStopped"
  shows "handle_event E (block_event i) s = Some (free_buffer E i s) \<and>
    own_part (free_buffer E i s) = own_part s \<and>
    otaEventQueue (free_buffer E i s) = otaEventQueue s \<and>
    (fst (xSemaphoreTake (net E) (ota_world s)) \<longrightarrow>
       used_buffers (dataBuffers (free_buffer E i s)) = used_buffers (dataBuffers s) - {i}) \<and>
    handle_event E job_event s = Some s"
proof -
  have "eventId job_event = OtaAgentEventReceivedJobDocument" by (simp add: job_event_def)
  with assms show ?thesis
    by (auto simp: handle_event_def on_file_block_def on_job_document_def own_part_def
        free_buffer_def split_beta used_free)
qed

theorem suspended_agent_drops_witness:
  "handle_event (sample_env False 0 0) (block_event 1)
     ((ready_state [] [])\<lparr>otaAgentState := OtaAgentStateSuspended\<rparr>) =
   Some (free_buffer (sample_env False 0 0) 1
     ((ready_state [] [])\<lparr>otaAgentState := OtaAgentStateSuspended\<rparr>))"
  using suspended_agent_drops [of "(ready_state [] [])\<lparr>otaAgentState := OtaAgentStateSuspended\<rparr>"] by simp

text \<open>A suspension does not last if a block request is still queued: its handler puts the suspended
  agent back into the state RequestingFileBlock and publishes the request.\<close>

theorem block_request_ends_suspension:
  assumes "handle_event E (simple_event OtaAgentEventRequestFileBlock) s = Some s'"
  shows "otaAgentState s' = OtaAgentStateRequestingFileBlock \<and> dl s' = dl s \<and> job s' = job s"
proof -
  from assms have "requestDataBlock E (s\<lparr>otaAgentState := OtaAgentStateRequestingFileBlock\<rparr>) = Some s'"
    by (simp add: handle_event_def on_request_block_def)
  from own_partD [OF request_block_own [OF this]] show ?thesis by simp
qed

lemma sample_request_run:
  "\<exists>s'. handle_event (sample_env p v r) (simple_event OtaAgentEventRequestFileBlock)
     ((ready_state [] [])\<lparr>otaAgentState := OtaAgentStateSuspended\<rparr>) = Some s'"
  by (simp add: handle_event_def on_request_block_def requestDataBlock_def prvMQTTPublish_def Let_def
      notify_wait_def wait_others_def sample_net_def sample_downloader_def ready_state_def
      initial_state_def)

theorem block_request_ends_suspension_witness:
  "\<exists>s'. handle_event (sample_env False 0 0) (simple_event OtaAgentEventRequestFileBlock)
     ((ready_state [] [])\<lparr>otaAgentState := OtaAgentStateSuspended\<rparr>) = Some s' \<and>
     otaAgentState s' = OtaAgentStateRequestingFileBlock"
proof -
  obtain s' where "handle_event (sample_env False 0 0) (simple_event OtaAgentEventRequestFileBlock)
     ((ready_state [] [])\<lparr>otaAgentState := OtaAgentStateSuspended\<rparr>) = Some s'"
    using sample_request_run by blast
  with block_request_ends_suspension [OF this] show ?thesis by blast
qed

section \<open>Downloads\<close>

lemma ceil_4096: "((n :: nat) + 4095) div 4096 = n div 4096 + (if n mod 4096 = 0 then 0 else 1)"
proof -
  have "n + 4095 = n div 4096 * 4096 + (n mod 4096 + 4095)" by simp
  then have "(n + 4095) div 4096 = n div 4096 + (n mod 4096 + 4095) div 4096"
    by (metis add.commute div_mult_self1 zero_neq_numeral)
  moreover have "(n mod 4096 + 4095) div 4096 = (if n mod 4096 = 0 then 0 else 1)"
    by (simp add: div_nat_eqI)
  ultimately show ?thesis by simp
qed

lemma unat_ceil_4096:
  "unat ((x :: u32) div 4096 + (if x mod 4096 > 0 then 1 else 0)) = (unat x + 4095) div 4096"
proof -
  have b: "unat x < 2 ^ 32" using unsigned_less [of x, where ?'a = nat] by simp
  have d: "unat (x div 4096) = unat x div 4096" by (simp add: unat_div)
  have m: "unat (x mod 4096) = unat x mod 4096" by (simp add: unat_mod)
  have gt: "x mod 4096 > 0 \<longleftrightarrow> unat x mod 4096 > 0"
    by (simp add: word_less_nat_alt m)
  have s: "unat (x div 4096 + 1) = unat x div 4096 + 1"
    using b by (simp add: unat_word_ariths d)
  show ?thesis
  proof (cases "unat x mod 4096 > 0")
    case True
    then have "(unat x + 4095) div 4096 = unat x div 4096 + 1" by (simp add: ceil_4096)
    with True gt s show ?thesis by simp
  next
    case False
    then have "(unat x + 4095) div 4096 = unat x div 4096" by (simp add: ceil_4096)
    with False gt d show ?thesis by simp
  qed
qed

text \<open>A job document that starts a download sets the number of blocks to the file size divided by
  4096 and rounded up, for every 32-bit size, and resets the block offset and the byte count.\<close>

theorem download_block_count:
  assumes "begin_download E s = Some (r, s')"
  shows "unat (numOfBlocksRemaining (dl s')) = (unat (fileSize (jobFields (job s))) + 4095) div 4096 \<and>
    currentBlockOffset (dl s') = 0 \<and> totalBytesReceived (dl s') = 0 \<and>
    currentFileId (dl s') = ucast (fileId (jobFields (job s)))"
  using begin_download_state [OF assms]
  by (simp add: start_download_def mqttFileDownloader_CONFIG_BLOCK_SIZE_def unat_ceil_4096)

definition job_state :: "u32 \<Rightarrow> (OtaEventMsg list, other_step list list) ota_state" where
  "job_state fsize = (ready_state [] [])\<lparr>job := (job (ready_state [] []))\<lparr>jobFields :=
     zero_fields\<lparr>fileSize := fsize, fileId := 7\<rparr>\<rparr>\<rparr>"

lemma sample_begin_run: "\<exists>r s'. begin_download (sample_env p v w) (job_state fsize) = Some (r, s')"
  by (simp add: begin_download_def initMqttDownloader_def start_download_def prvMQTTSubscribe_def
      notify_wait_def wait_others_def sample_defs sample_env_def Let_def split_beta
      convertSignatureToDER_def job_state_def ready_state_def initial_state_def)

theorem download_block_count_witness:
  "\<exists>r s'. begin_download (sample_env False 0 0) (job_state 10000) = Some (r, s') \<and>
     unat (numOfBlocksRemaining (dl s')) = 3"
proof -
  obtain r s' where b: "begin_download (sample_env False 0 0) (job_state 10000) = Some (r, s')"
    using sample_begin_run by blast
  from download_block_count [OF b] b show ?thesis by (simp add: job_state_def)
qed

text \<open>
  The blocks a handled block event counts: one when the agent is active and the platform layer
  wrote a positive number of bytes.
\<close>

definition written_bytes :: "('q, 'w) ota_env \<Rightarrow> nat \<Rightarrow> ('q, 'w) ota_state \<Rightarrow> u16" where
  "written_bytes E i s =
     (let p = mqttDownloader_processReceivedDataBlock (downloader E) (mqttFileDownloaderContext (dl s))
            (data (dataBuffers s ! i)) (dataLength (dataBuffers s ! i))
      in fst (otaPal_WriteBlock (pal E) (jobFields (job s)) (totalBytesReceived (dl s)) (fst p) (snd p)
                (ota_world s)))"

definition agent_active :: "('q, 'w) ota_state \<Rightarrow> bool" where
  "agent_active s \<longleftrightarrow> otaAgentState s \<noteq> OtaAgentStateSuspended \<and> otaAgentState s \<noteq> OtaAgentStateStopped"

lemma on_file_block_active:
  assumes K: "kernel_fifo (kernel E) items MAX_MESSAGES" and "agent_active s"
    and q: "otaEventQueue s = Some q" "length (items q) < MAX_MESSAGES"
    and b: "on_file_block E (block_event i) s = Some s'"
  shows "dl s' = count_block (written_bytes E i s) (write_counted (written_bytes E i s) (dl s)) \<and>
    otaAgentState s' = otaAgentState s \<and> job s' = job s \<and>
    (\<exists>q'. otaEventQueue s' = Some q' \<and> items q' = items q @
       [simple_event (if numOfBlocksRemaining (dl s') = 0 then OtaAgentEventCloseFile
                      else OtaAgentEventRequestFileBlock)])"
proof -
  let ?p = "mqttDownloader_processReceivedDataBlock (downloader E) (mqttFileDownloaderContext (dl s))
      (data (dataBuffers s ! i)) (dataLength (dataBuffers s ! i))"
  obtain w where wr: "otaPal_WriteBlock (pal E) (jobFields (job s)) (totalBytesReceived (dl s))
      (fst ?p) (snd ?p) (ota_world s) = (written_bytes E i s, w)"
    by (metis prod.collapse written_bytes_def)
  let ?r = "written_bytes E i s"
  let ?d = "write_counted ?r (dl s)"
  let ?s3 = "(free_buffer E i (s\<lparr>ota_world := w, dl := ?d\<rparr>))\<lparr>dl := count_block ?r ?d\<rparr>"
  let ?e = "if numOfBlocksRemaining (count_block ?r ?d) = 0 then OtaAgentEventCloseFile
            else OtaAgentEventRequestFileBlock"
  have sent: "send_event E (simple_event ?e) ?s3 = Some s'"
    using b assms(2) handle_block_eq [OF wr]
    by (simp add: on_file_block_def agent_active_def split_beta Let_def split: if_splits)
  from queued.send_event_queue [OF K _ sent, of q] q obtain q' where
    "s' = ?s3\<lparr>otaEventQueue := Some q'\<rparr>" "items q' = items q @ [simple_event ?e]"
    by auto
  then show ?thesis by auto
qed

text \<open>When the agent is active, a block event writes the decoded block at the current end of the
  file, advances the counters if the write succeeded, and queues exactly one event: close the file
  when no block remains, else request the next block.\<close>

theorem block_event_progress:
  assumes "kernel_fifo (kernel E) items MAX_MESSAGES" and "agent_active s"
    and "otaEventQueue s = Some q" and "length (items q) < MAX_MESSAGES"
    and "on_file_block E (block_event i) s = Some s'" and "numOfBlocksRemaining (dl s) \<noteq> 0"
  shows "(if 0 < sint (written_bytes E i s)
          then unat (numOfBlocksRemaining (dl s')) + 1 = unat (numOfBlocksRemaining (dl s)) \<and>
               currentBlockOffset (dl s') = currentBlockOffset (dl s) + 1 \<and>
               totalBytesReceived (dl s') = totalBytesReceived (dl s) + scast (written_bytes E i s)
          else dl s' = dl s) \<and>
    (\<exists>q'. otaEventQueue s' = Some q' \<and> items q' = items q @
       [simple_event (if numOfBlocksRemaining (dl s') = 0 then OtaAgentEventCloseFile
                      else OtaAgentEventRequestFileBlock)])"
proof -
  have "unat (numOfBlocksRemaining (dl s) - 1) + 1 = unat (numOfBlocksRemaining (dl s))"
    using assms(6) by (simp add: unat_minus_one Suc_leI unat_gt_0)
  with on_file_block_active [OF assms(1-5)] show ?thesis
    by (auto simp: count_block_def write_counted_def)
qed

text \<open>
  A download seen by its counters: block events, block requests and steps of other tasks in any
  order, with the number of blocks written so far.
\<close>

inductive download_run :: "('q, 'w) ota_env \<Rightarrow> ('q, 'w) ota_state \<Rightarrow> nat \<Rightarrow> ('q, 'w) ota_state \<Rightarrow> bool"
  for E :: "('q, 'w) ota_env" and s :: "('q, 'w) ota_state"
where
  start: "download_run E s 0 s"
| other: "download_run E s n t \<Longrightarrow> exec_other E st t = Some t' \<Longrightarrow> download_run E s n t'"
| request: "download_run E s n t \<Longrightarrow> on_request_block E t = Some t' \<Longrightarrow> download_run E s n t'"
| dropped: "download_run E s n t \<Longrightarrow> \<not> agent_active t \<Longrightarrow> on_file_block E (block_event i) t = Some t' \<Longrightarrow>
    download_run E s n t'"
| failed: "download_run E s n t \<Longrightarrow> agent_active t \<Longrightarrow> sint (written_bytes E i t) \<le> 0 \<Longrightarrow>
    on_file_block E (block_event i) t = Some t' \<Longrightarrow> download_run E s n t'"
| written: "download_run E s n t \<Longrightarrow> agent_active t \<Longrightarrow> 0 < sint (written_bytes E i t) \<Longrightarrow>
    on_file_block E (block_event i) t = Some t' \<Longrightarrow> download_run E s (Suc n) t'"

lemma on_file_block_dl:
  assumes "agent_active s" and "on_file_block E (block_event i) s = Some s'"
  shows "dl s' = count_block (written_bytes E i s) (write_counted (written_bytes E i s) (dl s))"
proof -
  let ?p = "mqttDownloader_processReceivedDataBlock (downloader E) (mqttFileDownloaderContext (dl s))
      (data (dataBuffers s ! i)) (dataLength (dataBuffers s ! i))"
  obtain w where wr: "otaPal_WriteBlock (pal E) (jobFields (job s)) (totalBytesReceived (dl s))
      (fst ?p) (snd ?p) (ota_world s) = (written_bytes E i s, w)"
    by (metis prod.collapse written_bytes_def)
  show ?thesis
    using assms handle_block_eq [OF wr]
    by (auto simp: on_file_block_def agent_active_def split_beta Let_def split: if_splits
        dest!: own_part_send own_partD)
qed

lemma download_run_counters:
  "download_run E s n t \<Longrightarrow>
   numOfBlocksRemaining (dl t) + of_nat n = numOfBlocksRemaining (dl s) \<and>
   currentBlockOffset (dl t) = currentBlockOffset (dl s) + of_nat n"
proof (induction rule: download_run.induct)
  case (other n t st t')
  then show ?case using own_partD [OF own_part_other [OF other(2)]] by simp
next
  case (request n t t')
  from request(2) own_partD [OF request_block_own, of E "t\<lparr>otaAgentState := OtaAgentStateRequestingFileBlock\<rparr>" t']
  have "dl t' = dl t" by (simp add: on_request_block_def)
  with request show ?case by simp
next
  case (dropped n t i t')
  then have "dl t' = dl t" by (auto simp: on_file_block_def agent_active_def)
  with dropped show ?case by simp
next
  case (failed n t i t')
  with on_file_block_dl [OF failed(2,4)] show ?case by (simp add: count_block_def write_counted_def)
next
  case (written n t i t')
  with on_file_block_dl [OF written(2,4)] show ?case by (simp add: count_block_def write_counted_def)
qed simp


text \<open>A state in the middle of a download with \<open>n\<close> blocks to go.\<close>

definition loading_state :: "u32 \<Rightarrow> (OtaEventMsg list, other_step list list) ota_state" where
  "loading_state n = (ready_state [] [])\<lparr>otaAgentState := OtaAgentStateRequestingFileBlock,
     dl := (dl (ready_state [] []))\<lparr>numOfBlocksRemaining := n\<rparr>\<rparr>"

lemma loading_simps [simp]:
  "agent_active (loading_state n)" "otaEventQueue (loading_state n) = Some []"
  "numOfBlocksRemaining (dl (loading_state n)) = n" "currentBlockOffset (dl (loading_state n)) = 0"
  "written_bytes (sample_env p v r) i (loading_state n) = r"
  by (simp_all add: loading_state_def agent_active_def ready_state_def initial_state_def
      written_bytes_def sample_pal_def Let_def)

lemma loading_block_run:
  "\<exists>s'. on_file_block (sample_env p v r) (block_event 0) (loading_state n) = Some s'"
proof -
  have "\<exists>s'. send_event (sample_env p v r) m s = Some s'" if "otaEventQueue s = Some q"
    for m q and s :: "(OtaEventMsg list, other_step list list) ota_state"
    using that by (simp add: send_event_def OtaSendEvent_eq)
  then show ?thesis
    by (simp add: on_file_block_def loading_state_def handleMqttStreamsBlockArrived_def Let_def split_beta
        ready_state_def)
qed

theorem block_event_progress_witness:
  "\<exists>s'. on_file_block (sample_env False 0 4096) (block_event 0) (loading_state 1) = Some s' \<and>
     otaEventQueue s' = Some [simple_event OtaAgentEventCloseFile]"
proof -
  obtain s' where b: "on_file_block (sample_env False 0 4096) (block_event 0) (loading_state 1) = Some s'"
    using loading_block_run by blast
  from block_event_progress [OF sample_kernel loading_simps(1,2) _ b] b show ?thesis
    by (auto simp: unat_eq_0 split: if_splits)
qed


text \<open>A file block that arrives when the download is already complete is written behind the end
  of the file, makes the number of remaining blocks wrap around to the largest 32-bit number, and
  has the agent request more blocks instead of leaving the closing of the file in place.\<close>

theorem late_block_restarts_download:
  assumes "kernel_fifo (kernel E) items MAX_MESSAGES" and "agent_active s"
    and "otaEventQueue s = Some q" and "length (items q) < MAX_MESSAGES"
    and "on_file_block E (block_event i) s = Some s'" and "numOfBlocksRemaining (dl s) = 0"
    and "0 < sint (written_bytes E i s)"
  shows "numOfBlocksRemaining (dl s') = 2 ^ 32 - 1 \<and>
    totalBytesReceived (dl s') = totalBytesReceived (dl s) + scast (written_bytes E i s) \<and>
    (\<exists>q'. otaEventQueue s' = Some q' \<and>
       items q' = items q @ [simple_event OtaAgentEventRequestFileBlock])"
  using on_file_block_active [OF assms(1-5)] assms(6,7)
  by (auto simp: count_block_def write_counted_def)

theorem late_block_restarts_download_witness:
  "\<exists>s'. on_file_block (sample_env False 0 4096) (block_event 0) (loading_state 0) = Some s' \<and>
     numOfBlocksRemaining (dl s') = 0xFFFFFFFF \<and>
     otaEventQueue s' = Some [simple_event OtaAgentEventRequestFileBlock]"
proof -
  obtain s' where b: "on_file_block (sample_env False 0 4096) (block_event 0) (loading_state 0) = Some s'"
    using loading_block_run by blast
  from late_block_restarts_download [OF sample_kernel loading_simps(1,2) _ b] b show ?thesis
    by auto
qed

section \<open>The decision on a new image\<close>

text \<open>C4: In self test mode, for a job that names the version \<open>n\<close> it was started from in decimal, the
  new image is accepted exactly when \<open>n\<close> modulo 65536 is below the running version; the job is
  reported as succeeded or failed accordingly. For versions above 65535, that is all with a major
  or minor number, the comparison is not the comparison of the versions.\<close>

theorem self_test_decision:
  assumes "updatedBy (jobStatusDetails (job s)) = dec_string n"
    and "updatedByLen (jobStatusDetails (job s)) = length (dec_string n)" and "n < 2 ^ 32"
    and "otaPal_GetPlatformImageVersion (pal E) (jobFields (job s)) (ota_world s) = (ok, version, w)"
    and "self_test E s = Some (r, s')"
  shows "if n mod 2 ^ 16 < unat version
    then r = OtaPalNewImageBooted \<and> sendFinalJobStatusMessage E Succeeded
      (s\<lparr>ota_faults := ota_faults s @ [Vla_overrun], ota_world :=
         otaPal_SetPlatformImageState (pal E) (jobFields (job s)) OtaImageStateAccepted w\<rparr>) = Some s'
    else r = OtaPalNewImageBootFailed \<and> sendFinalJobStatusMessage E Failed
      (s\<lparr>ota_faults := ota_faults s @ [Vla_overrun], ota_world :=
         otaPal_SetPlatformImageState (pal E) (jobFields (job s)) OtaImageStateRejected w\<rparr>) = Some s'"
proof -
  have "updated_by_version (jobStatusDetails (job s)) = ucast (of_nat n :: u32)"
    using assms(1-3) by (simp add: updated_by_version_def strtoul10_dec_string)
  then have u: "updated_by_version (jobStatusDetails (job s)) = of_nat n"
    using assms(3) by (simp add: unsigned_of_nat take_bit_nat_eq_self)
  have "ucast (of_nat n :: u16) < version \<longleftrightarrow> n mod 2 ^ 16 < unat version"
    by (simp add: word_less_nat_alt unsigned_of_nat take_bit_eq_mod)
  with u assms(4,5) show ?thesis
    by (auto simp: self_test_def log_fault_def bind_eq_Some_conv Let_def split: if_splits)
qed

text \<open>A device in self test mode after an update that was started from version \<open>n\<close>.\<close>

definition test_state :: "nat \<Rightarrow> (OtaEventMsg list, other_step list list) ota_state" where
  "test_state n = (ready_state [] [])\<lparr>job := (job (ready_state [] []))\<lparr>jobStatusDetails :=
     \<lparr>updatedBy = dec_string n, updatedByLen = length (dec_string n)\<rparr>\<rparr>\<rparr>"

lemma final_status_run:
  "ota_world s = [] \<Longrightarrow> \<exists>s'. sendFinalJobStatusMessage (sample_env p v r) st s = Some s'"
  by (simp add: sendFinalJobStatusMessage_def prvMQTTPublish_def notify_wait_def wait_others_def
      sample_net_def Let_def split_beta log_fault_def)

lemma self_test_run: "\<exists>r s'. self_test (sample_env p v w) (test_state n) = Some (r, s')"
proof -
  have w: "ota_world (test_state n) = []" by (simp add: test_state_def ready_state_def initial_state_def)
  have f: "\<exists>s'. sendFinalJobStatusMessage (sample_env p v w) st
      ((test_state n)\<lparr>ota_faults := f, ota_world := []\<rparr>) = Some s'" for st f
    by (rule final_status_run) simp
  show ?thesis
    using f [of Succeeded "ota_faults (test_state n) @ [Vla_overrun]"]
      f [of Failed "ota_faults (test_state n) @ [Vla_overrun]"]
    by (auto simp: self_test_def sample_pal_def Let_def split_beta log_fault_def w)
qed

text \<open>An image of version 5000 replaces one of version 70000: a downgrade, and it is accepted.\<close>

theorem self_test_decision_witness:
  "\<exists>s'. self_test (sample_env True 5000 0) (test_state 70000) = Some (OtaPalNewImageBooted, s')"
proof -
  obtain r s' where run: "self_test (sample_env True 5000 0) (test_state 70000) = Some (r, s')"
    using self_test_run by blast
  have pal: "otaPal_GetPlatformImageVersion (pal (sample_env True 5000 0)) (jobFields (job (test_state 70000)))
      (ota_world (test_state 70000)) = (True, 5000, ota_world (test_state 70000))"
    by (simp add: sample_pal_def)
  have "updatedBy (jobStatusDetails (job (test_state 70000))) = dec_string 70000"
    "updatedByLen (jobStatusDetails (job (test_state 70000))) = length (dec_string 70000)"
    by (simp_all add: test_state_def)
  from self_test_decision [OF this _ pal run] run show ?thesis by auto
qed

section \<open>Job documents\<close>

text \<open>A job document whose ID starts like the current job's is taken as a repetition: the handler
  reports that the file is created, so that a block is requested, but it has already cleared the
  parameters of the download in progress, which keeps its counters.\<close>

theorem repeated_job_document:
  assumes "Jobs_GetJobId (jobs E) (jobData (jobDocBuffer s)) (jobDataLength (jobDocBuffer s)) = (n, jid)"
    and "n \<noteq> 0" and "take n (c_str (globalJobId (job s))) = take n (c_str jid)"
  shows "receivedJobDocumentHandler E s =
    Some (OtaPalJobDocFileCreated, s\<lparr>job := (job s)\<lparr>jobFields := zero_fields\<rparr>\<rparr>)"
proof -
  have "strncmp n (globalJobId (job s)) jid = 0" using assms(3) by (simp add: strncmp_eq_0_iff)
  with assms(1,2) show ?thesis by (simp add: receivedJobDocumentHandler_def)
qed

definition repeated_state :: "(OtaEventMsg list, other_step list list) ota_state" where
  "repeated_state = (job_state 10000)\<lparr>jobDocBuffer := \<lparr>jobData = ''J1doc'', jobDataLength = 5\<rparr>,
     job := (job (job_state 10000))\<lparr>globalJobId := ''J1'' @ replicate 62 NUL\<rparr>\<rparr>"

theorem repeated_job_document_witness:
  "map_option (\<lambda>(r, s'). (r, fileSize (jobFields (job s'))))
     (receivedJobDocumentHandler (sample_env False 0 0) repeated_state) = Some (OtaPalJobDocFileCreated, 0)"
proof -
  have "Jobs_GetJobId (jobs (sample_env False 0 0)) (jobData (jobDocBuffer repeated_state))
      (jobDataLength (jobDocBuffer repeated_state)) = (2, ''J1'')"
    by (simp add: sample_jobs_def repeated_state_def)
  from repeated_job_document [OF this] show ?thesis
    by (simp add: repeated_state_def zero_fields_def)
qed

text \<open>The loop of the parser ends when the index of the next file grows, as it is documented to do.\<close>

definition index_grows :: "jobs_lib \<Rightarrow> bool" where
  "index_grows J \<longleftrightarrow> (\<forall>d n i f. 0 < sint (fst (otaParser_parseJobDocFile J d n i f)) \<longrightarrow>
     sint i < sint (fst (otaParser_parseJobDocFile J d n i f)))"

lemma parse_files_total:
  assumes "index_grows J"
  shows "parse_files J d n i f \<noteq> None"
proof (induction "nat (128 - sint i)" arbitrary: i f rule: less_induct)
  case less
  obtain nxt f' where p: "otaParser_parseJobDocFile J d n i f = (nxt, f')" by fastforce
  show ?case
  proof (cases "0 < sint nxt")
    case True
    with assms p have "sint i < sint nxt" by (metis fst_conv index_grows_def)
    moreover have "sint nxt < 128" using sint_lt [of nxt] by simp
    ultimately have "parse_files J d n nxt f' \<noteq> None" by (intro less) simp
    with p True show ?thesis by (subst parse_files.simps) simp
  next
    case False
    with p show ?thesis by (subst parse_files.simps) simp
  qed
qed

text \<open>C6: Parsing a job document ends, whatever the document, if the library's parser returns growing
  file indices; and a message that contains no job document at all counts as parsed successfully,
  with the fields left as they are.\<close>

theorem job_document_parser_total:
  assumes "index_grows J"
  shows "jobDocumentParser J message len jf \<noteq> None \<and>
    (fst (Jobs_GetJobDocument J message len) = 0 \<longrightarrow> jobDocumentParser J message len jf = Some (True, jf))"
  using parse_files_total [OF assms] by (auto simp: jobDocumentParser_def split_beta)

lemma sample_index_grows: "index_grows sample_jobs"
  by (simp add: index_grows_def sample_jobs_def)

theorem job_document_parser_total_witness:
  "jobDocumentParser sample_jobs ''J1'' 2 zero_fields = Some (True, zero_fields)"
  using job_document_parser_total [OF sample_index_grows, of "''J1''" 2 zero_fields]
  by (simp add: sample_jobs_def)

text \<open>A job message that fits into the 2048 bytes of the job buffer is copied there completely and
  announced by one event; a longer one, which the MQTT agent's receive buffer allows, is written
  past the end of the array.\<close>

theorem job_message_copied:
  assumes "kernel_fifo (kernel E) items MAX_MESSAGES" and "otaEventQueue s = Some q"
    and "length (items q) < MAX_MESSAGES" and "length (jobData (jobDocBuffer s)) = JOB_DOC_SIZE"
    and "is_job_topic E pub" and "length (pPayload pub) = payloadLength pub"
    and "prvMqttJobCallback E (Some pub) s = Some s'"
  shows "(\<exists>q'. otaEventQueue s' = Some q' \<and> items q' = items q @ [job_event]) \<and>
    jobDataLength (jobDocBuffer s') = payloadLength pub \<and>
    length (jobData (jobDocBuffer s')) = JOB_DOC_SIZE \<and>
    (if payloadLength pub \<le> JOB_DOC_SIZE
     then take (payloadLength pub) (jobData (jobDocBuffer s')) = pPayload pub \<and> ota_faults s' = ota_faults s
     else ota_faults s' = ota_faults s @ [Job_data_overflow])"
proof -
  have sent: "send_event E job_event (job_received pub s) = Some s'"
    using assms(5,7) by (simp add: job_callback_eq)
  from queued.send_event_queue [OF assms(1) _ sent, of q] assms(2,3) obtain q' where
    "s' = (job_received pub s)\<lparr>otaEventQueue := Some q'\<rparr>" "items q' = items q @ [job_event]"
    by (auto simp: job_received_def)
  with assms(4,6) take_buf_write [of "jobData (jobDocBuffer s)" "pPayload pub"] show ?thesis
    by (auto simp: job_received_def buf_fits_def)
qed

definition job_publish :: MQTTPublishInfo where
  "job_publish = \<lparr>pTopicName = ''jobs'', topicNameLength = 4, pPayload = ''J1doc'', payloadLength = 5\<rparr>"

theorem job_message_copied_witness:
  "\<exists>s'. prvMqttJobCallback (sample_env False 0 0) (Some job_publish) (ready_state [] []) = Some s' \<and>
     take 5 (jobData (jobDocBuffer s')) = ''J1doc''"
proof -
  let ?s = "ready_state [] []"
  have t: "is_job_topic (sample_env False 0 0) job_publish"
    by (simp add: is_job_topic_def sample_jobs_def job_publish_def)
  have q: "otaEventQueue ?s = Some []" by (simp add: ready_state_def)
  have l: "length (jobData (jobDocBuffer ?s)) = JOB_DOC_SIZE"
    by (simp add: ready_state_def initial_state_def)
  have p: "length (pPayload job_publish) = payloadLength job_publish" by (simp add: job_publish_def)
  obtain s' where c: "prvMqttJobCallback (sample_env False 0 0) (Some job_publish) ?s = Some s'"
    using t q by (simp add: job_callback_eq send_event_def OtaSendEvent_eq job_received_def)
  from job_message_copied [OF sample_kernel q _ l t p c] c show ?thesis
    by (auto simp: job_publish_def)
qed

section \<open>Registering callbacks\<close>

text \<open>The requests \<open>prvRegisterOTACallback\<close> makes: one for each filter of its table that matches.\<close>

definition matching_callbacks ::
  "('q, 'w) ota_env \<Rightarrow> memory \<Rightarrow> ptr \<Rightarrow> u16 \<Rightarrow> (string \<times> u16 \<times> ota_callback) list \<Rightarrow>
   (ptr \<times> u16 \<times> ptr \<times> ptr) list"
where
  "matching_callbacks E mem tf len cbs =
     map (\<lambda>(_, _, cb). (tf, len, code_address E cb, 0))
       (filter (\<lambda>(flt, flen, _). ota_MatchTopic (net E) (mem tf) len flt flen = Some True) cbs)"

lemma register_scan_eq:
  assumes "\<forall>t n f m. ota_MatchTopic (net E) t n f m \<noteq> None"
  shows "register_scan E mem tf len cbs subs =
    Some (subs_table.add_all mem (matching_callbacks E mem tf len cbs) subs)"
proof (induction cbs arbitrary: subs)
  case Nil
  show ?case by (simp add: matching_callbacks_def)
next
  case (Cons c cbs)
  obtain flt flen cb where c: "c = (flt, flen, cb)" by (metis prod_cases3)
  obtain b where b: "ota_MatchTopic (net E) (mem tf) len flt flen = Some b" using assms by blast
  show ?case
    using Cons by (cases b) (simp_all add: c b matching_callbacks_def)
qed

text \<open>Registering a topic filter for the OTA agent never fails an assertion when the matcher
  accepts its parameters, keeps the subscription table well formed and every registration in it,
  and adds nothing but the callbacks whose OTA filter matches the topic filter.\<close>

theorem register_callbacks:
  assumes "\<forall>t n f m. ota_MatchTopic (net E) t n f m \<noteq> None" and "table_ok (ota_subs s)"
  shows "\<exists>subs. prvRegisterOTACallback E tf len s = Some (s\<lparr>ota_subs := subs\<rparr>) \<and> table_ok subs \<and>
    registrations (ota_memory E s) (ota_subs s) \<subseteq> registrations (ota_memory E s) subs \<and>
    registrations (ota_memory E s) subs \<subseteq> registrations (ota_memory E s) (ota_subs s) \<union>
      {(filter_text (ota_memory E s) tf len, len, code_address E cb, 0) | flt flen cb.
         (flt, flen, cb) \<in> set otaTopicFilterCallbacks \<and>
         ota_MatchTopic (net E) (ota_memory E s tf) len flt flen = Some True}"
proof -
  let ?mem = "ota_memory E s"
  let ?ks = "matching_callbacks E ?mem tf len otaTopicFilterCallbacks"
  have run: "prvRegisterOTACallback E tf len s = Some (s\<lparr>ota_subs := subs_table.add_all ?mem ?ks (ota_subs s)\<rparr>)"
    by (simp add: prvRegisterOTACallback_def register_scan_eq [OF assms(1)])
  have sub: "request_entry ?mem ` set ?ks \<subseteq>
      {(filter_text ?mem tf len, len, code_address E cb, 0) | flt flen cb.
         (flt, flen, cb) \<in> set otaTopicFilterCallbacks \<and>
         ota_MatchTopic (net E) (?mem tf) len flt flen = Some True}"
    by (clarsimp simp: matching_callbacks_def) blast
  note b = subs_table.regs_add_all_bounds [OF assms(2), of ?mem ?ks]
  show ?thesis
  proof (intro exI conjI)
    show "prvRegisterOTACallback E tf len s = Some (s\<lparr>ota_subs := subs_table.add_all ?mem ?ks (ota_subs s)\<rparr>)"
      by (rule run)
    show "table_ok (subs_table.add_all ?mem ?ks (ota_subs s))"
      by (rule subs_table.inv_add_all [OF assms(2)])
    show "registrations ?mem (ota_subs s) \<subseteq> registrations ?mem (subs_table.add_all ?mem ?ks (ota_subs s))"
      by (rule conjunct1 [OF b])
    show "registrations ?mem (subs_table.add_all ?mem ?ks (ota_subs s)) \<subseteq>
      registrations ?mem (ota_subs s) \<union> {(filter_text ?mem tf len, len, code_address E cb, 0) | flt flen cb.
         (flt, flen, cb) \<in> set otaTopicFilterCallbacks \<and>
         ota_MatchTopic (net E) (?mem tf) len flt flen = Some True}"
      by (rule order_trans [OF conjunct2 [OF b] Un_mono [OF order_refl sub]])
  qed
qed

theorem register_callbacks_witness:
  "\<exists>subs. prvRegisterOTACallback (sample_env False 0 0) 22 20
     (initial_state [] :: (OtaEventMsg list, other_step list list) ota_state) =
       Some ((initial_state [])\<lparr>ota_subs := subs\<rparr>) \<and> table_ok subs"
proof -
  have m: "\<forall>t n f m. ota_MatchTopic (net (sample_env False 0 0)) t n f m \<noteq> None"
    by (simp add: sample_net_def)
  have "table_ok (ota_subs (initial_state [] :: (OtaEventMsg list, other_step list list) ota_state))"
    using table_ok_init by (simp add: initial_state_def)
  from register_callbacks [OF m this] show ?thesis by blast
qed

end
