(* ===== verification/Sntp_Clock.thy ===== *)
theory Sntp_Clock
  imports Prelude
begin

text \<open>
  The system clock of the SNTP client, \<^verbatim>\<open>sntp_client_task.c\<close>: the wall-clock time in RAM, computed
  from the time of the last synchronisation, the kernel's tick count and a slew rate, and its two
  interface functions for coreSNTP. Ticks are milliseconds. The mutex serialises the operations,
  which are functions on the clock here. \<open>sntp_lib\<close> holds the constants and the conversion of
  coreSNTP.
\<close>

section \<open>Data\<close>

record UTCTime =
  secs :: u32
  msecs :: u32

record SystemClock =
  baseTime :: UTCTime
  lastSyncTickCount :: u32
  pollPeriod :: u32
  slewRate :: u64
  firstTimeSyncDone :: bool

record SntpTimestamp =
  seconds :: u32
  fractions :: u32

text \<open>
  \<open>Sntp_ConvertToUnixTime\<close> gives seconds and microseconds, or \<open>None\<close> when it does not return
  \<open>SntpSuccess\<close>.
\<close>

record sntp_lib =
  SNTP_TIME_AT_UNIX_EPOCH_SECS :: u64
  SNTP_FRACTION_VALUE_PER_MICROSECOND :: u32
  Sntp_ConvertToUnixTime :: "SntpTimestamp \<Rightarrow> (u32 \<times> u32) option"

definition zero_clock :: SystemClock where
  "zero_clock = \<lparr>baseTime = \<lparr>secs = 0, msecs = 0\<rparr>, lastSyncTickCount = 0, pollPeriod = 0,
     slewRate = 0, firstTimeSyncDone = False\<rparr>"

definition MILLISECONDS_PER_TICK :: u32 where "MILLISECONDS_PER_TICK = 1"

section \<open>Operations\<close>

text \<open>\<open>None\<close> when the assertion \<open>year >= 1970\<close> fails.\<close>

definition translateYearToUnixSeconds :: "u16 \<Rightarrow> u32 option" where
  "translateYearToUnixSeconds year =
     (if year \<ge> 1970
      then (let numOfDaysSince1970 = (ucast year - 1970) * 365 + (ucast year - 1969) div 4
            in Some (numOfDaysSince1970 * 24 * 3600))
      else None)"

text \<open>The milliseconds since the last synchronisation; \<open>now\<close> is the tick count.\<close>

definition ms_elapsed :: "u32 \<Rightarrow> u32 \<Rightarrow> u64 \<Rightarrow> u64" where
  "ms_elapsed now lastSync slew =
     (let ticksElapsedSinceLastSync = now - lastSync;
          ms = ucast (ticksElapsedSinceLastSync * MILLISECONDS_PER_TICK)
      in if slew > 0 then ms + slew * (ms div 1000) else ms)"

definition calculateCurrentTime :: "u32 \<Rightarrow> UTCTime \<Rightarrow> u32 \<Rightarrow> u64 \<Rightarrow> UTCTime" where
  "calculateCurrentTime now pBaseTime lastSync slew =
     (let ms = ms_elapsed now lastSync slew
      in if ms \<ge> 1000
         then \<lparr>secs = ucast (ucast (secs pBaseTime) + ms div 1000), msecs = ucast (ms mod 1000)\<rparr>
         else \<lparr>secs = secs pBaseTime, msecs = ucast ms\<rparr>)"

definition MILLISECONDS_TO_SNTP_FRACTIONS :: "sntp_lib \<Rightarrow> u32 \<Rightarrow> u32" where
  "MILLISECONDS_TO_SNTP_FRACTIONS L ms = ms * 1000 * SNTP_FRACTION_VALUE_PER_MICROSECOND L"

definition clock_now :: "u32 \<Rightarrow> SystemClock \<Rightarrow> UTCTime" where
  "clock_now now c = calculateCurrentTime now (baseTime c) (lastSyncTickCount c) (slewRate c)"

definition sntpClient_GetTime :: "sntp_lib \<Rightarrow> u32 \<Rightarrow> SystemClock \<Rightarrow> SntpTimestamp" where
  "sntpClient_GetTime L now c =
     (let currentTime = clock_now now c;
          ntpSecs = ucast (secs currentTime) + SNTP_TIME_AT_UNIX_EPOCH_SECS L
      in \<lparr>seconds = (if ntpSecs > 0xFFFFFFFF then ucast (ntpSecs - 0xFFFFFFFF - 1) else ucast ntpSecs),
          fractions = MILLISECONDS_TO_SNTP_FRACTIONS L (msecs currentTime)\<rparr>)"

definition systemGetWallClockTime :: "u32 \<Rightarrow> SystemClock \<Rightarrow> u32" where
  "systemGetWallClockTime now c = secs (clock_now now c)"

text \<open>Division of C: rounds towards zero.\<close>

definition trunc_div :: "int \<Rightarrow> int \<Rightarrow> int" where
  "trunc_div a b = sgn a * sgn b * (\<bar>a\<bar> div \<bar>b\<bar>)"

text \<open>
  \<open>clockOffsetMs\<close> is an \<open>int64_t\<close>, the poll period an unsigned number of 32 bits, so the quotient is
  signed and is then stored in the unsigned slew rate. \<open>None\<close>: the conversion fails, which an
  assertion catches, or the poll period is 0.
\<close>

definition sntpClient_SetTime ::
  "sntp_lib \<Rightarrow> u32 \<Rightarrow> SntpTimestamp \<Rightarrow> u64 \<Rightarrow> SystemClock \<Rightarrow> SystemClock option" where
  "sntpClient_SetTime L now pServerTime clockOffsetMs c =
     (case Sntp_ConvertToUnixTime L pServerTime of
        None \<Rightarrow> None
      | Some (unixSecs, unixMicroSecs) \<Rightarrow>
          (let c1 = c\<lparr>baseTime := \<lparr>secs = unixSecs, msecs = unixMicroSecs div 1000\<rparr>\<rparr>;
               finish = (\<lambda>c. c\<lparr>firstTimeSyncDone := True, lastSyncTickCount := now\<rparr>)
           in if firstTimeSyncDone c1 \<and> slewRate c1 = 0
              then (if pollPeriod c1 = 0 then None
                    else Some (finish (c1\<lparr>slewRate :=
                           word_of_int (trunc_div (sint clockOffsetMs) (uint (pollPeriod c1)))\<rparr>)))
              else Some (finish c1)))"

definition initializeSystemClock :: "u16 \<Rightarrow> bool \<Rightarrow> SystemClock \<Rightarrow> SystemClock option" where
  "initializeSystemClock democonfigSYSTEM_START_YEAR mutexCreated c =
     (case translateYearToUnixSeconds democonfigSYSTEM_START_YEAR of
        None \<Rightarrow> None
      | Some s \<Rightarrow>
          (if mutexCreated
           then Some (c\<lparr>baseTime := \<lparr>secs = s, msecs = 0\<rparr>, firstTimeSyncDone := False\<rparr>)
           else None))"

section \<open>The calendar\<close>

definition leap_year :: "nat \<Rightarrow> bool" where
  "leap_year y \<longleftrightarrow> y mod 4 = 0 \<and> (y mod 100 \<noteq> 0 \<or> y mod 400 = 0)"

text \<open>The days from 1 January 1970 to 1 January of the year \<open>1970 + n\<close> in the Gregorian calendar.\<close>

fun days_since_1970 :: "nat \<Rightarrow> nat" where
  "days_since_1970 0 = 0"
| "days_since_1970 (Suc n) = days_since_1970 n + (if leap_year (1970 + n) then 366 else 365)"

lemma leap_year_until_2100:
  assumes "n < 130" shows "leap_year (1970 + n) \<longleftrightarrow> (1970 + n) mod 4 = 0"
proof (cases "(1970 + n) mod 100 = 0")
  case True
  then obtain q where q: "1970 + n = 100 * q" by (auto simp: mod_eq_0_iff_dvd dvd_def)
  with assms have "q = 20" by arith
  with q have "1970 + n = 2000" by simp
  then show ?thesis unfolding leap_year_def by (simp only:) simp
next
  case False
  then show ?thesis by (simp only: leap_year_def) blast
qed

lemma days_closed_form: "n \<le> 130 \<Longrightarrow> days_since_1970 n = n * 365 + (n + 1) div 4"
proof (induction n)
  case (Suc n)
  have "(n + 2) div 4 = (n + 1) div 4 + (if (1970 + n) mod 4 = 0 then 1 else 0)" by presburger
  with Suc leap_year_until_2100 [of n] show ?case by simp
qed simp

lemma word32_of_nat_div4:
  assumes "m < 2 ^ 32" shows "(of_nat m :: u32) div 4 = of_nat (m div 4)"
proof -
  have "m div 4 < 2 ^ 32" using assms by (rule order.strict_trans1 [OF div_le_dividend])
  with assms show ?thesis
    by (intro word_unat_eq_iff [THEN iffD2]) (simp add: unat_div unsigned_of_nat take_bit_nat_eq_self)
qed

lemma year_seconds_unat:
  assumes "1970 \<le> y" and "y \<le> 2105"
  shows "map_option unat (translateYearToUnixSeconds (of_nat y)) =
    Some (((y - 1970) * 365 + (y - 1969) div 4) * 86400)"
proof -
  have u: "unat (of_nat y :: u16) = y"
    using assms by (simp add: unsigned_of_nat take_bit_nat_eq_self)
  have w: "ucast (of_nat y :: u16) = (of_nat y :: u32)"
    using assms by (simp add: unsigned_of_nat take_bit_nat_eq_self)
  have ge: "(of_nat y :: u16) \<ge> 1970"
    using assms u by (simp add: word_le_nat_alt)
  have d1: "(of_nat y - 1970 :: u32) = of_nat (y - 1970)" using assms by (simp add: of_nat_diff)
  have d2: "(of_nat y - 1969 :: u32) = of_nat (y - 1969)" using assms by (simp add: of_nat_diff)
  have dv: "(of_nat (y - 1969) :: u32) div 4 = of_nat ((y - 1969) div 4)"
    using assms(2) by (intro word32_of_nat_div4) simp
  let ?n = "(y - 1970) * 365 + (y - 1969) div 4"
  have "(of_nat (y - 1970) * 365 + of_nat (y - 1969) div 4 :: u32) * 24 * 3600 = of_nat (?n * 86400)"
    by (simp add: dv)
  moreover have "?n * 86400 < 2 ^ 32"
  proof -
    have "(y - 1970) * 365 \<le> 135 * 365" using assms by (intro mult_le_mono1) simp
    moreover have "(y - 1969) div 4 \<le> 34" using assms by (simp add: div_le_mono [of "y - 1969" 136 4, simplified])
    ultimately have "?n \<le> 49309" by simp
    then show ?thesis by simp
  qed
  ultimately have "unat ((of_nat (y - 1970) * 365 + of_nat (y - 1969) div 4 :: u32) * 24 * 3600) = ?n * 86400"
    by (simp only: unsigned_of_nat) (simp add: take_bit_nat_eq_self)
  then show ?thesis
    using ge by (simp add: translateYearToUnixSeconds_def w d1 d2)
qed

lemma days_after_2100:
  assumes "130 < n" and "n \<le> 135"
  shows "days_since_1970 n + 1 = n * 365 + (n + 1) div 4"
proof -
  have d: "days_since_1970 130 = 47482" using days_closed_form [of 130] by simp
  have l: "\<not> leap_year 2100" "\<not> leap_year 2101" "\<not> leap_year 2102" "\<not> leap_year 2103" "leap_year 2104"
    by (simp_all add: leap_year_def)
  have 1: "days_since_1970 131 = 47847" using days_since_1970.simps(2) [of 130] d l by simp
  have 2: "days_since_1970 132 = 48212" using days_since_1970.simps(2) [of 131] 1 l by simp
  have 3: "days_since_1970 133 = 48577" using days_since_1970.simps(2) [of 132] 2 l by simp
  have 4: "days_since_1970 134 = 48942" using days_since_1970.simps(2) [of 133] 3 l by simp
  have 5: "days_since_1970 135 = 49308" using days_since_1970.simps(2) [of 134] 4 l by simp
  from assms consider "n = 131" | "n = 132" | "n = 133" | "n = 134" | "n = 135" by linarith
  then show ?thesis using 1 2 3 4 5 by cases simp_all
qed

text \<open>The start of a year in UNIX seconds is the number of days of the Gregorian calendar since
  1970 times 86400 for every year up to 2100, without wrap-around; from 2101 to 2105, where the
  code counts 2100 as a leap year, it is one day late.\<close>

theorem year_start_correct:
  assumes "1970 \<le> y" and "y \<le> 2105"
  shows "map_option unat (translateYearToUnixSeconds (of_nat y)) =
    Some ((days_since_1970 (y - 1970) + (if y \<le> 2100 then 0 else 1)) * 86400)"
proof -
  obtain n where n: "y = 1970 + n" using assms(1) by (auto simp: le_iff_add)
  have "days_since_1970 n + (if y \<le> 2100 then 0 else 1) = n * 365 + (n + 1) div 4"
    using n assms(2) days_closed_form [of n] days_after_2100 [of n] by auto
  with n year_seconds_unat [OF assms] show ?thesis by simp
qed

theorem year_start_correct_witness:
  "map_option unat (translateYearToUnixSeconds 2023) = Some (days_since_1970 53 * 86400)"
  using year_start_correct [of 2023] by simp

section \<open>The current time\<close>

definition total_ms :: "UTCTime \<Rightarrow> int" where
  "total_ms t = int (unat (secs t)) * 1000 + int (unat (msecs t))"

text \<open>The elapsed milliseconds as an integer: \<open>t\<close> of the tick count, corrected by a signed slew.\<close>

definition slewed :: "int \<Rightarrow> int \<Rightarrow> int" where
  "slewed k t = t + k * (t div 1000)"

lemma slewed_nonneg: "0 \<le> t \<Longrightarrow> -1000 \<le> k \<Longrightarrow> 0 \<le> slewed k t"
proof -
  assume t: "0 \<le> t" and k: "-1000 \<le> k"
  have "-1000 * (t div 1000) \<le> k * (t div 1000)"
    using t k by (intro mult_right_mono) (simp_all add: pos_imp_zdiv_nonneg_iff)
  moreover have "1000 * (t div 1000) \<le> t" by (metis mult.commute div_mult_mod_eq t
      pos_mod_sign zero_less_numeral le_add_same_cancel1)
  ultimately show ?thesis by (simp add: slewed_def)
qed

lemma ms_elapsed_uint:
  assumes "-1000 \<le> sint slew" and "sint slew \<le> 2 ^ 31"
  shows "uint (ms_elapsed now lastSync slew) = slewed (sint slew) (uint (now - lastSync))"
proof -
  define t where "t = uint (now - lastSync)"
  have t: "0 \<le> t" "t < 2 ^ 32"
    using unsigned_less [of "now - lastSync", where ?'a = int] by (simp_all add: t_def)
  have ms: "(ucast (now - lastSync) :: u64) = word_of_int t" by (simp add: t_def)
  have sec: "(word_of_int t :: u64) div 1000 = word_of_int (t div 1000)"
  proof -
    have "uint ((word_of_int t :: u64) div 1000) = t div 1000"
      using t by (simp add: uint_div unsigned_of_int take_bit_int_eq_self)
    then show ?thesis by (metis word_of_int_uint)
  qed
  have eq: "ms_elapsed now lastSync slew = word_of_int (slewed (sint slew) t)"
  proof (cases "slew = 0")
    case True
    then show ?thesis by (simp add: ms_elapsed_def MILLISECONDS_PER_TICK_def slewed_def ms)
  next
    case False
    then have "ms_elapsed now lastSync slew = word_of_int t + slew * word_of_int (t div 1000)"
      by (simp add: ms_elapsed_def MILLISECONDS_PER_TICK_def ms sec word_gt_0)
    also have "slew * word_of_int (t div 1000) = word_of_int (sint slew * (t div 1000))"
      proof -
      have "word_of_int (sint slew) = slew" by simp
      then show ?thesis by (simp only: wi_hom_mult [symmetric])
    qed
    finally show ?thesis by (simp only: slewed_def wi_hom_add)
  qed
  have "slewed (sint slew) t < 2 ^ 64"
  proof -
    have "sint slew * (t div 1000) \<le> 2 ^ 31 * 2 ^ 32"
      using assms(2) t by (intro mult_mono) (simp_all add: pos_imp_zdiv_nonneg_iff)
    with t show ?thesis by (simp add: slewed_def)
  qed
  with slewed_nonneg [OF t(1) assms(1)] show ?thesis
    unfolding eq t_def [symmetric] by (simp add: unsigned_of_int take_bit_int_eq_self)
qed

lemma secs_msecs_combine:
  assumes "0 \<le> (e :: int)"
  shows "((s + e div 1000) mod 2 ^ 32) * 1000 + e mod 1000 = (s * 1000 + e) mod (2 ^ 32 * 1000)"
proof -
  let ?m = "(2 ^ 32 :: int)"
  have "s * 1000 + e = 1000 * (s + e div 1000) + e mod 1000" by simp
  moreover have "(1000 * (s + e div 1000) + e mod 1000) mod (1000 * ?m) =
      1000 * ((s + e div 1000) mod ?m) + e mod 1000"
  proof -
    have "(1000 * (s + e div 1000) + e mod 1000) mod (1000 * ?m) =
        1000 * ((1000 * (s + e div 1000) + e mod 1000) div 1000 mod ?m) +
        (1000 * (s + e div 1000) + e mod 1000) mod 1000"
      by (rule zmod_zmult2_eq) simp
    then show ?thesis by simp
  qed
  ultimately show ?thesis by (simp add: mult.commute add.commute)
qed

lemma slewed_bound:
  assumes "0 \<le> t" and "t < 2 ^ 32" and "k \<le> 2 ^ 31"
  shows "slewed k t < 2 ^ 63 + 2 ^ 32"
proof -
  have "k * (t div 1000) \<le> 2 ^ 31 * 2 ^ 32"
    using assms by (intro mult_mono) (simp_all add: pos_imp_zdiv_nonneg_iff)
  with assms show ?thesis by (simp add: slewed_def)
qed

text \<open>For a slew rate of at least -1000 ms per second, read as a signed number although it is stored
  unsigned, the current time is the base time in whole seconds plus the elapsed milliseconds plus
  the slew for each elapsed second, modulo the range of 32-bit seconds; the tick counter may have
  wrapped once since the synchronisation.\<close>

theorem current_time_exact:
  assumes "-1000 \<le> sint (slewRate c)" and "sint (slewRate c) \<le> 2 ^ 31"
  shows "total_ms (clock_now now c) =
    (int (unat (secs (baseTime c))) * 1000 + slewed (sint (slewRate c)) (uint (now - lastSyncTickCount c)))
      mod (2 ^ 32 * 1000)"
proof -
  define e where "e = slewed (sint (slewRate c)) (uint (now - lastSyncTickCount c))"
  define ms where "ms = ms_elapsed now (lastSyncTickCount c) (slewRate c)"
  define s where "s = uint (secs (baseTime c))"
  have ms: "uint ms = e" unfolding ms_def e_def by (rule ms_elapsed_uint [OF assms])
  have e: "0 \<le> e" "e < 2 ^ 63 + 2 ^ 32"
    using slewed_nonneg [OF _ assms(1)] slewed_bound [OF _ _ assms(2)]
      unsigned_less [of "now - lastSyncTickCount c", where ?'a = int]
    by (simp_all add: e_def)
  have s: "0 \<le> s" "s < 2 ^ 32"
    using unsigned_less [of "secs (baseTime c)", where ?'a = int] by (simp_all add: s_def)
  have sum: "uint (ucast (secs (baseTime c)) + ms div 1000) = s + e div 1000"
  proof -
    have "e div 1000 \<le> (2 ^ 63 + 2 ^ 32) div 1000" using e by (intro zdiv_mono1) simp_all
    then have "s + e div 1000 < 2 ^ 64" using s by simp
    with e s show ?thesis
      by (simp add: uint_word_ariths uint_div ms s_def)
  qed
  have big: "uint (ucast (ucast (secs (baseTime c)) + ms div 1000) :: u32) = (s + e div 1000) mod 2 ^ 32"
    by (simp add: unsigned_ucast_eq sum take_bit_eq_mod)
  have lo: "uint (ucast (ms mod 1000) :: u32) = e mod 1000"
  proof -
    have "0 \<le> e mod 1000" "e mod 1000 < 2 ^ 32" by (simp_all add: order_less_trans [OF pos_mod_bound])
    then show ?thesis by (simp add: unsigned_ucast_eq uint_mod ms take_bit_int_eq_self)
  qed
  have "total_ms (clock_now now c) = ((s + e div 1000) mod 2 ^ 32) * 1000 + e mod 1000"
  proof (cases "ms \<ge> 1000")
    case True
    then show ?thesis
      by (simp add: clock_now_def calculateCurrentTime_def ms_def [symmetric] total_ms_def big lo)
  next
    case False
    then have "e < 1000" by (simp add: word_le_def ms not_le)
    moreover have "uint (ucast ms :: u32) = e"
      using e \<open>e < 1000\<close> by (simp add: unsigned_ucast_eq ms take_bit_int_eq_self)
    ultimately show ?thesis using False e s
      by (simp add: clock_now_def calculateCurrentTime_def ms_def [symmetric] total_ms_def s_def div_pos_pos_trivial mod_pos_pos_trivial)
  qed
  also have "\<dots> = (s * 1000 + e) mod (2 ^ 32 * 1000)" by (rule secs_msecs_combine [OF e(1)])
  finally show ?thesis by (simp add: s_def e_def)
qed

theorem current_time_exact_witness:
  "total_ms (clock_now 5 \<lparr>baseTime = \<lparr>secs = 100, msecs = 7\<rparr>, lastSyncTickCount = -2500, pollPeriod = 16,
      slewRate = word_of_int (-10), firstTimeSyncDone = True\<rparr>) = 102485"
  using current_time_exact [of "\<lparr>baseTime = \<lparr>secs = 100, msecs = 7\<rparr>, lastSyncTickCount = -2500, pollPeriod = 16,
      slewRate = word_of_int (-10), firstTimeSyncDone = True\<rparr>" 5]
  by (simp add: slewed_def)

section \<open>Synchronisation\<close>

text \<open>A library whose constants are those of coreSNTP and whose conversion cuts to UNIX seconds.\<close>

definition sample_sntp_lib :: sntp_lib where
  "sample_sntp_lib = \<lparr>SNTP_TIME_AT_UNIX_EPOCH_SECS = 2208988800, SNTP_FRACTION_VALUE_PER_MICROSECOND = 4295,
     Sntp_ConvertToUnixTime = (\<lambda>t. Some (seconds t - 2208988800, fractions t div 4295))\<rparr>"

lemma trunc_div_exact: "0 < p \<Longrightarrow> trunc_div (k * p) p = k"
  by (simp add: trunc_div_def abs_mult sgn_mult sgn_mult_abs)

lemma SetTime_Some:
  "sntpClient_SetTime L now ts off c = Some c' \<Longrightarrow>
   \<exists>us. Sntp_ConvertToUnixTime L ts = Some us \<and>
     baseTime c' = \<lparr>secs = fst us, msecs = snd us div 1000\<rparr> \<and> lastSyncTickCount c' = now \<and>
     firstTimeSyncDone c' \<and> pollPeriod c' = pollPeriod c \<and>
     slewRate c' = (if firstTimeSyncDone c \<and> slewRate c = 0
       then word_of_int (trunc_div (sint off) (uint (pollPeriod c))) else slewRate c)"
  by (auto simp: sntpClient_SetTime_def Let_def split: option.splits if_splits)

lemma SetTime_Some':
  "sntpClient_SetTime L now ts off c = Some c' \<Longrightarrow>
     lastSyncTickCount c' = now \<and> firstTimeSyncDone c' \<and> pollPeriod c' = pollPeriod c \<and>
     slewRate c' = (if firstTimeSyncDone c \<and> slewRate c = 0
       then word_of_int (trunc_div (sint off) (uint (pollPeriod c))) else slewRate c)"
  using SetTime_Some by blast

text \<open>Any number of synchronisations: the time of the tick counter, the server's time and the offset.\<close>

fun synchronise :: "sntp_lib \<Rightarrow> (u32 \<times> SntpTimestamp \<times> u64) list \<Rightarrow> SystemClock \<Rightarrow> SystemClock option" where
  "synchronise L [] c = Some c"
| "synchronise L ((now, ts, off) # syncs) c =
     (case sntpClient_SetTime L now ts off c of None \<Rightarrow> None | Some c' \<Rightarrow> synchronise L syncs c')"

lemma synchronise_slew:
  "synchronise L syncs c = Some c' \<Longrightarrow> slewRate c \<noteq> 0 \<Longrightarrow>
   slewRate c' = slewRate c \<and> pollPeriod c' = pollPeriod c"
  by (induction L syncs c rule: synchronise.induct) (auto split: option.splits dest!: SetTime_Some')

text \<open>The drift of the clock is measured once: whatever synchronisations follow the one that sets a
  slew rate other than 0, the rate stays what the quotient of that offset and the poll period was.\<close>

theorem slew_measured_once:
  assumes "firstTimeSyncDone c" and "slewRate c = 0"
    and "synchronise L ((now, ts, off) # later) c = Some c'"
    and "word_of_int (trunc_div (sint off) (uint (pollPeriod c))) \<noteq> (0 :: u64)"
  shows "slewRate c' = word_of_int (trunc_div (sint off) (uint (pollPeriod c)))"
proof -
  from assms(3) obtain c1 where 1: "sntpClient_SetTime L now ts off c = Some c1"
    and 2: "synchronise L later c1 = Some c'" by (auto split: option.splits)
  from SetTime_Some' [OF 1] assms
  have "slewRate c1 = word_of_int (trunc_div (sint off) (uint (pollPeriod c)))" by simp
  with assms(4) synchronise_slew [OF 2] show ?thesis by simp
qed

definition synced_clock :: SystemClock where
  "synced_clock = zero_clock\<lparr>baseTime := \<lparr>secs = 1700000000, msecs = 0\<rparr>, pollPeriod := 16, firstTimeSyncDone := True\<rparr>"

theorem slew_measured_once_witness:
  "slewRate (the (synchronise sample_sntp_lib
     [(16000, \<lparr>seconds = 3908988900, fractions = 0\<rparr>, 160), (32000, \<lparr>seconds = 3908988916, fractions = 0\<rparr>, 48)] synced_clock)) = 10"
  using slew_measured_once [of synced_clock sample_sntp_lib 16000 "\<lparr>seconds = 3908988900, fractions = 0\<rparr>" 160
    "[(32000, \<lparr>seconds = 3908988916, fractions = 0\<rparr>, 48)]"]
  by (simp add: synced_clock_def zero_clock_def sntpClient_SetTime_def sample_sntp_lib_def Let_def trunc_div_def)



lemma clock_now_msecs: "msecs (clock_now now c) < 1000"
proof -
  define ms where "ms = ms_elapsed now (lastSyncTickCount c) (slewRate c)"
  have r: "unat (ucast m :: u32) = unat m" if "unat m < 1000" for m :: u64
    using that by (simp add: unsigned_ucast_eq take_bit_nat_eq_self)
  have "unat (ms mod 1000) < 1000" by (simp add: unat_mod)
  then show ?thesis
    by (simp add: clock_now_def calculateCurrentTime_def ms_def [symmetric] word_less_nat_alt
        word_le_nat_alt not_le r)
qed

text \<open>The timestamp given to coreSNTP has the current time's UNIX seconds plus those between the two
  epochs modulo 2 to the 32, across the rollover of 2036; its fraction is the milliseconds in units
  of the library, without wrap-around.\<close>

theorem GetTime_timestamp:
  assumes "SNTP_TIME_AT_UNIX_EPOCH_SECS L \<le> 0xFFFFFFFF"
    and "SNTP_FRACTION_VALUE_PER_MICROSECOND L \<le> 4295"
  shows "uint (seconds (sntpClient_GetTime L now c)) =
      (uint (secs (clock_now now c)) + uint (SNTP_TIME_AT_UNIX_EPOCH_SECS L)) mod 2 ^ 32 \<and>
    unat (fractions (sntpClient_GetTime L now c)) =
      unat (msecs (clock_now now c)) * 1000 * unat (SNTP_FRACTION_VALUE_PER_MICROSECOND L)"
proof (intro conjI)
  let ?s = "secs (clock_now now c)" and ?e = "SNTP_TIME_AT_UNIX_EPOCH_SECS L"
  have e: "uint ?e < 2 ^ 32" using assms(1) by (simp add: word_le_def)
  have s: "uint ?s < 2 ^ 32" using unsigned_less [of ?s, where ?'a = int] by simp
  have "ucast (ucast ?s + ?e - 0xFFFFFFFF - 1 :: u64) = (ucast (ucast ?s + ?e :: u64) :: u32)"
  proof -
    have eq: "ucast ?s + ?e - 0xFFFFFFFF - 1 = ucast ?s + ?e - (2 ^ 32 :: u64)" by simp
    show ?thesis
      unfolding eq by (intro word_uint_eq_iff [THEN iffD2])
        (simp add: unsigned_ucast_eq take_bit_eq_mod uint_word_ariths mod_mod_cancel mod_simps)
  qed
  then have "seconds (sntpClient_GetTime L now c) = ucast (ucast ?s + ?e :: u64)"
    by (simp add: sntpClient_GetTime_def Let_def)
  moreover have "uint (ucast ?s + ?e :: u64) = uint ?s + uint ?e"
    using e s by (simp add: uint_word_ariths)
  ultimately show "uint (seconds (sntpClient_GetTime L now c)) = (uint ?s + uint ?e) mod 2 ^ 32"
    by (simp add: unsigned_ucast_eq take_bit_eq_mod)
next
  let ?m = "msecs (clock_now now c)" and ?f = "SNTP_FRACTION_VALUE_PER_MICROSECOND L"
  have m: "unat ?m \<le> 999" using clock_now_msecs [of now c] by (simp add: word_less_nat_alt)
  have f: "unat ?f \<le> 4295" using assms(2) by (simp add: word_le_nat_alt)
  have "unat ?m * 1000 \<le> 999 * 1000" using m by simp
  then have p: "unat ?m * 1000 * unat ?f \<le> 999 * 1000 * 4295" using f by (intro mult_le_mono) simp_all
  show "unat (fractions (sntpClient_GetTime L now c)) = unat ?m * 1000 * unat ?f"
    using p m by (simp add: sntpClient_GetTime_def Let_def MILLISECONDS_TO_SNTP_FRACTIONS_def unat_word_ariths)
qed

theorem GetTime_timestamp_witness:
  "uint (seconds (sntpClient_GetTime sample_sntp_lib 5000 (zero_clock\<lparr>baseTime := \<lparr>secs = 2085978495, msecs = 0\<rparr>\<rparr>))) = 4"
  using GetTime_timestamp [of sample_sntp_lib 5000 "zero_clock\<lparr>baseTime := \<lparr>secs = 2085978495, msecs = 0\<rparr>\<rparr>"]
  by (simp add: sample_sntp_lib_def zero_clock_def clock_now_def calculateCurrentTime_def ms_elapsed_def MILLISECONDS_PER_TICK_def)

end
