(* ===== verification/Pkcs11.thy ===== *)
theory Pkcs11
  imports Crt_Helpers "HOL-Library.Monad_Syntax"
begin

text \<open>
  The PKCS\#11 module as the SNTP client and the provisioning code see it. The module is not part
  of the repository: its functions are the fields of \<open>pkcs11\<close>, on a token state \<open>'w\<close>. What the
  clients do with the module is made visible by two counts no code reads: the sessions opened and
  not closed, and the heap blocks allocated and not freed.
\<close>

section \<open>The interface\<close>

text \<open>The codes the sources name, and every other code.\<close>

datatype CK_RV =
    CKR_OK
  | CKR_HOST_MEMORY
  | CKR_GENERAL_ERROR
  | CKR_ARGUMENTS_BAD
  | CKR_ATTRIBUTE_VALUE_INVALID
  | CKR_CURVE_NOT_SUPPORTED
  | CKR_DEVICE_MEMORY
  | CKR_FUNCTION_NOT_SUPPORTED
  | CKR_KEY_HANDLE_INVALID
  | CKR_other u32

datatype CK_OBJECT_CLASS = CKO_SECRET_KEY | CKO_PRIVATE_KEY | CKO_PUBLIC_KEY | CKO_CERTIFICATE

datatype CK_KEY_TYPE = CKK_AES | CKK_EC | CKK_RSA | CKK_other u32

datatype CK_ATTRIBUTE =
    CKA_CLASS CK_OBJECT_CLASS
  | CKA_KEY_TYPE CK_KEY_TYPE
  | CKA_LABEL string
  | CKA_TOKEN bool
  | CKA_PRIVATE bool
  | CKA_SIGN bool
  | CKA_VERIFY bool
  | CKA_VALUE "u8 list"
  | CKA_SUBJECT string
  | CKA_CERTIFICATE_TYPE_X_509
  | CKA_EC_PARAMS "u8 list"
  | CKA_EC_POINT "u8 list"
  | CKA_MODULUS "u8 list"
  | CKA_MODULUS_BITS nat
  | CKA_PRIVATE_EXPONENT "u8 list"
  | CKA_PUBLIC_EXPONENT "u8 list"
  | CKA_PRIME_1 "u8 list"
  | CKA_PRIME_2 "u8 list"
  | CKA_EXPONENT_1 "u8 list"
  | CKA_EXPONENT_2 "u8 list"
  | CKA_COEFFICIENT "u8 list"
  | CKA_ENCRYPT bool
  | CKA_DECRYPT bool

type_synonym handle = u32

abbreviation (input) CK_INVALID_HANDLE :: handle where "CK_INVALID_HANDLE \<equiv> 0"

text \<open>
  Output arguments are options, \<open>None\<close> when the function leaves them unwritten. The flag of
  \<open>C_GetFunctionList\<close> says whether the list was stored.
\<close>

record 'w pkcs11 =
  C_GetFunctionList :: "'w \<Rightarrow> CK_RV \<times> bool \<times> 'w"
  xInitializePkcs11Session :: "'w \<Rightarrow> CK_RV \<times> handle option \<times> 'w"
  C_CloseSession :: "handle \<Rightarrow> 'w \<Rightarrow> CK_RV \<times> 'w"
  C_Finalize :: "'w \<Rightarrow> CK_RV \<times> 'w"
  C_CreateObject :: "handle \<Rightarrow> CK_ATTRIBUTE list \<Rightarrow> 'w \<Rightarrow> CK_RV \<times> handle option \<times> 'w"
  C_SignInit :: "handle \<Rightarrow> handle \<Rightarrow> 'w \<Rightarrow> CK_RV \<times> 'w"
  C_Sign :: "handle \<Rightarrow> u8 list \<Rightarrow> 'w \<Rightarrow> CK_RV \<times> u8 list \<times> 'w"
  C_VerifyInit :: "handle \<Rightarrow> handle \<Rightarrow> 'w \<Rightarrow> CK_RV \<times> 'w"
  C_Verify :: "handle \<Rightarrow> u8 list \<Rightarrow> u8 list \<Rightarrow> 'w \<Rightarrow> CK_RV \<times> 'w"
  C_GenerateRandom :: "handle \<Rightarrow> 'w \<Rightarrow> CK_RV \<times> u32 option \<times> 'w"

section \<open>State\<close>

record 'w token_state =
  token :: 'w
  openSessions :: nat
  liveBlocks :: nat

definition on_token :: "('w \<Rightarrow> 'r \<times> 'w) \<Rightarrow> 'w token_state \<Rightarrow> 'r \<times> 'w token_state" where
  "on_token f s = (let (r, w) = f (token s) in (r, s\<lparr>token := w\<rparr>))"

definition on_token2 ::
  "('w \<Rightarrow> 'r \<times> 'b \<times> 'w) \<Rightarrow> 'w token_state \<Rightarrow> 'r \<times> 'b \<times> 'w token_state" where
  "on_token2 f s = (let (r, x, w) = f (token s) in (r, x, s\<lparr>token := w\<rparr>))"

definition on_token3 ::
  "('w \<Rightarrow> CK_RV \<times> 'b \<times> 'c \<times> 'w) \<Rightarrow> 'w token_state \<Rightarrow> CK_RV \<times> 'b \<times> 'c \<times> 'w token_state" where
  "on_token3 f s = (let (r, x, y, w) = f (token s) in (r, x, y, s\<lparr>token := w\<rparr>))"

definition open_session :: "'w pkcs11 \<Rightarrow> 'w token_state \<Rightarrow> CK_RV \<times> handle option \<times> 'w token_state" where
  "open_session P s =
     (let (r, h, s') = on_token2 (xInitializePkcs11Session P) s
      in (r, h, if r = CKR_OK then s'\<lparr>openSessions := Suc (openSessions s')\<rparr> else s'))"

definition close_session :: "'w pkcs11 \<Rightarrow> handle \<Rightarrow> 'w token_state \<Rightarrow> CK_RV \<times> 'w token_state" where
  "close_session P h s =
     (let (r, s') = on_token (C_CloseSession P h) s
      in (r, if r = CKR_OK then s'\<lparr>openSessions := openSessions s' - 1\<rparr> else s'))"

text \<open>The use of the function list: undefined when it was not stored. Freeing a block.\<close>

definition checked :: "bool \<Rightarrow> 'a \<Rightarrow> 'a option" where
  "checked listed x = (if listed then Some x else None)"

definition vPortFree :: "'w token_state \<Rightarrow> 'w token_state" where
  "vPortFree s = s\<lparr>liveBlocks := liveBlocks s - 1\<rparr>"

definition free_if :: "bool \<Rightarrow> 'w token_state \<Rightarrow> 'w token_state" where
  "free_if b s = (if b then vPortFree s else s)"

lemma checked_Some [simp]: "checked l x = Some y \<longleftrightarrow> l \<and> x = y"
  by (auto simp: checked_def)

section \<open>What the calls leave unchanged\<close>

lemma on_token_frame [lens_simps]:
  "on_token f s = (r, s') \<Longrightarrow> openSessions s' = openSessions s \<and> liveBlocks s' = liveBlocks s"
  by (auto simp: on_token_def split: prod.splits)

lemma on_token2_frame [lens_simps]:
  "on_token2 g s = (r, x, s') \<Longrightarrow> openSessions s' = openSessions s \<and> liveBlocks s' = liveBlocks s"
  by (auto simp: on_token2_def split: prod.splits)

lemma on_token3_frame [lens_simps]:
  "on_token3 k s = (r, x, y, s') \<Longrightarrow> openSessions s' = openSessions s \<and> liveBlocks s' = liveBlocks s"
  by (auto simp: on_token3_def split: prod.splits)

lemma on_token_counts [simp]:
  "openSessions (snd (on_token f s)) = openSessions s" "liveBlocks (snd (on_token f s)) = liveBlocks s"
  by (simp_all add: on_token_def split_beta)

lemma on_token2_counts [simp]:
  "openSessions (snd (snd (on_token2 g s))) = openSessions s" "liveBlocks (snd (snd (on_token2 g s))) = liveBlocks s"
  by (simp_all add: on_token2_def split_beta)

lemma open_session_frame [lens_simps]:
  "open_session P s = (r, h, s') \<Longrightarrow>
   openSessions s' = openSessions s + of_bool (r = CKR_OK) \<and> liveBlocks s' = liveBlocks s"
  by (auto simp: open_session_def Let_def split: prod.splits if_splits dest!: on_token2_frame)

lemma close_session_frame [lens_simps]:
  "close_session P h s = (r, s') \<Longrightarrow>
   openSessions s' = openSessions s - of_bool (r = CKR_OK) \<and> liveBlocks s' = liveBlocks s"
  by (auto simp: close_session_def Let_def split: prod.splits if_splits dest!: on_token_frame)

end
