(* ===== verification/Sntp_Auth.thy ===== *)
theory Sntp_Auth
  imports Pkcs11
begin

text \<open>
  Authentication of the SNTP client, \<^verbatim>\<open>sntp_client_task.c\<close>: the key of a time server is looked up in
  the configuration, a request is extended by the key identifier and an AES-128-CMAC, the CMAC of a
  response is verified, and random numbers are drawn from the PKCS\#11 module. A failed assertion
  and the use of a function list that was not obtained are \<open>None\<close>.
\<close>

section \<open>Data\<close>

text \<open>The statuses of coreSNTP the client names, and every other one.\<close>

datatype SntpStatus =
    SntpSuccess
  | SntpErrorAuthFailure
  | SntpServerNotAuthenticated
  | SntpNoResponseReceived
  | SntpRejectedResponse
  | Sntp_other nat

text \<open>\<open>keyId\<close> is a signed number of 32 bits; -1 stands for a server without a key.\<close>

record SntpAuthContext =
  pServer :: string
  keyId :: u32
  pAuthKey :: "u8 list"

definition AES_CMAC_AUTHENTICATION_KEY_SIZE :: nat where "AES_CMAC_AUTHENTICATION_KEY_SIZE = 16"

text \<open>The three lists of \<^verbatim>\<open>core_sntp_config.h\<close>; a key that is \<open>NULL\<close> is \<open>None\<close>.\<close>

record sntp_config =
  pTimeServers :: "string list"
  pAESCMACAuthKeys :: "string option list"
  pAuthKeyIds :: "u32 list"

text \<open>
  Two constants of the libraries, the size of a standard SNTP packet and of an AES-CMAC signature,
  and the contents of an uninitialised handle.
\<close>

record auth_params =
  SNTP_PACKET_BASE_SIZE :: nat
  pkcs11AES_CMAC_SIGNATURE_LENGTH :: nat
  indeterminate_handle :: handle

definition SNTP_PACKET_SYMMETRIC_KEY_ID_LENGTH :: nat where
  "SNTP_PACKET_SYMMETRIC_KEY_ID_LENGTH = 4"

definition SNTP_PACKET_SYMMETRIC_KEY_ID_OFFSET :: "auth_params \<Rightarrow> nat" where
  "SNTP_PACKET_SYMMETRIC_KEY_ID_OFFSET A = SNTP_PACKET_BASE_SIZE A"

definition SNTP_PACKET_AUTHENTICATED_MODE_SIZE :: "auth_params \<Rightarrow> nat" where
  "SNTP_PACKET_AUTHENTICATED_MODE_SIZE A =
     SNTP_PACKET_BASE_SIZE A + SNTP_PACKET_SYMMETRIC_KEY_ID_LENGTH + pkcs11AES_CMAC_SIGNATURE_LENGTH A"

definition pkcs11configLABEL_CMAC_KEY :: string where "pkcs11configLABEL_CMAC_KEY = ''CMAC Key''"

section \<open>The key of a server\<close>

definition same_server :: "string \<Rightarrow> string \<Rightarrow> bool" where
  "same_server a b \<longleftrightarrow> strlen a = strlen b \<and> strncmp (strlen b) a b = 0"

text \<open>The loop over the servers from \<open>index\<close>; the index after the last when none matches.\<close>

fun server_scan :: "string \<Rightarrow> string list \<Rightarrow> nat \<Rightarrow> nat" where
  "server_scan p [] index = index"
| "server_scan p (t # ts) index =
     (if strlen p = strlen t \<and> strncmp (strlen p) p t = 0 then index else server_scan p ts (Suc index))"

text \<open>The loop over the pairs of characters of a key.\<close>

fun hex_key :: "string \<Rightarrow> u8 list" where
  "hex_key (a # b # cs) = ucast (strtoul16 [a, b]) # hex_key cs"
| "hex_key _ = []"

definition populateAuthContextForServer ::
  "sntp_config \<Rightarrow> string \<Rightarrow> SntpAuthContext \<Rightarrow> SntpAuthContext option" where
  "populateAuthContextForServer C server ctx =
     (let index = server_scan server (pTimeServers C) 0
      in if index \<noteq> length (pTimeServers C)
         then (case pAESCMACAuthKeys C ! index of
                 Some key \<Rightarrow>
                   (if pAuthKeyIds C ! index \<noteq> - 1
                    then (if strlen key = 2 * AES_CMAC_AUTHENTICATION_KEY_SIZE
                          then Some (ctx\<lparr>pServer := server, keyId := pAuthKeyIds C ! index,
                                         pAuthKey := hex_key (c_str key)\<rparr>)
                          else None)
                    else Some (ctx\<lparr>pServer := server, keyId := - 1,
                                   pAuthKey := replicate (length (pAuthKey ctx)) 0\<rparr>))
               | None \<Rightarrow> Some (ctx\<lparr>pServer := server, keyId := - 1,
                                    pAuthKey := replicate (length (pAuthKey ctx)) 0\<rparr>))
         else None)"

section \<open>Message authentication\<close>

definition aes_cmac_template :: "SntpAuthContext \<Rightarrow> CK_ATTRIBUTE list" where
  "aes_cmac_template ctx =
     [CKA_CLASS CKO_SECRET_KEY, CKA_KEY_TYPE CKK_AES, CKA_LABEL pkcs11configLABEL_CMAC_KEY,
      CKA_TOKEN True, CKA_SIGN True, CKA_VERIFY True, CKA_VALUE (pAuthKey ctx)]"

text \<open>
  The result, the session and the key's handle; both handles keep their initial values when they are
  not written. The assertion on the key's handle is checked after a failure of \<open>C_CreateObject\<close> too.
\<close>

definition setupPkcs11ObjectForAesCmac ::
  "'w pkcs11 \<Rightarrow> SntpAuthContext \<Rightarrow> handle \<Rightarrow> handle \<Rightarrow> 'w token_state \<Rightarrow>
   (CK_RV \<times> handle \<times> handle \<times> 'w token_state) option" where
  "setupPkcs11ObjectForAesCmac P ctx session0 cMacKey0 s =
     (let (result, h, s) = open_session P s;
          session = (case h of None \<Rightarrow> session0 | Some x \<Rightarrow> x)
      in if result \<noteq> CKR_OK then Some (result, session, cMacKey0, s)
         else
           (let (result, _, s) = on_token2 (C_GetFunctionList P) s
            in if result \<noteq> CKR_OK then Some (result, session, cMacKey0, s)
               else
                 (let (result, k, s) = on_token2 (C_CreateObject P session (aes_cmac_template ctx)) s;
                      cMacKey = (case k of None \<Rightarrow> cMacKey0 | Some x \<Rightarrow> x)
                  in if cMacKey \<noteq> CK_INVALID_HANDLE then Some (result, session, cMacKey, s) else None)))"

text \<open>A 32-bit number in network byte order.\<close>

definition htonl_bytes :: "u32 \<Rightarrow> u8 list" where
  "htonl_bytes x = map (\<lambda>k. ucast (drop_bit k x)) [24, 16, 8, 0]"

text \<open>Closing the session and the module at the end, with the assertions on both results.\<close>

definition close_and_finalize :: "'w pkcs11 \<Rightarrow> handle \<Rightarrow> 'w token_state \<Rightarrow> 'w token_state option" where
  "close_and_finalize P session s =
     (let (r1, s1) = close_session P session s
      in if r1 = CKR_OK
         then (let (r2, s2) = on_token (C_Finalize P) s1 in if r2 = CKR_OK then Some s2 else None)
         else None)"

text \<open>
  The branch for a server with a key: the status, the size of the authentication code (\<open>None\<close>: not
  written), the request buffer and the token.
\<close>

definition append_auth_code ::
  "auth_params \<Rightarrow> 'w pkcs11 \<Rightarrow> u8 list \<Rightarrow> nat \<Rightarrow> SntpAuthContext \<Rightarrow> 'w token_state \<Rightarrow>
   (SntpStatus \<times> u16 option \<times> u8 list \<times> 'w token_state) option" where
  "append_auth_code A P pRequestBuffer bufferSize ctx s =
     (if bufferSize < SNTP_PACKET_AUTHENTICATED_MODE_SIZE A then None
      else do {
        (result, session, key, s) \<leftarrow> setupPkcs11ObjectForAesCmac P ctx 0 (indeterminate_handle A) s;
        let (result, s) = (if result = CKR_OK then on_token (C_SignInit P session key) s else (result, s));
        let buf = buf_write pRequestBuffer (SNTP_PACKET_SYMMETRIC_KEY_ID_OFFSET A) (htonl_bytes (keyId ctx));
        if result \<noteq> CKR_OK then Some (SntpErrorAuthFailure, None, buf, s)
        else do {
          let (result, mac, s) = on_token2 (C_Sign P session (take (SNTP_PACKET_BASE_SIZE A) buf)) s;
          let buf = buf_write buf (SNTP_PACKET_BASE_SIZE A + SNTP_PACKET_SYMMETRIC_KEY_ID_LENGTH) mac;
          if result \<noteq> CKR_OK then Some (SntpErrorAuthFailure, None, buf, s)
          else do {
            s \<leftarrow> close_and_finalize P session s;
            Some (SntpSuccess,
                  Some (of_nat (SNTP_PACKET_SYMMETRIC_KEY_ID_LENGTH + pkcs11AES_CMAC_SIGNATURE_LENGTH A)), buf, s)
          }
        }
      })"

definition addClientAuthCode ::
  "sntp_config \<Rightarrow> auth_params \<Rightarrow> 'w pkcs11 \<Rightarrow> string \<Rightarrow> u8 list \<Rightarrow> nat \<Rightarrow> SntpAuthContext \<Rightarrow> 'w token_state \<Rightarrow>
   (SntpStatus \<times> u16 option \<times> u8 list \<times> SntpAuthContext \<times> 'w token_state) option" where
  "addClientAuthCode C A P pServerName pRequestBuffer bufferSize ctx s = do {
     ctx \<leftarrow> (if \<not> same_server pServerName (pServer ctx) then populateAuthContextForServer C pServerName ctx
             else Some ctx);
     if keyId ctx \<noteq> - 1
     then do {
       (r, sz, buf, s) \<leftarrow> append_auth_code A P pRequestBuffer bufferSize ctx s;
       Some (r, sz, buf, ctx, s)
     }
     else Some (SntpSuccess, Some 0, pRequestBuffer, ctx, s)
   }"

definition validateServerAuth ::
  "auth_params \<Rightarrow> 'w pkcs11 \<Rightarrow> string \<Rightarrow> u8 list \<Rightarrow> u16 \<Rightarrow> SntpAuthContext \<Rightarrow> 'w token_state \<Rightarrow>
   (SntpStatus \<times> 'w token_state) option" where
  "validateServerAuth A P pServerName pResponseData responseSize ctx s =
     (if \<not> same_server pServerName (pServer ctx) then None
      else if keyId ctx = - 1 then Some (SntpSuccess, s)
      else if unat responseSize < SNTP_PACKET_AUTHENTICATED_MODE_SIZE A then None
      else do {
        (result, session, key, s) \<leftarrow> setupPkcs11ObjectForAesCmac P ctx 0 (indeterminate_handle A) s;
        if result \<noteq> CKR_OK then Some (SntpErrorAuthFailure, s)
        else do {
          let (result, s) = on_token (C_VerifyInit P session key) s;
          if result \<noteq> CKR_OK then Some (SntpErrorAuthFailure, s)
          else do {
            let (result, s) =
              on_token (C_Verify P session (take (SNTP_PACKET_BASE_SIZE A) pResponseData)
                (take (pkcs11AES_CMAC_SIGNATURE_LENGTH A)
                  (drop (SNTP_PACKET_SYMMETRIC_KEY_ID_OFFSET A + SNTP_PACKET_SYMMETRIC_KEY_ID_LENGTH) pResponseData))) s;
            if result \<noteq> CKR_OK then Some (SntpServerNotAuthenticated, s)
            else do { s \<leftarrow> close_and_finalize P session s; Some (SntpSuccess, s) }
          }
        }
      })"

text \<open>
  The random number is 0 when the module does not give one. The session starts as the invalid
  handle, and the function list as a null pointer.
\<close>

definition generateRandomNumber :: "'w pkcs11 \<Rightarrow> 'w token_state \<Rightarrow> (u32 \<times> 'w token_state) option" where
  "generateRandomNumber P s =
     (let (r, listed, s) = on_token2 (C_GetFunctionList P) s
      in if r \<noteq> CKR_OK then (if listed then Some (0, s) else None)
         else
           (let (r, h, s) = open_session P s;
                session = (case h of None \<Rightarrow> CK_INVALID_HANDLE | Some x \<Rightarrow> x)
            in if r \<noteq> CKR_OK then (if session \<noteq> CK_INVALID_HANDLE then Some (0, s) else None)
               else
                 (let (_, n, s) = on_token2 (C_GenerateRandom P session) s;
                      (_, s) = close_session P session s
                  in Some (case n of None \<Rightarrow> 0 | Some x \<Rightarrow> x, s))))"

section \<open>Looking up a server\<close>

lemma same_server_iff: "same_server a b \<longleftrightarrow> c_str a = c_str b"
  by (auto simp: same_server_def strncmp_eq_0_iff strlen_def)

lemma scan_test: "strlen p = strlen t \<and> strncmp (strlen p) p t = 0 \<longleftrightarrow> c_str p = c_str t"
  by (auto simp: strncmp_eq_0_iff strlen_def)

lemma server_scan_eq:
  "server_scan p ts k = k + length (takeWhile (\<lambda>t. c_str p \<noteq> c_str t) ts)"
proof (induction p ts k rule: server_scan.induct)
  case (2 p t ts k)
  then show ?case by (simp only: server_scan.simps scan_test) auto
qed simp

text \<open>The reference: the index of the first server with the name.\<close>

definition server_index :: "sntp_config \<Rightarrow> string \<Rightarrow> nat option" where
  "server_index C p = first_index (\<lambda>i. c_str p = c_str (pTimeServers C ! i)) (length (pTimeServers C))"

lemma server_scan_first:
  "server_index C p =
     (let i = server_scan p (pTimeServers C) 0 in if i = length (pTimeServers C) then None else Some i)"
proof -
  let ?ts = "pTimeServers C" and ?P = "\<lambda>t. c_str p \<noteq> c_str t"
  define i where "i = length (takeWhile ?P ?ts)"
  have le: "i \<le> length ?ts" by (simp add: i_def length_takeWhile_le)
  have below: "\<forall>j<i. c_str p \<noteq> c_str (?ts ! j)"
  proof (intro allI impI)
    fix j assume "j < i"
    then have j: "j < length (takeWhile ?P ?ts)" by (simp add: i_def)
    then have "?ts ! j \<in> set (takeWhile ?P ?ts)" using nth_mem [OF j] takeWhile_nth [OF j] by simp
    then show "c_str p \<noteq> c_str (?ts ! j)" by (auto dest: set_takeWhileD)
  qed
  show ?thesis
  proof (cases "i = length ?ts")
    case True
    then show ?thesis using below by (simp add: server_index_def first_index_None server_scan_eq i_def)
  next
    case False
    with le have "i < length ?ts" by simp
    moreover from this have "c_str p = c_str (?ts ! i)"
      using nth_length_takeWhile [of ?P ?ts] by (simp add: i_def)
    ultimately have "server_index C p = Some i" using below by (simp add: server_index_def first_index_Some)
    with False show ?thesis by (simp add: server_scan_eq i_def)
  qed
qed

text \<open>What the context holds for the server with an index, \<open>None\<close> when its key is malformed.\<close>

definition key_of_server :: "sntp_config \<Rightarrow> nat \<Rightarrow> (u32 \<times> u8 list) option" where
  "key_of_server C i =
     (case pAESCMACAuthKeys C ! i of
        Some key \<Rightarrow>
          (if pAuthKeyIds C ! i = - 1 then Some (- 1, replicate 16 0)
           else if strlen key = 32 then Some (pAuthKeyIds C ! i, hex_key (c_str key)) else None)
      | None \<Rightarrow> Some (- 1, replicate 16 0))"

lemma populate_eq:
  assumes "length (pAuthKey ctx) = 16"
  shows "populateAuthContextForServer C p ctx =
    (case server_index C p of
       None \<Rightarrow> None
     | Some i \<Rightarrow> map_option (\<lambda>(k, key). ctx\<lparr>pServer := p, keyId := k, pAuthKey := key\<rparr>) (key_of_server C i))"
  using assms
  by (auto simp: populateAuthContextForServer_def server_scan_first Let_def key_of_server_def
      AES_CMAC_AUTHENTICATION_KEY_SIZE_def split: option.splits)

lemma length_hex_key: "length (hex_key s) = length s div 2"
  by (induction s rule: hex_key.induct) auto

lemma hex_key_text: "hex_key (concat (map hex_byte bs)) = bs"
proof (induction bs)
  case (Cons b bs)
  have "concat (map hex_byte (b # bs)) =
      hex_char (unat b div 16) # hex_char (unat b mod 16) # concat (map hex_byte bs)"
    by (simp add: hex_byte_def)
  moreover have "ucast (strtoul16 [hex_char (unat b div 16), hex_char (unat b mod 16)]) = b"
    using strtoul16_hex_byte [of b] by (simp add: hex_byte_def)
  ultimately show ?case using Cons by simp
qed simp

lemma c_str_hex_text: "c_str (concat (map hex_byte bs)) = concat (map hex_byte bs)"
proof (induction bs)
  case (Cons b bs)
  have "unat b < 256" using unsigned_less [of b, where ?'a = nat] by simp
  then have "unat b div 16 < 16" "unat b mod 16 < 16" by (simp_all add: div_less_iff_less_mult)
  with Cons show ?case using hex_char_plain by (simp add: hex_byte_def)
qed simp

lemma length_hex_text: "length (concat (map hex_byte bs)) = 2 * length bs"
  by (induction bs) (simp_all add: hex_byte_def)

text \<open>A server listed first under its name with the hexadecimal text of a 16-byte key and a key
  identifier gets exactly that key and identifier in the authentication context.\<close>

theorem configured_key_is_used:
  assumes "server_index C server = Some i" and "length k = 16" and "length (pAuthKey ctx) = 16"
    and "pAESCMACAuthKeys C ! i = Some (concat (map hex_byte k))" and "pAuthKeyIds C ! i \<noteq> - 1"
  shows "populateAuthContextForServer C server ctx =
    Some (ctx\<lparr>pServer := server, keyId := pAuthKeyIds C ! i, pAuthKey := k\<rparr>)"
  using assms
  by (simp add: populate_eq key_of_server_def strlen_def c_str_hex_text length_hex_text hex_key_text)

definition sample_sntp_config :: sntp_config where
  "sample_sntp_config = \<lparr>pTimeServers = [''a.org'', ''b.org''],
     pAESCMACAuthKeys = [None, Some (concat (map hex_byte [0x00, 0x11, 0x22, 0x33, 0x44, 0x55, 0x66, 0x77,
        0x88, 0x99, 0xaa, 0xbb, 0xcc, 0xdd, 0xee, 0xff]))],
     pAuthKeyIds = [- 1, 7]\<rparr>"

definition blank_context :: SntpAuthContext where
  "blank_context = \<lparr>pServer = [], keyId = 0, pAuthKey = replicate 16 0\<rparr>"

lemma sample_server_index:
  "server_index sample_sntp_config ''b.org'' = Some 1" "server_index sample_sntp_config ''a.org'' = Some 0"
  by (simp_all add: server_scan_first server_scan_eq sample_sntp_config_def)

theorem configured_key_is_used_witness:
  "pAuthKey (the (populateAuthContextForServer sample_sntp_config ''b.org'' blank_context)) ! 15 = 0xff"
  using configured_key_is_used [OF sample_server_index(1), of
    "[0x00, 0x11, 0x22, 0x33, 0x44, 0x55, 0x66, 0x77, 0x88, 0x99, 0xaa, 0xbb, 0xcc, 0xdd, 0xee, 0xff]" blank_context]
  by (simp add: sample_sntp_config_def blank_context_def)

section \<open>Sessions\<close>

lemma setup_sessions:
  "setupPkcs11ObjectForAesCmac P ctx session0 key0 s = Some (r, session, key, s') \<Longrightarrow>
   liveBlocks s' = liveBlocks s \<and>
   (if r = CKR_OK then openSessions s' = Suc (openSessions s)
    else openSessions s' \<in> {openSessions s, Suc (openSessions s)})"
  by (auto simp: setupPkcs11ObjectForAesCmac_def Let_def split: prod.splits if_splits
      dest!: open_session_frame on_token2_frame)

lemma close_and_finalize_sessions:
  "close_and_finalize P session s = Some s' \<Longrightarrow>
   openSessions s' = openSessions s - 1 \<and> liveBlocks s' = liveBlocks s"
  by (auto simp: close_and_finalize_def Let_def split: prod.splits if_splits
      dest!: close_session_frame on_token_frame)

text \<open>A function that opens and closes a session may leave it open when it does not succeed.\<close>

definition session_account :: "SntpStatus \<Rightarrow> 'w token_state \<Rightarrow> 'w token_state \<Rightarrow> bool" where
  "session_account r s s' \<longleftrightarrow>
     (if r = SntpSuccess then openSessions s' = openSessions s
      else openSessions s' \<in> {openSessions s, Suc (openSessions s)}) \<and>
     (r = SntpServerNotAuthenticated \<longrightarrow> openSessions s' = Suc (openSessions s))"

lemma validate_sessions:
  assumes "validateServerAuth A P srv resp n ctx s = Some (r, s')"
  shows "session_account r s s'"
  using assms
  by (auto simp: validateServerAuth_def session_account_def bind_eq_Some_conv Let_def
      split: if_splits prod.splits dest!: setup_sessions close_and_finalize_sessions on_token_frame)

lemma add_sessions:
  assumes "addClientAuthCode C A P srv buf n ctx s = Some (r, sz, buf', ctx', s')"
  shows "session_account r s s' \<and> r \<in> {SntpSuccess, SntpErrorAuthFailure}"
  using assms
  by (auto simp: addClientAuthCode_def append_auth_code_def session_account_def bind_eq_Some_conv Let_def
      split: if_splits prod.splits
      dest!: setup_sessions close_and_finalize_sessions on_token_frame on_token2_frame)

text \<open>A run of responses, all judged in the same context.\<close>

fun validate_all ::
  "auth_params \<Rightarrow> 'w pkcs11 \<Rightarrow> string \<Rightarrow> SntpAuthContext \<Rightarrow> u8 list list \<Rightarrow> 'w token_state \<Rightarrow>
   (SntpStatus list \<times> 'w token_state) option" where
  "validate_all A P srv ctx [] s = Some ([], s)"
| "validate_all A P srv ctx (resp # resps) s = do {
     (r, s) \<leftarrow> validateServerAuth A P srv resp (of_nat (length resp)) ctx s;
     (rs, s) \<leftarrow> validate_all A P srv ctx resps s;
     Some (r # rs, s) }"

text \<open>Every response whose authentication code is wrong leaves one PKCS\#11 session open, an accepted
  one none: after any run of responses the open sessions have grown by at least the number of
  rejected and by at most the number of not accepted ones.\<close>

theorem rejected_responses_leak_sessions:
  assumes "validate_all A P srv ctx resps s = Some (rs, s')"
  shows "openSessions s + count_list rs SntpServerNotAuthenticated \<le> openSessions s' \<and>
    openSessions s' \<le> openSessions s + length (filter (\<lambda>r. r \<noteq> SntpSuccess) rs)"
  using assms
proof (induction resps arbitrary: s rs)
  case (Cons resp resps)
  then obtain r s1 rs' where 1: "validateServerAuth A P srv resp (of_nat (length resp)) ctx s = Some (r, s1)"
    and 2: "validate_all A P srv ctx resps s1 = Some (rs', s')" and rs: "rs = r # rs'"
    by (auto simp: bind_eq_Some_conv)
  from validate_sessions [OF 1] Cons.IH [OF 2] show ?case
    by (auto simp: session_account_def rs split: if_splits)
qed simp

section \<open>Accepted responses and authenticated requests\<close>

fun key_value :: "CK_ATTRIBUTE list \<Rightarrow> u8 list option" where
  "key_value [] = None"
| "key_value (CKA_VALUE k # _) = Some k"
| "key_value (_ # T) = key_value T"

text \<open>
  What the PKCS\#11 standard promises of the calls used: \<open>key_of w h\<close> is the value of the secret key
  with handle \<open>h\<close>, \<open>active w x\<close> the key of the operation initialised on the session \<open>x\<close>, and
  \<open>mac\<close> the message authentication code.
\<close>

definition cmac_module ::
  "'w pkcs11 \<Rightarrow> ('w \<Rightarrow> handle \<Rightarrow> u8 list) \<Rightarrow> ('w \<Rightarrow> handle \<Rightarrow> u8 list) \<Rightarrow> (u8 list \<Rightarrow> u8 list \<Rightarrow> u8 list) \<Rightarrow> bool"
where
  "cmac_module P key_of active mac \<longleftrightarrow>
     (\<forall>x T k w h w'. C_CreateObject P x T w = (CKR_OK, h, w') \<and> key_value T = Some k \<longrightarrow>
        (\<exists>y. h = Some y \<and> key_of w' y = k)) \<and>
     (\<forall>x h w w'. C_VerifyInit P x h w = (CKR_OK, w') \<longrightarrow> active w' x = key_of w h) \<and>
     (\<forall>x m sg w w'. C_Verify P x m sg w = (CKR_OK, w') \<longrightarrow> sg = mac (active w x) m) \<and>
     (\<forall>x h w w'. C_SignInit P x h w = (CKR_OK, w') \<longrightarrow> active w' x = key_of w h) \<and>
     (\<forall>x m sg w w'. C_Sign P x m w = (CKR_OK, sg, w') \<longrightarrow> sg = mac (active w x) m)"

lemma setup_key:
  assumes "cmac_module P key_of active mac"
    and "setupPkcs11ObjectForAesCmac P ctx session0 key0 s = Some (CKR_OK, session, key, s')"
  shows "key_of (token s') key = pAuthKey ctx"
proof -
  obtain w h w' where c: "C_CreateObject P session (aes_cmac_template ctx) w = (CKR_OK, h, w')"
    and k: "key = (case h of None \<Rightarrow> key0 | Some x \<Rightarrow> x)" and s': "token s' = w'"
    using assms(2)
    by (auto simp: setupPkcs11ObjectForAesCmac_def on_token2_def Let_def split: prod.splits if_splits option.splits)
  have "key_value (aes_cmac_template ctx) = Some (pAuthKey ctx)" by (simp add: aes_cmac_template_def)
  with c assms(1) obtain y where "h = Some y" "key_of w' y = pAuthKey ctx"
    unfolding cmac_module_def by metis
  with k s' show ?thesis by simp
qed

lemma verify_chain:
  assumes "cmac_module P key_of active mac"
    and "on_token (C_VerifyInit P session key) s1 = (CKR_OK, s2)"
    and "on_token (C_Verify P session m sg) s2 = (CKR_OK, s3)"
  shows "sg = mac (key_of (token s1) key) m"
proof -
  from assms(2) have "C_VerifyInit P session key (token s1) = (CKR_OK, token s2)"
    by (auto simp: on_token_def split: prod.splits)
  with assms(1) have "active (token s2) session = key_of (token s1) key" unfolding cmac_module_def by metis
  moreover from assms(3) have "C_Verify P session m sg (token s2) = (CKR_OK, token s3)"
    by (auto simp: on_token_def split: prod.splits)
  ultimately show ?thesis using assms(1) unfolding cmac_module_def by metis
qed

lemma sign_chain:
  assumes "cmac_module P key_of active mac"
    and "on_token (C_SignInit P session key) s1 = (CKR_OK, s2)"
    and "on_token2 (C_Sign P session m) s2 = (CKR_OK, sg, s3)"
  shows "sg = mac (key_of (token s1) key) m"
proof -
  from assms(2) have "C_SignInit P session key (token s1) = (CKR_OK, token s2)"
    by (auto simp: on_token_def split: prod.splits)
  with assms(1) have "active (token s2) session = key_of (token s1) key" unfolding cmac_module_def by metis
  moreover from assms(3) have "C_Sign P session m (token s2) = (CKR_OK, sg, token s3)"
    by (auto simp: on_token2_def split: prod.splits)
  ultimately show ?thesis using assms(1) unfolding cmac_module_def by metis
qed

text \<open>C14: A response of a server with a configured key is accepted only when the bytes after the key
  identifier are the message authentication code of its first 48 bytes (the base size) under the key
  in the context; the key identifier itself is not compared.\<close>

theorem accepted_response_is_authentic:
  assumes "cmac_module P key_of active mac" and "keyId ctx \<noteq> - 1"
    and "validateServerAuth A P srv resp n ctx s = Some (SntpSuccess, s')"
  shows "take (pkcs11AES_CMAC_SIGNATURE_LENGTH A) (drop (SNTP_PACKET_BASE_SIZE A + 4) resp) =
    mac (pAuthKey ctx) (take (SNTP_PACKET_BASE_SIZE A) resp)"
proof -
  let ?sig = "take (pkcs11AES_CMAC_SIGNATURE_LENGTH A) (drop (SNTP_PACKET_BASE_SIZE A + 4) resp)"
  let ?m = "take (SNTP_PACKET_BASE_SIZE A) resp"
  obtain session key s1 s2 s3 where
    1: "setupPkcs11ObjectForAesCmac P ctx 0 (indeterminate_handle A) s = Some (CKR_OK, session, key, s1)"
    and 2: "on_token (C_VerifyInit P session key) s1 = (CKR_OK, s2)"
    and 3: "on_token (C_Verify P session ?m ?sig) s2 = (CKR_OK, s3)"
    using assms(2,3)
    by (auto simp: validateServerAuth_def SNTP_PACKET_SYMMETRIC_KEY_ID_OFFSET_def
        SNTP_PACKET_SYMMETRIC_KEY_ID_LENGTH_def bind_eq_Some_conv Let_def split: if_splits prod.splits)
  show ?thesis using verify_chain [OF assms(1) 2 3] setup_key [OF assms(1) 1] by simp
qed

text \<open>A module for the witnesses: handle 1 is the last key, the code of a message its key.\<close>

definition sample_pkcs11 :: "(u8 list) pkcs11" where
  "sample_pkcs11 = \<lparr>C_GetFunctionList = (\<lambda>w. (CKR_OK, True, w)),
     xInitializePkcs11Session = (\<lambda>w. (CKR_OK, Some 1, w)), C_CloseSession = (\<lambda>_ w. (CKR_OK, w)),
     C_Finalize = (\<lambda>w. (CKR_OK, w)),
     C_CreateObject = (\<lambda>_ T w. (CKR_OK, Some 1, case key_value T of Some k \<Rightarrow> k | None \<Rightarrow> w)),
     C_SignInit = (\<lambda>_ _ w. (CKR_OK, w)), C_Sign = (\<lambda>_ m w. (CKR_OK, w, w)),
     C_VerifyInit = (\<lambda>_ _ w. (CKR_OK, w)),
     C_Verify = (\<lambda>_ m sg w. (if sg = w then CKR_OK else CKR_other 192, w)),
     C_GenerateRandom = (\<lambda>_ w. (CKR_OK, Some 4, w))\<rparr>"

lemma sample_cmac_module: "cmac_module sample_pkcs11 (\<lambda>w _. w) (\<lambda>w _. w) (\<lambda>k m. k)"
  by (auto simp: cmac_module_def sample_pkcs11_def split: if_splits)

definition sample_auth_params :: auth_params where
  "sample_auth_params = \<lparr>SNTP_PACKET_BASE_SIZE = 48, pkcs11AES_CMAC_SIGNATURE_LENGTH = 16, indeterminate_handle = 0\<rparr>"

definition sample_context :: SntpAuthContext where
  "sample_context = \<lparr>pServer = ''b.org'', keyId = 7, pAuthKey = replicate 16 9\<rparr>"

abbreviation sample_token :: "(u8 list) token_state" where
  "sample_token \<equiv> \<lparr>token = [], openSessions = 0, liveBlocks = 0\<rparr>"

lemmas sample_simps = sample_pkcs11_def sample_auth_params_def sample_context_def
  setupPkcs11ObjectForAesCmac_def open_session_def close_session_def close_and_finalize_def
  on_token_def on_token2_def aes_cmac_template_def SNTP_PACKET_AUTHENTICATED_MODE_SIZE_def
  SNTP_PACKET_SYMMETRIC_KEY_ID_OFFSET_def SNTP_PACKET_SYMMETRIC_KEY_ID_LENGTH_def

lemma sample_accepts:
  "validateServerAuth sample_auth_params sample_pkcs11 ''b.org'' (replicate 52 1 @ replicate 16 9) 68
     sample_context sample_token = Some (SntpSuccess, sample_token\<lparr>token := replicate 16 9\<rparr>)"
  by (simp add: validateServerAuth_def same_server_def sample_simps Let_def)

lemma sample_rejects:
  "validateServerAuth sample_auth_params sample_pkcs11 ''b.org'' (replicate 68 1) 68
     sample_context sample_token =
   Some (SntpServerNotAuthenticated, sample_token\<lparr>openSessions := 1, token := replicate 16 9\<rparr>)"
  by (simp add: validateServerAuth_def same_server_def sample_simps Let_def)

theorem accepted_response_is_authentic_witness:
  "take 16 (drop 52 (replicate 52 1 @ replicate 16 9)) = (replicate 16 9 :: u8 list)"
  using accepted_response_is_authentic [OF sample_cmac_module _ sample_accepts]
  by (simp add: sample_auth_params_def sample_context_def)

theorem rejected_responses_leak_sessions_witness:
  "openSessions sample_token + 1 \<le> openSessions (snd (the (validate_all sample_auth_params sample_pkcs11
     ''b.org'' sample_context [replicate 68 1] sample_token)))"
  using rejected_responses_leak_sessions [of sample_auth_params sample_pkcs11 "''b.org''" sample_context
    "[replicate 68 1]" sample_token]
  by (simp add: sample_rejects)

lemma htonl_length [simp]: "length (htonl_bytes x) = 4"
  by (simp add: htonl_bytes_def)

text \<open>The overlapping writes of a request: the identifier, then the code.\<close>

lemma auth_code_layout:
  assumes "length mac = m" and "b + 4 + m \<le> length buf"
  shows "buf_write (buf_write buf b (htonl_bytes k)) (b + 4) mac =
    take b buf @ htonl_bytes k @ mac @ drop (b + 4 + m) buf"
  using assms by (simp add: buf_write_def min_def ac_simps)

lemma append_success:
  assumes "append_auth_code A P buf n ctx s = Some (SntpSuccess, sz, buf', s')"
  shows "\<exists>session key s1 s2 s3 sg.
    setupPkcs11ObjectForAesCmac P ctx 0 (indeterminate_handle A) s = Some (CKR_OK, session, key, s1) \<and>
    on_token (C_SignInit P session key) s1 = (CKR_OK, s2) \<and>
    on_token2 (C_Sign P session (take (SNTP_PACKET_BASE_SIZE A)
      (buf_write buf (SNTP_PACKET_BASE_SIZE A) (htonl_bytes (keyId ctx))))) s2 = (CKR_OK, sg, s3) \<and>
    buf' = buf_write (buf_write buf (SNTP_PACKET_BASE_SIZE A) (htonl_bytes (keyId ctx))) (SNTP_PACKET_BASE_SIZE A + 4) sg \<and>
    sz = Some (of_nat (4 + pkcs11AES_CMAC_SIGNATURE_LENGTH A)) \<and>
    SNTP_PACKET_AUTHENTICATED_MODE_SIZE A \<le> n"
  using assms
  by (clarsimp simp: append_auth_code_def SNTP_PACKET_SYMMETRIC_KEY_ID_OFFSET_def SNTP_PACKET_SYMMETRIC_KEY_ID_LENGTH_def
      bind_eq_Some_conv Let_def split: if_splits prod.splits)

text \<open>C15: An authenticated request keeps its first 48 bytes, followed by the key identifier in network
  byte order and the message authentication code of those 48 bytes under the key in the context;
  nothing behind them changes and the size reported is that of identifier and code.\<close>

theorem authenticated_request_layout:
  assumes "cmac_module P key_of active mac"
    and "length (mac (pAuthKey ctx') (take (SNTP_PACKET_BASE_SIZE A) buf)) = pkcs11AES_CMAC_SIGNATURE_LENGTH A"
    and "addClientAuthCode C A P srv buf (length buf) ctx s = Some (SntpSuccess, sz, buf', ctx', s')"
    and "keyId ctx' \<noteq> - 1"
  shows "buf' = take (SNTP_PACKET_BASE_SIZE A) buf @ htonl_bytes (keyId ctx') @
      mac (pAuthKey ctx') (take (SNTP_PACKET_BASE_SIZE A) buf) @ drop (SNTP_PACKET_AUTHENTICATED_MODE_SIZE A) buf \<and>
    sz = Some (of_nat (4 + pkcs11AES_CMAC_SIGNATURE_LENGTH A))"
proof -
  let ?b = "SNTP_PACKET_BASE_SIZE A"
  let ?buf = "buf_write buf ?b (htonl_bytes (keyId ctx'))"
  obtain session key s1 s2 s3 sg where
    1: "setupPkcs11ObjectForAesCmac P ctx' 0 (indeterminate_handle A) s = Some (CKR_OK, session, key, s1)"
    and 2: "on_token (C_SignInit P session key) s1 = (CKR_OK, s2)"
    and 3: "on_token2 (C_Sign P session (take ?b ?buf)) s2 = (CKR_OK, sg, s3)"
    and buf': "buf' = buf_write ?buf (?b + 4) sg"
    and sz: "sz = Some (of_nat (4 + pkcs11AES_CMAC_SIGNATURE_LENGTH A))"
    and size: "SNTP_PACKET_AUTHENTICATED_MODE_SIZE A \<le> length buf"
  proof -
    have "append_auth_code A P buf (length buf) ctx' s = Some (SntpSuccess, sz, buf', s')"
      using assms(3,4) by (auto simp: addClientAuthCode_def bind_eq_Some_conv split: if_splits)
    from append_success [OF this] show ?thesis using that by blast
  qed
  from size have "?b + 4 + pkcs11AES_CMAC_SIGNATURE_LENGTH A \<le> length buf"
    by (simp add: SNTP_PACKET_AUTHENTICATED_MODE_SIZE_def SNTP_PACKET_SYMMETRIC_KEY_ID_LENGTH_def)
  moreover from this have t: "take ?b ?buf = take ?b buf" by (simp add: buf_write_def)
  moreover have "sg = mac (pAuthKey ctx') (take ?b buf)"
    using sign_chain [OF assms(1) 2 3] setup_key [OF assms(1) 1] t by simp
  ultimately show ?thesis
    using auth_code_layout [of sg "pkcs11AES_CMAC_SIGNATURE_LENGTH A" ?b buf "keyId ctx'"] assms(2)
    by (simp add: buf' sz SNTP_PACKET_AUTHENTICATED_MODE_SIZE_def SNTP_PACKET_SYMMETRIC_KEY_ID_LENGTH_def)
qed

lemma sample_add:
  "addClientAuthCode sample_sntp_config sample_auth_params sample_pkcs11 ''b.org'' (replicate 68 1)
     (length (replicate 68 (1 :: u8))) sample_context sample_token =
   Some (SntpSuccess, Some 20, buf_write (buf_write (replicate 68 1) 48 (htonl_bytes 7)) 52 (replicate 16 9),
     sample_context, sample_token\<lparr>token := replicate 16 9\<rparr>)"
  by (simp add: addClientAuthCode_def append_auth_code_def same_server_def sample_simps Let_def)

theorem authenticated_request_layout_witness:
  "buf_write (buf_write (replicate 68 1) 48 (htonl_bytes 7)) 52 (replicate 16 9) =
   replicate 48 1 @ htonl_bytes 7 @ replicate 16 9"
  using authenticated_request_layout [OF sample_cmac_module _ sample_add]
  by (simp add: sample_simps)

end
