(* ===== verification/Sntp_Client.thy ===== *)
theory Sntp_Client
  imports Sntp_Clock Sntp_Auth
begin

text \<open>
  The SNTP client task of \<^verbatim>\<open>sntp_client_task.c\<close>: DNS and UDP functions it gives to coreSNTP, sockets,
  backoff, initialisation and the task's loop. coreSNTP itself is a library: a call of it is a tree
  of the requests it makes through the functions given to \<open>Sntp_Init\<close>, each with a continuation for
  every answer, and \<open>run_library\<close> runs the tree against the client's functions.
\<close>

section \<open>Interfaces\<close>

text \<open>
  FreeRTOS+TCP and the kernel. Addresses and ports are in network byte order; the result of a send
  or receive is a signed number; \<open>FreeRTOS_recvfrom\<close> also gives the bytes and their source.
\<close>

record 'n udp_net =
  xTaskGetTickCount :: "'n \<Rightarrow> u32"
  FreeRTOS_htonl :: "u32 \<Rightarrow> u32"
  FreeRTOS_ntohl :: "u32 \<Rightarrow> u32"
  FreeRTOS_htons :: "u16 \<Rightarrow> u16"
  FreeRTOS_ntohs :: "u16 \<Rightarrow> u16"
  FreeRTOS_gethostbyname :: "string \<Rightarrow> 'n \<Rightarrow> u32 \<times> 'n"
  FreeRTOS_socket :: "'n \<Rightarrow> nat option \<times> 'n"
  FreeRTOS_bind :: "nat \<Rightarrow> u16 \<Rightarrow> 'n \<Rightarrow> int \<times> 'n"
  FreeRTOS_sendto :: "nat \<Rightarrow> u8 list \<Rightarrow> u32 \<Rightarrow> u16 \<Rightarrow> 'n \<Rightarrow> int \<times> 'n"
  FreeRTOS_recvfrom :: "nat \<Rightarrow> nat \<Rightarrow> 'n \<Rightarrow> int \<times> u8 list \<times> u32 \<times> u16 \<times> 'n"
  FreeRTOS_closesocket :: "nat \<Rightarrow> 'n \<Rightarrow> 'n"
  vTaskDelay :: "u32 \<Rightarrow> 'n \<Rightarrow> 'n"

definition EWOULDBLOCK :: int where "EWOULDBLOCK = 11"

record SntpServerInfo =
  pServerName :: string
  port :: u16

text \<open>
  A call of coreSNTP: it ends with a status and its new context, or makes a request. \<open>Validate_auth\<close>
  and \<open>Generate_auth\<close> carry the packet buffer.
\<close>

datatype 'c core_sntp =
    Finished SntpStatus 'c
  | Resolve_dns string "u32 option \<Rightarrow> 'c core_sntp"
  | Get_time "SntpTimestamp \<Rightarrow> 'c core_sntp"
  | Set_time SntpTimestamp u64 "'c core_sntp"
  | Send_to u32 u16 "u8 list" "int \<Rightarrow> 'c core_sntp"
  | Recv_from u32 u16 nat "int \<times> u8 list \<Rightarrow> 'c core_sntp"
  | Generate_auth string "u8 list" "SntpStatus \<times> u16 option \<times> u8 list \<Rightarrow> 'c core_sntp"
  | Validate_auth string "u8 list" u16 "SntpStatus \<Rightarrow> 'c core_sntp"

record ('w, 'n, 'c, 'b) sntp_env =
  sntp_constants :: sntp_lib
  sntp_conf :: sntp_config
  auth_constants :: auth_params
  crypto :: "'w pkcs11"
  udp :: "'n udp_net"
  Sntp_Init :: "SntpServerInfo list \<Rightarrow> u32 \<Rightarrow> nat \<Rightarrow> 'c"
  Sntp_SendTimeRequest :: "'c \<Rightarrow> u32 \<Rightarrow> u32 \<Rightarrow> 'c core_sntp"
  Sntp_ReceiveTimeResponse :: "'c \<Rightarrow> u32 \<Rightarrow> 'c core_sntp"
  BackoffAlgorithm_InitializeParams :: "u16 \<Rightarrow> u16 \<Rightarrow> u32 \<Rightarrow> 'b"
  BackoffAlgorithm_GetNextBackoff :: "'b \<Rightarrow> u32 \<Rightarrow> BackoffAlgorithmStatus \<times> u16 \<times> 'b"
  SNTP_DEFAULT_SERVER_PORT :: u16
  mutex_created :: bool
  servers_allocated :: bool

section \<open>State\<close>

text \<open>\<open>openSockets\<close> counts the sockets created and not closed; no code reads it.\<close>

record ('w, 'n) sntp_state =
  systemClock :: SystemClock
  authContext :: SntpAuthContext
  udp_socket :: nat
  token_state :: "'w token_state"
  net_world :: 'n
  openSockets :: nat

record ('w, 'n, 'c, 'b) sntp_task =
  sntp :: "('w, 'n) sntp_state"
  clientContext :: 'c
  backoffContext :: 'b
  backoffModeFlag :: bool

section \<open>Configuration\<close>

definition democonfigSNTP_CLIENT_POLLING_INTERVAL_SECONDS :: u32 where
  "democonfigSNTP_CLIENT_POLLING_INTERVAL_SECONDS = 16"

definition democonfigSYSTEM_START_YEAR :: u16 where "democonfigSYSTEM_START_YEAR = 2024"

definition democonfigSERVER_RESPONSE_TIMEOUT_MS :: u32 where "democonfigSERVER_RESPONSE_TIMEOUT_MS = 5000"

definition democonfigSEND_TIME_REQUEST_TIMEOUT_MS :: u32 where "democonfigSEND_TIME_REQUEST_TIMEOUT_MS = 50"

definition democonfigRECEIVE_SERVER_RESPONSE_BLOCK_TIME_MS :: u32 where
  "democonfigRECEIVE_SERVER_RESPONSE_BLOCK_TIME_MS = 200"

definition SNTP_DEMO_POLL_MAX_BACKOFF_DELAY_SEC :: u16 where "SNTP_DEMO_POLL_MAX_BACKOFF_DELAY_SEC = 0xFFFF"

definition SNTP_DEMO_MAX_SERVER_BACKOFF_RETRIES :: u32 where "SNTP_DEMO_MAX_SERVER_BACKOFF_RETRIES = 10"

section \<open>Functions given to coreSNTP\<close>

definition resolveDns ::
  "('w, 'n, 'c, 'b) sntp_env \<Rightarrow> string \<Rightarrow> ('w, 'n) sntp_state \<Rightarrow> u32 option \<times> ('w, 'n) sntp_state" where
  "resolveDns E server s =
     (let (resolvedAddr, w) = FreeRTOS_gethostbyname (udp E) server (net_world s)
      in (if resolvedAddr \<noteq> 0 then Some (FreeRTOS_ntohl (udp E) resolvedAddr) else None,
          s\<lparr>net_world := w\<rparr>))"

definition UdpTransport_Send ::
  "('w, 'n, 'c, 'b) sntp_env \<Rightarrow> u32 \<Rightarrow> u16 \<Rightarrow> u8 list \<Rightarrow> ('w, 'n) sntp_state \<Rightarrow> int \<times> ('w, 'n) sntp_state" where
  "UdpTransport_Send E serverAddr serverPort bytes s =
     (let (bytesSent, w) =
            FreeRTOS_sendto (udp E) (udp_socket s) bytes (FreeRTOS_htonl (udp E) serverAddr)
              (FreeRTOS_htons (udp E) serverPort) (net_world s)
      in (bytesSent, s\<lparr>net_world := w\<rparr>))"

definition UdpTransport_Recv ::
  "('w, 'n, 'c, 'b) sntp_env \<Rightarrow> u32 \<Rightarrow> u16 \<Rightarrow> nat \<Rightarrow> ('w, 'n) sntp_state \<Rightarrow>
   (int \<times> u8 list) \<times> ('w, 'n) sntp_state" where
  "UdpTransport_Recv E serverAddr serverPort bytesToRecv s =
     (let (bytesReceived, bytes, sin_addr, sin_port, w) =
            FreeRTOS_recvfrom (udp E) (udp_socket s) bytesToRecv (net_world s);
          r = (if bytesReceived > 0 \<and> (FreeRTOS_ntohl (udp E) sin_addr \<noteq> serverAddr \<or>
                                       FreeRTOS_ntohs (udp E) sin_port \<noteq> serverPort)
               then 0
               else if bytesReceived = - EWOULDBLOCK then 0
               else bytesReceived)
      in ((r, bytes), s\<lparr>net_world := w\<rparr>))"

definition get_time ::
  "('w, 'n, 'c, 'b) sntp_env \<Rightarrow> ('w, 'n) sntp_state \<Rightarrow> SntpTimestamp" where
  "get_time E s = sntpClient_GetTime (sntp_constants E) (xTaskGetTickCount (udp E) (net_world s)) (systemClock s)"

definition set_time ::
  "('w, 'n, 'c, 'b) sntp_env \<Rightarrow> SntpTimestamp \<Rightarrow> u64 \<Rightarrow> ('w, 'n) sntp_state \<Rightarrow> ('w, 'n) sntp_state option" where
  "set_time E ts off s =
     map_option (\<lambda>c. s\<lparr>systemClock := c\<rparr>)
       (sntpClient_SetTime (sntp_constants E) (xTaskGetTickCount (udp E) (net_world s)) ts off (systemClock s))"

text \<open>A call of coreSNTP against the client's functions.\<close>

primrec run_library ::
  "'c core_sntp \<Rightarrow> ('w, 'n, 'c, 'b) sntp_env \<Rightarrow> ('w, 'n) sntp_state \<Rightarrow>
   (SntpStatus \<times> 'c \<times> ('w, 'n) sntp_state) option" where
  "run_library (Finished r c) E s = Some (r, c, s)"
| "run_library (Resolve_dns srv k) E s = (case resolveDns E srv s of (a, s) \<Rightarrow> run_library (k a) E s)"
| "run_library (Get_time k) E s = run_library (k (get_time E s)) E s"
| "run_library (Set_time ts off k) E s = (case set_time E ts off s of None \<Rightarrow> None | Some s \<Rightarrow> run_library k E s)"
| "run_library (Send_to a p bs k) E s = (case UdpTransport_Send E a p bs s of (n, s) \<Rightarrow> run_library (k n) E s)"
| "run_library (Recv_from a p m k) E s = (case UdpTransport_Recv E a p m s of (x, s) \<Rightarrow> run_library (k x) E s)"
| "run_library (Generate_auth srv buf k) E s =
     (case addClientAuthCode (sntp_conf E) (auth_constants E) (crypto E) srv buf (length buf) (authContext s) (token_state s) of
        None \<Rightarrow> None
      | Some (r, sz, buf, ctx, t) \<Rightarrow>
          run_library (k (r, sz, buf)) E (s\<lparr>authContext := ctx, token_state := t\<rparr>))"
| "run_library (Validate_auth srv resp n k) E s =
     (case validateServerAuth (auth_constants E) (crypto E) srv resp n (authContext s) (token_state s) of
        None \<Rightarrow> None
      | Some (r, t) \<Rightarrow> run_library (k r) E (s\<lparr>token_state := t\<rparr>))"

section \<open>Sockets\<close>

definition random_number ::
  "('w, 'n, 'c, 'b) sntp_env \<Rightarrow> ('w, 'n) sntp_state \<Rightarrow> (u32 \<times> ('w, 'n) sntp_state) option" where
  "random_number E s =
     map_option (\<lambda>(r, t). (r, s\<lparr>token_state := t\<rparr>)) (generateRandomNumber (crypto E) (token_state s))"

text \<open>The success flag; the socket stays open when it cannot be bound.\<close>

definition createUdpSocket ::
  "('w, 'n, 'c, 'b) sntp_env \<Rightarrow> ('w, 'n) sntp_state \<Rightarrow> (bool \<times> ('w, 'n) sntp_state) option" where
  "createUdpSocket E s =
     (case FreeRTOS_socket (udp E) (net_world s) of
        (None, w) \<Rightarrow> Some (False, s\<lparr>net_world := w\<rparr>)
      | (Some sock, w) \<Rightarrow> do {
          (r, s) \<leftarrow> random_number E
            (s\<lparr>udp_socket := sock, net_world := w, openSockets := Suc (openSockets s)\<rparr>);
          let (bound, w) = FreeRTOS_bind (udp E) sock (FreeRTOS_htons (udp E) (ucast (r mod 0xFFFF))) (net_world s);
          Some (bound = 0, s\<lparr>net_world := w\<rparr>)
        })"

definition closeUdpSocket ::
  "('w, 'n, 'c, 'b) sntp_env \<Rightarrow> ('w, 'n) sntp_state \<Rightarrow> ('w, 'n) sntp_state" where
  "closeUdpSocket E s =
     s\<lparr>net_world := FreeRTOS_closesocket (udp E) (udp_socket s) (net_world s), openSockets := openSockets s - 1\<rparr>"

section \<open>Backoff\<close>

text \<open>
  The result flag, the backoff context and the poll period, which is unchanged when no attempts are
  left. The library takes the base delay as an unsigned number of 16 bits.
\<close>

definition calculateBackoffForNextPoll ::
  "('w, 'n, 'c, 'b) sntp_env \<Rightarrow> 'b \<Rightarrow> bool \<Rightarrow> u32 \<Rightarrow> ('w, 'n) sntp_state \<Rightarrow>
   (bool \<times> 'b \<times> u32 \<times> ('w, 'n) sntp_state) option" where
  "calculateBackoffForNextPoll E b shouldInitializeContext minPollPeriod s = do {
     let b = (if shouldInitializeContext
              then BackoffAlgorithm_InitializeParams E (ucast minPollPeriod)
                     SNTP_DEMO_POLL_MAX_BACKOFF_DELAY_SEC SNTP_DEMO_MAX_SERVER_BACKOFF_RETRIES
              else b);
     (r, s) \<leftarrow> random_number E s;
     let (status, newPollPeriod, b) = BackoffAlgorithm_GetNextBackoff E b r;
     Some (status = BackoffAlgorithmSuccess, b,
           if status = BackoffAlgorithmRetriesExhausted then minPollPeriod else ucast newPollPeriod, s)
   }"

section \<open>The task\<close>

text \<open>
  The loop that fills the array of servers. Its index has 8 bits: with more than 255 servers it never
  reaches their number, and the result is \<open>None\<close>.
\<close>

partial_function (option) fill_servers ::
  "u16 \<Rightarrow> string list \<Rightarrow> u8 \<Rightarrow> SntpServerInfo list \<Rightarrow> SntpServerInfo list option" where
  "fill_servers p names index arr =
     (if unat index < length names
      then fill_servers p names (index + 1) (arr[unat index := \<lparr>pServerName = names ! unat index, port = p\<rparr>])
      else Some arr)"

definition initializeSntpClient ::
  "('w, 'n, 'c, 'b) sntp_env \<Rightarrow> string list \<Rightarrow> nat \<Rightarrow> 'c option option" where
  "initializeSntpClient E names contextBufferSize =
     (if \<not> servers_allocated E then Some None
      else map_option (\<lambda>pServers. Some (Sntp_Init E pServers democonfigSERVER_RESPONSE_TIMEOUT_MS contextBufferSize))
             (fill_servers (SNTP_DEFAULT_SERVER_PORT E) names 0
                (replicate (length names) \<lparr>pServerName = [], port = 0\<rparr>)))"

partial_function (option) receive_loop ::
  "('w, 'n, 'c, 'b) sntp_env \<Rightarrow> 'c \<Rightarrow> ('w, 'n) sntp_state \<Rightarrow> (SntpStatus \<times> 'c \<times> ('w, 'n) sntp_state) option"
where
  "receive_loop E c s = do {
     (status, c, s) \<leftarrow> run_library (Sntp_ReceiveTimeResponse E c democonfigRECEIVE_SERVER_RESPONSE_BLOCK_TIME_MS) E s;
     if status = SntpNoResponseReceived then receive_loop E c s else Some (status, c, s)
   }"

text \<open>The request and the wait for its response on a socket of its own.\<close>

definition poll_server ::
  "('w, 'n, 'c, 'b) sntp_env \<Rightarrow> 'c \<Rightarrow> ('w, 'n) sntp_state \<Rightarrow> (SntpStatus \<times> 'c \<times> ('w, 'n) sntp_state) option"
where
  "poll_server E c s = do {
     (socketStatus, s) \<leftarrow> createUdpSocket E s;
     if \<not> socketStatus then None
     else do {
       (r, s) \<leftarrow> random_number E s;
       (status, c, s) \<leftarrow> run_library (Sntp_SendTimeRequest E c r democonfigSEND_TIME_REQUEST_TIMEOUT_MS) E s;
       if status \<noteq> SntpSuccess then None
       else do {
         (status, c, s) \<leftarrow> receive_loop E c s;
         Some (status, c, closeUdpSocket E s)
       }
     }
   }"

definition set_poll_period :: "u32 \<Rightarrow> ('w, 'n) sntp_state \<Rightarrow> ('w, 'n) sntp_state" where
  "set_poll_period p s = s\<lparr>systemClock := (systemClock s)\<lparr>pollPeriod := p\<rparr>\<rparr>"

definition poll_delay ::
  "('w, 'n, 'c, 'b) sntp_env \<Rightarrow> ('w, 'n) sntp_state \<Rightarrow> ('w, 'n) sntp_state" where
  "poll_delay E s =
     s\<lparr>net_world := vTaskDelay (udp E) (pdMS_TO_TICKS (pollPeriod (systemClock s) * 1000)) (net_world s)\<rparr>"

text \<open>One round of the loop of the task.\<close>

definition sntp_iteration ::
  "('w, 'n, 'c, 'b) sntp_env \<Rightarrow> ('w, 'n, 'c, 'b) sntp_task \<Rightarrow> ('w, 'n, 'c, 'b) sntp_task option" where
  "sntp_iteration E t = do {
     (status, c, s) \<leftarrow> poll_server E (clientContext t) (sntp t);
     if status = SntpRejectedResponse \<and> length (pTimeServers (sntp_conf E)) = 1
     then do {
       (backoffStatus, b, p, s) \<leftarrow>
         calculateBackoffForNextPoll E (backoffContext t) (\<not> backoffModeFlag t) (pollPeriod (systemClock s)) s;
       if backoffStatus
       then Some (t\<lparr>sntp := poll_delay E (set_poll_period p s), clientContext := c, backoffContext := b,
                    backoffModeFlag := True\<rparr>)
       else None
     }
     else Some (t\<lparr>sntp := poll_delay E s, clientContext := c, backoffModeFlag := False\<rparr>)
   }"

text \<open>The first \<open>n\<close> rounds of the loop, which never ends.\<close>

primrec sntp_rounds ::
  "nat \<Rightarrow> ('w, 'n, 'c, 'b) sntp_env \<Rightarrow> ('w, 'n, 'c, 'b) sntp_task \<Rightarrow> ('w, 'n, 'c, 'b) sntp_task option" where
  "sntp_rounds 0 E t = Some t"
| "sntp_rounds (Suc n) E t = do { t \<leftarrow> sntp_iteration E t; sntp_rounds n E t }"

text \<open>The state in which the loop starts; \<open>b\<close> is the uninitialised backoff context.\<close>

definition sntp_start ::
  "('w, 'n, 'c, 'b) sntp_env \<Rightarrow> 'b \<Rightarrow> ('w, 'n) sntp_state \<Rightarrow> ('w, 'n, 'c, 'b) sntp_task option" where
  "sntp_start E b s = (let C = sntp_conf E in
     if length (pTimeServers C) \<noteq> length (pAESCMACAuthKeys C) \<or> length (pTimeServers C) \<noteq> length (pAuthKeyIds C)
        \<or> pTimeServers C = []
     then None
     else do {
       clock \<leftarrow> initializeSystemClock democonfigSYSTEM_START_YEAR (mutex_created E) (systemClock s);
       ctx \<leftarrow> populateAuthContextForServer C (pTimeServers C ! 0) (authContext s);
       c \<leftarrow> initializeSntpClient E (pTimeServers C) (SNTP_PACKET_AUTHENTICATED_MODE_SIZE (auth_constants E));
       c \<leftarrow> c;
       Some \<lparr>sntp = set_poll_period democonfigSNTP_CLIENT_POLLING_INTERVAL_SECONDS
                (s\<lparr>systemClock := clock, authContext := ctx\<rparr>),
             clientContext = c, backoffContext = b, backoffModeFlag = False\<rparr>
     })"

definition sntpTask ::
  "nat \<Rightarrow> ('w, 'n, 'c, 'b) sntp_env \<Rightarrow> 'b \<Rightarrow> ('w, 'n) sntp_state \<Rightarrow> ('w, 'n, 'c, 'b) sntp_task option" where
  "sntpTask rounds E b s = do { t \<leftarrow> sntp_start E b s; sntp_rounds rounds E t }"

section \<open>What a call of the library can change\<close>

lemma random_number_frame:
  "random_number E s = Some (r, s') \<Longrightarrow> \<exists>t. s' = s\<lparr>token_state := t\<rparr>"
  by (auto simp: random_number_def)

text \<open>The authentication context describes a configured server, with that server's key.\<close>

definition auth_context_ok :: "sntp_config \<Rightarrow> SntpAuthContext \<Rightarrow> bool" where
  "auth_context_ok C ctx \<longleftrightarrow> length (pAuthKey ctx) = 16 \<and>
     (case server_index C (pServer ctx) of
        None \<Rightarrow> False
      | Some i \<Rightarrow> key_of_server C i = Some (keyId ctx, pAuthKey ctx))"

lemma key_of_server_length: "key_of_server C i = Some (k, key) \<Longrightarrow> length key = 16"
  by (auto simp: key_of_server_def strlen_def length_hex_key split: option.splits if_splits)

lemma populate_context_ok:
  "populateAuthContextForServer C srv ctx = Some ctx' \<Longrightarrow> length (pAuthKey ctx) = 16 \<Longrightarrow>
   auth_context_ok C ctx' \<and> pServer ctx' = srv"
  by (auto simp: populate_eq auth_context_ok_def key_of_server_length split: option.splits)

lemma add_context_ok:
  "addClientAuthCode C A P srv buf n ctx s = Some (r, sz, buf', ctx', s') \<Longrightarrow> auth_context_ok C ctx \<Longrightarrow>
   auth_context_ok C ctx' \<and> same_server srv (pServer ctx')"
  by (auto simp: addClientAuthCode_def auth_context_ok_def [of C ctx] bind_eq_Some_conv same_server_iff
      split: if_splits dest!: populate_context_ok) (auto simp: auth_context_ok_def)

text \<open>
  A call leaves the socket alone, changes the clock only by synchronisations and keeps the
  authentication context a configured one.
\<close>

definition library_step :: "('w, 'n, 'c, 'b) sntp_env \<Rightarrow> ('w, 'n) sntp_state \<Rightarrow> ('w, 'n) sntp_state \<Rightarrow> bool" where
  "library_step E s s' \<longleftrightarrow>
     udp_socket s' = udp_socket s \<and> openSockets s' = openSockets s \<and>
     (auth_context_ok (sntp_conf E) (authContext s) \<longrightarrow> auth_context_ok (sntp_conf E) (authContext s')) \<and>
     (\<exists>syncs. synchronise (sntp_constants E) syncs (systemClock s) = Some (systemClock s'))"

lemma synchronise_append:
  "synchronise L xs c = Some c1 \<Longrightarrow> synchronise L ys c1 = r \<Longrightarrow> synchronise L (xs @ ys) c = r"
  by (induction L xs c rule: synchronise.induct) (auto split: option.splits)

lemma library_step_refl: "systemClock s' = systemClock s \<Longrightarrow> authContext s' = authContext s \<Longrightarrow>
  udp_socket s' = udp_socket s \<Longrightarrow> openSockets s' = openSockets s \<Longrightarrow> library_step E s s'"
  by (auto simp: library_step_def intro: exI [of _ "[]"])

lemma library_step_trans:
  assumes "library_step E s1 s2" and "library_step E s2 s3"
  shows "library_step E s1 s3"
proof -
  obtain xs ys where "synchronise (sntp_constants E) xs (systemClock s1) = Some (systemClock s2)"
    "synchronise (sntp_constants E) ys (systemClock s2) = Some (systemClock s3)"
    using assms by (auto simp: library_step_def)
  then have "synchronise (sntp_constants E) (xs @ ys) (systemClock s1) = Some (systemClock s3)"
    by (rule synchronise_append)
  then show ?thesis using assms unfolding library_step_def by metis
qed

lemma set_time_step: "set_time E ts off s = Some s' \<Longrightarrow> library_step E s s'"
  by (auto simp: set_time_def library_step_def
      intro!: exI [of _ "[(xTaskGetTickCount (udp E) (net_world s), ts, off)]"])

lemma run_library_step:
  "run_library lib E s = Some (r, c, s') \<Longrightarrow> library_step E s s'"
proof (induction lib arbitrary: s)
  case (Finished r c)
  then show ?case by (auto intro: library_step_refl)
next
  case (Resolve_dns srv k)
  obtain a s1 where 1: "resolveDns E srv s = (a, s1)" by fastforce
  then have "library_step E s s1"
    by (auto simp: resolveDns_def intro!: library_step_refl split: prod.splits)
  moreover have "library_step E s1 s'" using Resolve_dns.IH [OF rangeI] Resolve_dns.prems 1 by simp
  ultimately show ?case by (rule library_step_trans)
next
  case (Get_time k)
  show ?case using Get_time.IH [OF rangeI] Get_time.prems by simp
next
  case (Set_time ts off lib)
  then obtain s1 where 1: "set_time E ts off s = Some s1" and 2: "run_library lib E s1 = Some (r, c, s')"
    by (auto split: option.splits)
  show ?case using library_step_trans [OF set_time_step [OF 1] Set_time.IH [OF 2]] .
next
  case (Send_to a p bs k)
  obtain x s1 where 1: "UdpTransport_Send E a p bs s = (x, s1)" by fastforce
  then have "library_step E s s1"
    by (auto simp: UdpTransport_Send_def intro!: library_step_refl split: prod.splits)
  moreover have "library_step E s1 s'" using Send_to.IH [OF rangeI] Send_to.prems 1 by simp
  ultimately show ?case by (rule library_step_trans)
next
  case (Recv_from a p m k)
  obtain x s1 where 1: "UdpTransport_Recv E a p m s = (x, s1)" by fastforce
  then have "library_step E s s1"
    by (auto simp: UdpTransport_Recv_def Let_def intro!: library_step_refl split: prod.splits)
  moreover have "library_step E s1 s'" using Recv_from.IH [OF rangeI] Recv_from.prems 1 by simp
  ultimately show ?case by (rule library_step_trans)
next
  case (Generate_auth srv buf k)
  then obtain x sz b ctx t where
    1: "addClientAuthCode (sntp_conf E) (auth_constants E) (crypto E) srv buf (length buf) (authContext s) (token_state s)
        = Some (x, sz, b, ctx, t)"
    and 2: "run_library (k (x, sz, b)) E (s\<lparr>authContext := ctx, token_state := t\<rparr>) = Some (r, c, s')"
    by (auto split: option.splits)
  have "library_step E s (s\<lparr>authContext := ctx, token_state := t\<rparr>)"
    using add_context_ok [OF 1] by (auto simp: library_step_def intro: exI [of _ "[]"])
  then show ?case using Generate_auth.IH [OF _ 2] by (auto intro: library_step_trans)
next
  case (Validate_auth srv resp n k)
  then obtain x t where 2: "run_library (k x) E (s\<lparr>token_state := t\<rparr>) = Some (r, c, s')"
    by (auto split: option.splits)
  have "library_step E s (s\<lparr>token_state := t\<rparr>)" by (rule library_step_refl) simp_all
  then show ?case using Validate_auth.IH [OF _ 2] by (auto intro: library_step_trans)
qed

section \<open>The receive loop\<close>

lemma receive_loop_result:
  "receive_loop E c s = Some y \<Longrightarrow> library_step E s (snd (snd y)) \<and> fst y \<noteq> SntpNoResponseReceived"
proof (induction E c s y rule: receive_loop.raw_induct [rotated, consumes 1])
  case (1 f E c s y)
  note IH = "1"(1)
  from "1"(2) obtain st c1 s1 where
    1: "run_library (Sntp_ReceiveTimeResponse E c democonfigRECEIVE_SERVER_RESPONSE_BLOCK_TIME_MS) E s = Some (st, c1, s1)"
    and 2: "if st = SntpNoResponseReceived then f E c1 s1 = Some y else y = (st, c1, s1)"
    by (auto simp: bind_eq_Some_conv split: if_splits)
  show ?case
  proof (cases "st = SntpNoResponseReceived")
    case True
    with 2 IH [of E c1 s1 y] show ?thesis
      using run_library_step [OF 1] by (auto intro: library_step_trans)
  next
    case False
    with 2 show ?thesis using run_library_step [OF 1] by simp
  qed
qed

lemma receive_loop_step:
  "receive_loop E c s = Some (r, c', s') \<Longrightarrow> library_step E s s' \<and> r \<noteq> SntpNoResponseReceived"
  using receive_loop_result by fastforce

text \<open>The library's context and the state after \<open>n\<close> attempts without a response.\<close>

fun silent_attempts ::
  "nat \<Rightarrow> ('w, 'n, 'c, 'b) sntp_env \<Rightarrow> 'c \<Rightarrow> ('w, 'n) sntp_state \<Rightarrow> ('c \<times> ('w, 'n) sntp_state) option" where
  "silent_attempts 0 E c s = Some (c, s)"
| "silent_attempts (Suc n) E c s =
     (case run_library (Sntp_ReceiveTimeResponse E c democonfigRECEIVE_SERVER_RESPONSE_BLOCK_TIME_MS) E s of
        Some (SntpNoResponseReceived, c, s) \<Rightarrow> silent_attempts n E c s
      | _ \<Rightarrow> None)"

text \<open>The loop that waits for a response ends as soon as the library reports anything else than that
  none has arrived, after any number of attempts, with that status.\<close>

theorem receive_loop_ends:
  assumes "silent_attempts n E c s = Some (c1, s1)"
    and "run_library (Sntp_ReceiveTimeResponse E c1 democonfigRECEIVE_SERVER_RESPONSE_BLOCK_TIME_MS) E s1 = Some (r, c2, s2)"
    and "r \<noteq> SntpNoResponseReceived"
  shows "receive_loop E c s = Some (r, c2, s2)"
  using assms
proof (induction n arbitrary: c s)
  case 0
  then show ?case by (subst receive_loop.simps) simp
next
  case (Suc n)
  then obtain c' s' where
    "run_library (Sntp_ReceiveTimeResponse E c democonfigRECEIVE_SERVER_RESPONSE_BLOCK_TIME_MS) E s
       = Some (SntpNoResponseReceived, c', s')"
    and "silent_attempts n E c' s' = Some (c1, s1)"
    by (auto split: option.splits prod.splits SntpStatus.splits)
  with Suc show ?case by (subst receive_loop.simps) simp
qed

section \<open>Rounds of the task\<close>

lemma createUdpSocket_frame:
  "createUdpSocket E s = Some (True, s') \<Longrightarrow>
   systemClock s' = systemClock s \<and> authContext s' = authContext s \<and> openSockets s' = Suc (openSockets s)"
  by (cases "FreeRTOS_socket (udp E) (net_world s)"; cases "fst (FreeRTOS_socket (udp E) (net_world s))")
    (auto simp: createUdpSocket_def bind_eq_Some_conv split_beta Let_def dest!: random_number_frame)

lemma poll_server_step:
  assumes "poll_server E c s = Some (r, c', s')"
  shows "openSockets s' = openSockets s \<and>
    (auth_context_ok (sntp_conf E) (authContext s) \<longrightarrow> auth_context_ok (sntp_conf E) (authContext s')) \<and>
    (\<exists>syncs. synchronise (sntp_constants E) syncs (systemClock s) = Some (systemClock s'))"
proof -
  obtain s1 n s2 c2 s3 s4 where
    1: "createUdpSocket E s = Some (True, s1)"
    and 2: "random_number E s1 = Some (n, s2)"
    and 3: "run_library (Sntp_SendTimeRequest E c n democonfigSEND_TIME_REQUEST_TIMEOUT_MS) E s2 = Some (SntpSuccess, c2, s3)"
    and 4: "receive_loop E c2 s3 = Some (r, c', s4)" and s': "s' = closeUdpSocket E s4"
    using assms by (auto simp: poll_server_def bind_eq_Some_conv split: if_splits)
  have "library_step E s2 s4"
    using library_step_trans [OF run_library_step [OF 3]] receive_loop_step [OF 4] by blast
  moreover obtain t where "s2 = s1\<lparr>token_state := t\<rparr>" using random_number_frame [OF 2] by blast
  ultimately show ?thesis
    using createUdpSocket_frame [OF 1] by (auto simp: library_step_def s' closeUdpSocket_def)
qed

lemma backoff_frame:
  "calculateBackoffForNextPoll E b i m s = Some (ok, b', p, s') \<Longrightarrow>
   (\<exists>t. s' = s\<lparr>token_state := t\<rparr>) \<and> (ok \<longrightarrow> p \<le> 0xFFFF)"
proof -
  have u: "(ucast (x :: u16) :: u32) \<le> 0xFFFF" for x
    using unsigned_less [of x, where ?'a = nat] by (simp add: word_le_nat_alt)
  show "calculateBackoffForNextPoll E b i m s = Some (ok, b', p, s') \<Longrightarrow>
   (\<exists>t. s' = s\<lparr>token_state := t\<rparr>) \<and> (ok \<longrightarrow> p \<le> 0xFFFF)"
    by (auto simp: calculateBackoffForNextPoll_def bind_eq_Some_conv split_beta Let_def u dest!: random_number_frame)
qed

text \<open>What a round keeps: the count of open sockets, the authentication context, and the clock except
  for synchronisations and, after a rejection by a single server, the poll period.\<close>

lemma iteration_step:
  assumes "sntp_iteration E t = Some t'"
  shows "openSockets (sntp t') = openSockets (sntp t) \<and>
    (auth_context_ok (sntp_conf E) (authContext (sntp t)) \<longrightarrow> auth_context_ok (sntp_conf E) (authContext (sntp t'))) \<and>
    (\<exists>syncs c. synchronise (sntp_constants E) syncs (systemClock (sntp t)) = Some c \<and>
       (systemClock (sntp t') = c \<and> \<not> backoffModeFlag t' \<or>
        (\<exists>p \<le> 0xFFFF. systemClock (sntp t') = c\<lparr>pollPeriod := p\<rparr>) \<and> backoffModeFlag t' \<and>
          length (pTimeServers (sntp_conf E)) = 1))"
proof -
  obtain st c s where 1: "poll_server E (clientContext t) (sntp t) = Some (st, c, s)"
    using assms by (auto simp: sntp_iteration_def bind_eq_Some_conv)
  note p = poll_server_step [OF 1]
  show ?thesis
  proof (cases "st = SntpRejectedResponse \<and> length (pTimeServers (sntp_conf E)) = 1")
    case True
    then obtain b q s2 where
      2: "calculateBackoffForNextPoll E (backoffContext t) (\<not> backoffModeFlag t) (pollPeriod (systemClock s)) s = Some (True, b, q, s2)"
      and t': "t' = t\<lparr>sntp := poll_delay E (set_poll_period q s2), clientContext := c, backoffContext := b, backoffModeFlag := True\<rparr>"
      using assms 1 by (auto simp: sntp_iteration_def bind_eq_Some_conv split: if_splits)
    obtain tok where "s2 = s\<lparr>token_state := tok\<rparr>" and "q \<le> 0xFFFF" using backoff_frame [OF 2] by blast
    then show ?thesis using p True
      by (auto simp: t' poll_delay_def set_poll_period_def)
  next
    case False
    then have "t' = t\<lparr>sntp := poll_delay E s, clientContext := c, backoffModeFlag := False\<rparr>"
      using assms 1 by (auto simp: sntp_iteration_def)
    then show ?thesis using p by (auto simp: poll_delay_def)
  qed
qed

text \<open>A library and a network for the witnesses: every second attempt brings the time 1700000100.\<close>

definition sample_udp :: "u32 udp_net" where
  "sample_udp = \<lparr>xTaskGetTickCount = (\<lambda>n. n), FreeRTOS_htonl = id, FreeRTOS_ntohl = id, FreeRTOS_htons = id,
     FreeRTOS_ntohs = id, FreeRTOS_gethostbyname = (\<lambda>_ n. (0x0A000001, n)),
     FreeRTOS_socket = (\<lambda>n. (Some 3, n)), FreeRTOS_bind = (\<lambda>_ _ n. (0, n)),
     FreeRTOS_sendto = (\<lambda>_ bs _ _ n. (int (length bs), n)),
     FreeRTOS_recvfrom = (\<lambda>_ _ n. (48, replicate 48 1, 0x0A000001, 123, n)),
     FreeRTOS_closesocket = (\<lambda>_ n. n), vTaskDelay = (\<lambda>d n. n + d)\<rparr>"

fun sample_receive :: "nat \<Rightarrow> nat core_sntp" where
  "sample_receive 0 = Finished SntpNoResponseReceived 1"
| "sample_receive (Suc n) = Set_time \<lparr>seconds = 3908988900, fractions = 0\<rparr> 160 (Finished SntpSuccess 0)"

definition sample_sntp_env :: "sntp_config \<Rightarrow> (u8 list, u32, nat, unit) sntp_env" where
  "sample_sntp_env C = \<lparr>sntp_constants = sample_sntp_lib, sntp_conf = C, auth_constants = sample_auth_params,
     crypto = sample_pkcs11, udp = sample_udp, Sntp_Init = (\<lambda>_ _ _. 0),
     Sntp_SendTimeRequest = (\<lambda>c _ _. Finished SntpSuccess c), Sntp_ReceiveTimeResponse = (\<lambda>c _. sample_receive c),
     BackoffAlgorithm_InitializeParams = (\<lambda>_ _ _. ()),
     BackoffAlgorithm_GetNextBackoff = (\<lambda>_ _. (BackoffAlgorithmSuccess, 40, ())),
     SNTP_DEFAULT_SERVER_PORT = 123, mutex_created = True, servers_allocated = True\<rparr>"

definition sample_sntp_state :: "(u8 list, u32) sntp_state" where
  "sample_sntp_state = \<lparr>systemClock = zero_clock, authContext = blank_context, udp_socket = 0,
     token_state = sample_token, net_world = 0, openSockets = 0\<rparr>"

abbreviation sample_env2 :: "(u8 list, u32, nat, unit) sntp_env" where
  "sample_env2 \<equiv> sample_sntp_env sample_sntp_config"

theorem receive_loop_ends_witness:
  "receive_loop sample_env2 0 (sample_sntp_state\<lparr>systemClock := synced_clock\<rparr>) =
    run_library (sample_receive 1) sample_env2 (sample_sntp_state\<lparr>systemClock := synced_clock\<rparr>)"
  using receive_loop_ends [of 1 sample_env2 0 "sample_sntp_state\<lparr>systemClock := synced_clock\<rparr>" 1
    "sample_sntp_state\<lparr>systemClock := synced_clock\<rparr>"]
  by (simp add: sample_sntp_env_def set_time_def sntpClient_SetTime_def sample_sntp_lib_def synced_clock_def
      zero_clock_def sample_sntp_state_def sample_udp_def Let_def)

section \<open>Starting\<close>

lemma fill_servers_bound: "fill_servers p names index arr = Some y \<Longrightarrow> length names \<le> 255"
proof (induction p names index arr y rule: fill_servers.raw_induct [rotated, consumes 1])
  case (1 f p names index arr y)
  have "unat index \<le> 255" using unsigned_less [of index, where ?'a = nat] by simp
  with 1 show ?case by (auto split: if_splits)
qed

lemma fill_servers_from:
  assumes "k \<le> length names" and "length names \<le> 255" and "length arr = length names"
    and "\<forall>i<k. arr ! i = \<lparr>pServerName = names ! i, port = p\<rparr>"
  shows "fill_servers p names (of_nat k) arr = Some (map (\<lambda>n. \<lparr>pServerName = n, port = p\<rparr>) names)"
  using assms
proof (induction "length names - k" arbitrary: k arr)
  case 0
  then have "k = length names" by simp
  moreover have "unat (of_nat k :: u8) = k" using 0 by (simp add: unsigned_of_nat take_bit_nat_eq_self)
  moreover have "arr = map (\<lambda>n. \<lparr>pServerName = n, port = p\<rparr>) names"
    using 0 \<open>k = length names\<close> by (intro nth_equalityI) auto
  ultimately show ?case by (subst fill_servers.simps) simp
next
  case (Suc d)
  have u: "unat (of_nat k :: u8) = k" using Suc by (simp add: unsigned_of_nat take_bit_nat_eq_self)
  have "fill_servers p names (of_nat (Suc k)) (arr[k := \<lparr>pServerName = names ! k, port = p\<rparr>]) =
      Some (map (\<lambda>n. \<lparr>pServerName = n, port = p\<rparr>) names)"
    using Suc by (intro Suc.hyps(1)) (auto simp: nth_list_update less_Suc_eq)
  moreover have "k < length names" using Suc by simp
  ultimately show ?case by (subst fill_servers.simps) (simp add: u add.commute)
qed

text \<open>The array of servers is filled with every configured name and the default port exactly when
  there are at most 255 of them; with more, the loop over its 8-bit index never ends.\<close>

theorem fill_servers_terminates:
  "fill_servers p names 0 (replicate (length names) a) =
    (if length names \<le> 255 then Some (map (\<lambda>n. \<lparr>pServerName = n, port = p\<rparr>) names) else None)"
proof (cases "length names \<le> 255")
  case True
  then show ?thesis using fill_servers_from [of 0 names "replicate (length names) a" p] by simp
next
  case False
  then show ?thesis using fill_servers_bound [of p names 0 "replicate (length names) a"]
    by (cases "fill_servers p names 0 (replicate (length names) a)") auto
qed

lemma sntp_start_cases:
  assumes "sntp_start E b s = Some t" and "length (pAuthKey (authContext s)) = 16"
  shows "auth_context_ok (sntp_conf E) (authContext (sntp t)) \<and> openSockets (sntp t) = openSockets s \<and>
    pollPeriod (systemClock (sntp t)) = 16 \<and> \<not> firstTimeSyncDone (systemClock (sntp t)) \<and>
    slewRate (systemClock (sntp t)) = slewRate (systemClock s)"
  using assms
  by (auto simp: sntp_start_def Let_def bind_eq_Some_conv set_poll_period_def initializeSystemClock_def
      democonfigSNTP_CLIENT_POLLING_INTERVAL_SECONDS_def split: if_splits option.splits dest!: populate_context_ok)

section \<open>Invariants of the task\<close>

lemma synchronise_poll: "synchronise L syncs c = Some c' \<Longrightarrow> pollPeriod c' = pollPeriod c"
  by (induction L syncs c rule: synchronise.induct) (auto split: option.splits dest!: SetTime_Some')

definition sntp_inv :: "('w, 'n, 'c, 'b) sntp_env \<Rightarrow> nat \<Rightarrow> ('w, 'n, 'c, 'b) sntp_task \<Rightarrow> bool" where
  "sntp_inv E n t \<longleftrightarrow> auth_context_ok (sntp_conf E) (authContext (sntp t)) \<and> openSockets (sntp t) = n \<and>
     pollPeriod (systemClock (sntp t)) \<le> 0xFFFF"

lemma iteration_inv: "sntp_iteration E t = Some t' \<Longrightarrow> sntp_inv E n t \<Longrightarrow> sntp_inv E n t'"
  using iteration_step [of E t t'] by (auto simp: sntp_inv_def dest: synchronise_poll)

lemma rounds_inv: "sntp_rounds k E t = Some t' \<Longrightarrow> sntp_inv E n t \<Longrightarrow> sntp_inv E n t'"
  by (induction k arbitrary: t) (auto simp: bind_eq_Some_conv dest: iteration_inv)

lemma ms_of_seconds: "(p :: u32) \<le> 0xFFFF \<Longrightarrow> unat (p * 1000) = unat p * 1000"
  by (simp add: unat_word_ariths word_le_nat_alt)

text \<open>C12: After any number of rounds, whatever coreSNTP, the servers and the network do, the
  authentication context holds a configured server with that server's key, every socket opened has
  been closed, and the delay between polls is the poll period without wrap-around.\<close>

theorem sntp_task_invariant:
  assumes "sntpTask k E b s = Some t" and "length (pAuthKey (authContext s)) = 16"
  shows "auth_context_ok (sntp_conf E) (authContext (sntp t)) \<and> openSockets (sntp t) = openSockets s \<and>
    unat (pdMS_TO_TICKS (pollPeriod (systemClock (sntp t)) * 1000)) = unat (pollPeriod (systemClock (sntp t))) * 1000"
proof -
  obtain t0 where 0: "sntp_start E b s = Some t0" and k: "sntp_rounds k E t0 = Some t"
    using assms(1) by (auto simp: sntpTask_def bind_eq_Some_conv)
  have "sntp_inv E (openSockets s) t0"
    using sntp_start_cases [OF 0 assms(2)] by (simp add: sntp_inv_def)
  from rounds_inv [OF k this] show ?thesis by (simp add: sntp_inv_def ms_of_seconds pdMS_TO_TICKS_def)
qed

section \<open>The clock as an abstract machine\<close>

text \<open>C13: The task refines the abstract clock: with more than one server configured, the system clock after
  any number of rounds is the one before them, changed by a sequence of synchronisations and by
  nothing else.\<close>

theorem clock_refines_synchronisations:
  assumes "sntp_rounds k E t0 = Some t" and "length (pTimeServers (sntp_conf E)) \<noteq> 1"
  shows "\<exists>syncs. synchronise (sntp_constants E) syncs (systemClock (sntp t0)) = Some (systemClock (sntp t))"
  using assms(1)
proof (induction k arbitrary: t0)
  case 0
  then show ?case by (auto intro: exI [of _ "[]"])
next
  case (Suc k)
  then obtain t1 where 1: "sntp_iteration E t0 = Some t1" and 2: "sntp_rounds k E t1 = Some t"
    by (auto simp: bind_eq_Some_conv)
  obtain xs where "synchronise (sntp_constants E) xs (systemClock (sntp t0)) = Some (systemClock (sntp t1))"
    using iteration_step [OF 1] assms(2) by auto
  moreover obtain ys where "synchronise (sntp_constants E) ys (systemClock (sntp t1)) = Some (systemClock (sntp t))"
    using Suc.IH [OF 2] by blast
  ultimately show ?case using synchronise_append by blast
qed

lemma iteration_slew:
  "sntp_iteration E t = Some t' \<Longrightarrow> slewRate (systemClock (sntp t)) \<noteq> 0 \<Longrightarrow>
   slewRate (systemClock (sntp t')) = slewRate (systemClock (sntp t))"
  using iteration_step [of E t t'] by (auto dest!: synchronise_slew)

text \<open>Once a slew rate is set, no later round changes it, however the clock drifts from then on.\<close>

theorem slew_never_revised:
  assumes "sntp_rounds k E t = Some t'" and "slewRate (systemClock (sntp t)) \<noteq> 0"
  shows "slewRate (systemClock (sntp t')) = slewRate (systemClock (sntp t))"
  using assms
proof (induction k arbitrary: t)
  case (Suc k)
  then obtain t1 where "sntp_iteration E t = Some t1" and "sntp_rounds k E t1 = Some t'"
    by (auto simp: bind_eq_Some_conv)
  with Suc iteration_slew [of E t t1] show ?case by simp
qed simp

text \<open>After a rejection has lengthened the poll period, rounds without a rejection keep the longer
  period: the configured one is never restored.\<close>

theorem backed_off_period_persists:
  assumes "sntp_iteration E t = Some t'" and "\<not> backoffModeFlag t'"
  shows "pollPeriod (systemClock (sntp t')) = pollPeriod (systemClock (sntp t))"
  using iteration_step [OF assms(1)] assms(2) by (auto dest: synchronise_poll)

section \<open>The source of a response\<close>

text \<open>Bytes are handed to coreSNTP only when they come from the address and the port it asked for; a
  datagram of any other source counts as no data, and so does a receive that would block.\<close>

theorem receive_filters_source:
  assumes "FreeRTOS_recvfrom (udp E) (udp_socket s) m (net_world s) = (n, bytes, a, p, w)"
  shows "fst (fst (UdpTransport_Recv E addr prt m s)) =
    (if n \<le> 0 then (if n = - 11 then 0 else n)
     else if FreeRTOS_ntohl (udp E) a = addr \<and> FreeRTOS_ntohs (udp E) p = prt then n else 0)"
  using assms by (simp add: UdpTransport_Recv_def EWOULDBLOCK_def)

theorem receive_filters_source_witness:
  "fst (fst (UdpTransport_Recv sample_env2 0x0A000002 123 48 sample_sntp_state)) = 0"
  using receive_filters_source [where E = sample_env2 and s = sample_sntp_state and m = 48 and n = 48 and
      a = "0x0A000001" and p = 123 and addr = "0x0A000002" and prt = 123]
  by (simp add: sample_sntp_env_def sample_udp_def sample_sntp_state_def)

lemma sntp_env_simps:
  "sntp_constants (sample_sntp_env C) = sample_sntp_lib" "sntp_conf (sample_sntp_env C) = C"
  "auth_constants (sample_sntp_env C) = sample_auth_params" "crypto (sample_sntp_env C) = sample_pkcs11"
  "udp (sample_sntp_env C) = sample_udp" "Sntp_Init (sample_sntp_env C) ss d m = 0"
  "Sntp_SendTimeRequest (sample_sntp_env C) c r d = Finished SntpSuccess c"
  "Sntp_ReceiveTimeResponse (sample_sntp_env C) c d = sample_receive c"
  "BackoffAlgorithm_GetNextBackoff (sample_sntp_env C) () r = (BackoffAlgorithmSuccess, 40, ())"
  "SNTP_DEFAULT_SERVER_PORT (sample_sntp_env C) = 123" "mutex_created (sample_sntp_env C)"
  "servers_allocated (sample_sntp_env C)"
  by (simp_all add: sample_sntp_env_def)

lemma sample_udp_simps:
  "xTaskGetTickCount sample_udp n = n" "FreeRTOS_socket sample_udp n = (Some 3, n)"
  "FreeRTOS_bind sample_udp k pt n = (0, n)" "FreeRTOS_closesocket sample_udp k n = n"
  "vTaskDelay sample_udp d n = n + d" "FreeRTOS_htons sample_udp = id"
  by (simp_all add: sample_udp_def)

definition sample_st :: "SystemClock \<Rightarrow> u32 \<Rightarrow> nat \<Rightarrow> nat \<Rightarrow> (u8 list, u32) sntp_state" where
  "sample_st c n k m = \<lparr>systemClock = c, authContext = blank_context, udp_socket = k,
     token_state = sample_token, net_world = n, openSockets = m\<rparr>"

lemma sample_st_simps:
  "systemClock (sample_st c n k m) = c" "openSockets (sample_st c n k m) = m"
  "closeUdpSocket (sample_sntp_env C) (sample_st c n k (Suc m)) = sample_st c n k m"
  "poll_delay (sample_sntp_env C) (sample_st c n k m) = sample_st c (n + pollPeriod c * 1000) k m"
  by (simp_all add: sample_st_def closeUdpSocket_def poll_delay_def pdMS_TO_TICKS_def sntp_env_simps sample_udp_simps)

lemma sample_random: "random_number (sample_sntp_env C) (sample_st c n k m) = Some (4, sample_st c n k m)"
  by (simp add: random_number_def generateRandomNumber_def sample_simps sntp_env_simps sample_st_def Let_def)

lemma sample_create: "createUdpSocket (sample_sntp_env C) (sample_st c n k 0) = Some (True, sample_st c n 3 1)"
  using sample_random [of C c n 3 1]
  by (simp add: createUdpSocket_def sample_st_def sntp_env_simps sample_udp_simps)

lemma sample_receive_loop:
  "receive_loop (sample_sntp_env C) 0 (sample_st c n k m) =
     map_option (\<lambda>c. (SntpSuccess, 0, sample_st c n k m))
       (sntpClient_SetTime sample_sntp_lib n \<lparr>seconds = 3908988900, fractions = 0\<rparr> 160 c)"
  by (subst receive_loop.simps, subst receive_loop.simps)
    (simp add: sntp_env_simps sample_udp_simps set_time_def sample_st_def split: option.splits)

text \<open>One poll of the sample network: a synchronisation at the tick \<open>n\<close>.\<close>

lemma sample_poll:
  "poll_server (sample_sntp_env C) 0 (sample_st c n k 0) =
     map_option (\<lambda>c. (SntpSuccess, 0, sample_st c n 3 0))
       (sntpClient_SetTime sample_sntp_lib n \<lparr>seconds = 3908988900, fractions = 0\<rparr> 160 c)"
  by (cases "sntpClient_SetTime sample_sntp_lib n \<lparr>seconds = 3908988900, fractions = 0\<rparr> 160 c")
    (simp_all add: poll_server_def sample_create sample_random sntp_env_simps sample_receive_loop sample_st_simps)

definition sample_task :: "SystemClock \<Rightarrow> u32 \<Rightarrow> (u8 list, u32, nat, unit) sntp_task" where
  "sample_task c n = \<lparr>sntp = sample_st c n 3 0, clientContext = 0, backoffContext = (), backoffModeFlag = False\<rparr>"

lemma sample_iteration:
  "sntp_iteration (sample_sntp_env C) (sample_task c n) =
     map_option (\<lambda>c. sample_task c (n + pollPeriod c * 1000))
       (sntpClient_SetTime sample_sntp_lib n \<lparr>seconds = 3908988900, fractions = 0\<rparr> 160 c)"
  by (cases "sntpClient_SetTime sample_sntp_lib n \<lparr>seconds = 3908988900, fractions = 0\<rparr> 160 c")
    (simp_all add: sntp_iteration_def sample_task_def sample_poll sample_st_simps)

text \<open>Two rounds: the second measures a drift of 10 ms per second.\<close>

definition started_clock :: SystemClock where
  "started_clock = zero_clock\<lparr>baseTime := \<lparr>secs = 1704067200, msecs = 0\<rparr>, pollPeriod := 16\<rparr>"

definition clock_after :: "u32 \<Rightarrow> u64 \<Rightarrow> SystemClock" where
  "clock_after n slew = \<lparr>baseTime = \<lparr>secs = 1700000100, msecs = 0\<rparr>, lastSyncTickCount = n, pollPeriod = 16,
     slewRate = slew, firstTimeSyncDone = True\<rparr>"

lemma sample_rounds:
  "sntp_iteration (sample_sntp_env C) (sample_task started_clock 0) = Some (sample_task (clock_after 0 0) 16000)"
  "sntp_iteration (sample_sntp_env C) (sample_task (clock_after 0 0) 16000) = Some (sample_task (clock_after 16000 10) 32000)"
  "sntp_iteration (sample_sntp_env C) (sample_task (clock_after 16000 10) 32000) = Some (sample_task (clock_after 32000 10) 48000)"
  by (simp_all add: sample_iteration sntpClient_SetTime_def sample_sntp_lib_def started_clock_def clock_after_def
      zero_clock_def trunc_div_def)

lemma sample_config_simps:
  "pTimeServers sample_sntp_config = [''a.org'', ''b.org'']" "length (pAESCMACAuthKeys sample_sntp_config) = 2"
  "length (pAuthKeyIds sample_sntp_config) = 2" "length (pAuthKey blank_context) = 16"
  "systemClock (sntp (sample_task c n)) = c"
  by (simp_all add: sample_sntp_config_def blank_context_def sample_task_def sample_st_def)

theorem clock_refines_synchronisations_witness:
  "\<exists>syncs. synchronise sample_sntp_lib syncs started_clock = Some (clock_after 16000 10)"
  using clock_refines_synchronisations [of 2 sample_env2 "sample_task started_clock 0" "sample_task (clock_after 16000 10) 32000"]
  by (simp add: sample_rounds numeral_2_eq_2 sntp_env_simps sample_config_simps)

theorem slew_never_revised_witness:
  "slewRate (systemClock (sntp (the (sntp_rounds 1 sample_env2 (sample_task (clock_after 16000 10) 32000))))) = 10"
  using slew_never_revised [of 1 sample_env2 "sample_task (clock_after 16000 10) 32000" "sample_task (clock_after 32000 10) 48000"]
  by (simp add: sample_rounds) (simp add: sample_config_simps clock_after_def)

theorem backed_off_period_persists_witness:
  "pollPeriod (systemClock (sntp (the (sntp_iteration sample_env2 (sample_task started_clock 0))))) = 16"
  using backed_off_period_persists [OF sample_rounds(1) [of sample_sntp_config]]
  by (simp add: sample_rounds) (simp add: sample_task_def sample_st_def started_clock_def)

lemma sample_start:
  "sntp_start sample_env2 () (sample_sntp_state) =
     Some ((sample_task started_clock 0)\<lparr>sntp := (sample_st started_clock 0 0 0)\<lparr>authContext := blank_context\<lparr>pServer := ''a.org'', keyId := - 1\<rparr>\<rparr>\<rparr>)"
proof -
  have "populateAuthContextForServer sample_sntp_config ''a.org'' blank_context =
      Some (blank_context\<lparr>pServer := ''a.org'', keyId := - 1\<rparr>)"
  proof -
    have "key_of_server sample_sntp_config 0 = Some (- 1, replicate 16 0)"
      by (simp add: key_of_server_def sample_sntp_config_def)
    then show ?thesis by (simp add: populate_eq sample_server_index sample_config_simps) (simp add: blank_context_def)
  qed
  moreover have "initializeSystemClock democonfigSYSTEM_START_YEAR True zero_clock =
      Some (zero_clock\<lparr>baseTime := \<lparr>secs = 1704067200, msecs = 0\<rparr>\<rparr>)"
    by (simp add: initializeSystemClock_def translateYearToUnixSeconds_def democonfigSYSTEM_START_YEAR_def zero_clock_def)
  ultimately show ?thesis
    using fill_servers_terminates [of 123 "[''a.org'', ''b.org'']"]
    by (simp add: sntp_start_def sntp_env_simps sample_config_simps initializeSntpClient_def
        sample_sntp_state_def sample_task_def sample_st_def started_clock_def set_poll_period_def zero_clock_def
        democonfigSNTP_CLIENT_POLLING_INTERVAL_SECONDS_def)
qed

theorem sntp_task_invariant_witness:
  "openSockets (sntp (the (sntpTask 0 sample_env2 () sample_sntp_state))) = 0"
  using sntp_task_invariant [of 0 sample_env2 "()" sample_sntp_state]
  by (simp add: sntpTask_def sample_start) (simp add: sample_sntp_state_def blank_context_def)

end
