(* ===== verification/Provisioning.thy ===== *)
theory Provisioning
  imports Pkcs11
begin

text \<open>
  Device provisioning, \<^verbatim>\<open>dev_mode_key_provisioning.c\<close>: credentials are imported into the PKCS\#11
  module, old objects destroyed, a key pair generated when none is present, and the public key is
  printed. Each function gives its result code, its output arguments and the state; \<open>None\<close> is
  undefined behaviour, such as the use of a function list that was not obtained or a read through a
  null pointer. Mbed TLS, the PSA services and the module are parameters.
\<close>

section \<open>Interfaces\<close>

text \<open>
  What Mbed TLS gives for a parsed key: its type; for an elliptic curve the 32 bytes of the private
  value (\<open>None\<close>: the call fails), whether the curve is P-256, and the encoded point; for RSA the
  arrays filled by the two groups of export calls.
\<close>

datatype pk_type = MBEDTLS_PK_RSA | MBEDTLS_PK_ECKEY | MBEDTLS_PK_ECKEY_DH | MBEDTLS_PK_ECDSA | MBEDTLS_PK_other

record rsa_raw =
  modulus :: "u8 list"
  prime1 :: "u8 list"
  prime2 :: "u8 list"
  rsa_d :: "u8 list"
  rsa_e :: "u8 list"

record pk_context =
  pk_kind :: pk_type
  ec_private :: "u8 list option"
  ec_is_p256 :: bool
  ec_point :: "u8 list"
  rsa_export :: "rsa_raw option"
  rsa_crt :: "(u8 list \<times> u8 list \<times> u8 list) option"

text \<open>
  \<open>OID_P256\<close> is \<open>"\x06\x08" MBEDTLS_OID_EC_GRP_SECP256R1\<close>, \<open>pkcs11DER_ENCODED_OID_P256\<close> its twin.
  \<open>behind_modulus\<close> are the 256 bytes of the stack behind the array \<open>xModulus\<close>.
\<close>

record 'w prov_lib =
  pkcs :: "'w pkcs11"
  xInitializePkcs11Token :: "'w \<Rightarrow> CK_RV \<times> 'w"
  C_DestroyObject :: "handle \<Rightarrow> handle \<Rightarrow> 'w \<Rightarrow> CK_RV \<times> 'w"
  xFindObjectWithLabelAndClass :: "handle \<Rightarrow> string \<Rightarrow> CK_OBJECT_CLASS \<Rightarrow> 'w \<Rightarrow> CK_RV \<times> handle option \<times> 'w"
  C_GenerateKeyPair :: "handle \<Rightarrow> CK_ATTRIBUTE list \<Rightarrow> CK_ATTRIBUTE list \<Rightarrow> 'w \<Rightarrow>
    CK_RV \<times> (handle option \<times> handle option) \<times> 'w"
  get_key_type :: "handle \<Rightarrow> handle \<Rightarrow> 'w \<Rightarrow> CK_RV \<times> CK_KEY_TYPE option \<times> 'w"
  get_ec_point_length :: "handle \<Rightarrow> handle \<Rightarrow> 'w \<Rightarrow> CK_RV \<times> nat \<times> 'w"
  get_ec_point :: "handle \<Rightarrow> handle \<Rightarrow> nat \<Rightarrow> 'w \<Rightarrow> CK_RV \<times> u8 list \<times> 'w"
  xGetSlotList :: "'w \<Rightarrow> CK_RV \<times> u32 list \<times> 'w"
  C_GetTokenInfo :: "u32 \<Rightarrow> 'w \<Rightarrow> CK_RV \<times> string option \<times> 'w"
  heap_has :: "nat \<Rightarrow> 'w \<Rightarrow> bool"

record mbed_lib =
  drbg_seeds :: bool
  pk_parse_key :: "string \<Rightarrow> pk_context option"
  pk_parse_public_key :: "string \<Rightarrow> pk_context option"
  convert_pem_to_der :: "string \<Rightarrow> nat \<Rightarrow> u8 list option"
  OID_P256 :: "u8 list"
  pkcs11DER_ENCODED_OID_P256 :: "u8 list"
  pkcs11RSA_PUBLIC_EXPONENT :: "u8 list"
  behind_modulus :: "u8 list"

record 'w prov_env =
  lib :: "'w prov_lib"
  mbed :: mbed_lib
  import_supported :: bool

type_synonym 'w outcome = "(CK_RV \<times> handle option \<times> 'w token_state) option"

section \<open>Configuration\<close>

definition pkcs11configLABEL_DEVICE_PRIVATE_KEY_FOR_TLS :: string where
  "pkcs11configLABEL_DEVICE_PRIVATE_KEY_FOR_TLS = ''Device Priv TLS Key''"

definition pkcs11configLABEL_DEVICE_PUBLIC_KEY_FOR_TLS :: string where
  "pkcs11configLABEL_DEVICE_PUBLIC_KEY_FOR_TLS = ''Device Pub TLS Key''"

definition pkcs11configLABEL_DEVICE_CERTIFICATE_FOR_TLS :: string where
  "pkcs11configLABEL_DEVICE_CERTIFICATE_FOR_TLS = ''Device Cert''"

definition pkcs11configLABEL_CODE_VERIFICATION_KEY :: string where
  "pkcs11configLABEL_CODE_VERIFICATION_KEY = ''Code Verify Key''"

definition pkcs11configLABEL_JITP_CERTIFICATE :: string where
  "pkcs11configLABEL_JITP_CERTIFICATE = ''JITP Cert''"

definition MODULUS_LENGTH :: nat where "MODULUS_LENGTH = 256"
definition E_LENGTH :: nat where "E_LENGTH = 3"
definition D_LENGTH :: nat where "D_LENGTH = 256"
definition PRIME_1_LENGTH :: nat where "PRIME_1_LENGTH = 128"
definition PRIME_2_LENGTH :: nat where "PRIME_2_LENGTH = 128"
definition EXPONENT_1_LENGTH :: nat where "EXPONENT_1_LENGTH = 128"
definition EXPONENT_2_LENGTH :: nat where "EXPONENT_2_LENGTH = 128"
definition COEFFICIENT_LENGTH :: nat where "COEFFICIENT_LENGTH = 128"
definition EC_D_LENGTH :: nat where "EC_D_LENGTH = 32"

definition sizeof_RsaParams :: nat where
  "sizeof_RsaParams = MODULUS_LENGTH + E_LENGTH + D_LENGTH + PRIME_1_LENGTH + PRIME_2_LENGTH +
     EXPONENT_1_LENGTH + EXPONENT_2_LENGTH + COEFFICIENT_LENGTH + 8"

section \<open>Calls\<close>

definition get_list :: "'w prov_env \<Rightarrow> 'w token_state \<Rightarrow> CK_RV \<times> bool \<times> 'w token_state" where
  "get_list E s = on_token2 (C_GetFunctionList (pkcs (lib E))) s"

definition create :: "'w prov_env \<Rightarrow> handle \<Rightarrow> CK_ATTRIBUTE list \<Rightarrow> 'w token_state \<Rightarrow> CK_RV \<times> handle option \<times> 'w token_state" where
  "create E x T s = on_token2 (C_CreateObject (pkcs (lib E)) x T) s"

definition find_object ::
  "'w prov_env \<Rightarrow> handle \<Rightarrow> string \<Rightarrow> CK_OBJECT_CLASS \<Rightarrow> 'w token_state \<Rightarrow> CK_RV \<times> handle option \<times> 'w token_state" where
  "find_object E x l c s = on_token2 (xFindObjectWithLabelAndClass (lib E) x l c) s"

definition pvPortMalloc :: "'w prov_env \<Rightarrow> nat \<Rightarrow> 'w token_state \<Rightarrow> bool \<times> 'w token_state" where
  "pvPortMalloc E n s =
     (if heap_has (lib E) n (token s) then (True, s\<lparr>liveBlocks := Suc (liveBlocks s)\<rparr>) else (False, s))"

section \<open>Private keys\<close>

definition ec_private_template :: "mbed_lib \<Rightarrow> string \<Rightarrow> u8 list \<Rightarrow> CK_ATTRIBUTE list" where
  "ec_private_template M label d =
     [CKA_CLASS CKO_PRIVATE_KEY, CKA_KEY_TYPE CKK_EC, CKA_LABEL (c_str label), CKA_TOKEN True,
      CKA_SIGN True, CKA_EC_PARAMS (take 10 (OID_P256 M)), CKA_VALUE (take EC_D_LENGTH d)]"

definition prvProvisionPrivateECKey ::
  "'w prov_env \<Rightarrow> handle \<Rightarrow> string \<Rightarrow> pk_context \<Rightarrow> 'w token_state \<Rightarrow> 'w outcome" where
  "prvProvisionPrivateECKey E xSession pucLabel pk s =
     (let (r, listed, s) = get_list E s;
          (allocated, s) = pvPortMalloc E EC_D_LENGTH s;
          r = (if allocated then r else CKR_HOST_MEMORY);
          r = (if r = CKR_OK \<and> ec_private pk = None then CKR_ATTRIBUTE_VALUE_INVALID else r);
          r = (if r = CKR_OK \<and> \<not> ec_is_p256 pk then CKR_CURVE_NOT_SUPPORTED else r)
      in if r = CKR_OK
         then do {
           (r, h, s) \<leftarrow> checked listed
             (create E xSession (ec_private_template (mbed E) pucLabel (case ec_private pk of Some d \<Rightarrow> d | None \<Rightarrow> [])) s);
           Some (r, h, free_if allocated s)
         }
         else Some (r, None, free_if allocated s))"

text \<open>The fields are passed from their second byte on, behind the padding.\<close>

definition field :: "nat \<Rightarrow> u8 list \<Rightarrow> u8 list" where
  "field n arr = take n (drop 1 arr)"

definition rsa_private_template :: "string \<Rightarrow> rsa_raw \<Rightarrow> u8 list \<times> u8 list \<times> u8 list \<Rightarrow> CK_ATTRIBUTE list" where
  "rsa_private_template label k crt =
     [CKA_CLASS CKO_PRIVATE_KEY, CKA_KEY_TYPE CKK_RSA, CKA_LABEL (c_str label), CKA_TOKEN True, CKA_SIGN True,
      CKA_MODULUS (field MODULUS_LENGTH (modulus k)), CKA_PRIVATE_EXPONENT (field D_LENGTH (rsa_d k)),
      CKA_PUBLIC_EXPONENT (field E_LENGTH (rsa_e k)), CKA_PRIME_1 (field PRIME_1_LENGTH (prime1 k)),
      CKA_PRIME_2 (field PRIME_2_LENGTH (prime2 k)), CKA_EXPONENT_1 (field EXPONENT_1_LENGTH (fst crt)),
      CKA_EXPONENT_2 (field EXPONENT_2_LENGTH (fst (snd crt))),
      CKA_COEFFICIENT (field COEFFICIENT_LENGTH (snd (snd crt)))]"

definition prvProvisionPrivateRSAKey ::
  "'w prov_env \<Rightarrow> handle \<Rightarrow> string \<Rightarrow> pk_context \<Rightarrow> 'w token_state \<Rightarrow> 'w outcome" where
  "prvProvisionPrivateRSAKey E xSession pucLabel pk s =
     (let (r, listed, s) = get_list E s;
          (allocated, s) = pvPortMalloc E sizeof_RsaParams s;
          r = (if allocated then r else CKR_HOST_MEMORY)
      in case (r, rsa_export pk, rsa_crt pk) of
           (CKR_OK, Some k, Some crt) \<Rightarrow> do {
             (r, h, s) \<leftarrow> checked listed (create E xSession (rsa_private_template pucLabel k crt) s);
             Some (r, h, free_if allocated s)
           }
         | (CKR_OK, _, _) \<Rightarrow> Some (CKR_ATTRIBUTE_VALUE_INVALID, None, free_if allocated s)
         | _ \<Rightarrow> Some (r, None, free_if allocated s))"

definition xProvisionPrivateKey ::
  "'w prov_env \<Rightarrow> handle \<Rightarrow> string \<Rightarrow> string \<Rightarrow> 'w token_state \<Rightarrow> 'w outcome" where
  "xProvisionPrivateKey E xSession pucPrivateKey pucLabel s =
     (case (if drbg_seeds (mbed E) then pk_parse_key (mbed E) pucPrivateKey else None) of
        None \<Rightarrow> Some (CKR_ARGUMENTS_BAD, None, s)
      | Some pk \<Rightarrow>
          (if pk_kind pk = MBEDTLS_PK_RSA then prvProvisionPrivateRSAKey E xSession pucLabel pk s
           else if pk_kind pk \<in> {MBEDTLS_PK_ECDSA, MBEDTLS_PK_ECKEY, MBEDTLS_PK_ECKEY_DH}
           then prvProvisionPrivateECKey E xSession pucLabel pk s
           else Some (CKR_ARGUMENTS_BAD, None, s)))"

section \<open>Public keys\<close>

text \<open>
  \<open>&xModulus + 1\<close> is the address behind the whole array, so the attribute has the bytes found there.
\<close>

definition rsa_public_template :: "mbed_lib \<Rightarrow> CK_KEY_TYPE \<Rightarrow> string \<Rightarrow> CK_ATTRIBUTE list" where
  "rsa_public_template M kt label =
     [CKA_CLASS CKO_PUBLIC_KEY, CKA_KEY_TYPE kt, CKA_TOKEN True, CKA_MODULUS (take MODULUS_LENGTH (behind_modulus M)),
      CKA_VERIFY True, CKA_PUBLIC_EXPONENT [1, 0, 1], CKA_LABEL (c_str label)]"

definition ec_public_template :: "mbed_lib \<Rightarrow> CK_KEY_TYPE \<Rightarrow> u8 list \<Rightarrow> string \<Rightarrow> CK_ATTRIBUTE list" where
  "ec_public_template M kt point label =
     [CKA_CLASS CKO_PUBLIC_KEY, CKA_KEY_TYPE kt, CKA_TOKEN True, CKA_VERIFY True,
      CKA_EC_PARAMS (pkcs11DER_ENCODED_OID_P256 M), CKA_EC_POINT ([4, of_nat (length point)] @ point),
      CKA_LABEL (c_str label)]"

definition xProvisionPublicKey ::
  "'w prov_env \<Rightarrow> handle \<Rightarrow> string \<Rightarrow> CK_KEY_TYPE \<Rightarrow> string \<Rightarrow> 'w token_state \<Rightarrow> 'w outcome" where
  "xProvisionPublicKey E xSession pucKey xPublicKeyType label s =
     (let (r, listed, s) = get_list E s;
          M = mbed E;
          private = (if drbg_seeds M then pk_parse_key M pucKey else None);
          pk = (if private = None then pk_parse_public_key M pucKey else private)
      in case (pk, r, xPublicKeyType) of
           (Some k, CKR_OK, CKK_RSA) \<Rightarrow> checked listed (create E xSession (rsa_public_template M CKK_RSA label) s)
         | (Some k, CKR_OK, CKK_EC) \<Rightarrow> checked listed (create E xSession (ec_public_template M CKK_EC (ec_point k) label) s)
         | _ \<Rightarrow> Some (CKR_ATTRIBUTE_VALUE_INVALID, None, s))"

section \<open>Key pairs\<close>

definition rsa_public_pair_template :: "mbed_lib \<Rightarrow> string \<Rightarrow> CK_ATTRIBUTE list" where
  "rsa_public_pair_template M label =
     [CKA_ENCRYPT True, CKA_VERIFY True, CKA_MODULUS_BITS 2048, CKA_PUBLIC_EXPONENT (pkcs11RSA_PUBLIC_EXPONENT M),
      CKA_LABEL (c_str label)]"

definition rsa_private_pair_template :: "string \<Rightarrow> CK_ATTRIBUTE list" where
  "rsa_private_pair_template label =
     [CKA_TOKEN True, CKA_PRIVATE True, CKA_DECRYPT True, CKA_SIGN True, CKA_LABEL (c_str label)]"

definition ec_public_pair_template :: "mbed_lib \<Rightarrow> string \<Rightarrow> CK_ATTRIBUTE list" where
  "ec_public_pair_template M label =
     [CKA_KEY_TYPE CKK_EC, CKA_VERIFY True, CKA_EC_PARAMS (pkcs11DER_ENCODED_OID_P256 M), CKA_LABEL (c_str label)]"

definition ec_private_pair_template :: "string \<Rightarrow> CK_ATTRIBUTE list" where
  "ec_private_pair_template label =
     [CKA_KEY_TYPE CKK_EC, CKA_TOKEN True, CKA_PRIVATE True, CKA_SIGN True, CKA_LABEL (c_str label)]"

type_synonym 'w pair_outcome = "(CK_RV \<times> handle option \<times> handle option \<times> 'w token_state) option"

text \<open>The handles of the private and of the public key. The result of \<open>C_GetFunctionList\<close> is not checked.\<close>

definition xProvisionGenerateKeyPairRSA ::
  "'w prov_env \<Rightarrow> handle \<Rightarrow> string \<Rightarrow> string \<Rightarrow> 'w token_state \<Rightarrow> 'w pair_outcome" where
  "xProvisionGenerateKeyPairRSA E xSession privateLabel publicLabel s =
     (let (_, listed, s) = get_list E s
      in checked listed
           (let (r, (pub, priv), s) = on_token2 (C_GenerateKeyPair (lib E) xSession
                  (rsa_public_pair_template (mbed E) publicLabel) (rsa_private_pair_template privateLabel)) s
            in (r, priv, pub, s)))"

definition xProvisionGenerateKeyPairEC ::
  "'w prov_env \<Rightarrow> handle \<Rightarrow> string \<Rightarrow> string \<Rightarrow> 'w token_state \<Rightarrow> 'w pair_outcome" where
  "xProvisionGenerateKeyPairEC E xSession privateLabel publicLabel s =
     (let (_, listed, s) = get_list E s
      in checked listed
           (let (r, (pub, priv), s) = on_token2 (C_GenerateKeyPair (lib E) xSession
                  (ec_public_pair_template (mbed E) publicLabel) (ec_private_pair_template privateLabel)) s
            in (r, priv, pub, s)))"

section \<open>Destroying objects\<close>

text \<open>
  The inner loop, from the result of the last search and the handle found; it goes on as long as the
  module finds objects to destroy. The handle is left alone when a search does not write it.
\<close>

partial_function (option) destroy_loop ::
  "'w prov_env \<Rightarrow> bool \<times> handle \<times> string \<times> CK_OBJECT_CLASS \<Rightarrow> CK_RV \<times> handle \<times> 'w token_state \<Rightarrow>
   (CK_RV \<times> handle \<times> 'w token_state) option" where
  "destroy_loop E q t =
     (case (q, t) of ((listed, x, label, c), (r, h, s)) \<Rightarrow>
        (if r = CKR_OK \<and> h \<noteq> CK_INVALID_HANDLE
         then if listed
              then (let (r, s) = on_token (C_DestroyObject (lib E) x h) s
                    in if r = CKR_OK
                       then (let (r, found, s) = find_object E x label c s
                             in destroy_loop E q (r, case found of Some y \<Rightarrow> y | None \<Rightarrow> h, s))
                       else Some (r, h, s))
              else None
         else Some (r, h, s)))"

fun destroy_all ::
  "'w prov_env \<Rightarrow> bool \<Rightarrow> handle \<Rightarrow> (string \<times> CK_OBJECT_CLASS) list \<Rightarrow> CK_RV \<Rightarrow> handle \<Rightarrow> 'w token_state \<Rightarrow>
   (CK_RV \<times> 'w token_state) option" where
  "destroy_all E listed x [] r h s = Some (r, s)"
| "destroy_all E listed x ((label, c) # rest) _ h s =
     (let (r, found, s) = find_object E x (c_str label) c s
      in do {
        (r, h, s) \<leftarrow> destroy_loop E (listed, x, c_str label, c) (r, case found of Some y \<Rightarrow> y | None \<Rightarrow> h, s);
        if r = CKR_FUNCTION_NOT_SUPPORTED then Some (r, s) else destroy_all E listed x rest r h s
      })"

text \<open>\<open>h0\<close> is the content of the uninitialised handle.\<close>

definition xDestroyProvidedObjects ::
  "'w prov_env \<Rightarrow> handle \<Rightarrow> handle \<Rightarrow> (string \<times> CK_OBJECT_CLASS) list \<Rightarrow> 'w token_state \<Rightarrow>
   (CK_RV \<times> 'w token_state) option" where
  "xDestroyProvidedObjects E h0 xSession objs s =
     (let (r, listed, s) = get_list E s in destroy_all E listed xSession objs r h0 s)"

definition default_objects :: "(string \<times> CK_OBJECT_CLASS) list" where
  "default_objects =
     [(pkcs11configLABEL_DEVICE_CERTIFICATE_FOR_TLS, CKO_CERTIFICATE),
      (pkcs11configLABEL_CODE_VERIFICATION_KEY, CKO_PUBLIC_KEY),
      (pkcs11configLABEL_DEVICE_PRIVATE_KEY_FOR_TLS, CKO_PRIVATE_KEY),
      (pkcs11configLABEL_DEVICE_PUBLIC_KEY_FOR_TLS, CKO_PUBLIC_KEY)]"

definition xDestroyDefaultCryptoObjects ::
  "'w prov_env \<Rightarrow> handle \<Rightarrow> handle \<Rightarrow> 'w token_state \<Rightarrow> (CK_RV \<times> 'w token_state) option" where
  "xDestroyDefaultCryptoObjects E h0 xSession s = xDestroyProvidedObjects E h0 xSession default_objects s"

section \<open>Certificates\<close>

definition certificate_template :: "u8 list \<Rightarrow> string \<Rightarrow> CK_ATTRIBUTE list" where
  "certificate_template der label =
     [CKA_CLASS CKO_CERTIFICATE, CKA_SUBJECT ''TestSubject'', CKA_CERTIFICATE_TYPE_X_509, CKA_VALUE der,
      CKA_LABEL (c_str label), CKA_TOKEN True]"

text \<open>The old certificate is destroyed, as far as possible, before the new one is created.\<close>

definition write_certificate ::
  "'w prov_env \<Rightarrow> handle \<Rightarrow> handle \<Rightarrow> bool \<Rightarrow> u8 list \<Rightarrow> string \<Rightarrow> 'w token_state \<Rightarrow> 'w outcome" where
  "write_certificate E h0 x listed der label s = do {
     (_, s) \<leftarrow> xDestroyProvidedObjects E h0 x [(label, CKO_CERTIFICATE)] s;
     checked listed (create E x (certificate_template der label) s)
   }"

text \<open>A null certificate is \<open>None\<close>; a PEM text starts with a dash.\<close>

definition xProvisionCertificate ::
  "'w prov_env \<Rightarrow> handle \<Rightarrow> handle \<Rightarrow> string option \<Rightarrow> nat \<Rightarrow> string \<Rightarrow> 'w token_state \<Rightarrow> 'w outcome" where
  "xProvisionCertificate E h0 xSession pucCertificate xCertificateLength pucLabel s =
     (let (r, listed, s) = get_list E s
      in case pucCertificate of
           None \<Rightarrow> Some (CKR_ATTRIBUTE_VALUE_INVALID, None, s)
         | Some pem \<Rightarrow>
             (if c_hd pem \<noteq> CHR ''-'' then Some (CKR_ATTRIBUTE_VALUE_INVALID, None, s)
              else if r \<noteq> CKR_OK then Some (r, None, s)
              else
                (let (allocated, s) = pvPortMalloc E xCertificateLength s
                 in if \<not> allocated then Some (CKR_HOST_MEMORY, None, s)
                    else case convert_pem_to_der (mbed E) pem xCertificateLength of
                           None \<Rightarrow> Some (CKR_ARGUMENTS_BAD, None, vPortFree s)
                         | Some der \<Rightarrow> do {
                             (r, h, s) \<leftarrow> write_certificate E h0 xSession listed der pucLabel s;
                             Some (r, h, vPortFree s)
                           })))"

section \<open>The provisioned state\<close>

record ProvisionedState =
  xPrivateKey :: handle
  xClientCertificate :: handle
  xPublicKey :: handle
  pucDerPublicKey :: "u8 list option"
  ulDerPublicKeyLength :: nat
  pcIdentifier :: "string option"

definition zero_state :: ProvisionedState where
  "zero_state = \<lparr>xPrivateKey = 0, xClientCertificate = 0, xPublicKey = 0, pucDerPublicKey = None,
     ulDerPublicKeyLength = 0, pcIdentifier = None\<rparr>"

definition pucEcP256AsnAndOid :: "u8 list" where
  "pucEcP256AsnAndOid =
     [0x30, 0x59, 0x30, 0x13, 0x06, 0x07, 0x2a, 0x86, 0x48, 0xce, 0x3d, 0x02, 0x01, 0x06, 0x08, 0x2a,
      0x86, 0x48, 0xce, 0x3d, 0x03, 0x01, 0x07, 0x03, 0x42, 0x00]"

text \<open>
  The result, the buffer and the length, which keep their old values where they are not written. The
  point is read to 24 bytes behind the start of the buffer and the 26 bytes of the header are copied
  over the first two of its bytes; a copy that leaves the buffer is undefined.
\<close>

definition prvExportPublicKey ::
  "'w prov_env \<Rightarrow> handle \<Rightarrow> handle \<Rightarrow> u8 list option \<Rightarrow> nat \<Rightarrow> 'w token_state \<Rightarrow>
   (CK_RV \<times> u8 list option \<times> nat \<times> 'w token_state) option" where
  "prvExportPublicKey E xSession key buf0 len0 s =
     (let finish = (\<lambda>r b n s. Some (r, if r = CKR_OK then b else None, n, free_if (b \<noteq> None \<and> r \<noteq> CKR_OK) s));
          (r, listed, s) = get_list E s
      in if r \<noteq> CKR_OK then finish r buf0 len0 s
         else if \<not> listed then None
         else
           (let (r, kt, s) = on_token2 (get_key_type (lib E) xSession key) s
            in if r \<noteq> CKR_OK \<or> kt \<noteq> Some CKK_EC then finish r buf0 len0 s
               else
                 (let (r, n, s) = on_token2 (get_ec_point_length (lib E) xSession key) s
                  in if r \<noteq> CKR_OK then finish r buf0 len0 s
                     else
                       (let len = n + 24; (allocated, s) = pvPortMalloc E len s
                        in if \<not> allocated then finish CKR_HOST_MEMORY None len s
                           else
                             (let (r, point, s) = on_token2 (get_ec_point (lib E) xSession key n) s;
                                  b = buf_write (replicate len 0) 24 point
                              in if r \<noteq> CKR_OK then finish r (Some b) len s
                                 else if buf_fits b 0 (length pucEcP256AsnAndOid)
                                 then finish r (Some (buf_write b 0 pucEcP256AsnAndOid)) len s
                                 else None)))))"

text \<open>The prefix of a token label up to its first blank; a label holds 32 characters.\<close>

definition token_identifier :: "string \<Rightarrow> string" where
  "token_identifier label = takeWhile (\<lambda>c. c \<noteq> CHR '' '') (take 32 label)"

definition search ::
  "'w prov_env \<Rightarrow> handle \<Rightarrow> string \<Rightarrow> CK_OBJECT_CLASS \<Rightarrow> handle \<Rightarrow> 'w token_state \<Rightarrow> CK_RV \<times> handle \<times> 'w token_state" where
  "search E x l c old s =
     (let (r, found, s) = find_object E x l c s in (r, case found of Some y \<Rightarrow> y | None \<Rightarrow> old, s))"

text \<open>The keys and the certificate found; each search runs only when everything before succeeded.\<close>

definition find_keys ::
  "'w prov_env \<Rightarrow> handle \<Rightarrow> ProvisionedState \<Rightarrow> 'w token_state \<Rightarrow>
   (CK_RV \<times> ProvisionedState \<times> 'w token_state) option" where
  "find_keys E x p s =
     (let (r, h, s) = search E x pkcs11configLABEL_DEVICE_PRIVATE_KEY_FOR_TLS CKO_PRIVATE_KEY (xPrivateKey p) s;
          p = p\<lparr>xPrivateKey := h\<rparr>;
          (r, h, s) = (if r = CKR_OK \<and> xPrivateKey p \<noteq> CK_INVALID_HANDLE
                       then search E x pkcs11configLABEL_DEVICE_PUBLIC_KEY_FOR_TLS CKO_PUBLIC_KEY (xPublicKey p) s
                       else (r, xPublicKey p, s));
          p = p\<lparr>xPublicKey := h\<rparr>
      in do {
        (r, b, n, s) \<leftarrow> (if r = CKR_OK \<and> xPublicKey p \<noteq> CK_INVALID_HANDLE
                          then prvExportPublicKey E x (xPublicKey p) (pucDerPublicKey p) (ulDerPublicKeyLength p) s
                          else Some (r, pucDerPublicKey p, ulDerPublicKeyLength p, s));
        let p = p\<lparr>pucDerPublicKey := b, ulDerPublicKeyLength := n\<rparr>;
        let (r, h, s) = (if r = CKR_OK
                         then search E x pkcs11configLABEL_DEVICE_CERTIFICATE_FOR_TLS CKO_CERTIFICATE (xClientCertificate p) s
                         else (r, xClientCertificate p, s));
        Some (r, p\<lparr>xClientCertificate := h\<rparr>, s)
      })"

text \<open>
  The slot list is a heap block of the PKCS\#11 helper that this function frees; the first slot of an
  empty list is undefined.
\<close>

definition prvGetProvisionedState ::
  "'w prov_env \<Rightarrow> handle \<Rightarrow> ProvisionedState \<Rightarrow> 'w token_state \<Rightarrow>
   (CK_RV \<times> ProvisionedState \<times> 'w token_state) option" where
  "prvGetProvisionedState E x p s =
     (let (r, listed, s) = get_list E s
      in do {
        (r, p, s) \<leftarrow> (if r = CKR_OK then find_keys E x p s else Some (r, p, s));
        if r \<noteq> CKR_OK then Some (r, p, s)
        else
          (let (r, slots, s) = on_token2 (xGetSlotList (lib E)) s
           in if r \<noteq> CKR_OK then Some (r, p, s)
              else if \<not> listed \<or> slots = [] then None
              else
                (let (r, label, s) = on_token2 (C_GetTokenInfo (lib E) (hd slots)) s;
                     label = (case label of Some l \<Rightarrow> l | None \<Rightarrow> replicate 32 NUL);
                     i = token_identifier label
                 in if r = CKR_OK \<and> c_hd label \<noteq> NUL \<and> c_hd label \<noteq> CHR '' ''
                    then (let (allocated, s) = pvPortMalloc E (1 + length i) s
                          in if allocated then Some (r, p\<lparr>pcIdentifier := Some i\<rparr>, s)
                             else Some (CKR_HOST_MEMORY, p, s))
                    else Some (r, p, s)))
      })"

section \<open>Printing bytes\<close>

definition pcByteRow_size :: nat where "pcByteRow_size = 1 + 16 * 2 + 16 div 2"

text \<open>
  The loop over the bytes: \<open>row\<close> is the text up to \<open>pcNextChar\<close>. The flag says that every write, the
  terminators included, has been inside the array; the list holds the rows printed.
\<close>

fun hex_rows :: "u8 list \<Rightarrow> nat \<Rightarrow> string \<Rightarrow> bool \<times> string list" where
  "hex_rows [] i row =
     (if row \<noteq> [] then (length row < pcByteRow_size, [row]) else (True, []))"
| "hex_rows (b # bs) i row =
     (let ok1 = (length row + 3 \<le> pcByteRow_size);
          row = row @ hex_byte b;
          ok2 = ((i + 1) mod 2 = 0 \<longrightarrow> length row < pcByteRow_size);
          row = (if (i + 1) mod 2 = 0 then row @ '' '' else row)
      in if (i + 1) mod 16 = 0
         then (let (ok, rows) = hex_rows bs (i + 1) [] in (ok1 \<and> ok2 \<and> length row < pcByteRow_size \<and> ok, row # rows))
         else (let (ok, rows) = hex_rows bs (i + 1) row in (ok1 \<and> ok2 \<and> ok, rows)))"

text \<open>\<open>None\<close> for a null pointer to at least one byte.\<close>

definition prvWriteHexBytesToConsole :: "u8 list option \<Rightarrow> nat \<Rightarrow> (bool \<times> string list) option" where
  "prvWriteHexBytesToConsole pucData ulDataLength =
     (case pucData of
        Some bs \<Rightarrow> Some (hex_rows (take ulDataLength bs) 0 [])
      | None \<Rightarrow> if ulDataLength = 0 then Some (True, []) else None)"

section \<open>Provisioning a device\<close>

record ProvisioningParams =
  pucClientPrivateKey :: "string option"
  ulClientPrivateKeyLength :: u32
  pucClientCertificate :: "string option"
  ulClientCertificateLength :: u32
  pucJITPCertificate :: "string option"
  ulJITPCertificateLength :: u32

text \<open>The old objects are destroyed when both a certificate and a key are given.\<close>

definition clean_up ::
  "'w prov_env \<Rightarrow> handle \<Rightarrow> handle \<Rightarrow> ProvisioningParams \<Rightarrow> 'w token_state \<Rightarrow> (CK_RV \<times> 'w token_state) option" where
  "clean_up E h0 x params s =
     (let (r, _, s) = get_list E s
      in if import_supported E \<and> r = CKR_OK \<and> pucClientCertificate params \<noteq> None \<and> pucClientPrivateKey params \<noteq> None
         then xDestroyDefaultCryptoObjects E h0 x s else Some (r, s))"

text \<open>
  The certificate, the private key and the just-in-time certificate, each when given. \<open>xObject\<close> is
  shared by the three imports; the flag says that a private key was imported.
\<close>

definition import_objects ::
  "'w prov_env \<Rightarrow> handle \<Rightarrow> handle \<Rightarrow> ProvisioningParams \<Rightarrow> CK_RV \<Rightarrow> 'w token_state \<Rightarrow>
   (CK_RV \<times> bool \<times> 'w token_state) option" where
  "import_objects E h0 x params r s = do {
     (r, obj, s) \<leftarrow> (if r = CKR_OK \<and> pucClientCertificate params \<noteq> None
        then xProvisionCertificate E h0 x (pucClientCertificate params)
               (unat (ulClientCertificateLength params)) pkcs11configLABEL_DEVICE_CERTIFICATE_FOR_TLS s
        else Some (r, None, s));
     let xObject = (case obj of Some y \<Rightarrow> y | None \<Rightarrow> 0);
     (r, imported, s) \<leftarrow> (case pucClientPrivateKey params of
        Some key \<Rightarrow>
          (if import_supported E \<and> r = CKR_OK
           then do {
             (r, obj, s) \<leftarrow> xProvisionPrivateKey E x key pkcs11configLABEL_DEVICE_PRIVATE_KEY_FOR_TLS s;
             Some (r, r = CKR_OK \<and> (case obj of Some y \<Rightarrow> y | None \<Rightarrow> xObject) \<noteq> CK_INVALID_HANDLE, s)
           }
           else Some (r, False, s))
      | None \<Rightarrow> Some (r, False, s));
     (r, s) \<leftarrow> (if r = CKR_OK \<and> pucJITPCertificate params \<noteq> None
        then do {
          (r, _, s) \<leftarrow> xProvisionCertificate E h0 x (pucJITPCertificate params)
               (unat (ulJITPCertificateLength params)) pkcs11configLABEL_JITP_CERTIFICATE s;
          Some (if r = CKR_DEVICE_MEMORY then CKR_OK else r, s)
        }
        else Some (r, s));
     Some (r, imported, s)
   }"

text \<open>
  What is present, and whether a key pair has to be generated. Errors of the search are ignored.
\<close>

definition check_keys ::
  "'w prov_env \<Rightarrow> handle \<Rightarrow> bool \<Rightarrow> 'w token_state \<Rightarrow> (ProvisionedState \<times> bool \<times> 'w token_state) option" where
  "check_keys E x needed s =
     (if needed
      then do {
        (_, p, s) \<leftarrow> prvGetProvisionedState E x zero_state s;
        Some (p, xPrivateKey p = CK_INVALID_HANDLE \<or> xPublicKey p = CK_INVALID_HANDLE \<or> pucDerPublicKey p = None, s)
      }
      else Some (zero_state, False, s))"

text \<open>A new key pair and its public key; the result of the export is not looked at.\<close>

definition generate_keys ::
  "'w prov_env \<Rightarrow> handle \<Rightarrow> ProvisionedState \<Rightarrow> 'w token_state \<Rightarrow>
   (CK_RV \<times> ProvisionedState \<times> 'w token_state) option" where
  "generate_keys E x p s = do {
     (r, priv, pub, s) \<leftarrow> xProvisionGenerateKeyPairEC E x pkcs11configLABEL_DEVICE_PRIVATE_KEY_FOR_TLS
        pkcs11configLABEL_DEVICE_PUBLIC_KEY_FOR_TLS s;
     let p = p\<lparr>xPrivateKey := (case priv of Some y \<Rightarrow> y | None \<Rightarrow> xPrivateKey p),
               xPublicKey := (case pub of Some y \<Rightarrow> y | None \<Rightarrow> xPublicKey p)\<rparr>;
     if r \<noteq> CKR_OK then Some (r, p, s)
     else do {
       (_, b, n, s) \<leftarrow> prvExportPublicKey E x (xPublicKey p) None (ulDerPublicKeyLength p)
          (free_if (pucDerPublicKey p \<noteq> None) s);
       let p = p\<lparr>pucDerPublicKey := b, ulDerPublicKeyLength := n\<rparr>;
       Some (if xPrivateKey p = CK_INVALID_HANDLE \<or> xPublicKey p = CK_INVALID_HANDLE
             then CKR_KEY_HANDLE_INVALID else CKR_OK, p, s)
     }
   }"

text \<open>The result, the rows printed with the flag of the printing loop, and the state.\<close>

definition xProvisionDevice ::
  "'w prov_env \<Rightarrow> handle \<Rightarrow> handle \<Rightarrow> ProvisioningParams \<Rightarrow> 'w token_state \<Rightarrow>
   (CK_RV \<times> (bool \<times> string list) \<times> 'w token_state) option" where
  "xProvisionDevice E h0 x params s = do {
     (r, s) \<leftarrow> clean_up E h0 x params s;
     (r, imported, s) \<leftarrow> import_objects E h0 x params r s;
     (p, generate, s) \<leftarrow> check_keys E x (r = CKR_OK \<and> \<not> imported) s;
     (r, p, s) \<leftarrow> (if r = CKR_OK \<and> generate then generate_keys E x p s else Some (r, p, s));
     console \<leftarrow> (if r = CKR_OK \<and> (xClientCertificate p = CK_INVALID_HANDLE \<or> generate) \<and> \<not> imported
                  then prvWriteHexBytesToConsole (pucDerPublicKey p) (ulDerPublicKeyLength p)
                  else Some (True, []));
     Some (r, console, free_if (pcIdentifier p \<noteq> None) (free_if (pucDerPublicKey p \<noteq> None) s))
   }"

definition vAlternateKeyProvisioning ::
  "'w prov_env \<Rightarrow> handle \<Rightarrow> ProvisioningParams \<Rightarrow> 'w token_state \<Rightarrow>
   (CK_RV \<times> (bool \<times> string list) \<times> 'w token_state) option" where
  "vAlternateKeyProvisioning E h0 params s =
     (let (r, listed, s) = get_list E s;
          (r, s) = (if r = CKR_OK then on_token (xInitializePkcs11Token (lib E)) s else (r, s))
      in if r \<noteq> CKR_OK then Some (r, (True, []), s)
         else
           (let (r, h, s) = open_session (pkcs (lib E)) s;
                xSession = (case h of Some y \<Rightarrow> y | None \<Rightarrow> 0)
            in if r \<noteq> CKR_OK then Some (r, (True, []), s)
               else do {
                 (r, console, s) \<leftarrow> xProvisionDevice E h0 xSession params s;
                 s \<leftarrow> checked listed (snd (close_session (pkcs (lib E)) xSession s));
                 Some (r, console, s)
               }))"

record ProvisioningParamsBundle =
  provisioningMagic1 :: u32
  provisioningParams :: ProvisioningParams
  codeSigningPublicKey :: string
  provisioningMagic2 :: u32

definition PROVISIONING_MAGIC :: u32 where "PROVISIONING_MAGIC = 0xC0DEFEED"

text \<open>An empty string counts as absent; a length includes the terminator.\<close>

definition present :: "string option \<Rightarrow> string option" where
  "present t = (case t of Some x \<Rightarrow> (if c_str x = [] then None else Some x) | None \<Rightarrow> None)"

definition length_of :: "string option \<Rightarrow> u32 \<Rightarrow> u32" where
  "length_of t old = (case present t of Some x \<Rightarrow> of_nat (1 + strlen x) | None \<Rightarrow> old)"

definition normalise :: "ProvisioningParams \<Rightarrow> ProvisioningParams" where
  "normalise q =
     \<lparr>pucClientPrivateKey = present (pucClientPrivateKey q),
      ulClientPrivateKeyLength = length_of (pucClientPrivateKey q) (ulClientPrivateKeyLength q),
      pucClientCertificate = present (pucClientCertificate q),
      ulClientCertificateLength = length_of (pucClientCertificate q) (ulClientCertificateLength q),
      pucJITPCertificate = present (pucJITPCertificate q),
      ulJITPCertificateLength = length_of (pucJITPCertificate q) (ulJITPCertificateLength q)\<rparr>"

definition vDevModeKeyProvisioning ::
  "'w prov_env \<Rightarrow> handle \<Rightarrow> ProvisioningParamsBundle \<Rightarrow> 'w token_state \<Rightarrow>
   (CK_RV \<times> (bool \<times> string list) \<times> ProvisioningParamsBundle \<times> 'w token_state) option" where
  "vDevModeKeyProvisioning E h0 bundle s =
     (if provisioningMagic1 bundle \<noteq> PROVISIONING_MAGIC \<or> provisioningMagic2 bundle \<noteq> PROVISIONING_MAGIC
      then Some (CKR_GENERAL_ERROR, (True, []), bundle, s)
      else do {
        let q = normalise (provisioningParams bundle);
        (r, console, s) \<leftarrow> vAlternateKeyProvisioning E h0 q s;
        Some (r, console, bundle\<lparr>provisioningParams := q\<rparr>, s)
      })"

section \<open>The code signing key and the first-boot flag\<close>

text \<open>
  Results are status codes, 0 for success. \<open>pem_to_der\<close> gets the capacity of the buffer;
  \<open>parse_public\<close> builds a key context, which holds heap memory until it is freed and counts as one
  block; \<open>import_rsa\<close> and \<open>import_ecdsa\<close> give the handle of the new key.
\<close>

record 'w psa_lib =
  pem_to_der :: "string \<Rightarrow> nat \<Rightarrow> nat \<Rightarrow> int \<times> u8 list"
  parse_public :: "u8 list \<Rightarrow> int"
  get_psa_attributes :: "u8 list \<Rightarrow> int"
  import_rsa :: "u8 list \<Rightarrow> nat \<Rightarrow> 'w \<Rightarrow> int \<times> u32 \<times> 'w"
  import_ecdsa :: "u8 list \<Rightarrow> nat \<Rightarrow> 'w \<Rightarrow> int \<times> u32 \<times> 'w"
  psa_its_get :: "nat \<Rightarrow> 'w \<Rightarrow> int \<times> u8 list \<times> 'w"
  psa_its_set :: "nat \<Rightarrow> u8 list \<Rightarrow> 'w \<Rightarrow> int \<times> 'w"
  sign_rsa :: bool
  crypto_in_tfm :: bool

definition DER_FORMAT_BUFFER_LENGTH :: nat where "DER_FORMAT_BUFFER_LENGTH = 512"
definition AWS_OTA_ECDSA_HEADER_SIZE :: nat where "AWS_OTA_ECDSA_HEADER_SIZE = 26"
definition FIRST_BOOT_ITS_UID :: nat where "FIRST_BOOT_ITS_UID = 1"
definition BOOT_PATTERN :: u8 where "BOOT_PATTERN = 0x55"

text \<open>
  The status, the key handle (\<open>None\<close>: not written, 0: \<open>NULL\<close>) and the state. A key encoding shorter
  than the header makes the length wrap around, so that the import reads outside the buffer.
\<close>

definition xOtaProvisionCodeSigningKey ::
  "'w psa_lib \<Rightarrow> nat \<Rightarrow> ProvisioningParamsBundle \<Rightarrow> 'w token_state \<Rightarrow>
   (int \<times> u32 option \<times> 'w token_state) option" where
  "xOtaProvisionCodeSigningKey A keyBits bundle s =
     (let key = codeSigningPublicKey bundle;
          (result, der) = pem_to_der A key (strlen key) DER_FORMAT_BUFFER_LENGTH
      in if result \<noteq> 0 then Some (result, None, s)
         else if sign_rsa A
         then
           (let result = parse_public A der; s = s\<lparr>liveBlocks := Suc (liveBlocks s)\<rparr>
            in if result \<noteq> 0 then Some (result, None, vPortFree s)
               else
                 (let result = get_psa_attributes A der
                  in if result \<noteq> 0 then Some (result, None, vPortFree s)
                     else
                       (let (status, h, w) = import_rsa A der keyBits (token s); s = s\<lparr>token := w\<rparr>
                        in if status \<noteq> 0 then Some (status, Some 0, vPortFree s) else Some (status, Some h, s))))
         else if length der < AWS_OTA_ECDSA_HEADER_SIZE then None
         else
           (let (status, h, w) = import_ecdsa A (drop AWS_OTA_ECDSA_HEADER_SIZE der) keyBits (token s);
                s = s\<lparr>token := w\<rparr>
            in Some (status, Some (if status \<noteq> 0 then 0 else h), s)))"

definition uxIsDeviceProvisioned :: "'w psa_lib \<Rightarrow> 'w token_state \<Rightarrow> bool \<times> 'w token_state" where
  "uxIsDeviceProvisioned A s =
     (if crypto_in_tfm A
      then (let (status, bytes, w) = psa_its_get A FIRST_BOOT_ITS_UID (token s)
            in (status = 0 \<and> (case bytes of b # _ \<Rightarrow> b | [] \<Rightarrow> 0) = BOOT_PATTERN, s\<lparr>token := w\<rparr>))
      else (False, s))"

definition xWriteDeviceProvisioned :: "'w psa_lib \<Rightarrow> 'w token_state \<Rightarrow> int \<times> 'w token_state" where
  "xWriteDeviceProvisioned A s =
     (if crypto_in_tfm A
      then (let (status, w) = psa_its_set A FIRST_BOOT_ITS_UID [BOOT_PATTERN] (token s) in (status, s\<lparr>token := w\<rparr>))
      else (0, s))"

section \<open>Heap and sessions\<close>

text \<open>Both counts of two states agree.\<close>

definition balanced :: "'w token_state \<Rightarrow> 'w token_state \<Rightarrow> bool" where
  "balanced s s' \<longleftrightarrow> openSessions s' = openSessions s \<and> liveBlocks s' = liveBlocks s"

lemma balanced_refl [simp]: "balanced s s"
  by (simp add: balanced_def)

lemma balanced_trans: "balanced s1 s2 \<Longrightarrow> balanced s2 s3 \<Longrightarrow> balanced s1 s3"
  by (simp add: balanced_def)

lemma on_token_balanced: "on_token f s = (r, s') \<Longrightarrow> balanced s s'"
  by (auto simp: balanced_def dest: on_token_frame)

lemma on_token2_balanced: "on_token2 g s = (r, x, s') \<Longrightarrow> balanced s s'"
  by (auto simp: balanced_def dest: on_token2_frame)

lemma get_list_balanced: "get_list E s = (r, l, s') \<Longrightarrow> balanced s s'"
  unfolding get_list_def by (rule on_token2_balanced)

lemma create_balanced: "create E x T s = (r, h, s') \<Longrightarrow> balanced s s'"
  unfolding create_def by (rule on_token2_balanced)

lemma find_balanced: "find_object E x l c s = (r, h, s') \<Longrightarrow> balanced s s'"
  unfolding find_object_def by (rule on_token2_balanced)

lemma search_balanced: "search E x l c old s = (r, h, s') \<Longrightarrow> balanced s s'"
  by (auto simp: search_def split: prod.splits dest: find_balanced)

lemma malloc_blocks:
  "pvPortMalloc E n s = (b, s') \<Longrightarrow>
   openSessions s' = openSessions s \<and> liveBlocks s' = liveBlocks s + of_bool b"
  by (auto simp: pvPortMalloc_def split: if_splits)

lemmas prov_frames = get_list_balanced create_balanced find_balanced search_balanced on_token_balanced
  on_token2_balanced malloc_blocks

lemma ec_key_balanced: "prvProvisionPrivateECKey E x l pk s = Some (r, h, s') \<Longrightarrow> balanced s s'"
  by (auto simp: prvProvisionPrivateECKey_def Let_def bind_eq_Some_conv free_if_def vPortFree_def balanced_def
      split: prod.splits if_splits option.splits dest!: prov_frames)

lemma rsa_key_balanced: "prvProvisionPrivateRSAKey E x l pk s = Some (r, h, s') \<Longrightarrow> balanced s s'"
  by (auto simp: prvProvisionPrivateRSAKey_def Let_def bind_eq_Some_conv free_if_def vPortFree_def balanced_def
      split: prod.splits if_splits option.splits CK_RV.splits dest!: prov_frames)

lemma private_key_balanced: "xProvisionPrivateKey E x k l s = Some (r, h, s') \<Longrightarrow> balanced s s'"
  by (auto simp: xProvisionPrivateKey_def split: if_splits option.splits dest: ec_key_balanced rsa_key_balanced)

lemma destroy_loop_balanced: "destroy_loop E q t = Some y \<Longrightarrow> balanced (snd (snd t)) (snd (snd y))"
proof (induction E q t y rule: destroy_loop.raw_induct [rotated, consumes 1])
  case (1 f E q t y)
  note IH = "1"(1) and body = "1"(2)
  obtain listed x label c where q: "q = (listed, x, label, c)" by (cases q)
  obtain r h s where t: "t = (r, h, s)" by (cases t)
  obtain r1 s1 where d: "on_token (C_DestroyObject (lib E) x h) s = (r1, s1)" by fastforce
  obtain r2 o2 s2 where f: "find_object E x label c s1 = (r2, o2, s2)" by (metis prod_cases3)
  consider (go) "r = CKR_OK" "h \<noteq> 0" "listed" "r1 = CKR_OK"
    | (failed) "r = CKR_OK" "h \<noteq> 0" "listed" "r1 \<noteq> CKR_OK" | (halt) "\<not> (r = CKR_OK \<and> h \<noteq> 0)"
    using body by (auto simp: q t split: if_splits)
  then show ?case
  proof cases
    case go
    then have "f E q (r2, case o2 of Some y \<Rightarrow> y | None \<Rightarrow> h, s2) = Some y"
      using body by (simp add: q t d f)
    from IH [OF this] show ?thesis
      using on_token_balanced [OF d] find_balanced [OF f] by (auto simp: t intro: balanced_trans)
  next
    case failed
    then show ?thesis using body on_token_balanced [OF d] by (auto simp: q t d)
  next
    case halt
    then have "y = t" using body by (auto simp: q t split: if_splits)
    then show ?thesis by simp
  qed
qed

lemma destroy_all_balanced: "destroy_all E listed x objs r h s = Some (r', s') \<Longrightarrow> balanced s s'"
proof (induction objs arbitrary: r h s)
  case (Cons obj rest)
  obtain label c where obj: "obj = (label, c)" by fastforce
  obtain r1 o1 s1 where f: "find_object E x (c_str label) c s = (r1, o1, s1)" by (metis prod_cases3)
  obtain r2 h2 s2 where l: "destroy_loop E (listed, x, c_str label, c) (r1, case o1 of Some y \<Rightarrow> y | None \<Rightarrow> h, s1) = Some (r2, h2, s2)"
    using Cons.prems by (auto simp: obj f bind_eq_Some_conv)
  have b: "balanced s s2"
    using find_balanced [OF f] destroy_loop_balanced [OF l] by (auto intro: balanced_trans)
  have rest: "(if r2 = CKR_FUNCTION_NOT_SUPPORTED then Some (r2, s2) else destroy_all E listed x rest r2 h2 s2) = Some (r', s')"
    using Cons.prems by (simp add: obj f l)
  then show ?case using b Cons.IH [of r2 h2 s2] by (auto split: if_splits intro: balanced_trans)
qed simp

lemma destroy_balanced: "xDestroyProvidedObjects E h0 x objs s = Some (r, s') \<Longrightarrow> balanced s s'"
  by (auto simp: xDestroyProvidedObjects_def split: prod.splits
      dest!: get_list_balanced destroy_all_balanced intro: balanced_trans)

lemma write_certificate_balanced: "write_certificate E h0 x listed der l s = Some (r, h, s') \<Longrightarrow> balanced s s'"
  by (auto simp: write_certificate_def bind_eq_Some_conv dest!: destroy_balanced create_balanced intro: balanced_trans)

lemma certificate_balanced: "xProvisionCertificate E h0 x cert n l s = Some (r, h, s') \<Longrightarrow> balanced s s'"
  by (auto simp: xProvisionCertificate_def Let_def bind_eq_Some_conv vPortFree_def balanced_def
      split: prod.splits if_splits option.splits dest!: prov_frames write_certificate_balanced)

text \<open>A block is held exactly while the buffer is not null.\<close>

lemma export_blocks:
  "prvExportPublicKey E x k b0 n0 s = Some (r, b, n, s') \<Longrightarrow> b0 = None \<Longrightarrow>
   openSessions s' = openSessions s \<and> liveBlocks s' = liveBlocks s + of_bool (b \<noteq> None)"
  by (auto simp: prvExportPublicKey_def Let_def free_if_def vPortFree_def balanced_def
      split: prod.splits if_splits dest!: prov_frames)

text \<open>The blocks a provisioned state holds.\<close>

definition held_blocks :: "ProvisionedState \<Rightarrow> nat" where
  "held_blocks p = of_bool (pucDerPublicKey p \<noteq> None) + of_bool (pcIdentifier p \<noteq> None)"

lemma search_snd [simp]:
  "openSessions (snd (snd (search E x l c old s))) = openSessions s"
  "liveBlocks (snd (snd (search E x l c old s))) = liveBlocks s"
  by (auto simp: search_def find_object_def on_token2_def split_beta)

lemma find_keys_blocks:
  assumes "find_keys E x p s = Some (r, p', s')" and "pucDerPublicKey p = None"
  shows "openSessions s' = openSessions s \<and> liveBlocks s' = liveBlocks s + of_bool (pucDerPublicKey p' \<noteq> None) \<and>
    pcIdentifier p' = pcIdentifier p"
  using assms
  by (auto simp: find_keys_def Let_def bind_eq_Some_conv split_beta split: if_splits dest!: export_blocks)

lemma provisioned_state_blocks:
  assumes "prvGetProvisionedState E x zero_state s = Some (r, p, s')"
  shows "openSessions s' = openSessions s \<and> liveBlocks s' = liveBlocks s + held_blocks p"
proof -
  obtain r0 l s0 where 0: "get_list E s = (r0, l, s0)" by (metis prod_cases3)
  obtain r1 p1 s1 where 1: "(if r0 = CKR_OK then find_keys E x zero_state s0 else Some (r0, zero_state, s0)) = Some (r1, p1, s1)"
    using assms by (auto simp: prvGetProvisionedState_def 0 bind_eq_Some_conv)
  have b1: "openSessions s1 = openSessions s \<and> liveBlocks s1 = liveBlocks s + of_bool (pucDerPublicKey p1 \<noteq> None) \<and>
      pcIdentifier p1 = None"
    using 1 get_list_balanced [OF 0] find_keys_blocks [of E x zero_state s0 r1 p1 s1]
    by (auto simp: zero_state_def balanced_def split: if_splits)
  show ?thesis
    using assms b1
    by (auto simp: prvGetProvisionedState_def 0 1 Let_def held_blocks_def balanced_def
        split: prod.splits if_splits dest!: on_token2_balanced malloc_blocks)
qed

lemma clean_up_balanced: "clean_up E h0 x q s = Some (r, s') \<Longrightarrow> balanced s s'"
  by (auto simp: clean_up_def xDestroyDefaultCryptoObjects_def split: prod.splits if_splits
      dest!: get_list_balanced destroy_balanced intro: balanced_trans)

lemma import_balanced: "import_objects E h0 x q r s = Some (r', b, s') \<Longrightarrow> balanced s s'"
  by (auto simp: import_objects_def Let_def bind_eq_Some_conv balanced_def split: if_splits option.splits
      dest!: certificate_balanced private_key_balanced)

lemma generate_blocks:
  assumes "generate_keys E x p s = Some (r, p', s')" and "of_bool (pucDerPublicKey p \<noteq> None) \<le> liveBlocks s"
  shows "openSessions s' = openSessions s \<and> liveBlocks s' + held_blocks p = liveBlocks s + held_blocks p'"
  using assms
  by (auto simp: generate_keys_def xProvisionGenerateKeyPairEC_def Let_def bind_eq_Some_conv held_blocks_def
      balanced_def free_if_def vPortFree_def split: prod.splits if_splits
      dest!: get_list_balanced on_token2_balanced export_blocks)

lemma check_keys_blocks:
  "check_keys E x b s = Some (p, g, s') \<Longrightarrow>
   openSessions s' = openSessions s \<and> liveBlocks s' = liveBlocks s + held_blocks p"
  by (auto simp: check_keys_def bind_eq_Some_conv split: if_splits dest!: provisioned_state_blocks)
    (auto simp: held_blocks_def zero_state_def)

lemma device_balanced:
  assumes "xProvisionDevice E h0 x q s = Some (r, console, s')"
  shows "balanced s s'"
proof -
  obtain r0 s0 r1 i s1 p2 g s2 r3 p3 s3 where
    0: "clean_up E h0 x q s = Some (r0, s0)" and 1: "import_objects E h0 x q r0 s0 = Some (r1, i, s1)"
    and 2: "check_keys E x (r1 = CKR_OK \<and> \<not> i) s1 = Some (p2, g, s2)"
    and 3: "(if r1 = CKR_OK \<and> g then generate_keys E x p2 s2 else Some (r1, p2, s2)) = Some (r3, p3, s3)"
    and s': "s' = free_if (pcIdentifier p3 \<noteq> None) (free_if (pucDerPublicKey p3 \<noteq> None) s3)"
    using assms unfolding xProvisionDevice_def bind_eq_Some_conv split_paired_Ex prod.case option.inject prod.inject
    by metis
  have b2: "openSessions s2 = openSessions s1 \<and> liveBlocks s2 = liveBlocks s1 + held_blocks p2"
    by (rule check_keys_blocks [OF 2])
  have le: "of_bool (pucDerPublicKey p2 \<noteq> None) \<le> liveBlocks s2" using b2 by (auto simp: held_blocks_def)
  have b3: "openSessions s3 = openSessions s1 \<and> liveBlocks s3 = liveBlocks s1 + held_blocks p3"
  proof (cases "r1 = CKR_OK \<and> g")
    case True
    then have "generate_keys E x p2 s2 = Some (r3, p3, s3)" using 3 by simp
    from generate_blocks [OF this le] b2 show ?thesis by simp
  next
    case False
    then show ?thesis using 3 b2 by (auto split: if_splits)
  qed
  have "balanced s1 s'" using b3
    by (auto simp: s' balanced_def free_if_def vPortFree_def held_blocks_def)
  then show ?thesis
    using clean_up_balanced [OF 0] import_balanced [OF 1] by (blast intro: balanced_trans)
qed

lemma close_snd:
  "liveBlocks (snd (close_session P h s)) = liveBlocks s"
  "\<forall>h w. fst (C_CloseSession P h w) = CKR_OK \<Longrightarrow> openSessions (snd (close_session P h s)) = openSessions s - 1"
  by (auto simp: close_session_def on_token_def Let_def split_beta)


end
