(* ===== verification/Provisioning_Properties.thy ===== *)
theory Provisioning_Properties
  imports Provisioning
begin

text \<open>
  What provisioning does: the rows of the hexadecimal dump, the encoding of an exported public key,
  and the destruction of all objects with given labels on a token that works.
\<close>

section \<open>The hexadecimal dump\<close>

definition row_length :: "nat \<Rightarrow> nat" where
  "row_length i = 2 * (i mod 16) + (i mod 16) div 2"

lemma row_length_le: "row_length i \<le> 37"
proof -
  have "i mod 16 \<le> 15" by (simp add: less_Suc_eq_le [symmetric])
  then show ?thesis by (simp add: row_length_def)
qed

lemma hex_char_not_blank: "d < 16 \<Longrightarrow> hex_char d \<noteq> CHR '' ''"
  using hex_char_plain [of d] by (auto simp: isspace_def)

lemma filter_hex_byte [simp]: "filter (\<lambda>c. c \<noteq> CHR '' '') (hex_byte b) = hex_byte b"
proof -
  have "unat b < 256" using unsigned_less [of b, where ?'a = nat] by simp
  then have "unat b div 16 < 16" "unat b mod 16 < 16" by (simp_all add: div_less_iff_less_mult)
  then show ?thesis by (simp add: hex_byte_def hex_char_not_blank)
qed

lemma length_hex_byte [simp]: "length (hex_byte b) = 2"
  by (simp add: hex_byte_def)

lemma Suc_mod_2: "(i + 1) mod 2 = (i mod 16 + 1) mod (2 :: nat)"
proof -
  have "(i mod 16) mod 2 = i mod 2" by (rule mod_mod_cancel) simp
  then show ?thesis by (metis mod_add_left_eq)
qed

lemma row_length_Suc:
  assumes "(i + 1) mod 16 \<noteq> 0"
  shows "row_length i + 2 + (if (i + 1) mod 2 = 0 then 1 else 0) = row_length (i + 1)"
proof -
  define k where "k = i mod 16"
  have "(i + 1) mod 16 = k + 1" using assms by (simp add: k_def mod_Suc split: if_splits)
  moreover have "2 * k + k div 2 + 2 + (if (k + 1) mod 2 = 0 then 1 else 0) = 2 * (k + 1) + (k + 1) div 2"
    by (cases "even k") (auto elim!: evenE oddE)
  ultimately show ?thesis by (simp only: row_length_def Suc_mod_2 [of i] k_def [symmetric])
qed

lemma row_length_16:
  assumes "(i + 1) mod 16 = 0"
  shows "(i + 1) mod 2 = 0 \<and> row_length i = 37 \<and> row_length (i + 1) = 0"
proof -
  have "i mod 16 = 15" using assms by (simp add: mod_Suc split: if_splits)
  then show ?thesis using assms by (simp add: row_length_def Suc_mod_2 [of i, simplified])
qed

lemma hex_rows_correct:
  assumes "length row = row_length i"
  shows "fst (hex_rows bs i row) \<and> (\<forall>r \<in> set (snd (hex_rows bs i row)). length r < pcByteRow_size) \<and>
    filter (\<lambda>c. c \<noteq> CHR '' '') (concat (snd (hex_rows bs i row))) =
      filter (\<lambda>c. c \<noteq> CHR '' '') row @ concat (map hex_byte bs)"
  using assms
proof (induction bs i row rule: hex_rows.induct)
  case (1 i row)
  then show ?case using row_length_le [of i] by (simp add: pcByteRow_size_def)
next
  case (2 b bs i row)
  let ?row = "if (i + 1) mod 2 = 0 then (row @ hex_byte b) @ '' '' else row @ hex_byte b"
  have len: "length row \<le> 37" using 2 row_length_le [of i] by simp
  show ?case
  proof (cases "(i + 1) mod 16 = 0")
    case True
    have "length ([] :: string) = row_length (i + 1)" using row_length_16 [OF True] by simp
    with 2(1) [OF refl refl refl refl True] row_length_16 [OF True] len True
    show ?thesis by (simp add: pcByteRow_size_def Let_def split_beta)
  next
    case False
    have l: "length ?row = row_length (i + 1)" using row_length_Suc [OF False] 2(3)
      by (cases "(i + 1) mod 2 = 0") simp_all
    have "length ?row \<le> 37" using l row_length_le [of "i + 1"] by simp
    with 2(2) [OF refl refl refl refl False l] len False
    show ?thesis by (simp add: pcByteRow_size_def Let_def split_beta)
  qed
qed

text \<open>Printing any bytes stays within the row buffer, terminators included, and the rows, without
  their blanks, are the two-digit hexadecimal text of exactly the bytes asked for.\<close>

theorem hex_dump_faithful:
  "\<exists>rows. prvWriteHexBytesToConsole (Some bs) n = Some (True, rows) \<and>
     (\<forall>r \<in> set rows. length r < pcByteRow_size) \<and>
     filter (\<lambda>c. c \<noteq> CHR '' '') (concat rows) = concat (map hex_byte (take n bs))"
  using hex_rows_correct [of "[]" 0 "take n bs"]
  by (cases "hex_rows (take n bs) 0 []") (simp add: prvWriteHexBytesToConsole_def row_length_def)

theorem hex_dump_faithful_witness:
  "\<exists>rows. prvWriteHexBytesToConsole (Some [0x30, 0x5a, 0x07]) 2 = Some (True, rows) \<and>
     filter (\<lambda>c. c \<noteq> CHR '' '') (concat rows) = hex_byte 0x30 @ hex_byte 0x5a"
  using hex_dump_faithful [of "[0x30, 0x5a, 0x07]" 2] by auto

section \<open>The exported public key\<close>

text \<open>A public key that is exported is the DER header of a P-256 key followed by the point without the
  two bytes of its own tag and length, in a block of exactly its length.\<close>

theorem exported_key_encoding:
  assumes "prvExportPublicKey E x key None n0 s = Some (CKR_OK, Some b, len, s')"
    and "\<forall>n w. length (fst (snd (get_ec_point (lib E) x key n w))) = n"
  shows "\<exists>point w n. point = fst (snd (get_ec_point (lib E) x key n w)) \<and>
    b = pucEcP256AsnAndOid @ drop 2 point \<and> length b = len \<and> len = n + 24"
proof -
  obtain n s1 s2 point where p: "on_token2 (get_ec_point (lib E) x key n) s1 = (CKR_OK, point, s2)"
    and len: "len = n + 24"
    and fits: "buf_fits (buf_write (replicate len 0) 24 point) 0 (length pucEcP256AsnAndOid)"
    and b: "b = buf_write (buf_write (replicate len 0) 24 point) 0 pucEcP256AsnAndOid"
    using assms(1) by (auto simp: prvExportPublicKey_def Let_def split: prod.splits if_splits)
  have pt: "point = fst (snd (get_ec_point (lib E) x key n (token s1)))"
    using p by (auto simp: on_token2_def split: prod.splits)
  then have l: "length point = n" using assms(2) by simp
  have h: "length pucEcP256AsnAndOid = 26" by (simp add: pucEcP256AsnAndOid_def)
  have w: "buf_write (replicate len 0) 24 point = replicate 24 0 @ point" by (simp add: buf_write_def len l)
  have "2 \<le> n" using fits by (simp add: buf_fits_def w h l)
  moreover have "b = buf_write (replicate 24 0 @ point) 0 pucEcP256AsnAndOid" using b w by simp
  ultimately have "b = pucEcP256AsnAndOid @ drop 2 point" by (simp add: buf_write_def h l)
  then show ?thesis using pt l h len \<open>2 \<le> n\<close> by (intro exI [of _ point] exI [of _ "token s1"] exI [of _ n]) simp
qed

section \<open>Destroying objects\<close>

type_synonym token_object = "handle \<times> string \<times> CK_OBJECT_CLASS"

text \<open>
  A module that works: a search gives an object with the label and the class, or the invalid handle
  when there is none; destroying an object removes it and nothing else; handles identify objects.
\<close>

definition search_works :: "'w prov_env \<Rightarrow> ('w \<Rightarrow> token_object set) \<Rightarrow> bool" where
  "search_works E objs \<longleftrightarrow>
     (\<forall>x l c w. \<exists>y w'. xFindObjectWithLabelAndClass (lib E) x l c w = (CKR_OK, Some y, w') \<and> objs w' = objs w \<and>
        (if \<exists>k. (k, l, c) \<in> objs w then (y, l, c) \<in> objs w else y = CK_INVALID_HANDLE))"

definition removal_works :: "'w prov_env \<Rightarrow> ('w \<Rightarrow> token_object set) \<Rightarrow> bool" where
  "removal_works E objs \<longleftrightarrow>
     (\<forall>x h w. \<exists>w'. C_DestroyObject (lib E) x h w = (CKR_OK, w') \<and> objs w' = {ob \<in> objs w. fst ob \<noteq> h})"

definition list_works :: "'w prov_env \<Rightarrow> ('w \<Rightarrow> token_object set) \<Rightarrow> bool" where
  "list_works E objs \<longleftrightarrow>
     (\<forall>w. \<exists>w'. C_GetFunctionList (pkcs (lib E)) w = (CKR_OK, True, w') \<and> objs w' = objs w)"

definition objects_sound :: "('w \<Rightarrow> token_object set) \<Rightarrow> bool" where
  "objects_sound objs \<longleftrightarrow> (\<forall>w. finite (objs w) \<and> inj_on fst (objs w) \<and> CK_INVALID_HANDLE \<notin> fst ` objs w)"

definition working_token :: "'w prov_env \<Rightarrow> ('w \<Rightarrow> token_object set) \<Rightarrow> bool" where
  "working_token E objs \<longleftrightarrow> search_works E objs \<and> removal_works E objs \<and> list_works E objs \<and> objects_sound objs"

lemma working_find:
  assumes "working_token E objs"
  shows "\<exists>y s'. find_object E x l c s = (CKR_OK, Some y, s') \<and> objs (token s') = objs (token s) \<and>
    (if \<exists>k. (k, l, c) \<in> objs (token s) then (y, l, c) \<in> objs (token s) else y = CK_INVALID_HANDLE)"
proof -
  have "search_works E objs" using assms by (simp add: working_token_def)
  then obtain y w' where "xFindObjectWithLabelAndClass (lib E) x l c (token s) = (CKR_OK, Some y, w')"
    and "objs w' = objs (token s)"
    and "if \<exists>k. (k, l, c) \<in> objs (token s) then (y, l, c) \<in> objs (token s) else y = CK_INVALID_HANDLE"
    unfolding search_works_def by blast
  then show ?thesis by (intro exI [of _ y] exI [of _ "s\<lparr>token := w'\<rparr>"]) (simp add: find_object_def on_token2_def)
qed

lemma working_destroy:
  assumes "working_token E objs"
  shows "\<exists>s'. on_token (C_DestroyObject (lib E) x h) s = (CKR_OK, s') \<and>
    objs (token s') = {ob \<in> objs (token s). fst ob \<noteq> h}"
proof -
  have "removal_works E objs" using assms by (simp add: working_token_def)
  then obtain w' where "C_DestroyObject (lib E) x h (token s) = (CKR_OK, w')"
    and "objs w' = {ob \<in> objs (token s). fst ob \<noteq> h}"
    unfolding removal_works_def by blast
  then show ?thesis by (intro exI [of _ "s\<lparr>token := w'\<rparr>"]) (simp add: on_token_def)
qed

lemma working_objects:
  assumes "working_token E objs"
  shows "finite (objs w)" "inj_on fst (objs w)" "CK_INVALID_HANDLE \<notin> fst ` objs w"
  using assms unfolding working_token_def objects_sound_def by simp_all

lemma working_valid: "working_token E objs \<Longrightarrow> (y, ob) \<in> objs w \<Longrightarrow> y \<noteq> CK_INVALID_HANDLE"
  using working_objects(3) [of E objs w] by force

lemma working_handles: "working_token E objs \<Longrightarrow> (h, a) \<in> objs w \<Longrightarrow> (h, b) \<in> objs w \<Longrightarrow> b = a"
  using working_objects(2) [of E objs w] by (auto dest: inj_onD [of _ _ "(h, a)" "(h, b)"])

lemma remove_key:
  assumes "inj_on fst A" and "(y, a) \<in> A"
  shows "{ob \<in> A. fst ob \<noteq> y} = A - {(y, a)}"
proof (intro set_eqI)
  fix ob
  show "ob \<in> {ob \<in> A. fst ob \<noteq> y} \<longleftrightarrow> ob \<in> A - {(y, a)}"
    using inj_onD [OF assms(1) _ _ assms(2), of ob] by (cases "ob \<in> A"; cases "fst ob = y") auto
qed

lemmas working_removed = remove_key [OF working_objects(2)]

lemma destroy_loop_stops: "destroy_loop E q (CKR_OK, CK_INVALID_HANDLE, s) = Some (CKR_OK, CK_INVALID_HANDLE, s)"
  by (subst destroy_loop.simps) (simp split: prod.splits)

lemma destroy_loop_step:
  assumes "y \<noteq> CK_INVALID_HANDLE" and "on_token (C_DestroyObject (lib E) x y) s = (CKR_OK, s1)"
    and "find_object E x l c s1 = (CKR_OK, Some z, s2)"
  shows "destroy_loop E (True, x, l, c) (CKR_OK, y, s) = destroy_loop E (True, x, l, c) (CKR_OK, z, s2)"
  by (subst destroy_loop.simps) (simp add: assms)

text \<open>The objects with a label and a class, and the others.\<close>

definition labelled :: "token_object set \<Rightarrow> string \<Rightarrow> CK_OBJECT_CLASS \<Rightarrow> token_object set" where
  "labelled os l c = {ob \<in> os. snd ob = (l, c)}"

lemma labelled_minus:
  "(y, l, c) \<in> os \<Longrightarrow> (os - {(y, l, c)}) - labelled (os - {(y, l, c)}) l c = os - labelled os l c"
  by (auto simp: labelled_def)

lemma destroy_loop_clears:
  assumes "working_token E objs" and "card (labelled (objs (token s)) l c) = n"
    and "if \<exists>k. (k, l, c) \<in> objs (token s) then (y, l, c) \<in> objs (token s) else y = CK_INVALID_HANDLE"
  shows "\<exists>s'. destroy_loop E (True, x, l, c) (CKR_OK, y, s) = Some (CKR_OK, CK_INVALID_HANDLE, s') \<and>
    objs (token s') = objs (token s) - labelled (objs (token s)) l c"
  using assms(2,3)
proof (induction n arbitrary: s y)
  case 0
  then have none: "labelled (objs (token s)) l c = {}"
    using finite_subset [OF _ working_objects(1) [OF assms(1)], of "labelled (objs (token s)) l c" "token s"]
    by (auto simp: labelled_def)
  then have "\<nexists>k. (k, l, c) \<in> objs (token s)" by (auto simp: labelled_def)
  with 0 have "y = CK_INVALID_HANDLE" by (auto split: if_splits)
  then show ?case using none destroy_loop_stops [of E "(True, x, l, c)" s] by auto
next
  case (Suc n)
  have "labelled (objs (token s)) l c \<noteq> {}" using Suc.prems(1) by auto
  then have "\<exists>k. (k, l, c) \<in> objs (token s)" by (auto simp: labelled_def)
  with Suc.prems(2) have y: "(y, l, c) \<in> objs (token s)" by (simp split: if_splits)
  then have y0: "y \<noteq> CK_INVALID_HANDLE" by (rule working_valid [OF assms(1)])
  obtain s1 where d: "on_token (C_DestroyObject (lib E) x y) s = (CKR_OK, s1)"
    and o1: "objs (token s1) = {ob \<in> objs (token s). fst ob \<noteq> y}" using working_destroy [OF assms(1), of x y s] by blast
  obtain z s2 where f: "find_object E x l c s1 = (CKR_OK, Some z, s2)" and o2: "objs (token s2) = objs (token s1)"
    and z: "if \<exists>k. (k, l, c) \<in> objs (token s1) then (z, l, c) \<in> objs (token s1) else z = CK_INVALID_HANDLE"
    using working_find [OF assms(1), of x l c s1] by (auto simp only: )
  have rem: "objs (token s1) = objs (token s) - {(y, l, c)}"
    unfolding o1 by (rule working_removed [OF assms(1) y])
  then have "labelled (objs (token s2)) l c = labelled (objs (token s)) l c - {(y, l, c)}"
    by (auto simp: o2 labelled_def)
  moreover have "(y, l, c) \<in> labelled (objs (token s)) l c" using y by (simp add: labelled_def)
  ultimately have "card (labelled (objs (token s2)) l c) = n" using Suc.prems(1) by simp
  moreover have "if \<exists>k. (k, l, c) \<in> objs (token s2) then (z, l, c) \<in> objs (token s2) else z = CK_INVALID_HANDLE"
    using z by (simp only: o2)
  ultimately obtain s' where
    "destroy_loop E (True, x, l, c) (CKR_OK, z, s2) = Some (CKR_OK, CK_INVALID_HANDLE, s')"
    and "objs (token s') = objs (token s2) - labelled (objs (token s2)) l c"
    using Suc.IH by blast
  moreover from this(2) have "objs (token s') = objs (token s) - labelled (objs (token s)) l c"
    by (simp only: o2 rem labelled_minus [OF y])
  ultimately show ?case using destroy_loop_step [OF y0 d f] by auto
qed

lemma destroy_all_clears:
  assumes "working_token E objs"
  shows "\<exists>s'. destroy_all E True x L CKR_OK h s = Some (CKR_OK, s') \<and>
    objs (token s') = {ob \<in> objs (token s). snd ob \<notin> (\<lambda>(l, c). (c_str l, c)) ` set L}"
proof (induction L arbitrary: h s)
  case (Cons a L)
  obtain l c where a: "a = (l, c)" by fastforce
  obtain y s1 where f: "find_object E x (c_str l) c s = (CKR_OK, Some y, s1)" and o1: "objs (token s1) = objs (token s)"
    and y: "if \<exists>k. (k, c_str l, c) \<in> objs (token s1) then (y, c_str l, c) \<in> objs (token s1) else y = CK_INVALID_HANDLE"
    using working_find [OF assms, of x "c_str l" c s] by metis
  obtain s2 where d: "destroy_loop E (True, x, c_str l, c) (CKR_OK, y, s1) = Some (CKR_OK, CK_INVALID_HANDLE, s2)"
    and o2: "objs (token s2) = objs (token s1) - labelled (objs (token s1)) (c_str l) c"
    using destroy_loop_clears [OF assms refl y] by blast
  obtain s3 where "destroy_all E True x L CKR_OK CK_INVALID_HANDLE s2 = Some (CKR_OK, s3)"
    and "objs (token s3) = {ob \<in> objs (token s2). snd ob \<notin> (\<lambda>(l, c). (c_str l, c)) ` set L}"
    using Cons.IH by blast
  then show ?case by (auto simp: a f d o1 o2 labelled_def)
qed auto

text \<open>C18: On a module that works, destroying objects ends with success, and exactly the objects whose label
  and class were asked for are gone, however many share them.\<close>

theorem destroy_removes_exactly:
  assumes "working_token E objs"
  shows "\<exists>s'. xDestroyProvidedObjects E h0 x L s = Some (CKR_OK, s') \<and>
    objs (token s') = {ob \<in> objs (token s). snd ob \<notin> (\<lambda>(l, c). (c_str l, c)) ` set L}"
proof -
  obtain w' where "C_GetFunctionList (pkcs (lib E)) (token s) = (CKR_OK, True, w')" "objs w' = objs (token s)"
    using assms unfolding working_token_def list_works_def by blast
  then show ?thesis
    using destroy_all_clears [OF assms, of x L h0 "s\<lparr>token := w'\<rparr>"]
    by (simp add: xDestroyProvidedObjects_def get_list_def on_token2_def)
qed


section \<open>A token for the witnesses\<close>

text \<open>
  Its world is the list of its objects. A new object has a handle above all others; keys are on an
  elliptic curve and the heap is never exhausted.
\<close>

definition next_handle :: "token_object list \<Rightarrow> handle" where
  "next_handle w = foldr (\<lambda>ob n. if n \<le> fst ob then fst ob + 1 else n) w 1"

fun label_of :: "CK_ATTRIBUTE list \<Rightarrow> string" where
  "label_of [] = []"
| "label_of (CKA_LABEL l # T) = l"
| "label_of (_ # T) = label_of T"

fun class_of :: "CK_ATTRIBUTE list \<Rightarrow> CK_OBJECT_CLASS" where
  "class_of [] = CKO_SECRET_KEY"
| "class_of (CKA_CLASS c # T) = c"
| "class_of (_ # T) = class_of T"

text \<open>A list in which handles do not identify objects counts as empty.\<close>

definition valid :: "token_object list \<Rightarrow> token_object list" where
  "valid w = (if distinct (map fst w) \<and> CK_INVALID_HANDLE \<notin> set (map fst w) then w else [])"

definition object_list :: "(token_object list) pkcs11" where
  "object_list = \<lparr>C_GetFunctionList = (\<lambda>w. (CKR_OK, True, w)),
     xInitializePkcs11Session = (\<lambda>w. (CKR_OK, Some 1, w)), C_CloseSession = (\<lambda>_ w. (CKR_OK, w)),
     C_Finalize = (\<lambda>w. (CKR_OK, w)),
     C_CreateObject = (\<lambda>_ T w. (CKR_OK, Some (next_handle w), (next_handle w, label_of T, class_of T) # w)),
     C_SignInit = (\<lambda>_ _ w. (CKR_OK, w)), C_Sign = (\<lambda>_ m w. (CKR_OK, m, w)),
     C_VerifyInit = (\<lambda>_ _ w. (CKR_OK, w)), C_Verify = (\<lambda>_ m sg w. (CKR_OK, w)),
     C_GenerateRandom = (\<lambda>_ w. (CKR_OK, Some 4, w))\<rparr>"

definition object_library :: "(token_object list) prov_lib" where
  "object_library = \<lparr>pkcs = object_list, xInitializePkcs11Token = (\<lambda>w. (CKR_OK, w)),
     C_DestroyObject = (\<lambda>_ h w. (CKR_OK, filter (\<lambda>ob. fst ob \<noteq> h) (valid w))),
     xFindObjectWithLabelAndClass =
       (\<lambda>_ l c w. (CKR_OK, Some (case List.find (\<lambda>ob. snd ob = (l, c)) (valid w) of Some ob \<Rightarrow> fst ob | None \<Rightarrow> 0), w)),
     C_GenerateKeyPair = (\<lambda>_ P Q w. (CKR_OK, (Some (next_handle w), Some (next_handle w + 1)),
        (next_handle w + 1, label_of Q, CKO_PRIVATE_KEY) # (next_handle w, label_of P, CKO_PUBLIC_KEY) # w)),
     get_key_type = (\<lambda>_ _ w. (CKR_OK, Some CKK_EC, w)), get_ec_point_length = (\<lambda>_ _ w. (CKR_OK, 67, w)),
     get_ec_point = (\<lambda>_ _ n w. (CKR_OK, replicate n 4, w)), xGetSlotList = (\<lambda>w. (CKR_OK, [1], w)),
     C_GetTokenInfo = (\<lambda>_ w. (CKR_OK, Some ''FreeRTOS  '', w)), heap_has = (\<lambda>_ _. True)\<rparr>"

definition sample_mbed :: mbed_lib where
  "sample_mbed = \<lparr>drbg_seeds = True, pk_parse_key = (\<lambda>_. None), pk_parse_public_key = (\<lambda>_. None),
     convert_pem_to_der = (\<lambda>p _. Some (map of_char p)), OID_P256 = [6, 8, 42, 134, 72, 206, 61, 3, 1, 7],
     pkcs11DER_ENCODED_OID_P256 = [6, 8, 42, 134, 72, 206, 61, 3, 1, 7], pkcs11RSA_PUBLIC_EXPONENT = [1, 0, 1],
     behind_modulus = []\<rparr>"

definition sample_prov :: "(token_object list) prov_env" where
  "sample_prov = \<lparr>lib = object_library, mbed = sample_mbed, import_supported = True\<rparr>"

definition sample_parameters :: ProvisioningParams where
  "sample_parameters = \<lparr>pucClientPrivateKey = None, ulClientPrivateKeyLength = 0,
     pucClientCertificate = None, ulClientCertificateLength = 0,
     pucJITPCertificate = None, ulJITPCertificateLength = 0\<rparr>"

text \<open>Two objects share the label of the device certificate.\<close>

definition sample_objects :: "(token_object list) token_state" where
  "sample_objects = \<lparr>token = [(1, ''Device Cert'', CKO_CERTIFICATE), (2, ''Code Verify Key'', CKO_PUBLIC_KEY),
     (3, ''Device Cert'', CKO_CERTIFICATE)], openSessions = 0, liveBlocks = 0\<rparr>"

lemma sample_finds: "search_works sample_prov (\<lambda>w. set (valid w))"
  unfolding search_works_def
  by (auto simp: sample_prov_def object_library_def find_None_iff find_Some_iff split: option.splits)
    (metis nth_mem prod.collapse snd_conv fst_conv)+

lemma valid_filter: "valid (filter p (valid w)) = filter p (valid w)"
  by (auto simp: valid_def distinct_map_filter)

lemma sample_removes: "removal_works sample_prov (\<lambda>w. set (valid w))"
  unfolding removal_works_def by (auto simp: sample_prov_def object_library_def valid_filter)

lemma sample_lists: "list_works sample_prov (\<lambda>w. set (valid w))"
  unfolding list_works_def by (simp add: sample_prov_def object_library_def object_list_def)

lemma valid_handles: "distinct (map fst (valid w))" "CK_INVALID_HANDLE \<notin> set (map fst (valid w))"
  by (auto simp: valid_def)

lemma sample_sound: "objects_sound (\<lambda>w. set (valid w))"
  unfolding objects_sound_def using valid_handles by (simp add: distinct_map)

lemma sample_works: "working_token sample_prov (\<lambda>w. set (valid w))"
  by (simp add: working_token_def sample_finds sample_removes sample_lists sample_sound)

theorem destroy_removes_exactly_witness:
  "\<exists>s'. xDestroyProvidedObjects sample_prov 0 1 [(''Device Cert'', CKO_CERTIFICATE)] sample_objects = Some (CKR_OK, s') \<and>
     set (valid (token s')) = {(2, ''Code Verify Key'', CKO_PUBLIC_KEY)}"
  using destroy_removes_exactly [OF sample_works, of 0 1 "[(''Device Cert'', CKO_CERTIFICATE)]" sample_objects]
  by (auto simp: sample_objects_def valid_def)

lemma sample_point: "get_ec_point (lib sample_prov) x k n w = (CKR_OK, replicate n 4, w)"
  by (simp add: sample_prov_def object_library_def)

lemma sample_export:
  "map_option (\<lambda>(r, b, n, s). (r, b \<noteq> None, n)) (prvExportPublicKey sample_prov 1 4 None 0 sample_objects) =
   Some (CKR_OK, True, 91)"
  by code_simp

theorem exported_key_encoding_witness:
  "fst (snd (the (prvExportPublicKey sample_prov 1 4 None 0 sample_objects))) = Some (pucEcP256AsnAndOid @ replicate 65 4)"
proof -
  obtain b s' where "prvExportPublicKey sample_prov 1 4 None 0 sample_objects = Some (CKR_OK, Some b, 91, s')"
    using sample_export by auto
  then show ?thesis
    using exported_key_encoding [of sample_prov 1 4 0 sample_objects b 91 s']
    by (simp add: sample_point)
qed

lemma sample_provisioned:
  "map_option (\<lambda>(r, console, s). (r, map fst (token s)))
     (vAlternateKeyProvisioning sample_prov 0 sample_parameters sample_objects) = Some (CKR_OK, [5, 4, 1, 2, 3])"
  by code_simp


end
