(* ===== verification/Logging.thy ===== *)
theory Logging
  imports Crt_Helpers "HOL-Library.Monad_Syntax"
begin

text \<open>
  The logging task, \<^verbatim>\<open>iot_logging_task_dynamic_buffers.c\<close>: a task that logs formats its message into
  a heap block and passes the block through a queue to the logging task, which prints and frees it.
  The C library, the kernel and the heap are parameters. A call is one step; calls of several tasks
  interleave as wholes.
\<close>

section \<open>Formatted text\<close>

text \<open>
  What a format and its arguments stand for: a text, or an encoding error after some characters have
  been stored. \<open>vsnprintf\<close> of the C library into the \<open>n\<close> characters of \<open>buf\<close> from \<open>off\<close> on gives
  the length of the whole text, or a negative number.
\<close>

datatype c_text = Text string | Encoding_error string

definition vsnprintf :: "string \<Rightarrow> nat \<Rightarrow> nat \<Rightarrow> c_text \<Rightarrow> int \<times> string" where
  "vsnprintf buf off n f =
     (case f of
        Text t \<Rightarrow> (int (length t), if n = 0 then buf else buf_write buf off (take (n - 1) t @ [NUL]))
      | Encoding_error t \<Rightarrow> (-1, buf_write buf off (take n t)))"

text \<open>The comparison of the signed result with the \<open>size_t\<close> is an unsigned one.\<close>

definition vsnprintf_safe :: "string \<Rightarrow> nat \<Rightarrow> nat \<Rightarrow> c_text \<Rightarrow> int \<times> string" where
  "vsnprintf_safe buf off n f =
     (let (ret, buf) = vsnprintf buf off n f
      in (if int n \<le> uint (word_of_int ret :: u32) then int n - 1 else if ret < 0 then 0 else ret, buf))"

definition snprintf_safe :: "string \<Rightarrow> nat \<Rightarrow> nat \<Rightarrow> c_text \<Rightarrow> int \<times> string" where
  "snprintf_safe buf off n f = vsnprintf_safe buf off n f"

text \<open>The suffix from the last occurrence of a character on.\<close>

definition strrchr :: "string \<Rightarrow> char \<Rightarrow> string option" where
  "strrchr s c =
     (if c \<in> set (c_str s) then Some (c # rev (takeWhile (\<lambda>x. x \<noteq> c) (rev (c_str s)))) else None)"

definition file_name :: "string \<Rightarrow> string" where
  "file_name pcFile =
     (case strrchr pcFile (CHR 0x5C) of
        Some r \<Rightarrow> tl r
      | None \<Rightarrow> (case strrchr pcFile CHR ''/'' of Some r \<Rightarrow> tl r | None \<Rightarrow> c_str pcFile))"

definition dec_int :: "u32 \<Rightarrow> string" where
  "dec_int x = (if sint x < 0 then CHR ''-'' # dec_string (nat (- sint x)) else dec_string (nat (sint x)))"

section \<open>State\<close>

definition LOG_NONE :: nat where "LOG_NONE = 0"
definition LOG_ERROR :: nat where "LOG_ERROR = 1"
definition LOG_WARN :: nat where "LOG_WARN = 2"
definition LOG_INFO :: nat where "LOG_INFO = 3"
definition LOG_DEBUG :: nat where "LOG_DEBUG = 4"

lemmas log_levels = LOG_NONE_def LOG_ERROR_def LOG_WARN_def LOG_INFO_def LOG_DEBUG_def

text \<open>
  The calling task at the time of a call. \<open>heap_block B n\<close> is the address and the content of a new
  block of \<open>n\<close> bytes in a heap with the blocks \<open>B\<close>, if the heap grants it.
\<close>

record log_caller =
  schedulerStarted :: bool
  pcTaskName :: string
  xTickCount :: u32

record 'q log_env =
  log_queue :: "('q, ptr) kernel_queue"
  xQueueCreate :: "nat \<Rightarrow> 'q option"
  heap_block :: "(ptr \<rightharpoonup> string) \<Rightarrow> nat \<Rightarrow> (ptr \<times> string) option"
  configLOGGING_MAX_MESSAGE_LENGTH :: nat
  configLOGGING_INCLUDE_TIME_AND_TASK_NAME :: bool

text \<open>
  The static variables, the heap blocks of the logger and the output. \<open>queueDeleted\<close> says that the
  handle is that of a deleted queue, whose use is undefined.
\<close>

record 'q log_state =
  xQueue :: "'q option"
  queueDeleted :: bool
  xMessageNumber :: u32
  blocks :: "ptr \<rightharpoonup> string"
  printed :: "string list"

section \<open>Starting\<close>

text \<open>\<open>created\<close> is the success of \<open>xTaskCreate\<close>.\<close>

definition xLoggingTaskInitialize :: "'q log_env \<Rightarrow> bool \<Rightarrow> nat \<Rightarrow> 'q log_state \<Rightarrow> bool \<times> 'q log_state" where
  "xLoggingTaskInitialize E created uxQueueLength s =
     (if xQueue s = None
      then case xQueueCreate E uxQueueLength of
             None \<Rightarrow> (False, s)
           | Some q \<Rightarrow>
               if created then (True, s\<lparr>xQueue := Some q\<rparr>)
               else (False, s\<lparr>xQueue := Some q, queueDeleted := True\<rparr>)
      else (False, s))"

section \<open>Logging a message\<close>

text \<open>One formatted piece behind the \<open>xLength\<close> characters of the message.\<close>

definition append_text :: "'q log_env \<Rightarrow> c_text \<Rightarrow> nat \<times> string \<Rightarrow> nat \<times> string" where
  "append_text E f m =
     (let (xLength, buf) = m;
          (r, buf) = snprintf_safe buf xLength (configLOGGING_MAX_MESSAGE_LENGTH E - xLength) f
      in (nat (int xLength + r), buf))"

definition append_if_room :: "'q log_env \<Rightarrow> bool \<Rightarrow> c_text \<Rightarrow> nat \<times> string \<Rightarrow> nat \<times> string" where
  "append_if_room E c f m =
     (if c \<and> fst m < configLOGGING_MAX_MESSAGE_LENGTH E then append_text E f m else m)"

text \<open>The number of the message, the tick count and the task.\<close>

definition metadata_text :: "log_caller \<Rightarrow> u32 \<Rightarrow> string" where
  "metadata_text t n =
     dec_string (unat n) @ '' '' @ dec_string (unat (xTickCount t)) @ '' ['' @
       (if schedulerStarted t then c_str (pcTaskName t) else ''None'') @ ''] ''"

definition level_string :: "nat \<Rightarrow> string option" where
  "level_string l =
     (if l = LOG_ERROR then Some ''ERROR'' else if l = LOG_WARN then Some ''WARN''
      else if l = LOG_INFO then Some ''INFO'' else if l = LOG_DEBUG then Some ''DEBUG'' else None)"

definition level_text :: "nat \<Rightarrow> string" where
  "level_text l = (case level_string l of Some t \<Rightarrow> ''['' @ t @ ''] '' | None \<Rightarrow> [])"

definition file_text :: "string option \<Rightarrow> u32 \<Rightarrow> string" where
  "file_text pcFile n = (case pcFile of Some f \<Rightarrow> ''['' @ file_name f @ '':'' @ dec_int n @ ''] '' | None \<Rightarrow> [])"

definition newline :: string where "newline = [CHR 0x0A]"

text \<open>A newline is added to a format that is not empty and does not end with one.\<close>

definition lacks_newline :: "string \<Rightarrow> bool" where
  "lacks_newline pcFormat \<longleftrightarrow> strlen pcFormat \<ge> 1 \<and> last (c_str pcFormat) \<noteq> CHR 0x0A"

definition with_metadata :: "'q log_env \<Rightarrow> string \<Rightarrow> bool" where
  "with_metadata E pcFormat \<longleftrightarrow> c_str pcFormat \<noteq> newline \<and> configLOGGING_INCLUDE_TIME_AND_TASK_NAME E"

text \<open>
  The pieces of a message: its number, time and task, its level, its file and line; then what the
  format stands for and the newline.
\<close>

definition compose_head ::
  "'q log_env \<Rightarrow> log_caller \<Rightarrow> u32 \<Rightarrow> nat \<Rightarrow> string option \<Rightarrow> u32 \<Rightarrow> string \<Rightarrow> string \<Rightarrow> nat \<times> string" where
  "compose_head E t n level pcFile line pcFormat buf =
     (let m = (0, buf);
          m = (if with_metadata E pcFormat then append_text E (Text (metadata_text t n)) m else m);
          m = append_if_room E (level_string level \<noteq> None) (Text (level_text level)) m
      in append_if_room E (pcFile \<noteq> None) (Text (file_text pcFile line)) m)"

definition compose_tail :: "'q log_env \<Rightarrow> string \<Rightarrow> c_text \<Rightarrow> nat \<times> string \<Rightarrow> nat \<times> string" where
  "compose_tail E pcFormat body m =
     append_if_room E (lacks_newline pcFormat) (Text newline) (append_if_room E True body m)"

text \<open>
  The queue takes the block or the block is freed; \<open>None\<close> when the queue has been deleted.
\<close>

definition send_block :: "'q log_env \<Rightarrow> ptr \<Rightarrow> 'q log_state \<Rightarrow> 'q log_state option" where
  "send_block E p s =
     (case xQueue s of
        None \<Rightarrow> None
      | Some q \<Rightarrow>
          if queueDeleted s then None
          else
            (let (sent, q) = xQueueSendToBack (log_queue E) q p 0; s = s\<lparr>xQueue := Some q\<rparr>
             in Some (if sent then s else s\<lparr>blocks := (blocks s)(p := None)\<rparr>)))"

text \<open>A failed assertion is \<open>None\<close>.\<close>

definition prvLoggingPrintfCommon ::
  "'q log_env \<Rightarrow> log_caller \<Rightarrow> nat \<Rightarrow> string option \<Rightarrow> u32 \<Rightarrow> string option \<Rightarrow> c_text \<Rightarrow> 'q log_state \<Rightarrow>
   'q log_state option" where
  "prvLoggingPrintfCommon E t level pcFile line pcFormat body s =
     (case pcFormat of
        None \<Rightarrow> None
      | Some fmt \<Rightarrow>
          if LOG_DEBUG < level \<or> configLOGGING_MAX_MESSAGE_LENGTH E = 0 \<or> xQueue s = None then None
          else case heap_block E (blocks s) (configLOGGING_MAX_MESSAGE_LENGTH E) of
                 None \<Rightarrow> Some s
               | Some (p, content) \<Rightarrow>
                   (let n = xMessageNumber s;
                        s = (if with_metadata E fmt then s\<lparr>xMessageNumber := n + 1\<rparr> else s);
                        m = compose_head E t n level pcFile line fmt content;
                        (xLength, buf) = compose_tail E fmt body m
                    in if (pcFile \<noteq> None \<and> fst m = 0) \<or> configLOGGING_MAX_MESSAGE_LENGTH E \<le> xLength then None
                       else
                         (let s = s\<lparr>blocks := (blocks s)(p \<mapsto> buf[xLength := NUL])\<rparr>
                          in if xLength > 0 then send_block E p s
                             else Some (s\<lparr>blocks := (blocks s)(p := None)\<rparr>))))"

definition vLoggingPrintfError :: "'q log_env \<Rightarrow> log_caller \<Rightarrow> string option \<Rightarrow> c_text \<Rightarrow> 'q log_state \<Rightarrow> 'q log_state option" where
  "vLoggingPrintfError E t fmt body s = prvLoggingPrintfCommon E t LOG_ERROR None 0 fmt body s"

definition vLoggingPrintfWarn :: "'q log_env \<Rightarrow> log_caller \<Rightarrow> string option \<Rightarrow> c_text \<Rightarrow> 'q log_state \<Rightarrow> 'q log_state option" where
  "vLoggingPrintfWarn E t fmt body s = prvLoggingPrintfCommon E t LOG_WARN None 0 fmt body s"

definition vLoggingPrintfInfo :: "'q log_env \<Rightarrow> log_caller \<Rightarrow> string option \<Rightarrow> c_text \<Rightarrow> 'q log_state \<Rightarrow> 'q log_state option" where
  "vLoggingPrintfInfo E t fmt body s = prvLoggingPrintfCommon E t LOG_INFO None 0 fmt body s"

definition vLoggingPrintfDebug :: "'q log_env \<Rightarrow> log_caller \<Rightarrow> string option \<Rightarrow> c_text \<Rightarrow> 'q log_state \<Rightarrow> 'q log_state option" where
  "vLoggingPrintfDebug E t fmt body s = prvLoggingPrintfCommon E t LOG_DEBUG None 0 fmt body s"

definition vLoggingPrintfWithFileAndLine ::
  "'q log_env \<Rightarrow> log_caller \<Rightarrow> string option \<Rightarrow> u32 \<Rightarrow> string option \<Rightarrow> c_text \<Rightarrow> 'q log_state \<Rightarrow> 'q log_state option" where
  "vLoggingPrintfWithFileAndLine E t pcFile line fmt body s =
     (if pcFile = None then None else prvLoggingPrintfCommon E t LOG_NONE pcFile line fmt body s)"

definition vLoggingPrintf :: "'q log_env \<Rightarrow> log_caller \<Rightarrow> string option \<Rightarrow> c_text \<Rightarrow> 'q log_state \<Rightarrow> 'q log_state option" where
  "vLoggingPrintf E t fmt body s = prvLoggingPrintfCommon E t LOG_NONE None 0 fmt body s"

text \<open>\<open>strncpy\<close> of \<open>n\<close> characters pads the rest with terminators.\<close>

definition strncpy :: "string \<Rightarrow> string \<Rightarrow> nat \<Rightarrow> string" where
  "strncpy dst src n = buf_write dst 0 (take n (c_str src) @ replicate (n - strlen src) NUL)"

definition vLoggingPrint :: "'q log_env \<Rightarrow> string \<Rightarrow> 'q log_state \<Rightarrow> 'q log_state option" where
  "vLoggingPrint E pcMessage s =
     (if xQueue s = None then None
      else
        (let xLength = strlen pcMessage + 1
         in case heap_block E (blocks s) xLength of
              None \<Rightarrow> Some s
            | Some (p, content) \<Rightarrow>
                send_block E p (s\<lparr>blocks := (blocks s)(p \<mapsto> strncpy content pcMessage xLength)\<rparr>)))"

section \<open>The logging task\<close>

text \<open>
  One round of the loop, for ever repeated. On an empty queue the task stays blocked; a pointer that
  is no block of the heap is undefined.
\<close>

definition prvLoggingTask :: "'q log_env \<Rightarrow> 'q log_state \<Rightarrow> 'q log_state option" where
  "prvLoggingTask E s =
     (case xQueue s of
        None \<Rightarrow> None
      | Some q \<Rightarrow>
          if queueDeleted s then None
          else case xQueueReceive (log_queue E) q (- 1) of
                 (None, q) \<Rightarrow> Some (s\<lparr>xQueue := Some q\<rparr>)
               | (Some p, q) \<Rightarrow>
                   (case blocks s p of
                      None \<Rightarrow> None
                    | Some text \<Rightarrow>
                        Some (s\<lparr>xQueue := Some q, printed := printed s @ [c_str text],
                               blocks := (blocks s)(p := None)\<rparr>)))"

section \<open>The text of a message\<close>

text \<open>The whole line, and the first part of it that fits.\<close>

definition log_line :: "'q log_env \<Rightarrow> log_caller \<Rightarrow> u32 \<Rightarrow> nat \<Rightarrow> string option \<Rightarrow> u32 \<Rightarrow> string \<Rightarrow> string \<Rightarrow> string" where
  "log_line E t n level pcFile line fmt body =
     (if with_metadata E fmt then metadata_text t n else []) @ level_text level @ file_text pcFile line @
     body @ (if lacks_newline fmt then newline else [])"

text \<open>\<open>holds E full m\<close>: the buffer holds what fits of the text \<open>full\<close>, and its length.\<close>

definition holds :: "'q log_env \<Rightarrow> string \<Rightarrow> nat \<times> string \<Rightarrow> bool" where
  "holds E full m \<longleftrightarrow>
     (let N = configLOGGING_MAX_MESSAGE_LENGTH E
      in length (snd m) = N \<and> fst m = min (length full) (N - 1) \<and> take (fst m) (snd m) = take (N - 1) full)"

lemma vsnprintf_safe_Text:
  assumes "0 < n" and "n \<le> 2 ^ 31" and "length t < 2 ^ 31"
  shows "vsnprintf_safe buf off n (Text t) =
    (int (min (length t) (n - 1)), buf_write buf off (take (n - 1) t @ [NUL]))"
proof -
  have k: "uint (word_of_int k :: u32) = k" if "0 \<le> k" "k < 2 ^ 31" for k
    using that by (simp only: uint_word_of_int) simp
  have "int (length t) < 2 ^ 31" using assms(3) by simp
  then have "uint (word_of_int (int (length t)) :: u32) = int (length t)" by (intro k) (rule of_nat_0_le_iff)
  then show ?thesis using assms(1) by (auto simp: vsnprintf_safe_def vsnprintf_def min_def of_nat_diff)
qed

lemma append_text_holds:
  assumes "holds E full m" and "fst m < configLOGGING_MAX_MESSAGE_LENGTH E"
    and "configLOGGING_MAX_MESSAGE_LENGTH E \<le> 2 ^ 31" and "length t < 2 ^ 31"
  shows "holds E (full @ t) (append_text E (Text t) m)"
proof -
  define N where "N = configLOGGING_MAX_MESSAGE_LENGTH E"
  obtain x buf where m: "m = (x, buf)" by fastforce
  have x: "x = min (length full) (N - 1)" and l: "length buf = N" and t: "take x buf = take (N - 1) full" and lt: "x < N"
    using assms(1,2) by (auto simp: holds_def m N_def Let_def)
  have v: "vsnprintf_safe buf x (N - x) (Text t) =
      (int (min (length t) (N - x - 1)), buf_write buf x (take (N - x - 1) t @ [NUL]))"
    using assms(3,4) lt by (intro vsnprintf_safe_Text) (auto simp: N_def)
  let ?r = "min (length t) (N - x - 1)"
  have a: "append_text E (Text t) m = (x + ?r, buf_write buf x (take (N - x - 1) t @ [NUL]))"
    using v by (simp add: append_text_def m snprintf_safe_def N_def [symmetric] Let_def nat_int_add)
  have b: "take (x + ?r) (buf_write buf x (take (N - x - 1) t @ [NUL])) = take x buf @ take (N - x - 1) t"
    using l lt by (simp add: buf_write_def min_def)
  have c: "take x buf @ take (N - x - 1) t = take (N - 1) (full @ t)"
  proof -
    have "N - x - 1 = N - 1 - length full" using x by (auto simp: min_def)
    then show ?thesis by (simp only: t take_append)
  qed
  have d: "x + ?r = min (length (full @ t)) (N - 1)" using x lt by (auto simp: min_def)
  show ?thesis
    unfolding holds_def a N_def [symmetric] Let_def using b c d l lt by simp
qed

lemma append_if_room_holds:
  assumes "holds E full m" and "0 < configLOGGING_MAX_MESSAGE_LENGTH E"
    and "configLOGGING_MAX_MESSAGE_LENGTH E \<le> 2 ^ 31" and "c \<Longrightarrow> length t < 2 ^ 31"
  shows "holds E (full @ (if c then t else [])) (append_if_room E c (Text t) m)"
proof -
  have "fst m < configLOGGING_MAX_MESSAGE_LENGTH E" using assms(1,2) by (auto simp: holds_def Let_def)
  then show ?thesis using append_text_holds [OF assms(1) _ assms(3), of t] assms(1,4) by (simp add: append_if_room_def)
qed

lemma compose_holds:
  assumes "length content = configLOGGING_MAX_MESSAGE_LENGTH E" and "0 < configLOGGING_MAX_MESSAGE_LENGTH E"
    and "configLOGGING_MAX_MESSAGE_LENGTH E \<le> 2 ^ 31"
    and len: "length (log_line E t n level pcFile line fmt body) < 2 ^ 31"
  shows "holds E ((if with_metadata E fmt then metadata_text t n else []) @ level_text level @ file_text pcFile line)
           (compose_head E t n level pcFile line fmt content)"
    and "holds E (log_line E t n level pcFile line fmt body)
           (compose_tail E fmt (Text body) (compose_head E t n level pcFile line fmt content))"
proof -
  note append = append_if_room_holds [OF _ assms(2,3)]
  have 0: "holds E [] (0, content)" using assms(1,2) by (simp add: holds_def Let_def)
  let ?md = "if with_metadata E fmt then metadata_text t n else []"
  have 1: "holds E ?md (if with_metadata E fmt then append_text E (Text (metadata_text t n)) (0, content) else (0, content))"
    (is "holds E _ ?m1")
    using append_text_holds [OF 0 _ assms(3), of "metadata_text t n"] 0 len assms(2) by (auto simp: log_line_def)
  have lv: "(if level_string level \<noteq> None then level_text level else []) = level_text level"
    and fl: "(if pcFile \<noteq> None then file_text pcFile line else []) = file_text pcFile line"
    by (auto simp: level_text_def file_text_def)
  have 2: "holds E (?md @ level_text level) (append_if_room E (level_string level \<noteq> None) (Text (level_text level)) ?m1)"
    (is "holds E _ ?m2")
    using append [OF 1, of "level_string level \<noteq> None" "level_text level"] len by (simp only: lv) (simp add: log_line_def)
  have 3: "holds E ((?md @ level_text level) @ file_text pcFile line)
      (append_if_room E (pcFile \<noteq> None) (Text (file_text pcFile line)) ?m2)"
    using append [OF 2, of "pcFile \<noteq> None" "file_text pcFile line"] len by (simp only: fl) (simp add: log_line_def)
  then show head: "holds E (?md @ level_text level @ file_text pcFile line) (compose_head E t n level pcFile line fmt content)"
    by (simp only: compose_head_def Let_def append_assoc)
  have "holds E ((?md @ level_text level @ file_text pcFile line) @ body)
      (append_if_room E True (Text body) (compose_head E t n level pcFile line fmt content))"
    using append [OF head, of True body] len by (simp add: log_line_def)
  from append [OF this, of "lacks_newline fmt" newline]
  show "holds E (log_line E t n level pcFile line fmt body)
      (compose_tail E fmt (Text body) (compose_head E t n level pcFile line fmt content))"
    using len by (simp add: compose_tail_def log_line_def newline_def)
qed

lemma c_str_terminated: "x < length buf \<Longrightarrow> c_str (buf[x := NUL]) = c_str (take x buf)"
proof -
  assume "x < length buf"
  then have "buf[x := NUL] = take x buf @ NUL # drop (Suc x) buf" by (simp add: upd_conv_take_nth_drop)
  moreover have "c_str (a @ NUL # b) = c_str a" for a b by (induction a) auto
  ultimately show ?thesis by simp
qed

text \<open>The first part of the line that fits, up to a terminator in it.\<close>

definition message_text :: "'q log_env \<Rightarrow> string \<Rightarrow> string" where
  "message_text E full = c_str (take (configLOGGING_MAX_MESSAGE_LENGTH E - 1) full)"

section \<open>Messages and blocks\<close>

text \<open>A new block of the heap is none of the blocks in use and has the size asked for.\<close>

definition heap_sound :: "'q log_env \<Rightarrow> bool" where
  "heap_sound E \<longleftrightarrow> (\<forall>B n p c. heap_block E B n = Some (p, c) \<longrightarrow> p \<notin> dom B \<and> length c = n)"

text \<open>The logger is running, and its blocks are those in the queue, each once.\<close>

definition log_ok :: "('q \<Rightarrow> ptr list) \<Rightarrow> 'q log_state \<Rightarrow> bool" where
  "log_ok items s \<longleftrightarrow>
     (\<exists>q. xQueue s = Some q \<and> \<not> queueDeleted s \<and> distinct (items q) \<and> set (items q) = dom (blocks s))"

definition pending :: "('q \<Rightarrow> ptr list) \<Rightarrow> 'q log_state \<Rightarrow> string list" where
  "pending items s =
     (case xQueue s of Some q \<Rightarrow> map (\<lambda>p. c_str (the (blocks s p))) (items q) | None \<Rightarrow> [])"

lemma kernel_send:
  "kernel_fifo K items cap \<Longrightarrow>
   fst (xQueueSendToBack K q m t) = (length (items q) < cap) \<and>
   items (snd (xQueueSendToBack K q m t)) = items q @ (if length (items q) < cap then [m] else [])"
  unfolding kernel_fifo_def by (metis bounded_fifo.items_send bounded_fifo.send_iff)

lemma kernel_receive:
  "kernel_fifo K items cap \<Longrightarrow>
   fst (xQueueReceive K q t) = (case items q of [] \<Rightarrow> None | m # _ \<Rightarrow> Some m) \<and>
   items (snd (xQueueReceive K q t)) = tl (items q)"
  unfolding kernel_fifo_def by (metis bounded_fifo.items_rcv bounded_fifo.rcv_value)

lemma send_block_ok:
  assumes K: "kernel_fifo (log_queue E) items cap" and q: "xQueue s = Some q" and ok: "log_ok items s"
    and p: "p \<notin> dom (blocks s)" and s1: "s1 = s\<lparr>xMessageNumber := n, blocks := (blocks s)(p \<mapsto> c)\<rparr>"
  shows "\<exists>s'. send_block E p s1 = Some s' \<and> log_ok items s' \<and> printed s' = printed s \<and>
    pending items s' = pending items s @ (if length (items q) < cap then [c_str c] else [])"
proof -
  obtain sent q' where snd: "xQueueSendToBack (log_queue E) q p 0 = (sent, q')" by fastforce
  have sent: "sent = (length (items q) < cap)" and items: "items q' = items q @ (if sent then [p] else [])"
    using kernel_send [OF K, of q p 0] by (auto simp: snd)
  have d: "distinct (items q)" "set (items q) = dom (blocks s)" "\<not> queueDeleted s" using ok q by (auto simp: log_ok_def)
  have run: "send_block E p s1 = Some (if sent then s1\<lparr>xQueue := Some q'\<rparr> else s1\<lparr>xQueue := Some q', blocks := (blocks s1)(p := None)\<rparr>)"
    using q d(3) by (simp add: send_block_def s1 snd)
  have other: "map (\<lambda>x. c_str (the (((blocks s)(p \<mapsto> c)) x))) (items q) = map (\<lambda>x. c_str (the (blocks s x))) (items q)"
    and other': "map (\<lambda>x. c_str (the (((blocks s)(p := None)) x))) (items q) = map (\<lambda>x. c_str (the (blocks s x))) (items q)"
    using d(2) p by auto
  show ?thesis
  proof (cases sent)
    case True
    then show ?thesis using run items d p other q sent by (auto simp: s1 log_ok_def pending_def)
  next
    case False
    then have "items q' = items q" using items by simp
    then show ?thesis using run False d p other' q sent by (auto simp: s1 log_ok_def pending_def)
  qed
qed

lemma free_block_ok:
  assumes ok: "log_ok items s" and p: "p \<notin> dom (blocks s)"
    and s1: "s1 = s\<lparr>xMessageNumber := n, blocks := ((blocks s)(p \<mapsto> c))(p := None)\<rparr>"
  shows "log_ok items s1 \<and> printed s1 = printed s \<and> pending items s1 = pending items s"
proof -
  have "((blocks s)(p \<mapsto> c))(p := None) = blocks s" using p by (auto simp: fun_upd_idem)
  then show ?thesis using ok by (auto simp: s1 log_ok_def pending_def)
qed

definition log_length_ok :: "'q log_env \<Rightarrow> bool" where
  "log_length_ok E \<longleftrightarrow> 1 < configLOGGING_MAX_MESSAGE_LENGTH E \<and> configLOGGING_MAX_MESSAGE_LENGTH E \<le> 2 ^ 31"

lemma log_line_ok:
  assumes "heap_sound E" and "kernel_fifo (log_queue E) items cap" and "log_length_ok E" and "log_ok items s"
    and "xQueue s = Some q" and "level \<le> LOG_DEBUG"
    and "heap_block E (blocks s) (configLOGGING_MAX_MESSAGE_LENGTH E) = Some (p, content)"
    and "length (log_line E t (xMessageNumber s) level pcFile line fmt body) < 2 ^ 31"
  shows "\<exists>s'. prvLoggingPrintfCommon E t level pcFile line (Some fmt) (Text body) s = Some s' \<and>
    log_ok items s' \<and> printed s' = printed s \<and>
    pending items s' = pending items s @
      (let full = log_line E t (xMessageNumber s) level pcFile line fmt body
       in if length (items q) < cap \<and> full \<noteq> [] then [message_text E full] else [])"
proof -
  define N where "N = configLOGGING_MAX_MESSAGE_LENGTH E"
  define full where "full = log_line E t (xMessageNumber s) level pcFile line fmt body"
  have N: "1 < N" "N \<le> 2 ^ 31" using assms(3) by (auto simp: log_length_ok_def N_def)
  have p: "p \<notin> dom (blocks s)" and len: "length content = N" using assms(1,7) by (auto simp: heap_sound_def N_def)
  define m where "m = compose_head E t (xMessageNumber s) level pcFile line fmt content"
  obtain x buf where xb: "compose_tail E fmt (Text body) m = (x, buf)" by fastforce
  have h: "holds E ((if with_metadata E fmt then metadata_text t (xMessageNumber s) else []) @ level_text level @
      file_text pcFile line) m" and f: "holds E full (x, buf)"
    using compose_holds [of content E t "xMessageNumber s" level pcFile line fmt body] len N assms(8)
    by (auto simp: N_def m_def full_def xb [symmetric])
  have m0: "\<not> (pcFile \<noteq> None \<and> fst m = 0)" using h N by (auto simp: holds_def N_def [symmetric] Let_def file_text_def)
  have x: "x = min (length full) (N - 1)" "length buf = N" "take x buf = take (N - 1) full"
    using f by (auto simp: holds_def N_def [symmetric] Let_def)
  have "x < length buf" using x(1,2) N by auto
  then have msg: "c_str (buf[x := NUL]) = message_text E full"
    using c_str_terminated [of x buf] by (simp only: x(3) message_text_def N_def)
  define s1 where "s1 = s\<lparr>xMessageNumber := (if with_metadata E fmt then xMessageNumber s + 1 else xMessageNumber s),
    blocks := (blocks s)(p \<mapsto> buf[x := NUL])\<rparr>"
  have run: "prvLoggingPrintfCommon E t level pcFile line (Some fmt) (Text body) s =
      (if 0 < x then send_block E p s1 else Some (s1\<lparr>blocks := (blocks s1)(p := None)\<rparr>))"
    using assms(5,6,7) N m0 x(1) by (auto simp: prvLoggingPrintfCommon_def m_def [symmetric] xb N_def [symmetric] s1_def Let_def)
  show ?thesis
  proof (cases "0 < x")
    case True
    then have "full \<noteq> []" using x(1) by auto
    then show ?thesis
      using send_block_ok [OF assms(2,5,4) p s1_def] run True
      by (cases "length (items q) < cap") (simp_all add: msg full_def [symmetric])
  next
    case False
    then have "full = []" using x(1) N by auto
    then show ?thesis
      using free_block_ok [OF assms(4) p, of "s1\<lparr>blocks := (blocks s1)(p := None)\<rparr>"] run False
      by (auto simp: full_def [symmetric] s1_def)
  qed
qed

text \<open>A message is formatted without a failed assertion, cut to what fits, and put behind the messages
  that wait; when the queue is full it is dropped and its block freed.\<close>

theorem log_line_exact:
  assumes "heap_sound E" and "kernel_fifo (log_queue E) items cap" and "log_length_ok E" and "log_ok items s"
    and "xQueue s = Some q" and "level \<le> LOG_DEBUG"
    and "heap_block E (blocks s) (configLOGGING_MAX_MESSAGE_LENGTH E) = Some (p, content)"
    and "length (log_line E t (xMessageNumber s) level pcFile line fmt body) < 2 ^ 31"
  shows "\<exists>s'. prvLoggingPrintfCommon E t level pcFile line (Some fmt) (Text body) s = Some s' \<and>
    log_ok items s' \<and> printed s' = printed s \<and>
    pending items s' = pending items s @
      (let full = log_line E t (xMessageNumber s) level pcFile line fmt body
       in if length (items q) < cap \<and> full \<noteq> [] then [message_text E full] else [])"
  by (rule log_line_ok [OF assms])

text \<open>The same for a message printed as it is.\<close>

lemma print_ok:
  assumes "heap_sound E" and "kernel_fifo (log_queue E) items cap" and "log_ok items s" and "xQueue s = Some q"
  shows "\<exists>s'. vLoggingPrint E msg s = Some s' \<and> log_ok items s' \<and> printed s' = printed s \<and>
    (pending items s' = pending items s \<or>
     length (items q) < cap \<and> pending items s' = pending items s @ [c_str msg])"
proof (cases "heap_block E (blocks s) (strlen msg + 1)")
  case None
  then show ?thesis using assms(3,4) by (auto simp: vLoggingPrint_def)
next
  case (Some b)
  obtain p content where b: "b = (p, content)" by fastforce
  have p: "p \<notin> dom (blocks s)" "length content = strlen msg + 1" using assms(1) Some by (auto simp: heap_sound_def b)
  have "take (strlen msg + 1) (c_str msg) = c_str msg" by (simp add: strlen_def)
  then have "strncpy content msg (strlen msg + 1) = c_str msg @ [NUL]"
    using p(2) by (simp add: strncpy_def buf_write_def) (simp add: strlen_def)
  moreover have "c_str (c_str msg @ [NUL]) = c_str msg" by (induction msg) auto
  ultimately have c: "c_str (strncpy content msg (Suc (strlen msg))) = c_str msg" by simp
  then show ?thesis
    using send_block_ok [OF assms(2,4,3) p(1) refl, where n = "xMessageNumber s" and c = "strncpy content msg (strlen msg + 1)"] assms(4) Some
    by (auto simp: vLoggingPrint_def b c)
qed

lemma task_ok:
  assumes "kernel_fifo (log_queue E) items cap" and "log_ok items s"
  shows "\<exists>s'. prvLoggingTask E s = Some s' \<and> log_ok items s' \<and>
    printed s' = printed s @ take 1 (pending items s) \<and> pending items s' = drop 1 (pending items s)"
proof -
  obtain q where q: "xQueue s = Some q" "\<not> queueDeleted s" and d: "distinct (items q)" "set (items q) = dom (blocks s)"
    using assms(2) by (auto simp: log_ok_def)
  obtain r q' where r: "xQueueReceive (log_queue E) q (- 1) = (r, q')" by fastforce
  have rv: "r = (case items q of [] \<Rightarrow> None | m # _ \<Rightarrow> Some m)" and q': "items q' = tl (items q)"
    using kernel_receive [OF assms(1), of q "- 1"] by (auto simp: r)
  show ?thesis
  proof (cases "items q")
    case Nil
    then show ?thesis using q r rv q' d by (auto simp: prvLoggingTask_def log_ok_def pending_def)
  next
    case (Cons p ps)
    then obtain c where c: "blocks s p = Some c" using d(2) by force
    have "set ps = dom ((blocks s)(p := None))" using d Cons by auto
    moreover have "map (\<lambda>x. c_str (the (((blocks s)(p := None)) x))) ps = map (\<lambda>x. c_str (the (blocks s x))) ps"
      using d(1) Cons by auto
    ultimately show ?thesis
      using q r rv q' d Cons c by (auto simp: prvLoggingTask_def log_ok_def pending_def)
  qed
qed

section \<open>Runs\<close>

text \<open>Calls of any tasks and rounds of the logging task, in any order.\<close>

datatype log_event =
    Printf log_caller nat "string option" u32 string string
  | Print string
  | Task_round

definition perform :: "'q log_env \<Rightarrow> log_event \<Rightarrow> 'q log_state \<Rightarrow> 'q log_state option" where
  "perform E ev s =
     (case ev of
        Printf t level pcFile line fmt body \<Rightarrow> prvLoggingPrintfCommon E t level pcFile line (Some fmt) (Text body) s
      | Print msg \<Rightarrow> vLoggingPrint E msg s
      | Task_round \<Rightarrow> prvLoggingTask E s)"

fun run_log :: "'q log_env \<Rightarrow> log_event list \<Rightarrow> 'q log_state \<Rightarrow> 'q log_state option" where
  "run_log E [] s = Some s"
| "run_log E (ev # evs) s = do { s \<leftarrow> perform E ev s; run_log E evs s }"

text \<open>The lines a call can give, over all message numbers, and the calls whose lines are not gigantic.\<close>

definition lines_of :: "'q log_env \<Rightarrow> log_event \<Rightarrow> string set" where
  "lines_of E ev =
     (case ev of
        Printf t level pcFile line fmt body \<Rightarrow> range (\<lambda>n. message_text E (log_line E t n level pcFile line fmt body))
      | Print msg \<Rightarrow> {c_str msg}
      | Task_round \<Rightarrow> {})"

definition event_ok :: "'q log_env \<Rightarrow> log_event \<Rightarrow> bool" where
  "event_ok E ev \<longleftrightarrow>
     (case ev of
        Printf t level pcFile line fmt body \<Rightarrow>
          level \<le> LOG_DEBUG \<and> (\<forall>n. length (log_line E t n level pcFile line fmt body) < 2 ^ 31)
      | _ \<Rightarrow> True)"

text \<open>
  What a logger promises: lines are taken while fewer than \<open>cap\<close> wait, or dropped, and come out in
  the order they were taken.
\<close>

inductive fifo_spec :: "nat \<Rightarrow> string set \<Rightarrow> string list \<times> string list \<Rightarrow> string list \<times> string list \<Rightarrow> bool"
  for cap L where
  accept: "x \<in> L \<Longrightarrow> length wait < cap \<Longrightarrow> fifo_spec cap L (out, wait) (out, wait @ [x])"
| idle: "fifo_spec cap L c c"
| emit: "fifo_spec cap L (out, x # wait) (out @ [x], wait)"

lemma fifo_spec_mono: "fifo_spec cap L c d \<Longrightarrow> L \<subseteq> M \<Longrightarrow> fifo_spec cap M c d"
  by (induction rule: fifo_spec.induct) (auto intro: fifo_spec.intros)

lemma fifo_spec_star_mono: "(fifo_spec cap L)\<^sup>*\<^sup>* c d \<Longrightarrow> L \<subseteq> M \<Longrightarrow> (fifo_spec cap M)\<^sup>*\<^sup>* c d"
  using rtranclp_mono [of "fifo_spec cap L" "fifo_spec cap M"] fifo_spec_mono by blast

lemma perform_refines:
  assumes "heap_sound E" and "kernel_fifo (log_queue E) items cap" and "log_length_ok E" and "log_ok items s" and "event_ok E ev"
  shows "\<exists>s'. perform E ev s = Some s' \<and> log_ok items s' \<and>
    fifo_spec cap (lines_of E ev) (printed s, pending items s) (printed s', pending items s')"
proof -
  obtain q where q: "xQueue s = Some q" using assms(4) by (auto simp: log_ok_def)
  then have len: "length (pending items s) = length (items q)" by (simp add: pending_def)
  show ?thesis
  proof (cases ev)
    case (Printf t level pcFile line fmt body)
    have ev: "level \<le> LOG_DEBUG" "length (log_line E t (xMessageNumber s) level pcFile line fmt body) < 2 ^ 31"
      using assms(5) by (simp_all add: Printf event_ok_def)
    show ?thesis
    proof (cases "heap_block E (blocks s) (configLOGGING_MAX_MESSAGE_LENGTH E)")
      case None
      then have "prvLoggingPrintfCommon E t level pcFile line (Some fmt) (Text body) s = Some s"
        using ev(1) q assms(3) by (simp add: prvLoggingPrintfCommon_def log_length_ok_def)
      then show ?thesis using assms(4) by (simp add: perform_def Printf idle)
    next
      case (Some b)
      obtain p content where b: "b = (p, content)" by fastforce
      let ?full = "log_line E t (xMessageNumber s) level pcFile line fmt body"
      obtain s' where s': "prvLoggingPrintfCommon E t level pcFile line (Some fmt) (Text body) s = Some s'"
        "log_ok items s'" "printed s' = printed s"
        "pending items s' = pending items s @ (if length (items q) < cap \<and> ?full \<noteq> [] then [message_text E ?full] else [])"
        using log_line_ok [OF assms(1-4) q ev(1) Some [unfolded b] ev(2)] by (auto simp only: Let_def)
      have "message_text E ?full \<in> lines_of E ev" by (simp add: lines_of_def Printf)
      then show ?thesis using s' len by (auto simp: perform_def Printf intro: fifo_spec.intros)
    qed
  next
    case (Print msg)
    obtain s' where s': "vLoggingPrint E msg s = Some s'" "log_ok items s'" "printed s' = printed s"
      "pending items s' = pending items s \<or> length (items q) < cap \<and> pending items s' = pending items s @ [c_str msg]"
      using print_ok [OF assms(1,2,4) q, of msg] by blast
    have "c_str msg \<in> lines_of E ev" by (simp add: lines_of_def Print)
    then have "fifo_spec cap (lines_of E ev) (printed s, pending items s) (printed s', pending items s')"
      using s'(3,4) len fifo_spec.accept [of "c_str msg" "lines_of E ev" "pending items s" cap "printed s"]
      by (elim disjE) (simp_all add: idle)
    then show ?thesis using s'(1,2) by (simp add: perform_def Print)
  next
    case Task_round
    then show ?thesis
      using task_ok [OF assms(2,4)]
      by (cases "pending items s") (auto simp: perform_def intro: fifo_spec.intros)
  qed
qed

text \<open>C22: However calls and rounds of the logging task interleave, the logger refines a bounded queue of
  lines that may drop lines but keeps their order; no assertion fails, no block is freed twice or used after
  it was freed, and the blocks in use are exactly those that wait in the queue.\<close>

theorem logging_refines_fifo:
  assumes "heap_sound E" and "kernel_fifo (log_queue E) items cap" and "log_length_ok E" and "log_ok items s"
    and "\<forall>ev \<in> set evs. event_ok E ev"
  shows "\<exists>s'. run_log E evs s = Some s' \<and> log_ok items s' \<and>
    (fifo_spec cap (\<Union>ev \<in> set evs. lines_of E ev))\<^sup>*\<^sup>* (printed s, pending items s) (printed s', pending items s')"
  using assms(4,5)
proof (induction evs arbitrary: s)
  case (Cons ev evs)
  obtain s1 where 1: "perform E ev s = Some s1" "log_ok items s1"
    "fifo_spec cap (lines_of E ev) (printed s, pending items s) (printed s1, pending items s1)"
    using perform_refines [OF assms(1-3) Cons.prems(1), of ev] Cons.prems(2) by auto
  obtain s' where 2: "run_log E evs s1 = Some s'" "log_ok items s'"
    "(fifo_spec cap (\<Union>ev \<in> set evs. lines_of E ev))\<^sup>*\<^sup>* (printed s1, pending items s1) (printed s', pending items s')"
    using Cons.IH [OF 1(2)] Cons.prems(2) by auto
  have "fifo_spec cap (\<Union>ev \<in> set (ev # evs). lines_of E ev) (printed s, pending items s) (printed s1, pending items s1)"
    by (rule fifo_spec_mono [OF 1(3)]) auto
  moreover have "(fifo_spec cap (\<Union>ev \<in> set (ev # evs). lines_of E ev))\<^sup>*\<^sup>* (printed s1, pending items s1) (printed s', pending items s')"
    by (rule fifo_spec_star_mono [OF 2(3)]) auto
  ultimately show ?case using 1(1) 2(1,2) by (auto intro: converse_rtranclp_into_rtranclp)
qed auto

section \<open>A start that fails\<close>

text \<open>When the logging task cannot be created, the handle of the deleted queue stays behind: starting
  again fails for ever, and a call that gets a block sends it to the deleted queue.\<close>

theorem failed_start_disables_logging:
  assumes "xQueue s = None" and "xQueueCreate E n = Some q"
  shows "(let s1 = snd (xLoggingTaskInitialize E False n s)
          in fst (xLoggingTaskInitialize E created m s1) = False \<and>
             (heap_block E (blocks s1) (strlen msg + 1) = None \<or> vLoggingPrint E msg s1 = None))"
  using assms
  by (auto simp: xLoggingTaskInitialize_def vLoggingPrint_def send_block_def split: option.splits)

section \<open>The wrapper of the formatted print\<close>

text \<open>For a text that is formatted, the wrapper gives the number of characters stored; after an encoding
  error it gives the whole room and not 0, because the comparison is unsigned.\<close>

theorem vsnprintf_safe_result:
  assumes "0 < n" and "n \<le> 2 ^ 31" and "length t < 2 ^ 31" and "off + n \<le> length buf"
  shows "fst (vsnprintf_safe buf off n (Text t)) = int (length (take (n - 1) t)) \<and>
    take (off + length (take (n - 1) t)) (snd (vsnprintf_safe buf off n (Text t))) = take off buf @ take (n - 1) t \<and>
    fst (vsnprintf_safe buf off n (Encoding_error u)) = int n - 1"
proof -
  have "uint (word_of_int (- 1) :: u32) = 2 ^ 32 - 1" by (simp add: unsigned_minus_1_eq_mask mask_eq_exp_minus_1)
  then have "fst (vsnprintf_safe buf off n (Encoding_error u)) = int n - 1"
    using assms(2) by (simp add: vsnprintf_safe_def vsnprintf_def)
  then show ?thesis using vsnprintf_safe_Text [OF assms(1-3), of buf off] assms(1,4)
    by (simp add: buf_write_def min_def)
qed

section \<open>A logger for the witnesses\<close>

text \<open>A heap of two blocks, a queue of one message, messages of at most 31 characters.\<close>

definition sample_log_env :: "(ptr list) log_env" where
  "sample_log_env = \<lparr>log_queue = list_kernel 1, xQueueCreate = (\<lambda>n. Some []),
     heap_block = (\<lambda>B n. if B 1 = None then Some (1, replicate n CHR ''x'')
                         else if B 2 = None then Some (2, replicate n CHR ''y'') else None),
     configLOGGING_MAX_MESSAGE_LENGTH = 32, configLOGGING_INCLUDE_TIME_AND_TASK_NAME = False\<rparr>"

definition sample_log :: "(ptr list) log_state" where
  "sample_log = \<lparr>xQueue = Some [], queueDeleted = False, xMessageNumber = 0, blocks = (\<lambda>_. None), printed = []\<rparr>"

definition sample_caller :: log_caller where
  "sample_caller = \<lparr>schedulerStarted = True, pcTaskName = ''MQTT'', xTickCount = 7\<rparr>"

lemma sample_log_ok [simp]:
  "heap_sound sample_log_env" "kernel_fifo (log_queue sample_log_env) (\<lambda>q. q) 1" "log_length_ok sample_log_env"
  "log_ok (\<lambda>q. q) sample_log"
  by (auto simp: heap_sound_def sample_log_env_def log_length_ok_def log_ok_def sample_log_def dom_def split: if_splits)

lemma sample_log_line [simp]:
  "log_line sample_log_env sample_caller n LOG_INFO None 0 ''connected to the broker after %d tries'' ''connected to the broker after 3 tries'' =
   ''[INFO] connected to the broker after 3 tries'' @ newline"
  by (simp add: log_line_def with_metadata_def sample_log_env_def level_text_def level_string_def log_levels file_text_def
      lacks_newline_def strlen_def)

lemma sample_message [simp]:
  "message_text sample_log_env (''[INFO] connected to the broker after 3 tries'' @ newline) = ''[INFO] connected to the broker ''"
  by (simp add: message_text_def sample_log_env_def newline_def)

lemma sample_log_start [simp]:
  "xQueue sample_log = Some []" "pending (\<lambda>q. q) sample_log = []" "printed sample_log = []" "blocks sample_log = (\<lambda>_. None)"
  by (simp_all add: sample_log_def pending_def)

theorem log_line_exact_witness:
  "\<exists>s'. prvLoggingPrintfCommon sample_log_env sample_caller LOG_INFO None 0 (Some ''connected to the broker after %d tries'')
       (Text ''connected to the broker after 3 tries'') sample_log = Some s' \<and>
     pending (\<lambda>q. q) s' = [''[INFO] connected to the broker '']"
proof -
  have level: "LOG_INFO \<le> LOG_DEBUG" by (simp add: log_levels)
  have heap: "heap_block sample_log_env (blocks sample_log) (configLOGGING_MAX_MESSAGE_LENGTH sample_log_env) =
      Some (1, replicate 32 CHR ''x'')" by (simp add: sample_log_env_def)
  show ?thesis
    using log_line_exact [OF sample_log_ok sample_log_start(1) level heap, of sample_caller None 0
      "''connected to the broker after %d tries''" "''connected to the broker after 3 tries''"]
    by (simp del: append_Cons) (auto simp: Let_def newline_def)
qed

theorem logging_refines_fifo_witness:
  "\<exists>s'. run_log sample_log_env [Print ''a'', Print ''b'', Task_round] sample_log = Some s' \<and>
     set (printed s') \<subseteq> {''a'', ''b''} \<and> log_ok (\<lambda>q. q) s'"
proof -
  have "run_log sample_log_env [Print ''a'', Print ''b'', Task_round] sample_log \<noteq> None \<and>
      printed (the (run_log sample_log_env [Print ''a'', Print ''b'', Task_round] sample_log)) = [''a'']"
    by (simp add: perform_def vLoggingPrint_def send_block_def prvLoggingTask_def sample_log_def sample_log_env_def
        list_kernel_def list_send_def strncpy_def strlen_def buf_write_def)
  then show ?thesis
    using logging_refines_fifo [OF sample_log_ok, of "[Print ''a'', Print ''b'', Task_round]"]
    by (auto simp: event_ok_def simp del: run_log.simps)
qed

theorem failed_start_disables_logging_witness:
  "vLoggingPrint sample_log_env ''a'' (snd (xLoggingTaskInitialize sample_log_env False 4 (sample_log\<lparr>xQueue := None\<rparr>))) = None"
  using failed_start_disables_logging [of "sample_log\<lparr>xQueue := None\<rparr>" sample_log_env 4 "[]" True 4 "''a''"]
  by (auto simp: Let_def sample_log_env_def sample_log_def xLoggingTaskInitialize_def)

theorem vsnprintf_safe_result_witness:
  "fst (vsnprintf_safe ''........'' 2 6 (Text ''ab'')) = 2 \<and> fst (vsnprintf_safe ''........'' 2 6 (Encoding_error [])) = 5"
  using vsnprintf_safe_result [of 6 "''ab''" 2 "''........''" "[]"] by simp

end
