(* ===== verification/Tls.thy ===== *)
theory Tls
  imports Pkcs11
begin

text \<open>
  The TLS layer, \<^verbatim>\<open>iot_tls.c\<close>: one context of Mbed TLS whose client key stays in the PKCS\#11
  module. Mbed TLS, the module and the heap are parameters. A context of Mbed TLS that holds
  resources counts as one block of the heap. \<open>None\<close> is undefined behaviour, and a loop without end.
\<close>

section \<open>Interfaces\<close>

abbreviation (input) CKR_FUNCTION_FAILED :: CK_RV where "CKR_FUNCTION_FAILED \<equiv> CKR_other 0x06"
abbreviation (input) CKR_OBJECT_HANDLE_INVALID :: CK_RV where "CKR_OBJECT_HANDLE_INVALID \<equiv> CKR_other 0x82"
abbreviation (input) CKR_SESSION_HANDLE_INVALID :: CK_RV where "CKR_SESSION_HANDLE_INVALID \<equiv> CKR_other 0xB3"
abbreviation (input) CKR_CRYPTOKI_ALREADY_INITIALIZED :: CK_RV where
  "CKR_CRYPTOKI_ALREADY_INITIALIZED \<equiv> CKR_other 0x191"

datatype sign_mechanism = CKM_RSA_PKCS | CKM_ECDSA

datatype mbed_context = MbedSslCtx | MbedSslConfig | MbedX509CA | MbedX509Cli | MbedDrbgCtx

text \<open>
  The module. \<open>value_length\<close> and \<open>value_of\<close> are the two calls that read the attribute \<open>CKA_VALUE\<close>;
  \<open>append_SHA256_id\<close> is \<open>vAppendSHA256AlgorithmIdentifierSequence\<close> on the 32 bytes it reads, and
  \<open>to_mbed_signature\<close> is \<open>PKI_pkcs11SignatureTombedTLSSignature\<close>.
\<close>

record 'w tls_module =
  pkcs :: "'w pkcs11"
  C_Login :: "handle \<Rightarrow> string \<Rightarrow> 'w \<Rightarrow> CK_RV \<times> 'w"
  xFindObjectWithLabelAndClass :: "handle \<Rightarrow> string \<Rightarrow> CK_OBJECT_CLASS \<Rightarrow> 'w \<Rightarrow> CK_RV \<times> handle option \<times> 'w"
  get_key_type :: "handle \<Rightarrow> handle \<Rightarrow> 'w \<Rightarrow> CK_RV \<times> CK_KEY_TYPE option \<times> 'w"
  value_length :: "handle \<Rightarrow> handle \<Rightarrow> 'w \<Rightarrow> CK_RV \<times> nat \<times> 'w"
  value_of :: "handle \<Rightarrow> handle \<Rightarrow> nat \<Rightarrow> 'w \<Rightarrow> CK_RV \<times> u8 list \<times> 'w"
  random_bytes :: "handle \<Rightarrow> nat \<Rightarrow> 'w \<Rightarrow> CK_RV \<times> u8 list \<times> 'w"
  sign_init :: "handle \<Rightarrow> sign_mechanism \<Rightarrow> handle \<Rightarrow> 'w \<Rightarrow> CK_RV \<times> 'w"
  append_SHA256_id :: "u8 list \<Rightarrow> CK_RV \<times> u8 list"
  to_mbed_signature :: "u8 list \<Rightarrow> u8 list"
  heap_has :: "nat \<Rightarrow> 'w \<Rightarrow> bool"

text \<open>
  Mbed TLS: results are 0, a number of bytes, or an error. \<open>drbg_seed\<close> gets the entropy callback,
  \<open>parse_certificates\<close> the certificate context and the text. \<open>default_roots\<close> are the four built-in
  root certificates; \<open>max_fragment\<close> is \<open>None\<close> when the extension is not compiled in.
\<close>

record 'w mbed_tls =
  drbg_seed :: "(nat \<Rightarrow> 'w \<Rightarrow> int \<times> u8 list \<times> 'w) \<Rightarrow> 'w \<Rightarrow> int \<times> 'w"
  parse_certificates :: "mbed_context \<Rightarrow> u8 list \<Rightarrow> 'w \<Rightarrow> int \<times> 'w"
  config_defaults :: "'w \<Rightarrow> int \<times> 'w"
  conf_own_cert :: "'w \<Rightarrow> int \<times> 'w"
  conf_alpn_protocols :: "string list \<Rightarrow> 'w \<Rightarrow> int \<times> 'w"
  set_hostname :: "string \<Rightarrow> 'w \<Rightarrow> int \<times> 'w"
  conf_max_frag_len :: "('w \<Rightarrow> int \<times> 'w) option"
  ssl_setup :: "'w \<Rightarrow> int \<times> 'w"
  ssl_close_notify :: "'w \<Rightarrow> int \<times> 'w"
  ssl_handshake :: "'w \<Rightarrow> int \<times> 'w"
  ssl_read :: "nat \<Rightarrow> 'w \<Rightarrow> int \<times> u8 list \<times> 'w"
  ssl_write :: "u8 list \<Rightarrow> 'w \<Rightarrow> int \<times> 'w"
  default_roots :: "u8 list list"

record 'w tls_env =
  modl :: "'w tls_module"
  mtls :: "'w mbed_tls"

abbreviation (input) MBEDTLS_ERR_ENTROPY_SOURCE_FAILED :: int where "MBEDTLS_ERR_ENTROPY_SOURCE_FAILED \<equiv> - 0x3C"
abbreviation (input) MBEDTLS_ERR_SSL_WANT_READ :: int where "MBEDTLS_ERR_SSL_WANT_READ \<equiv> - 0x6900"
abbreviation (input) MBEDTLS_ERR_SSL_WANT_WRITE :: int where "MBEDTLS_ERR_SSL_WANT_WRITE \<equiv> - 0x6880"
abbreviation (input) MBEDTLS_ERR_SSL_INTERNAL_ERROR :: int where "MBEDTLS_ERR_SSL_INTERNAL_ERROR \<equiv> - 0x6C00"

definition TLS_ERROR_SIGN :: int where "TLS_ERROR_SIGN = - 2003"

section \<open>The context\<close>

text \<open>
  What has been configured on the SSL configuration and on the SSL context. \<open>live\<close> lists the
  contexts of Mbed TLS that hold resources.
\<close>

record ssl_settings =
  verifyCallback :: bool
  verifyRequired :: bool
  randomCallback :: bool
  caChain :: bool
  certProfile :: bool
  ownCertificate :: bool
  alpnProtocols :: "string list option"
  hostname :: "string option"
  isSetup :: bool
  bioSet :: bool

definition no_settings :: ssl_settings where
  "no_settings = \<lparr>verifyCallback = False, verifyRequired = False, randomCallback = False, caChain = False,
     certProfile = False, ownCertificate = False, alpnProtocols = None, hostname = None, isSetup = False,
     bioSet = False\<rparr>"

record TLSContext =
  live :: "mbed_context list"
  settings :: ssl_settings
  signerInstalled :: bool
  pxP11FunctionList :: bool
  xP11Session :: handle
  xP11PrivateKey :: handle
  xKeyType :: CK_KEY_TYPE

text \<open>The context filled with zeros: the code of \<open>CKK_RSA\<close> is 0.\<close>

definition zero_context :: TLSContext where
  "zero_context = \<lparr>live = [], settings = no_settings, signerInstalled = False, pxP11FunctionList = False,
     xP11Session = 0, xP11PrivateKey = 0, xKeyType = CKK_RSA\<rparr>"

record TLSHelperParams =
  pcDestination :: "string option"
  pcAlpnProtocols :: "string list option"
  pcServerCertificate :: "u8 list option"
  pClientCertLabel :: string
  pPrivateKeyLabel :: string
  pcLoginPIN :: "string option"

type_synonym 'w tls = "TLSContext \<times> 'w token_state"

text \<open>A context of Mbed TLS starts to hold resources.\<close>

definition hold :: "mbed_context \<Rightarrow> 'w tls \<Rightarrow> 'w tls" where
  "hold c ts =
     (let (ctx, s) = ts
      in if c \<in> set (live ctx) then ts
         else (ctx\<lparr>live := c # live ctx\<rparr>, s\<lparr>liveBlocks := Suc (liveBlocks s)\<rparr>))"

definition tls_malloc :: "'w tls_env \<Rightarrow> nat \<Rightarrow> 'w token_state \<Rightarrow> bool \<times> 'w token_state" where
  "tls_malloc E n s =
     (if heap_has (modl E) n (token s) then (True, s\<lparr>liveBlocks := Suc (liveBlocks s)\<rparr>) else (False, s))"

section \<open>Callbacks\<close>

text \<open>The static variable of the entropy source; the four bytes are stored with the lowest first.\<close>

definition mbedtls_hardware_poll :: "u32 \<Rightarrow> u8 list \<times> nat \<times> u32" where
  "mbedtls_hardware_poll random_number =
     (let r = random_number + 8
      in ([ucast r, ucast (drop_bit 8 r), ucast (drop_bit 16 r), ucast (drop_bit 24 r)], 4, r))"

text \<open>The result is the code of the module as a number.\<close>

definition rv_code :: "CK_RV \<Rightarrow> int" where
  "rv_code r =
     (case r of
        CKR_OK \<Rightarrow> 0 | CKR_HOST_MEMORY \<Rightarrow> 0x02 | CKR_GENERAL_ERROR \<Rightarrow> 0x05 | CKR_ARGUMENTS_BAD \<Rightarrow> 0x07
      | CKR_ATTRIBUTE_VALUE_INVALID \<Rightarrow> 0x13 | CKR_CURVE_NOT_SUPPORTED \<Rightarrow> 0x140 | CKR_DEVICE_MEMORY \<Rightarrow> 0x31
      | CKR_FUNCTION_NOT_SUPPORTED \<Rightarrow> 0x54 | CKR_KEY_HANDLE_INVALID \<Rightarrow> 0x60 | CKR_other c \<Rightarrow> sint c)"

definition prvGenerateRandomBytes :: "'w tls_env \<Rightarrow> TLSContext \<Rightarrow> nat \<Rightarrow> 'w token_state \<Rightarrow> (int \<times> u8 list \<times> 'w token_state) option" where
  "prvGenerateRandomBytes E ctx n s =
     checked (pxP11FunctionList ctx)
       (let (r, bytes, s) = on_token2 (random_bytes (modl E) (xP11Session ctx) n) s in (rv_code r, bytes, s))"

definition prvCheckCertificate :: int where
  "prvCheckCertificate = 0"

definition prvEntropyCallback :: "'w tls_env \<Rightarrow> TLSContext \<Rightarrow> nat \<Rightarrow> 'w \<Rightarrow> int \<times> u8 list \<times> 'w" where
  "prvEntropyCallback E ctx n w =
     (if xP11Session ctx \<noteq> CK_INVALID_HANDLE
      then (let (r, bytes, w) = random_bytes (modl E) (xP11Session ctx) n w
            in (if r = CKR_OK then 0 else MBEDTLS_ERR_ENTROPY_SOURCE_FAILED, bytes, w))
      else (MBEDTLS_ERR_ENTROPY_SOURCE_FAILED, [], w))"

text \<open>Signing what has been formatted: the code, the signature stored so far and the state.\<close>

definition sign_formatted ::
  "'w tls_env \<Rightarrow> TLSContext \<Rightarrow> sign_mechanism \<Rightarrow> u8 list \<Rightarrow> 'w token_state \<Rightarrow> CK_RV \<times> u8 list \<times> 'w token_state" where
  "sign_formatted E ctx mech bytes s =
     (let (r, s) = on_token (sign_init (modl E) (xP11Session ctx) mech (xP11PrivateKey ctx)) s
      in if r \<noteq> CKR_OK then (r, [], s)
         else
           (let (r, sig, s) = on_token2 (C_Sign (pkcs (modl E)) (xP11Session ctx) bytes) s
            in if r = CKR_OK \<and> xKeyType ctx = CKK_EC
               then if length sig = 64 then (r, to_mbed_signature (modl E) sig, s) else (CKR_FUNCTION_FAILED, sig, s)
               else (r, sig, s)))"

text \<open>
  \<open>hash\<close> has \<open>xHashLen\<close> bytes. The code of a hash longer than the 256 bytes of \<open>xToBeSigned\<close> is
  overwritten for an RSA key, and the copy of an EC key is made all the same. The RSA helper reads
  32 bytes. A null function list is undefined.
\<close>

definition prvPrivateKeySigningCallback ::
  "'w tls_env \<Rightarrow> TLSContext \<Rightarrow> u8 list \<Rightarrow> 'w token_state \<Rightarrow> (int \<times> u8 list \<times> 'w token_state) option" where
  "prvPrivateKeySigningCallback E ctx hash s =
     (let finish = (\<lambda>(r, sig, s). (if r \<noteq> CKR_OK then TLS_ERROR_SIGN else 0, sig, s));
          tooLong = (256 < length hash)
      in case xKeyType ctx of
           CKK_RSA \<Rightarrow>
             if length hash < 32 then None
             else (case append_SHA256_id (modl E) (take 32 hash) of
                     (CKR_OK, formatted) \<Rightarrow> checked (pxP11FunctionList ctx) (finish (sign_formatted E ctx CKM_RSA_PKCS formatted s))
                   | (r, _) \<Rightarrow> Some (finish (r, [], s)))
         | CKK_EC \<Rightarrow>
             if tooLong then None
             else checked (pxP11FunctionList ctx) (finish (sign_formatted E ctx CKM_ECDSA hash s))
         | _ \<Rightarrow> Some (finish (CKR_ARGUMENTS_BAD, [], s)))"

section \<open>Freeing a context\<close>

text \<open>
  A null context is left alone. Mbed TLS clears a context that it frees; a close notification is
  sent only by a context that has been set up.
\<close>

definition prvFreeContext :: "'w tls_env \<Rightarrow> 'w tls \<Rightarrow> 'w tls option" where
  "prvFreeContext E ts =
     (let (ctx, s) = ts;
          s = (if isSetup (settings ctx) then snd (on_token (ssl_close_notify (mtls E)) s) else s);
          s = s\<lparr>liveBlocks := liveBlocks s - length (live ctx)\<rparr>;
          freed = ctx\<lparr>live := [], settings := no_settings\<rparr>
      in if xP11Session ctx = CK_INVALID_HANDLE then Some (freed, s)
         else checked (pxP11FunctionList ctx)
                (freed\<lparr>xP11Session := CK_INVALID_HANDLE\<rparr>, snd (close_session (pkcs (modl E)) (xP11Session ctx) s)))"

definition TLS_Cleanup :: "'w tls_env \<Rightarrow> 'w tls \<Rightarrow> 'w tls option" where
  "TLS_Cleanup E ts = prvFreeContext E ts"

section \<open>Credentials\<close>

text \<open>A certificate of the module, through a heap block, into a context of Mbed TLS.\<close>

definition prvReadCertificateIntoContext ::
  "'w tls_env \<Rightarrow> string \<Rightarrow> CK_OBJECT_CLASS \<Rightarrow> mbed_context \<Rightarrow> 'w tls \<Rightarrow> (CK_RV \<times> 'w tls) option" where
  "prvReadCertificateIntoContext E label cls cert ts =
     (let (ctx, s) = ts; x = xP11Session ctx;
          (r, obj, s) = on_token2 (xFindObjectWithLabelAndClass (modl E) x (c_str label) cls) s;
          h = (case obj of Some y \<Rightarrow> y | None \<Rightarrow> 0);
          r = (if r = CKR_OK \<and> h = CK_INVALID_HANDLE then CKR_OBJECT_HANDLE_INVALID else r)
      in if r \<noteq> CKR_OK then Some (r, ctx, s)
         else if \<not> pxP11FunctionList ctx then None
         else
           (let (r, n, s) = on_token2 (value_length (modl E) x h) s
            in if r \<noteq> CKR_OK then Some (r, ctx, s)
               else
                 (let (allocated, s) = tls_malloc E n s
                  in if \<not> allocated then Some (CKR_HOST_MEMORY, ctx, s)
                     else
                       (let (r, bytes, s) = on_token2 (value_of (modl E) x h n) s
                        in if r \<noteq> CKR_OK then Some (r, ctx, vPortFree s)
                           else
                             (let (m, s) = on_token (parse_certificates (mtls E) cert bytes) s; (ctx, s) = hold cert (ctx, s)
                              in Some (if m \<noteq> 0 then CKR_FUNCTION_FAILED else CKR_OK, ctx, vPortFree s))))))"

text \<open>
  \<open>bind_ok\<close> chains steps that run only while the code is \<open>CKR_OK\<close>. The context for the client
  certificate is empty when it is initialised.
\<close>

definition bind_ok :: "(CK_RV \<times> 'w tls) option \<Rightarrow> ('w tls \<Rightarrow> (CK_RV \<times> 'w tls) option) \<Rightarrow> (CK_RV \<times> 'w tls) option" where
  "bind_ok m f = (case m of None \<Rightarrow> None | Some (r, ts) \<Rightarrow> if r = CKR_OK then f ts else Some (r, ts))"

definition log_in :: "'w tls_env \<Rightarrow> TLSHelperParams \<Rightarrow> 'w tls \<Rightarrow> (CK_RV \<times> 'w tls) option" where
  "log_in E params ts =
     (let (ctx, s) = ts
      in if xP11Session ctx = CK_INVALID_HANDLE then Some (CKR_SESSION_HANDLE_INVALID, ts)
         else case pcLoginPIN params of
                None \<Rightarrow> None
              | Some pin \<Rightarrow>
                  checked (pxP11FunctionList ctx)
                    (let (r, s) = on_token (C_Login (modl E) (xP11Session ctx) (c_str pin)) s in (r, ctx, s)))"

definition find_private_key :: "'w tls_env \<Rightarrow> TLSHelperParams \<Rightarrow> 'w tls \<Rightarrow> (CK_RV \<times> 'w tls) option" where
  "find_private_key E params ts =
     (let (ctx, s) = ts;
          (r, obj, s) = on_token2 (xFindObjectWithLabelAndClass (modl E) (xP11Session ctx)
             (c_str (pPrivateKeyLabel params)) CKO_PRIVATE_KEY) s;
          ctx = (case obj of Some y \<Rightarrow> ctx\<lparr>xP11PrivateKey := y\<rparr> | None \<Rightarrow> ctx)
      in Some (if r = CKR_OK \<and> xP11PrivateKey ctx = CK_INVALID_HANDLE then CKR_FUNCTION_FAILED else r, ctx, s))"

definition query_key_type :: "'w tls_env \<Rightarrow> 'w tls \<Rightarrow> (CK_RV \<times> 'w tls) option" where
  "query_key_type E ts =
     (let (ctx, s) = ts
      in checked (pxP11FunctionList ctx)
           (let (r, kt, s) = on_token2 (get_key_type (modl E) (xP11Session ctx) (xP11PrivateKey ctx)) s;
                ctx = (case kt of Some k \<Rightarrow> ctx\<lparr>xKeyType := k\<rparr> | None \<Rightarrow> ctx)
            in (r, ctx, s)))"

text \<open>The key type decides which algorithm of Mbed TLS gets the signing callback.\<close>

definition install_signer :: "'w tls \<Rightarrow> (CK_RV \<times> 'w tls) option" where
  "install_signer ts =
     (let (ctx, s) = ts
      in if xKeyType ctx \<in> {CKK_RSA, CKK_EC} then Some (CKR_OK, ctx\<lparr>signerInstalled := True\<rparr>, s)
         else Some (CKR_ATTRIBUTE_VALUE_INVALID, ts))"

text \<open>The number Mbed TLS returns is stored as a code of the module.\<close>

definition attach_certificate :: "'w tls_env \<Rightarrow> 'w tls \<Rightarrow> (CK_RV \<times> 'w tls) option" where
  "attach_certificate E ts =
     (let (ctx, s) = ts; (m, s) = on_token (conf_own_cert (mtls E)) s; (ctx, s) = hold MbedSslConfig (ctx, s)
      in Some (if m = 0 then CKR_OK else CKR_other (word_of_int m),
               if m = 0 then ctx\<lparr>settings := (settings ctx)\<lparr>ownCertificate := True\<rparr>\<rparr> else ctx, s))"

definition prvInitializeClientCredential ::
  "'w tls_env \<Rightarrow> TLSHelperParams \<Rightarrow> 'w tls \<Rightarrow> (CK_RV \<times> 'w tls) option" where
  "prvInitializeClientCredential E params ts =
     bind_ok (bind_ok (bind_ok (bind_ok (bind_ok (log_in E params ts)
       (find_private_key E params)) (query_key_type E)) install_signer)
       (prvReadCertificateIntoContext E (pClientCertLabel params) CKO_CERTIFICATE MbedX509Cli))
       (attach_certificate E)"

section \<open>Initialising a context\<close>

text \<open>Root certificates are parsed one after the other until one fails.\<close>

fun parse_roots :: "'w tls_env \<Rightarrow> u8 list list \<Rightarrow> 'w tls \<Rightarrow> int \<times> 'w tls" where
  "parse_roots E [] ts = (0, ts)"
| "parse_roots E (c # cs) ts =
     (let (ctx, s) = ts; (m, s) = on_token (parse_certificates (mtls E) MbedX509CA c) s; ts = hold MbedX509CA (ctx, s)
      in if m = 0 then parse_roots E cs ts else (m, ts))"

definition parseDefaultRootCA :: "'w tls_env \<Rightarrow> 'w tls \<Rightarrow> int \<times> 'w tls" where
  "parseDefaultRootCA E ts = parse_roots E (default_roots (mtls E)) ts"

text \<open>\<open>bind_true\<close> chains the steps of \<open>TLS_Init\<close>, which run only while the result is \<open>pdTRUE\<close>.\<close>

definition bind_true :: "(bool \<times> 'w tls) option \<Rightarrow> ('w tls \<Rightarrow> (bool \<times> 'w tls) option) \<Rightarrow> (bool \<times> 'w tls) option" where
  "bind_true m f = (case m of None \<Rightarrow> None | Some (b, ts) \<Rightarrow> if b then f ts else Some (b, ts))"

text \<open>A failure to get the function list does not end the initialisation; the session stays invalid.\<close>

definition start_session :: "'w tls_env \<Rightarrow> 'w token_state \<Rightarrow> (bool \<times> 'w tls) option" where
  "start_session E s =
     (let (r, listed, s) = on_token2 (C_GetFunctionList (pkcs (modl E))) s;
          ctx = zero_context\<lparr>pxP11FunctionList := listed\<rparr>
      in if r \<noteq> CKR_OK then Some (True, ctx, s)
         else
           (let (r, h, s) = open_session (pkcs (modl E)) s;
                ctx = ctx\<lparr>xP11Session := (case h of Some y \<Rightarrow> y | None \<Rightarrow> 0)\<rparr>
            in Some (r = CKR_OK \<or> r = CKR_CRYPTOKI_ALREADY_INITIALIZED, ctx, s)))"

text \<open>The callback uses the function list when there is a session.\<close>

definition seed_generator :: "'w tls_env \<Rightarrow> 'w tls \<Rightarrow> (bool \<times> 'w tls) option" where
  "seed_generator E ts =
     (let (ctx, s) = ts
      in if xP11Session ctx \<noteq> CK_INVALID_HANDLE \<and> \<not> pxP11FunctionList ctx then None
         else
           (let (m, s) = on_token (drbg_seed (mtls E) (prvEntropyCallback E ctx)) s
            in Some (m = 0, hold MbedDrbgCtx (ctx, s))))"

definition trust_server :: "'w tls_env \<Rightarrow> TLSHelperParams \<Rightarrow> 'w tls \<Rightarrow> (bool \<times> 'w tls) option" where
  "trust_server E params ts =
     (case pcServerCertificate params of
        Some c \<Rightarrow> (let (m, ts) = parse_roots E [c] ts in Some (m = 0, ts))
      | None \<Rightarrow> (let (m, ts) = parseDefaultRootCA E ts in Some (m = 0, ts)))"

definition configure :: "'w tls_env \<Rightarrow> 'w tls \<Rightarrow> (bool \<times> 'w tls) option" where
  "configure E ts =
     (let (ctx, s) = ts; (m, s) = on_token (config_defaults (mtls E)) s; (ctx, s) = hold MbedSslConfig (ctx, s)
      in if m \<noteq> 0 then Some (False, ctx, s)
         else Some (True, ctx\<lparr>settings := (settings ctx)\<lparr>verifyCallback := True, verifyRequired := True,
                     randomCallback := True, caChain := True, certProfile := True\<rparr>\<rparr>, s))"

definition set_credentials :: "'w tls_env \<Rightarrow> TLSHelperParams \<Rightarrow> 'w tls \<Rightarrow> (bool \<times> 'w tls) option" where
  "set_credentials E params ts =
     (case prvInitializeClientCredential E params ts of
        None \<Rightarrow> None
      | Some (r, ts) \<Rightarrow> Some (r = CKR_OK, ts))"

definition set_alpn :: "'w tls_env \<Rightarrow> TLSHelperParams \<Rightarrow> 'w tls \<Rightarrow> (bool \<times> 'w tls) option" where
  "set_alpn E params ts =
     (case pcAlpnProtocols params of
        None \<Rightarrow> Some (True, ts)
      | Some ps \<Rightarrow>
          (let (ctx, s) = ts; (m, s) = on_token (conf_alpn_protocols (mtls E) ps) s
           in Some (m = 0, if m = 0 then ctx\<lparr>settings := (settings ctx)\<lparr>alpnProtocols := Some ps\<rparr>\<rparr> else ctx, s)))"

definition set_destination :: "'w tls_env \<Rightarrow> TLSHelperParams \<Rightarrow> 'w tls \<Rightarrow> (bool \<times> 'w tls) option" where
  "set_destination E params ts =
     (case pcDestination params of
        None \<Rightarrow> Some (True, ts)
      | Some d \<Rightarrow>
          (let (ctx, s) = ts; (m, s) = on_token (set_hostname (mtls E) (c_str d)) s; (ctx, s) = hold MbedSslCtx (ctx, s)
           in Some (m = 0, if m = 0 then ctx\<lparr>settings := (settings ctx)\<lparr>hostname := Some (c_str d)\<rparr>\<rparr> else ctx, s)))"

definition limit_fragments :: "'w tls_env \<Rightarrow> 'w tls \<Rightarrow> (bool \<times> 'w tls) option" where
  "limit_fragments E ts =
     (case conf_max_frag_len (mtls E) of
        None \<Rightarrow> Some (True, ts)
      | Some f \<Rightarrow> (let (ctx, s) = ts; (m, s) = on_token f s in Some (m = 0, ctx, s)))"

definition set_up :: "'w tls_env \<Rightarrow> 'w tls \<Rightarrow> (bool \<times> 'w tls) option" where
  "set_up E ts =
     (let (ctx, s) = ts; (m, s) = on_token (ssl_setup (mtls E)) s; (ctx, s) = hold MbedSslCtx (ctx, s)
      in if m \<noteq> 0 then Some (False, ctx, s)
         else Some (True, ctx\<lparr>settings := (settings ctx)\<lparr>isSetup := True, bioSet := True\<rparr>\<rparr>, s))"

definition after_session :: "'w tls_env \<Rightarrow> TLSHelperParams \<Rightarrow> 'w tls \<Rightarrow> (bool \<times> 'w tls) option" where
  "after_session E params ts =
     bind_true (bind_true (bind_true (bind_true (bind_true (bind_true (bind_true (seed_generator E ts)
       (trust_server E params)) (configure E)) (set_credentials E params)) (set_alpn E params))
       (set_destination E params)) (limit_fragments E)) (set_up E)"

definition init_steps :: "'w tls_env \<Rightarrow> TLSHelperParams \<Rightarrow> 'w token_state \<Rightarrow> (bool \<times> 'w tls) option" where
  "init_steps E params s = bind_true (start_session E s) (after_session E params)"

text \<open>
  \<open>None\<close> as context is a null pointer. After a failure the context is freed and filled with zeros.
\<close>

definition TLS_Init ::
  "'w tls_env \<Rightarrow> TLSHelperParams \<Rightarrow> TLSContext option \<Rightarrow> 'w token_state \<Rightarrow>
   (bool \<times> TLSContext option \<times> 'w token_state) option" where
  "TLS_Init E params pxContext s =
     (case pxContext of
        None \<Rightarrow> Some (False, None, s)
      | Some _ \<Rightarrow>
          (case init_steps E params s of
             None \<Rightarrow> None
           | Some (True, ctx, s) \<Rightarrow> Some (True, Some ctx, s)
           | Some (False, ts) \<Rightarrow>
               (case prvFreeContext E ts of None \<Rightarrow> None | Some (_, s) \<Rightarrow> Some (False, Some zero_context, s))))"

section \<open>Handshake and data\<close>

text \<open>The handshake is repeated as long as it waits for the transport, which may be for ever.\<close>

partial_function (option) handshake_loop :: "'w tls_env \<Rightarrow> 'w token_state \<Rightarrow> (int \<times> 'w token_state) option" where
  "handshake_loop E s =
     (let (r, s) = on_token (ssl_handshake (mtls E)) s
      in if r = MBEDTLS_ERR_SSL_WANT_READ \<or> r = MBEDTLS_ERR_SSL_WANT_WRITE then handshake_loop E s else Some (r, s))"

definition TLS_Connect :: "'w tls_env \<Rightarrow> 'w tls \<Rightarrow> (int \<times> 'w tls) option" where
  "TLS_Connect E ts =
     (case handshake_loop E (snd ts) of
        None \<Rightarrow> None
      | Some (r, s) \<Rightarrow>
          if r = 0 then Some (0, fst ts, s)
          else (case prvFreeContext E (fst ts, s) of None \<Rightarrow> None | Some ts \<Rightarrow> Some (r, ts)))"

text \<open>The bytes read so far; a round that waits has read nothing.\<close>

partial_function (option) recv_loop ::
  "'w tls_env \<Rightarrow> nat \<Rightarrow> u8 list \<times> 'w token_state \<Rightarrow> (int \<times> u8 list \<times> 'w token_state) option" where
  "recv_loop E xReadLength t =
     (let (acc, s) = t;
          (r, bytes, s) = on_token2 (ssl_read (mtls E) (xReadLength - length acc)) s;
          acc = (if r > 0 then acc @ take (nat r) bytes else acc)
      in if r = MBEDTLS_ERR_SSL_WANT_READ then recv_loop E xReadLength (acc, s) else Some (r, acc, s))"

text \<open>The number of bytes or an error, the bytes, and the context: \<open>None\<close> is a null pointer.\<close>

definition TLS_Recv ::
  "'w tls_env \<Rightarrow> TLSContext option \<Rightarrow> nat \<Rightarrow> 'w token_state \<Rightarrow>
   (int \<times> u8 list \<times> TLSContext option \<times> 'w token_state) option" where
  "TLS_Recv E pxContext xReadLength s =
     (case pxContext of
        None \<Rightarrow> Some (MBEDTLS_ERR_SSL_INTERNAL_ERROR, [], None, s)
      | Some ctx \<Rightarrow>
          (case recv_loop E xReadLength ([], s) of
             None \<Rightarrow> None
           | Some (r, bytes, s) \<Rightarrow>
               if r \<ge> 0 then Some (int (length bytes), bytes, Some ctx, s)
               else (case prvFreeContext E (ctx, s) of None \<Rightarrow> None | Some (ctx, s) \<Rightarrow> Some (r, bytes, Some ctx, s))))"

text \<open>
  The last result, the bytes written, whether the loop ended with a hard error, and the state. A
  round writes at least one byte or is the last one.
\<close>

function send_loop :: "'w tls_env \<Rightarrow> u8 list \<Rightarrow> int \<Rightarrow> nat \<Rightarrow> 'w token_state \<Rightarrow> int \<times> nat \<times> bool \<times> 'w token_state" where
  "send_loop E msg result xWritten s =
     (if xWritten < length msg
      then (let (r, s) = on_token (ssl_write (mtls E) (drop xWritten msg)) s
            in if r > 0 then send_loop E msg r (xWritten + nat r) s
               else if r = 0 \<or> r = MBEDTLS_ERR_SSL_WANT_WRITE then (0, xWritten, False, s)
               else (r, xWritten, True, s))
      else (result, xWritten, False, s))"
  by pat_completeness auto

termination
  by (relation "measure (\<lambda>(E, msg, result, xWritten, s). length msg - xWritten)") auto

declare send_loop.simps [simp del]

definition TLS_Send ::
  "'w tls_env \<Rightarrow> TLSContext option \<Rightarrow> u8 list \<Rightarrow> 'w token_state \<Rightarrow> (int \<times> TLSContext option \<times> 'w token_state) option" where
  "TLS_Send E pxContext msg s =
     (case pxContext of
        None \<Rightarrow> Some (MBEDTLS_ERR_SSL_INTERNAL_ERROR, None, s)
      | Some ctx \<Rightarrow>
          (let (r, n, failed, s) = send_loop E msg 0 0 s
           in if failed
              then (case prvFreeContext E (ctx, s) of None \<Rightarrow> None | Some (ctx, s) \<Rightarrow> Some (r, Some ctx, s))
              else Some (if 0 \<le> r then int n else r, Some ctx, s)))"

end
