(* ===== verification/Tls_Properties.thy ===== *)
theory Tls_Properties
  imports Tls
begin

text \<open>
  The TLS layer: what a context that was initialised successfully guarantees, the sessions and heap
  blocks over the life of a connection, the bytes handed to the peer, and the signing callback.
\<close>

section \<open>Sessions and blocks\<close>

text \<open>
  The module gives a valid handle exactly when it opens a session, stores the function list when it
  says so, and closes the sessions it is asked to close.
\<close>

definition module_ok :: "'w tls_env \<Rightarrow> bool" where
  "module_ok E \<longleftrightarrow>
     (\<forall>w r h w'. xInitializePkcs11Session (pkcs (modl E)) w = (r, h, w') \<longrightarrow>
        (if r = CKR_OK then \<exists>y. h = Some y \<and> y \<noteq> CK_INVALID_HANDLE else h = None)) \<and>
     (\<forall>w w'. \<forall>listed. C_GetFunctionList (pkcs (modl E)) w = (CKR_OK, listed, w') \<longrightarrow> listed) \<and>
     (\<forall>x w. fst (C_CloseSession (pkcs (modl E)) x w) = CKR_OK)"

text \<open>Beyond \<open>n\<close> sessions and \<open>b\<close> blocks, exactly what the context holds is in use.\<close>

definition accounts :: "nat \<Rightarrow> nat \<Rightarrow> 'w tls \<Rightarrow> bool" where
  "accounts n b ts \<longleftrightarrow>
     openSessions (snd ts) = n + of_bool (xP11Session (fst ts) \<noteq> CK_INVALID_HANDLE) \<and>
     liveBlocks (snd ts) = b + length (live (fst ts))"

lemma accounts_token [simp]:
  "accounts n b (ctx, snd (on_token f s)) = accounts n b (ctx, s)"
  "accounts n b (ctx, snd (snd (on_token2 g s))) = accounts n b (ctx, s)"
  by (simp_all add: accounts_def)

lemma accounts_hold [simp]: "accounts n b (hold c ts) = accounts n b ts"
  by (auto simp: accounts_def hold_def split_beta)

lemma accounts_update [simp]:
  "accounts n b (ctx\<lparr>settings := x\<rparr>, s) = accounts n b (ctx, s)"
  "accounts n b (ctx\<lparr>signerInstalled := y\<rparr>, s) = accounts n b (ctx, s)"
  "accounts n b (ctx\<lparr>xP11PrivateKey := h\<rparr>, s) = accounts n b (ctx, s)"
  "accounts n b (ctx\<lparr>xKeyType := k\<rparr>, s) = accounts n b (ctx, s)"
  by (simp_all add: accounts_def)

lemma accounts_malloc:
  "tls_malloc E m s = (a, s') \<Longrightarrow> accounts n b (ctx, s) \<Longrightarrow> accounts n (if a then b + 1 else b) (ctx, s')"
  by (auto simp: tls_malloc_def accounts_def split: if_splits)

lemma accounts_free: "accounts n (b + 1) ts \<Longrightarrow> accounts n b (fst ts, vPortFree (snd ts))"
  by (simp add: accounts_def vPortFree_def)

lemma accounts_step:
  "on_token f s = (r, s') \<Longrightarrow> accounts n b (ctx, s) \<Longrightarrow> accounts n b (ctx, s')"
  "on_token2 g s = (q, x, s') \<Longrightarrow> accounts n b (ctx, s) \<Longrightarrow> accounts n b (ctx, s')"
  using accounts_token(1) [of n b ctx f s] accounts_token(2) [of n b ctx g s] by auto

lemma read_certificate_accounts:
  assumes "prvReadCertificateIntoContext E l cl c ts = Some (r, ts')" and "accounts n b ts"
  shows "accounts n b ts'"
proof -
  obtain ctx s where ts: "ts = (ctx, s)" by fastforce
  obtain r1 obj s1 where 1: "on_token2 (xFindObjectWithLabelAndClass (modl E) (xP11Session ctx) (c_str l) cl) s = (r1, obj, s1)"
    by (metis prod_cases3)
  define h where "h = (case obj of Some y \<Rightarrow> y | None \<Rightarrow> 0)"
  obtain r2 m s2 where 2: "on_token2 (value_length (modl E) (xP11Session ctx) h) s1 = (r2, m, s2)" by (metis prod_cases3)
  obtain a s3 where 3: "tls_malloc E m s2 = (a, s3)" by fastforce
  obtain r4 bytes s4 where 4: "on_token2 (value_of (modl E) (xP11Session ctx) h m) s3 = (r4, bytes, s4)" by (metis prod_cases3)
  obtain p s5 where 5: "on_token (parse_certificates (mtls E) c bytes) s4 = (p, s5)" by fastforce
  obtain ctx6 s6 where 6: "hold c (ctx, s5) = (ctx6, s6)" by fastforce
  have a2: "accounts n b (ctx, s1)" "accounts n b (ctx, s2)"
    using assms(2) accounts_step(2) [OF 1] accounts_step(2) [OF 2] by (auto simp: ts)
  have a4: "accounts n (b + 1) (ctx, s4)" if a
    using accounts_step(2) [OF 4] accounts_malloc [OF 3 a2(2)] that by simp
  have a6: "accounts n (b + 1) (ctx6, s6)" if a
    using accounts_step(1) [OF 5 a4 [OF that]] by (simp flip: 6)
  show ?thesis
    using assms(1) a2 accounts_malloc [OF 3 a2(2)] accounts_free [OF a4] accounts_free [OF a6]
    by (auto simp: prvReadCertificateIntoContext_def ts 1 h_def [symmetric] 2 3 4 5 6 Let_def split: if_splits)
qed

text \<open>A step that keeps the account, whatever its result.\<close>

definition neutral :: "('w tls \<Rightarrow> ('r \<times> 'w tls) option) \<Rightarrow> bool" where
  "neutral f \<longleftrightarrow> (\<forall>n b ts r ts'. f ts = Some (r, ts') \<longrightarrow> accounts n b ts \<longrightarrow> accounts n b ts')"

lemma neutralD: "neutral f \<Longrightarrow> f ts = Some (r, ts') \<Longrightarrow> accounts n b ts \<Longrightarrow> accounts n b ts'"
  unfolding neutral_def by blast

named_theorems neutral_steps \<open>steps that keep the account\<close>

lemma neutral_bind_ok [neutral_steps]:
  assumes f: "neutral f" and g: "neutral g"
  shows "neutral (\<lambda>ts. bind_ok (f ts) g)"
  unfolding neutral_def
proof (intro allI impI)
  fix n b ts r ts' assume run: "bind_ok (f ts) g = Some (r, ts')" and acc: "accounts n b ts"
  obtain r1 ts1 where 1: "f ts = Some (r1, ts1)" using run by (auto simp: bind_ok_def split: option.splits)
  with run have "r1 = CKR_OK \<and> g ts1 = Some (r, ts') \<or> ts' = ts1" by (auto simp: bind_ok_def split: if_splits)
  then show "accounts n b ts'" using neutralD [OF f 1 acc] neutralD [OF g] by blast
qed

lemma neutral_bind_true [neutral_steps]:
  assumes f: "neutral f" and g: "neutral g"
  shows "neutral (\<lambda>ts. bind_true (f ts) g)"
  unfolding neutral_def
proof (intro allI impI)
  fix n b ts r ts' assume run: "bind_true (f ts) g = Some (r, ts')" and acc: "accounts n b ts"
  obtain r1 ts1 where 1: "f ts = Some (r1, ts1)" using run by (auto simp: bind_true_def split: option.splits)
  with run have "r1 \<and> g ts1 = Some (r, ts') \<or> ts' = ts1" by (auto simp: bind_true_def split: if_splits)
  then show "accounts n b ts'" using neutralD [OF f 1 acc] neutralD [OF g] by blast
qed

lemma neutral_read [neutral_steps]: "neutral (prvReadCertificateIntoContext E l cl c)"
  using read_certificate_accounts unfolding neutral_def by blast

lemma neutral_credentials [neutral_steps]:
  "neutral (log_in E q)" "neutral (find_private_key E q)" "neutral (query_key_type E)" "neutral install_signer"
  "neutral (attach_certificate E)"
  unfolding neutral_def log_in_def find_private_key_def query_key_type_def install_signer_def attach_certificate_def
  by (auto simp: Let_def split_beta split: if_splits option.splits)

lemma neutral_set_credentials [neutral_steps]: "neutral (set_credentials E q)"
proof -
  have "neutral (prvInitializeClientCredential E q)"
    unfolding prvInitializeClientCredential_def by (intro neutral_steps)
  then show ?thesis by (auto simp: neutral_def set_credentials_def split: option.splits)
qed

lemma accounts_roots: "accounts n b (snd (parse_roots E cs ts)) = accounts n b ts"
proof (induction cs arbitrary: ts)
  case (Cons c cs)
  then show ?case by (cases ts) (simp add: Let_def split_beta)
qed simp

lemma neutral_init [neutral_steps]:
  "neutral (seed_generator E)" "neutral (trust_server E q)" "neutral (configure E)" "neutral (set_alpn E q)"
  "neutral (set_destination E q)" "neutral (limit_fragments E)" "neutral (set_up E)"
proof -
  have "ts' = snd (parse_roots E (case pcServerCertificate q of Some c \<Rightarrow> [c] | None \<Rightarrow> default_roots (mtls E)) ts)"
    if "trust_server E q ts = Some (r, ts')" for ts r ts'
    using that by (cases "pcServerCertificate q")
      (simp_all add: trust_server_def parseDefaultRootCA_def split_beta del: parse_roots.simps)
  then show "neutral (trust_server E q)" unfolding neutral_def using accounts_roots by metis
qed (unfold neutral_def seed_generator_def configure_def set_alpn_def set_destination_def limit_fragments_def set_up_def,
  (auto simp: Let_def split_beta split: if_splits option.splits; metis accounts_hold accounts_token(1))+)

lemma neutral_after_session: "neutral (after_session E q)"
  unfolding after_session_def by (intro neutral_steps)

lemma start_accounts:
  assumes "module_ok E" and "start_session E s = Some (r, ts)"
  shows "accounts (openSessions s) (liveBlocks s) ts"
proof -
  obtain r1 l s1 where 1: "on_token2 (C_GetFunctionList (pkcs (modl E))) s = (r1, l, s1)" by (metis prod_cases3)
  obtain r2 h s2 where 2: "open_session (pkcs (modl E)) s1 = (r2, h, s2)" by (metis prod_cases3)
  have h: "if r2 = CKR_OK then \<exists>y. h = Some y \<and> y \<noteq> CK_INVALID_HANDLE else h = None"
  proof -
    obtain w' where "xInitializePkcs11Session (pkcs (modl E)) (token s1) = (r2, h, w')"
      using 2 by (auto simp: open_session_def on_token2_def Let_def split: prod.splits)
    then show ?thesis using assms(1) unfolding module_ok_def by blast
  qed
  show ?thesis
    using assms(2) on_token2_frame [OF 1] open_session_frame [OF 2] h
    by (cases "r2 = CKR_OK") (auto simp: start_session_def Let_def 1 2 accounts_def zero_context_def split: if_splits)
qed

lemma init_accounts:
  assumes "module_ok E" and "init_steps E q s = Some (r, ts)"
  shows "accounts (openSessions s) (liveBlocks s) ts"
proof -
  obtain r1 ts1 where 1: "start_session E s = Some (r1, ts1)"
    using assms(2) by (auto simp: init_steps_def bind_true_def split: option.splits)
  then have "(if r1 then after_session E q ts1 else Some (r1, ts1)) = Some (r, ts)"
    using assms(2) by (simp add: init_steps_def bind_true_def)
  then show ?thesis
    using start_accounts [OF assms(1) 1] neutralD [OF neutral_after_session, of E q ts1 r ts] by (cases r1) simp_all
qed

text \<open>A freed context holds nothing, and what it held is given back.\<close>

lemma free_context:
  assumes "module_ok E" and "prvFreeContext E ts = Some ts'" and "accounts n b ts"
  shows "openSessions (snd ts') = n \<and> liveBlocks (snd ts') = b \<and> accounts n b ts'"
proof -
  have close: "fst (C_CloseSession (pkcs (modl E)) x w) = CKR_OK" for x w using assms(1) by (simp add: module_ok_def)
  show ?thesis
    using assms(2,3)
    by (cases ts) (auto simp: prvFreeContext_def accounts_def Let_def close_session_def on_token_def close split_beta
        split: if_splits)
qed

section \<open>The life of a connection\<close>

datatype tls_use = Handshake | Read nat | Write "u8 list"

definition use_tls :: "'w tls_env \<Rightarrow> tls_use \<Rightarrow> 'w tls \<Rightarrow> (int \<times> 'w tls) option" where
  "use_tls E u ts =
     (let (ctx, s) = ts
      in case u of
           Handshake \<Rightarrow> TLS_Connect E ts
         | Read n \<Rightarrow> (case TLS_Recv E (Some ctx) n s of Some (r, _, Some ctx, s) \<Rightarrow> Some (r, ctx, s) | _ \<Rightarrow> None)
         | Write msg \<Rightarrow> (case TLS_Send E (Some ctx) msg s of Some (r, Some ctx, s) \<Rightarrow> Some (r, ctx, s) | _ \<Rightarrow> None))"

fun use_all :: "'w tls_env \<Rightarrow> tls_use list \<Rightarrow> 'w tls \<Rightarrow> 'w tls option" where
  "use_all E [] ts = Some ts"
| "use_all E (u # us) ts = (case use_tls E u ts of None \<Rightarrow> None | Some (_, ts) \<Rightarrow> use_all E us ts)"

lemma handshake_counts:
  "handshake_loop E s = Some y \<Longrightarrow> openSessions (snd y) = openSessions s \<and> liveBlocks (snd y) = liveBlocks s"
proof (induction E s y rule: handshake_loop.raw_induct [rotated, consumes 1])
  case (1 f E s y)
  note IH = "1"(1) and body = "1"(2)
  obtain r s1 where h: "on_token (ssl_handshake (mtls E)) s = (r, s1)" by fastforce
  then show ?case using body IH [of E s1 y] on_token_frame [OF h] by (auto split: if_splits)
qed

lemma recv_counts:
  "recv_loop E n t = Some y \<Longrightarrow>
   openSessions (snd (snd y)) = openSessions (snd t) \<and> liveBlocks (snd (snd y)) = liveBlocks (snd t)"
proof (induction E n t y rule: recv_loop.raw_induct [rotated, consumes 1])
  case (1 f E n t y)
  note IH = "1"(1) and body = "1"(2)
  obtain acc s where t: "t = (acc, s)" by fastforce
  obtain r bytes s1 where h: "on_token2 (ssl_read (mtls E) (n - length acc)) s = (r, bytes, s1)" by (metis prod_cases3)
  show ?case using body IH [of E n _ y] on_token2_frame [OF h] by (auto simp: t h Let_def split: if_splits)
qed

lemma send_counts:
  "openSessions (snd (snd (snd (send_loop E msg r k s)))) = openSessions s \<and>
   liveBlocks (snd (snd (snd (send_loop E msg r k s)))) = liveBlocks s"
proof (induction E msg r k s rule: send_loop.induct)
  case (1 E msg r k s)
  obtain r1 s1 where h: "on_token (ssl_write (mtls E) (drop k msg)) s = (r1, s1)" by fastforce
  then show ?case
    using 1 [OF _ h [symmetric] refl] on_token_frame [OF h] by (subst (1 2) send_loop.simps) (auto simp: Let_def)
qed

lemma use_accounts:
  assumes m: "module_ok E" and u: "use_tls E u ts = Some (r, ts')" and a: "accounts n b ts"
  shows "accounts n b ts'"
proof -
  obtain ctx s where ts: "ts = (ctx, s)" by fastforce
  have moved: "accounts n b (ctx, s')" if "openSessions s' = openSessions s" "liveBlocks s' = liveBlocks s" for s'
    using a that by (simp add: accounts_def ts)
  have freed: "accounts n b z" if "prvFreeContext E (ctx, s') = Some z" "accounts n b (ctx, s')" for s' z
    using free_context [OF m that] by simp
  show ?thesis
  proof (cases u)
    case Handshake
    obtain q s1 where l: "handshake_loop E s = Some (q, s1)"
      using u by (auto simp: use_tls_def ts Handshake TLS_Connect_def split: option.splits)
    have "accounts n b (ctx, s1)" using moved [of s1] handshake_counts [OF l] by simp
    moreover have "ts' = (ctx, s1) \<or> prvFreeContext E (ctx, s1) = Some ts'"
      using u by (auto simp: use_tls_def ts Handshake TLS_Connect_def l split: option.splits if_splits)
    ultimately show ?thesis using freed by blast
  next
    case (Read k)
    obtain q bytes s1 where l: "recv_loop E k ([], s) = Some (q, bytes, s1)"
      using u by (auto simp: use_tls_def ts Read TLS_Recv_def split: option.splits)
    have "accounts n b (ctx, s1)" using moved [of s1] recv_counts [OF l] by simp
    moreover have "ts' = (ctx, s1) \<or> prvFreeContext E (ctx, s1) = Some ts'"
      using u by (auto simp: use_tls_def ts Read TLS_Recv_def l split: option.splits if_splits)
    ultimately show ?thesis using freed by blast
  next
    case (Write msg)
    obtain q k failed s1 where l: "send_loop E msg 0 0 s = (q, k, failed, s1)" by (metis prod_cases4)
    have "accounts n b (ctx, s1)" using moved [of s1] send_counts [of E msg 0 0 s] by (simp add: l)
    moreover have "ts' = (ctx, s1) \<or> prvFreeContext E (ctx, s1) = Some ts'"
      using u by (auto simp: use_tls_def ts Write TLS_Send_def l split: option.splits if_splits)
    ultimately show ?thesis using freed by blast
  qed
qed

lemma use_all_accounts:
  "module_ok E \<Longrightarrow> use_all E us ts = Some ts' \<Longrightarrow> accounts n b ts \<Longrightarrow> accounts n b ts'"
  by (induction us arbitrary: ts) (auto split: option.splits dest: use_accounts)

text \<open>C19: A failed initialisation gives back every session and block it took; after a successful one, whatever
  is sent and received and whatever errors free the context on the way, the clean-up gives back the rest.\<close>

theorem tls_resources_returned:
  assumes "module_ok E" and "TLS_Init E q (Some c) s = Some (ok, Some ctx, s1)"
    and "ok \<Longrightarrow> use_all E us (ctx, s1) = Some ts \<and> TLS_Cleanup E ts = Some (ctx', s2)"
  shows "if ok then openSessions s2 = openSessions s \<and> liveBlocks s2 = liveBlocks s
         else openSessions s1 = openSessions s \<and> liveBlocks s1 = liveBlocks s \<and> ctx = zero_context"
proof (cases ok)
  case True
  then have "init_steps E q s = Some (True, ctx, s1)"
    using assms(2) by (auto simp: TLS_Init_def split: option.splits bool.splits prod.splits)
  then have "accounts (openSessions s) (liveBlocks s) (ctx, s1)" by (rule init_accounts [OF assms(1)])
  then have "accounts (openSessions s) (liveBlocks s) ts" using use_all_accounts [OF assms(1)] assms(3) True by blast
  then show ?thesis using free_context [OF assms(1), of ts "(ctx', s2)"] assms(3) True by (simp add: TLS_Cleanup_def)
next
  case False
  then obtain ts2 ts' where "init_steps E q s = Some (False, ts2)" "prvFreeContext E ts2 = Some ts'"
    "s1 = snd ts'" "ctx = zero_context"
    using assms(2) by (auto simp: TLS_Init_def split: option.splits bool.splits prod.splits)
  then show ?thesis
    using free_context [OF assms(1) _ init_accounts [OF assms(1)], of ts2 ts' q s False] False by simp
qed

section \<open>A context that was initialised\<close>

text \<open>The generator is seeded only with the help of the entropy callback.\<close>

definition seeding_needs_entropy :: "'w tls_env \<Rightarrow> bool" where
  "seeding_needs_entropy E \<longleftrightarrow>
     (\<forall>f w. fst (drbg_seed (mtls E) f w) = 0 \<longrightarrow> (\<exists>n w'. fst (f n w') = 0))"

lemma bind_true_True [simp]:
  "bind_true m f = Some (True, ts) \<longleftrightarrow> (\<exists>ts1. m = Some (True, ts1) \<and> f ts1 = Some (True, ts))"
  by (auto simp: bind_true_def split: option.splits)

lemma bind_ok_OK [simp]:
  "bind_ok m f = Some (CKR_OK, ts) \<longleftrightarrow> (\<exists>ts1. m = Some (CKR_OK, ts1) \<and> f ts1 = Some (CKR_OK, ts))"
  by (auto simp: bind_ok_def split: option.splits)

text \<open>The parts of a context that decide what a connection does.\<close>

definition visible :: "'w tls \<Rightarrow> ssl_settings \<times> bool \<times> handle \<times> handle \<times> CK_KEY_TYPE" where
  "visible ts = (settings (fst ts), signerInstalled (fst ts), xP11Session (fst ts), xP11PrivateKey (fst ts), xKeyType (fst ts))"

lemma visible_hold [simp]: "visible (hold c ts) = visible ts"
  by (simp add: visible_def hold_def split_beta)

lemma fst_hold [simp]:
  "settings (fst (hold c ts)) = settings (fst ts)" "signerInstalled (fst (hold c ts)) = signerInstalled (fst ts)"
  "xP11Session (fst (hold c ts)) = xP11Session (fst ts)" "xP11PrivateKey (fst (hold c ts)) = xP11PrivateKey (fst ts)"
  "xKeyType (fst (hold c ts)) = xKeyType (fst ts)"
  by (simp_all add: hold_def split_beta)

lemma visible_roots: "visible (snd (parse_roots E cs ts)) = visible ts"
proof (induction cs arbitrary: ts)
  case (Cons c cs)
  then show ?case by (cases ts) (simp add: Let_def split_beta visible_def)
qed simp

lemma visible_trust: "trust_server E q ts = Some (r, ts') \<Longrightarrow> visible ts' = visible ts"
  using visible_roots [of E _ ts]
  by (cases "pcServerCertificate q") (auto simp: trust_server_def parseDefaultRootCA_def split_beta simp del: parse_roots.simps)

lemma visible_seed:
  assumes "seeding_needs_entropy E" and "seed_generator E ts = Some (True, ts')"
  shows "visible ts' = visible ts \<and> xP11Session (fst ts) \<noteq> CK_INVALID_HANDLE"
proof -
  obtain ctx s where ts: "ts = (ctx, s)" by fastforce
  have "fst (drbg_seed (mtls E) (prvEntropyCallback E ctx) (token s)) = 0" and "visible ts' = visible ts"
    using assms(2) by (auto simp: seed_generator_def ts on_token_def Let_def split_beta visible_def split: if_splits)
  then obtain n w' where "fst (prvEntropyCallback E ctx n w') = 0"
    using assms(1) unfolding seeding_needs_entropy_def by blast
  then have "xP11Session ctx \<noteq> CK_INVALID_HANDLE" by (auto simp: prvEntropyCallback_def split: if_splits)
  then show ?thesis using \<open>visible ts' = visible ts\<close> by (simp add: ts)
qed

lemma visible_configure:
  "configure E ts = Some (True, ts') \<Longrightarrow>
   visible ts' = ((settings (fst ts))\<lparr>verifyCallback := True, verifyRequired := True, randomCallback := True,
       caChain := True, certProfile := True\<rparr>, snd (visible ts))"
  by (cases ts) (auto simp: configure_def Let_def split_beta visible_def split: if_splits)

lemma visible_read:
  "prvReadCertificateIntoContext E l cl c ts = Some (r, ts') \<Longrightarrow> visible ts' = visible ts"
  by (cases ts) (auto simp: prvReadCertificateIntoContext_def Let_def split_beta visible_def split: if_splits)

lemma visible_credentials:
  assumes "set_credentials E q ts = Some (True, ts')"
  shows "\<exists>key kt. visible ts' = ((settings (fst ts))\<lparr>ownCertificate := True\<rparr>, True, xP11Session (fst ts), key, kt) \<and>
    key \<noteq> CK_INVALID_HANDLE \<and> kt \<in> {CKK_RSA, CKK_EC}"
proof -
  obtain r where "prvInitializeClientCredential E q ts = Some (r, ts')" "r = CKR_OK"
    using assms by (auto simp: set_credentials_def split: option.splits)
  then obtain a b c d e where 1: "log_in E q ts = Some (CKR_OK, a)" and 2: "find_private_key E q a = Some (CKR_OK, b)"
    and 3: "query_key_type E b = Some (CKR_OK, c)" and 4: "install_signer c = Some (CKR_OK, d)"
    and 5: "prvReadCertificateIntoContext E (pClientCertLabel q) CKO_CERTIFICATE MbedX509Cli d = Some (CKR_OK, e)"
    and 6: "attach_certificate E e = Some (CKR_OK, ts')"
    by (auto simp: prvInitializeClientCredential_def)
  have a: "visible a = visible ts"
    using 1 by (cases ts) (auto simp: log_in_def Let_def split_beta visible_def split: if_splits option.splits)
  have b: "visible b = (settings (fst a), signerInstalled (fst a), xP11Session (fst a), xP11PrivateKey (fst b), xKeyType (fst a))"
    and k: "xP11PrivateKey (fst b) \<noteq> CK_INVALID_HANDLE"
    using 2 by (cases a; auto simp: find_private_key_def Let_def split_beta visible_def split: if_splits option.splits)+
  have c: "visible c = (settings (fst b), signerInstalled (fst b), xP11Session (fst b), xP11PrivateKey (fst b), xKeyType (fst c))"
    using 3 by (cases b) (auto simp: query_key_type_def Let_def split_beta visible_def split: if_splits option.splits)
  have d: "visible d = (settings (fst c), True, xP11Session (fst c), xP11PrivateKey (fst c), xKeyType (fst c))"
    and t: "xKeyType (fst c) \<in> {CKK_RSA, CKK_EC}"
    using 4 by (cases c; auto simp: install_signer_def visible_def split: if_splits)+
  have f: "visible ts' = ((settings (fst e))\<lparr>ownCertificate := True\<rparr>, signerInstalled (fst e), xP11Session (fst e),
      xP11PrivateKey (fst e), xKeyType (fst e))"
    using 6 by (cases e) (auto simp: attach_certificate_def Let_def split_beta visible_def split: if_splits)
  show ?thesis using a b c d f k t visible_read [OF 5] by (auto simp: visible_def)
qed

lemma visible_options:
  "set_alpn E q ts = Some (True, ts') \<Longrightarrow>
   visible ts' = ((settings (fst ts))\<lparr>alpnProtocols := (case pcAlpnProtocols q of Some p \<Rightarrow> Some p | None \<Rightarrow> alpnProtocols (settings (fst ts)))\<rparr>, snd (visible ts))"
  "set_destination E q ts = Some (True, ts') \<Longrightarrow>
   visible ts' = ((settings (fst ts))\<lparr>hostname := (case pcDestination q of Some d \<Rightarrow> Some (c_str d) | None \<Rightarrow> hostname (settings (fst ts)))\<rparr>, snd (visible ts))"
  "limit_fragments E ts = Some (True, ts') \<Longrightarrow> visible ts' = visible ts"
  "set_up E ts = Some (True, ts') \<Longrightarrow>
   visible ts' = ((settings (fst ts))\<lparr>isSetup := True, bioSet := True\<rparr>, snd (visible ts))"
  by (cases ts; auto simp: set_alpn_def set_destination_def limit_fragments_def set_up_def Let_def split_beta visible_def
      split: if_splits option.splits)+

lemma tls_init_settings:
  assumes "seeding_needs_entropy E" and "TLS_Init E q (Some c) s = Some (True, Some ctx, s')"
  shows "settings ctx = \<lparr>verifyCallback = True, verifyRequired = True, randomCallback = True, caChain = True,
           certProfile = True, ownCertificate = True, alpnProtocols = pcAlpnProtocols q,
           hostname = map_option c_str (pcDestination q), isSetup = True, bioSet = True\<rparr> \<and>
    signerInstalled ctx \<and> xP11Session ctx \<noteq> CK_INVALID_HANDLE \<and> xP11PrivateKey ctx \<noteq> CK_INVALID_HANDLE \<and>
    xKeyType ctx \<in> {CKK_RSA, CKK_EC}"
proof -
  have "init_steps E q s = Some (True, ctx, s')"
    using assms(2) by (auto simp: TLS_Init_def split: option.splits bool.splits prod.splits)
  then obtain t0 t1 t2 t3 t4 t5 t6 t7 where 0: "start_session E s = Some (True, t0)" and 1: "seed_generator E t0 = Some (True, t1)"
    and 2: "trust_server E q t1 = Some (True, t2)" and 3: "configure E t2 = Some (True, t3)"
    and 4: "set_credentials E q t3 = Some (True, t4)" and 5: "set_alpn E q t4 = Some (True, t5)"
    and 6: "set_destination E q t5 = Some (True, t6)" and 7: "limit_fragments E t6 = Some (True, t7)"
    and 8: "set_up E t7 = Some (True, ctx, s')"
    by (auto simp: init_steps_def after_session_def)
  have s0: "settings (fst t0) = no_settings"
    using 0 by (auto simp: start_session_def zero_context_def Let_def split: prod.splits if_splits)
  note v = visible_seed [OF assms(1) 1] visible_trust [OF 2] visible_configure [OF 3] visible_options(1) [OF 5]
    visible_options(2) [OF 6] visible_options(3) [OF 7] visible_options(4) [OF 8]
  obtain key kt where "visible t4 = ((settings (fst t3))\<lparr>ownCertificate := True\<rparr>, True, xP11Session (fst t3), key, kt)"
    "key \<noteq> CK_INVALID_HANDLE" "kt \<in> {CKK_RSA, CKK_EC}"
    using visible_credentials [OF 4] by blast
  with v s0 show ?thesis
    by (auto simp: visible_def no_settings_def split: option.splits)
qed


section \<open>Sending\<close>

text \<open>
  \<open>sent\<close> are the bytes Mbed TLS has taken: a positive result says how many bytes of the message it
  took, any other that it took none.
\<close>

definition write_appends :: "'w tls_env \<Rightarrow> ('w \<Rightarrow> u8 list) \<Rightarrow> bool" where
  "write_appends E sent \<longleftrightarrow>
     (\<forall>m w r w'. ssl_write (mtls E) m w = (r, w') \<longrightarrow>
        (if 0 < r then r \<le> int (length m) \<and> sent w' = sent w @ take (nat r) m else sent w' = sent w))"

lemma send_loop_appends:
  assumes "write_appends E sent" and "send_loop E msg r k s = (q, k', failed, s')" and "k \<le> length msg"
  shows "k \<le> k' \<and> k' \<le> length msg \<and> sent (token s') = sent (token s) @ take (k' - k) (drop k msg) \<and>
    (failed \<longrightarrow> q < 0) \<and> (\<not> failed \<longrightarrow> 0 \<le> r \<longrightarrow> 0 \<le> q)"
  using assms
proof (induction E msg r k s rule: send_loop.induct)
  case (1 E msg r k s)
  obtain r1 s1 where h: "on_token (ssl_write (mtls E) (drop k msg)) s = (r1, s1)" by fastforce
  obtain w where w: "ssl_write (mtls E) (drop k msg) (token s) = (r1, w)" "s1 = s\<lparr>token := w\<rparr>"
    using h by (auto simp: on_token_def split: prod.splits)
  have app: "if 0 < r1 then r1 \<le> int (length (drop k msg)) \<and> sent w = sent (token s) @ take (nat r1) (drop k msg)
      else sent w = sent (token s)"
    using "1.prems"(1) w(1) unfolding write_appends_def by blast
  show ?case
  proof (cases "k < length msg \<and> 0 < r1")
    case True
    then have le: "k + nat r1 \<le> length msg" using app by auto
    have "send_loop E msg r1 (k + nat r1) s1 = (q, k', failed, s')"
      using "1.prems"(2) True by (subst (asm) send_loop.simps) (simp add: h)
    then have ih: "k + nat r1 \<le> k' \<and> k' \<le> length msg \<and>
        sent (token s') = sent (token s1) @ take (k' - (k + nat r1)) (drop (k + nat r1) msg) \<and>
        (failed \<longrightarrow> q < 0) \<and> (\<not> failed \<longrightarrow> 0 \<le> r1 \<longrightarrow> 0 \<le> q)"
      using "1.IH" [OF _ h [symmetric] refl] True "1.prems"(1) le by simp
    have "take (nat r1) (drop k msg) @ take (k' - (k + nat r1)) (drop (k + nat r1) msg) = take (k' - k) (drop k msg)"
      using ih take_add [of "nat r1" "k' - (k + nat r1)" "drop k msg"] by (simp add: drop_drop add.commute)
    then show ?thesis using ih app True w(2) by auto
  next
    case False
    then show ?thesis using "1.prems"(2,3) app w(2)
      by (subst (asm) send_loop.simps) (auto simp: h split: if_splits)
  qed
qed

text \<open>C21: Sending always comes to an end. A result that is no error is the number of bytes that Mbed TLS has
  taken, and these are exactly the first bytes of the message; after an error the context is freed.\<close>

theorem tls_send_exact:
  assumes "write_appends E sent" and "pxP11FunctionList ctx"
  shows "\<exists>r ctx' s'. TLS_Send E (Some ctx) msg s = Some (r, Some ctx', s') \<and>
    (if 0 \<le> r then r \<le> int (length msg) \<and> sent (token s') = sent (token s) @ take (nat r) msg \<and> ctx' = ctx
     else live ctx' = [] \<and> xP11Session ctx' = CK_INVALID_HANDLE)"
proof -
  obtain q k failed s1 where l: "send_loop E msg 0 0 s = (q, k, failed, s1)" by (metis prod_cases4)
  note app = send_loop_appends [OF assms(1) l]
  show ?thesis
  proof (cases failed)
    case True
    have "\<exists>ctx' s'. prvFreeContext E (ctx, s1) = Some (ctx', s') \<and> live ctx' = [] \<and> xP11Session ctx' = CK_INVALID_HANDLE"
      using assms(2) by (auto simp: prvFreeContext_def Let_def)
    then obtain ctx' s' where "TLS_Send E (Some ctx) msg s = Some (q, Some ctx', s')" "live ctx' = []" "xP11Session ctx' = 0"
      using True by (auto simp: TLS_Send_def l)
    then show ?thesis using app True by (intro exI [of _ q] exI [of _ ctx'] exI [of _ s']) auto
  next
    case False
    then show ?thesis using app by (auto simp: TLS_Send_def l)
  qed
qed

section \<open>Signing\<close>

text \<open>The check that a hash fits the buffer has no effect: with an elliptic curve key a longer hash is
  copied over the end of the buffer, with an RSA key it is signed as if it were its first 32 bytes.\<close>

theorem long_hash_not_refused:
  assumes "256 < length hash" and "pxP11FunctionList ctx"
  shows "(xKeyType ctx = CKK_EC \<longrightarrow> prvPrivateKeySigningCallback E ctx hash s = None) \<and>
    (xKeyType ctx = CKK_RSA \<longrightarrow>
      prvPrivateKeySigningCallback E ctx hash s = prvPrivateKeySigningCallback E ctx (take 32 hash) s)"
  using assms by (simp_all add: prvPrivateKeySigningCallback_def)

section \<open>A module for the witnesses\<close>

text \<open>
  The world is the list of bytes sent. The module has one key on an elliptic curve; Mbed TLS takes at
  most four bytes at a time and none when eight have been sent.
\<close>

definition sample_module :: "(u8 list) tls_module" where
  "sample_module = \<lparr>pkcs = \<lparr>C_GetFunctionList = (\<lambda>w. (CKR_OK, True, w)),
       xInitializePkcs11Session = (\<lambda>w. (CKR_OK, Some 1, w)), C_CloseSession = (\<lambda>_ w. (CKR_OK, w)),
       C_Finalize = (\<lambda>w. (CKR_OK, w)), C_CreateObject = (\<lambda>_ T w. (CKR_OK, Some 1, w)),
       C_SignInit = (\<lambda>_ _ w. (CKR_OK, w)), C_Sign = (\<lambda>_ m w. (CKR_OK, m, w)),
       C_VerifyInit = (\<lambda>_ _ w. (CKR_OK, w)), C_Verify = (\<lambda>_ m sg w. (CKR_OK, w)),
       C_GenerateRandom = (\<lambda>_ w. (CKR_OK, Some 4, w))\<rparr>,
     C_Login = (\<lambda>_ _ w. (CKR_OK, w)), xFindObjectWithLabelAndClass = (\<lambda>_ _ _ w. (CKR_OK, Some 7, w)),
     get_key_type = (\<lambda>_ _ w. (CKR_OK, Some CKK_EC, w)), value_length = (\<lambda>_ _ w. (CKR_OK, 3, w)),
     value_of = (\<lambda>_ _ n w. (CKR_OK, replicate n 1, w)), random_bytes = (\<lambda>_ n w. (CKR_OK, replicate n 2, w)),
     sign_init = (\<lambda>_ _ _ w. (CKR_OK, w)), append_SHA256_id = (\<lambda>h. (CKR_OK, h)), to_mbed_signature = (\<lambda>x. x),
     heap_has = (\<lambda>_ _. True)\<rparr>"

definition sample_mtls :: "(u8 list) mbed_tls" where
  "sample_mtls = \<lparr>drbg_seed = (\<lambda>f w. (fst (f 48 w), w)), parse_certificates = (\<lambda>_ _ w. (0, w)),
     config_defaults = (\<lambda>w. (0, w)), conf_own_cert = (\<lambda>w. (0, w)), conf_alpn_protocols = (\<lambda>_ w. (0, w)),
     set_hostname = (\<lambda>_ w. (0, w)), conf_max_frag_len = None, ssl_setup = (\<lambda>w. (0, w)),
     ssl_close_notify = (\<lambda>w. (0, w)), ssl_handshake = (\<lambda>w. (0, w)), ssl_read = (\<lambda>n w. (0, [], w)),
     ssl_write = (\<lambda>m w. if 8 \<le> length w then (MBEDTLS_ERR_SSL_WANT_WRITE, w)
                        else (int (length (take 4 m)), w @ take 4 m)),
     default_roots = [[1], [2], [3], [4]]\<rparr>"

definition sample_tls :: "(u8 list) tls_env" where
  "sample_tls = \<lparr>modl = sample_module, mtls = sample_mtls\<rparr>"

definition sample_tls_params :: TLSHelperParams where
  "sample_tls_params = \<lparr>pcDestination = Some ''broker'', pcAlpnProtocols = None, pcServerCertificate = None,
     pClientCertLabel = ''Device Cert'', pPrivateKeyLabel = ''Device Priv TLS Key'', pcLoginPIN = Some ''0000''\<rparr>"

abbreviation sample_world :: "(u8 list) token_state" where
  "sample_world \<equiv> \<lparr>token = [], openSessions = 0, liveBlocks = 0\<rparr>"

lemma sample_module_ok: "module_ok sample_tls"
  by (auto simp: module_ok_def sample_tls_def sample_module_def)

lemma sample_seeding: "seeding_needs_entropy sample_tls"
  by (auto simp: seeding_needs_entropy_def sample_tls_def sample_mtls_def)

lemma sample_appends: "write_appends sample_tls (\<lambda>w. w)"
  by (auto simp: write_appends_def sample_tls_def sample_mtls_def min_def split: if_splits)

lemma sample_init:
  "\<exists>ctx s'. TLS_Init sample_tls sample_tls_params (Some zero_context) sample_world = Some (True, Some ctx, s')"
proof -
  have "map_option fst (TLS_Init sample_tls sample_tls_params (Some zero_context) sample_world) = Some True" by code_simp
  moreover have "map_option (\<lambda>y. fst (snd y) \<noteq> None) (TLS_Init sample_tls sample_tls_params (Some zero_context) sample_world) = Some True"
    by code_simp
  ultimately show ?thesis by auto
qed


definition sample_context :: TLSContext where
  "sample_context = zero_context\<lparr>pxP11FunctionList := True, xKeyType := CKK_EC\<rparr>"

lemma sample_context_ready: "pxP11FunctionList sample_context" by (simp add: sample_context_def)

theorem tls_send_exact_witness:
  "\<exists>r ctx' s'. TLS_Send sample_tls (Some sample_context) [1, 2, 3, 4, 5, 6] sample_world = Some (r, Some ctx', s') \<and>
     (if 0 \<le> r then r \<le> int (length [1, 2, 3, 4, 5, 6 :: u8]) \<and>
        token s' = token sample_world @ take (nat r) [1, 2, 3, 4, 5, 6] \<and> ctx' = sample_context
      else live ctx' = [] \<and> xP11Session ctx' = CK_INVALID_HANDLE)"
  by (rule tls_send_exact [OF sample_appends sample_context_ready])

theorem long_hash_not_refused_witness:
  "prvPrivateKeySigningCallback sample_tls sample_context (replicate 300 1) sample_world = None"
  using long_hash_not_refused [of "replicate 300 1" sample_context sample_tls sample_world] by (simp add: sample_context_def)

lemma sample_use:
  "\<exists>ctx s1 ts ctx' s2. TLS_Init sample_tls sample_tls_params (Some zero_context) sample_world = Some (True, Some ctx, s1) \<and>
     use_all sample_tls [Write [1, 2, 3]] (ctx, s1) = Some ts \<and> TLS_Cleanup sample_tls ts = Some (ctx', s2)"
proof -
  obtain ctx s1 where i: "TLS_Init sample_tls sample_tls_params (Some zero_context) sample_world = Some (True, Some ctx, s1)"
    using sample_init by blast
  have "map_option (\<lambda>(b, c, s). case c of None \<Rightarrow> False | Some ctx \<Rightarrow>
        (case use_all sample_tls [Write [1, 2, 3]] (ctx, s) of None \<Rightarrow> False | Some ts \<Rightarrow> TLS_Cleanup sample_tls ts \<noteq> None))
      (TLS_Init sample_tls sample_tls_params (Some zero_context) sample_world) = Some True" by code_simp
  then have "case use_all sample_tls [Write [1, 2, 3]] (ctx, s1) of None \<Rightarrow> False | Some ts \<Rightarrow> TLS_Cleanup sample_tls ts \<noteq> None"
    using i by simp
  then obtain ts where u: "use_all sample_tls [Write [1, 2, 3]] (ctx, s1) = Some ts" and c: "TLS_Cleanup sample_tls ts \<noteq> None"
    by (auto split: option.splits)
  from c obtain r where "TLS_Cleanup sample_tls ts = Some r" by blast
  then have "TLS_Cleanup sample_tls ts = Some (fst r, snd r)" by simp
  then show ?thesis using i u by blast
qed

theorem tls_resources_returned_witness:
  "\<exists>ctx s1 ts ctx' s2. TLS_Init sample_tls sample_tls_params (Some zero_context) sample_world = Some (True, Some ctx, s1) \<and>
     use_all sample_tls [Write [1, 2, 3]] (ctx, s1) = Some ts \<and> TLS_Cleanup sample_tls ts = Some (ctx', s2) \<and>
     openSessions s2 = 0 \<and> liveBlocks s2 = 0"
proof -
  obtain ctx s1 ts ctx' s2 where run: "TLS_Init sample_tls sample_tls_params (Some zero_context) sample_world = Some (True, Some ctx, s1)"
    "use_all sample_tls [Write [1, 2, 3]] (ctx, s1) = Some ts" "TLS_Cleanup sample_tls ts = Some (ctx', s2)"
    using sample_use by blast
  have "openSessions s2 = 0" "liveBlocks s2 = 0"
    using tls_resources_returned [OF sample_module_ok run(1), of "[Write [1, 2, 3]]" ts ctx' s2] run(2,3) by simp_all
  then show ?thesis using run by blast
qed

end
