(* ===== verification/Transport.thy ===== *)
theory Transport
  imports Transport_Types Tls_Properties
begin

text \<open>
  What the two implementations of the transport interface share: the network context, the set-up of
  a TLS connection over a connected socket, the account of what a connection holds, and the contract
  under which a client opens, uses and closes connections.
\<close>

section \<open>State\<close>

text \<open>
  The network context, with a socket of type \<open>'s\<close>; \<open>None\<close> is a null TLS context. Beside the world
  and the counts of the token, the sockets that are open are counted.
\<close>

record 's NetworkContext =
  socket :: 's
  pTLSContext :: "TLSContext option"
  useTLS :: bool

record 'w net_state =
  net_token :: "'w token_state"
  openSockets :: nat

type_synonym ('s, 'w) conn = "'s NetworkContext \<times> 'w net_state"

definition on_net :: "('w \<Rightarrow> 'r \<times> 'w) \<Rightarrow> 'w net_state \<Rightarrow> 'r \<times> 'w net_state" where
  "on_net f s = (let (r, t) = on_token f (net_token s) in (r, s\<lparr>net_token := t\<rparr>))"

definition on_net2 :: "('w \<Rightarrow> 'r \<times> 'x \<times> 'w) \<Rightarrow> 'w net_state \<Rightarrow> 'r \<times> 'x \<times> 'w net_state" where
  "on_net2 f s = (let (r, x, t) = on_token2 f (net_token s) in (r, x, s\<lparr>net_token := t\<rparr>))"

lemma on_net_counts [simp]:
  "openSockets (snd (on_net f s)) = openSockets s"
  "openSessions (net_token (snd (on_net f s))) = openSessions (net_token s)"
  "liveBlocks (net_token (snd (on_net f s))) = liveBlocks (net_token s)"
  by (simp_all add: on_net_def split_beta)

lemma on_net2_counts [simp]:
  "openSockets (snd (snd (on_net2 g s))) = openSockets s"
  "openSessions (net_token (snd (snd (on_net2 g s)))) = openSessions (net_token s)"
  "liveBlocks (net_token (snd (snd (on_net2 g s)))) = liveBlocks (net_token s)"
  by (simp_all add: on_net2_def split_beta)

section \<open>TLS over a socket\<close>

text \<open>
  The parameters of the TLS layer: the certificate is the first \<open>rootCaSize\<close> bytes, and reading
  behind its end is undefined. Nothing is taken from \<open>pAlpnProtos\<close>, \<open>disableSni\<close> and
  \<open>maxFragmentLength\<close>.
\<close>

definition tls_helper_params :: "string \<Rightarrow> TLSParams \<Rightarrow> TLSHelperParams option" where
  "tls_helper_params host q =
     (if (case pRootCa q of None \<Rightarrow> False | Some c \<Rightarrow> length c < rootCaSize q) then None
      else Some \<lparr>pcDestination = Some host, pcAlpnProtocols = None,
             pcServerCertificate = map_option (take (rootCaSize q)) (pRootCa q),
             TLSHelperParams.pClientCertLabel = TLSParams.pClientCertLabel q,
             TLSHelperParams.pPrivateKeyLabel = TLSParams.pPrivateKeyLabel q, pcLoginPIN = pLoginPIN q\<rparr>)"

text \<open>
  A block for the context, whose content does not matter; \<open>prepare\<close> is done between the allocation
  and the initialisation.
\<close>

definition secure_connection ::
  "'w tls_env \<Rightarrow> nat \<Rightarrow> ('w net_state \<Rightarrow> 'w net_state) \<Rightarrow> TLSHelperParams \<Rightarrow> ('s, 'w) conn \<Rightarrow>
   (TransportStatus \<times> ('s, 'w) conn) option" where
  "secure_connection E size_of_context prepare params c =
     (let (ctx, s) = c; (granted, t) = tls_malloc E size_of_context (net_token s); s = s\<lparr>net_token := t\<rparr>
      in if \<not> granted then Some (TRANSPORT_STATUS_INSUFFICIENT_MEMORY, ctx\<lparr>pTLSContext := None\<rparr>, s)
         else
           (let s = prepare s
            in case TLS_Init E params (Some zero_context) (net_token s) of
                 Some (True, Some tls, t) \<Rightarrow>
                   (case TLS_Connect E (tls, t) of
                      None \<Rightarrow> None
                    | Some (r, tls, t) \<Rightarrow>
                        Some (if r \<noteq> 0 then TRANSPORT_STATUS_TLS_FAILURE else TRANSPORT_STATUS_SUCCESS,
                              ctx\<lparr>pTLSContext := Some tls\<rparr>, s\<lparr>net_token := t\<rparr>))
               | Some (_, tls, t) \<Rightarrow> Some (TRANSPORT_STATUS_TLS_FAILURE, ctx\<lparr>pTLSContext := tls\<rparr>, s\<lparr>net_token := t\<rparr>)
               | None \<Rightarrow> None))"

text \<open>The end of a connection: the context is cleaned up, its block freed and the pointer cleared.\<close>

definition release_tls :: "'w tls_env \<Rightarrow> ('s, 'w) conn \<Rightarrow> ('s, 'w) conn option" where
  "release_tls E c =
     (let (ctx, s) = c
      in case pTLSContext ctx of
           None \<Rightarrow> Some c
         | Some tls \<Rightarrow>
             (case TLS_Cleanup E (tls, net_token s) of
                None \<Rightarrow> None
              | Some (_, t) \<Rightarrow> Some (ctx\<lparr>pTLSContext := None\<rparr>, s\<lparr>net_token := vPortFree t\<rparr>)))"

section \<open>The functions over the sockets of a stack\<close>

text \<open>
  Both implementations are these functions with the calls of their stack filled in. A connection:
  the socket is created, the host found and reached, and TLS set up; \<open>finish\<close> is done at the end of a
  successful connection.
\<close>

definition connect_over ::
  "('s \<Rightarrow> bool) \<Rightarrow> ('w net_state \<Rightarrow> 's \<times> 'w net_state) \<Rightarrow> ('s \<Rightarrow> 'w net_state \<Rightarrow> TransportStatus \<times> 'w net_state) \<Rightarrow>
   (('s, 'w) conn \<Rightarrow> (TransportStatus \<times> ('s, 'w) conn) option) \<Rightarrow> ('s \<Rightarrow> 'w net_state \<Rightarrow> 'w net_state) \<Rightarrow> ('s, 'w) conn \<Rightarrow>
   (TransportStatus \<times> ('s, 'w) conn) option" where
  "connect_over valid create reach secure finish c =
     (let (ctx, s) = c; (k, s) = create s; ctx = ctx\<lparr>socket := k\<rparr>
      in if \<not> valid k then Some (TRANSPORT_STATUS_SOCKET_CREATE_FAILURE, ctx, s)
         else
           (let (status, s) = reach k s
            in if status \<noteq> TRANSPORT_STATUS_SUCCESS then Some (status, ctx, s)
               else
                 (case secure (ctx, s) of
                    None \<Rightarrow> None
                  | Some (status, ctx, s) \<Rightarrow>
                      Some (status, ctx, if status = TRANSPORT_STATUS_SUCCESS then finish k s else s))))"

text \<open>TLS when the caller gives parameters for it.\<close>

definition secure_over ::
  "'w tls_env \<Rightarrow> nat \<Rightarrow> ('s \<Rightarrow> 'w net_state \<Rightarrow> 'w net_state) \<Rightarrow> string \<Rightarrow> TLSParams option \<Rightarrow> ('s, 'w) conn \<Rightarrow>
   (TransportStatus \<times> ('s, 'w) conn) option" where
  "secure_over E size_of_context prepare host pTLSParams c =
     (case pTLSParams of
        None \<Rightarrow> Some (TRANSPORT_STATUS_SUCCESS, c)
      | Some q \<Rightarrow>
          (case tls_helper_params host q of
             None \<Rightarrow> None
           | Some params \<Rightarrow> secure_connection E size_of_context (prepare (socket (fst c))) params c))"

text \<open>The checks of the arguments; \<open>None\<close> is a null pointer.\<close>

definition with_server ::
  "('s NetworkContext) option \<Rightarrow> ServerInfo option \<Rightarrow> (string \<Rightarrow> u16 \<Rightarrow> ('s, 'w) conn \<Rightarrow> (TransportStatus \<times> ('s, 'w) conn) option) \<Rightarrow>
   'w net_state \<Rightarrow> (TransportStatus \<times> ('s NetworkContext) option \<times> 'w net_state) option" where
  "with_server pNetworkContext pServerInfo connect s =
     (case pNetworkContext of
        None \<Rightarrow> Some (TRANSPORT_STATUS_INVALID_PARAMETER, None, s)
      | Some ctx \<Rightarrow>
          (case pServerInfo of
             None \<Rightarrow> Some (TRANSPORT_STATUS_INVALID_PARAMETER, Some ctx, s)
           | Some info \<Rightarrow>
               (case pHostName info of
                  None \<Rightarrow> Some (TRANSPORT_STATUS_INVALID_PARAMETER, Some ctx, s)
                | Some host \<Rightarrow>
                    (case connect host (server_port info) (ctx, s) of
                       None \<Rightarrow> None
                     | Some (status, ctx, s) \<Rightarrow> Some (status, Some ctx, s)))))"

text \<open>
  The result, the bytes stored in the buffer, and the state. \<open>buffered\<close> says that the buffer is not
  null.
\<close>

definition receive_over ::
  "'w tls_env \<Rightarrow> ('s \<Rightarrow> nat \<Rightarrow> 'w \<Rightarrow> int \<times> u8 list \<times> 'w) \<Rightarrow> ('s NetworkContext) option \<Rightarrow> bool \<Rightarrow> nat \<Rightarrow> 'w net_state \<Rightarrow>
   (int \<times> u8 list \<times> ('s NetworkContext) option \<times> 'w net_state) option" where
  "receive_over E recv pNetworkContext buffered bytesToRecv s =
     (case pNetworkContext of
        None \<Rightarrow> Some (- 1, [], None, s)
      | Some ctx \<Rightarrow>
          if \<not> buffered \<or> bytesToRecv = 0 then Some (- 1, [], Some ctx, s)
          else
            (case pTLSContext ctx of
               None \<Rightarrow>
                 (let (rc, bytes, s) = on_net2 (recv (socket ctx) bytesToRecv) s
                  in Some (rc, bytes, Some ctx, s))
             | Some tls \<Rightarrow>
                 (case TLS_Recv E (Some tls) bytesToRecv (net_token s) of
                    None \<Rightarrow> None
                  | Some (rc, bytes, tls, t) \<Rightarrow>
                      Some (rc, bytes, Some (ctx\<lparr>pTLSContext := tls\<rparr>), s\<lparr>net_token := t\<rparr>))))"

definition transmit_over ::
  "'w tls_env \<Rightarrow> ('s \<Rightarrow> u8 list \<Rightarrow> 'w \<Rightarrow> int \<times> 'w) \<Rightarrow> ('s NetworkContext) option \<Rightarrow> u8 list option \<Rightarrow> 'w net_state \<Rightarrow>
   (int \<times> ('s NetworkContext) option \<times> 'w net_state) option" where
  "transmit_over E send pNetworkContext pMessage s =
     (case pNetworkContext of
        None \<Rightarrow> Some (- 1, None, s)
      | Some ctx \<Rightarrow>
          (case pMessage of
             None \<Rightarrow> Some (- 1, Some ctx, s)
           | Some msg \<Rightarrow>
               if msg = [] then Some (- 1, Some ctx, s)
               else
                 (case pTLSContext ctx of
                    None \<Rightarrow>
                      (let (rc, s) = on_net (send (socket ctx) msg) s in Some (rc, Some ctx, s))
                  | Some tls \<Rightarrow>
                      (case TLS_Send E (Some tls) msg (net_token s) of
                         None \<Rightarrow> None
                       | Some (rc, tls, t) \<Rightarrow>
                           Some (rc, Some (ctx\<lparr>pTLSContext := tls\<rparr>), s\<lparr>net_token := t\<rparr>)))))"

section \<open>What a connection holds\<close>

text \<open>The sockets, sessions and blocks in use.\<close>

definition net_usage :: "'w net_state \<Rightarrow> nat \<times> nat \<times> nat" where
  "net_usage s = (openSockets s, openSessions (net_token s), liveBlocks (net_token s))"

text \<open>Beyond \<open>n\<close> sessions and \<open>b\<close> blocks, exactly what the TLS context holds is in use.\<close>

definition tls_owes :: "nat \<Rightarrow> nat \<Rightarrow> TLSContext option \<Rightarrow> 'w token_state \<Rightarrow> bool" where
  "tls_owes n b tls t \<longleftrightarrow>
     (case tls of
        None \<Rightarrow> openSessions t = n \<and> liveBlocks t = b
      | Some c \<Rightarrow> accounts n (Suc b) (c, t))"

lemma tls_owes_token [simp]:
  "tls_owes n b tls (snd (on_token f t)) = tls_owes n b tls t"
  "tls_owes n b tls (snd (snd (on_token2 g t))) = tls_owes n b tls t"
  by (simp_all add: tls_owes_def split: option.split)

lemma tls_owes_net [simp]:
  "tls_owes n b tls (net_token (snd (on_net f s))) = tls_owes n b tls (net_token s)"
  "tls_owes n b tls (net_token (snd (snd (on_net2 g s)))) = tls_owes n b tls (net_token s)"
  by (simp_all add: on_net_def on_net2_def split_beta)

lemma tls_init_accounts:
  assumes "module_ok E" and "TLS_Init E q (Some c) t = Some (ok, tls, t')"
  shows "\<exists>x. tls = Some x \<and> accounts (openSessions t) (liveBlocks t) (x, t') \<and>
    (\<not> ok \<longrightarrow> x = zero_context \<and> openSessions t' = openSessions t \<and> liveBlocks t' = liveBlocks t)"
proof -
  obtain x where x: "tls = Some x" using assms(2) by (auto simp: TLS_Init_def split: option.splits bool.splits prod.splits)
  show ?thesis
  proof (cases ok)
    case True
    then have "init_steps E q t = Some (True, x, t')"
      using assms(2) by (auto simp: x TLS_Init_def split: option.splits bool.splits prod.splits)
    then show ?thesis using init_accounts [OF assms(1)] True x by blast
  next
    case False
    then obtain ts ts' where "init_steps E q t = Some (False, ts)" "prvFreeContext E ts = Some ts'"
      "t' = snd ts'" "x = zero_context"
      using assms(2) by (auto simp: x TLS_Init_def split: option.splits bool.splits prod.splits)
    then have "openSessions t' = openSessions t \<and> liveBlocks t' = liveBlocks t \<and> x = zero_context"
      using free_context [OF assms(1) _ init_accounts [OF assms(1)], of ts ts' q t False] by simp
    then show ?thesis by (simp add: x accounts_def zero_context_def)
  qed
qed
text \<open>What is done between allocation and initialisation may not change the counts.\<close>

definition quiet :: "('w net_state \<Rightarrow> 'w net_state) \<Rightarrow> bool" where
  "quiet p \<longleftrightarrow> (\<forall>s. net_usage (p s) = net_usage s)"

text \<open>
  Setting up TLS: the context accounts for what was taken, and after a failure only its own block,
  if one was granted, stays allocated.
\<close>

lemma secure_connection_account:
  assumes m: "module_ok E" and p: "quiet prepare"
    and run: "secure_connection E k prepare q (ctx, s) = Some (st, ctx', s')"
  shows "socket ctx' = socket ctx \<and> openSockets s' = openSockets s \<and>
    tls_owes (openSessions (net_token s)) (liveBlocks (net_token s)) (pTLSContext ctx') (net_token s') \<and>
    (st = TRANSPORT_STATUS_SUCCESS \<or>
     net_usage s' = (openSockets s, openSessions (net_token s),
                     liveBlocks (net_token s) + of_bool (st = TRANSPORT_STATUS_TLS_FAILURE)))"
proof -
  obtain granted t where a: "tls_malloc E k (net_token s) = (granted, t)" by fastforce
  have t: "openSessions t = openSessions (net_token s) \<and> liveBlocks t = liveBlocks (net_token s) + of_bool granted"
    using a by (auto simp: tls_malloc_def split: if_splits)
  show ?thesis
  proof (cases granted)
    case False
    then show ?thesis using run t by (auto simp: secure_connection_def a tls_owes_def net_usage_def)
  next
    case True
    define s1 where "s1 = prepare (s\<lparr>net_token := t\<rparr>)"
    have "net_usage s1 = net_usage (s\<lparr>net_token := t\<rparr>)" using p by (simp add: quiet_def s1_def)
    then have s1: "openSockets s1 = openSockets s" "openSessions (net_token s1) = openSessions (net_token s)"
      "liveBlocks (net_token s1) = Suc (liveBlocks (net_token s))"
      using t True by (simp_all add: net_usage_def)
    obtain ok tls t1 where i: "TLS_Init E q (Some zero_context) (net_token s1) = Some (ok, tls, t1)"
      using run True
      by (cases "TLS_Init E q (Some zero_context) (net_token s1)") (auto simp: secure_connection_def a Let_def s1_def)
    obtain x where x: "tls = Some x" and acc: "accounts (openSessions (net_token s)) (Suc (liveBlocks (net_token s))) (x, t1)"
      and fail: "\<not> ok \<longrightarrow> openSessions t1 = openSessions (net_token s) \<and> liveBlocks t1 = Suc (liveBlocks (net_token s))"
      using tls_init_accounts [OF m i] by (auto simp: s1)
    show ?thesis
    proof (cases ok)
      case False
      then show ?thesis using run True fail acc i
        by (auto simp: secure_connection_def a Let_def s1_def [symmetric] x s1 tls_owes_def net_usage_def)
    next
      case True
      then obtain r y t2 where c: "TLS_Connect E (x, t1) = Some (r, y, t2)"
        using run \<open>granted\<close> i by (auto simp: secure_connection_def a Let_def s1_def [symmetric] x split: option.splits)
      have acc2: "accounts (openSessions (net_token s)) (Suc (liveBlocks (net_token s))) (y, t2)"
        using use_accounts [OF m _ acc, of Handshake r "(y, t2)"] c by (simp add: use_tls_def)
      have freed: "openSessions t2 = openSessions (net_token s) \<and> liveBlocks t2 = Suc (liveBlocks (net_token s))" if r: "r \<noteq> 0"
      proof -
        obtain z where z: "handshake_loop E t1 = Some (r, z)" and f: "prvFreeContext E (x, z) = Some (y, t2)"
          using c r by (auto simp: TLS_Connect_def split: option.splits if_splits)
        have "accounts (openSessions (net_token s)) (Suc (liveBlocks (net_token s))) (x, z)"
          using handshake_counts [OF z] acc by (simp add: accounts_def)
        then show ?thesis using free_context [OF m f] by fastforce
      qed
      have "st = (if r \<noteq> 0 then TRANSPORT_STATUS_TLS_FAILURE else TRANSPORT_STATUS_SUCCESS)" "ctx' = ctx\<lparr>pTLSContext := Some y\<rparr>"
        "s' = s1\<lparr>net_token := t2\<rparr>"
        using run \<open>granted\<close> True i c by (auto simp: secure_connection_def a Let_def s1_def [symmetric] x)
      then show ?thesis using acc2 freed s1 by (auto simp: tls_owes_def net_usage_def)
    qed
  qed
qed

lemma secure_connection_status:
  "secure_connection E k prepare q c = Some (st, c') \<Longrightarrow>
   st \<in> {TRANSPORT_STATUS_SUCCESS, TRANSPORT_STATUS_TLS_FAILURE, TRANSPORT_STATUS_INSUFFICIENT_MEMORY}"
  by (auto simp: secure_connection_def Let_def split: option.splits prod.splits bool.splits if_splits)

lemma release_returns:
  assumes "module_ok E" and "release_tls E (ctx, s) = Some (ctx', s')" and "tls_owes n b (pTLSContext ctx) (net_token s)"
  shows "pTLSContext ctx' = None \<and> openSockets s' = openSockets s \<and>
    openSessions (net_token s') = n \<and> liveBlocks (net_token s') = b"
proof (cases "pTLSContext ctx")
  case None
  then show ?thesis using assms(2,3) by (simp add: release_tls_def tls_owes_def)
next
  case (Some tls)
  then obtain x t where c: "TLS_Cleanup E (tls, net_token s) = Some (x, t)" "ctx' = ctx\<lparr>pTLSContext := None\<rparr>"
    "s' = s\<lparr>net_token := vPortFree t\<rparr>"
    using assms(2) by (auto simp: release_tls_def split: option.splits)
  have "openSessions t = n \<and> liveBlocks t = Suc b"
    using free_context [OF assms(1), of "(tls, net_token s)" "(x, t)" n "Suc b"] c(1) assms(3) Some
    by (simp add: TLS_Cleanup_def tls_owes_def)
  then show ?thesis using c by (simp add: vPortFree_def)
qed

text \<open>Reading and writing over TLS.\<close>

lemma tls_recv_owes:
  assumes "module_ok E" and "TLS_Recv E (Some c) n t = Some (r, bytes, c', t')" and "tls_owes k b (Some c) t"
  shows "tls_owes k b c' t'"
proof -
  obtain y where y: "c' = Some y" using assms(2) by (auto simp: TLS_Recv_def split: option.splits prod.splits if_splits)
  then show ?thesis
    using use_accounts [OF assms(1), of "Read n" "(c, t)" r "(y, t')"] assms(2,3) by (simp add: use_tls_def tls_owes_def)
qed

lemma tls_send_owes:
  assumes "module_ok E" and "TLS_Send E (Some c) msg t = Some (r, c', t')" and "tls_owes k b (Some c) t"
  shows "tls_owes k b c' t'"
proof -
  obtain y where y: "c' = Some y"
    using assms(2) by (auto simp: TLS_Send_def split: option.splits prod.splits if_splits)
  then show ?thesis
    using use_accounts [OF assms(1), of "Write msg" "(c, t)" r "(y, t')"] assms(2,3) by (simp add: use_tls_def tls_owes_def)
qed

text \<open>
  What a failed attempt leaves behind: the socket, when one was created, and the block of the TLS
  context, when TLS was started.
\<close>

definition leftovers :: "TransportStatus \<Rightarrow> nat \<times> nat \<times> nat" where
  "leftovers st =
     (of_bool (st \<in> {TRANSPORT_STATUS_DNS_FAILURE, TRANSPORT_STATUS_CONNECT_FAILURE, TRANSPORT_STATUS_TLS_FAILURE,
                      TRANSPORT_STATUS_INSUFFICIENT_MEMORY}),
      0, of_bool (st = TRANSPORT_STATUS_TLS_FAILURE))"

text \<open>An attempt to connect, from any context.\<close>

lemma connect_over_account:
  assumes m: "module_ok E" and prep: "\<And>k. quiet (prepare k)" and fin: "\<And>k. quiet (finish k)"
    and new: "net_usage (snd (create s)) = (openSockets s + of_bool (valid (fst (create s))), snd (net_usage s))"
    and reach: "\<And>k s. net_usage (snd (reach k s)) = net_usage s"
    and codes: "\<And>k s. fst (reach k s) \<in> {TRANSPORT_STATUS_DNS_FAILURE, TRANSPORT_STATUS_CONNECT_FAILURE, TRANSPORT_STATUS_SUCCESS}"
    and run: "connect_over valid create reach (secure_over E n prepare host q) finish (ctx, s) = Some (st, ctx', s')"
  shows "socket ctx' = fst (create s) \<and> openSockets s' = openSockets s + of_bool (valid (socket ctx')) \<and>
    (pTLSContext ctx = None \<longrightarrow>
       tls_owes (openSessions (net_token s)) (liveBlocks (net_token s)) (pTLSContext ctx') (net_token s')) \<and>
    (st \<noteq> TRANSPORT_STATUS_SUCCESS \<longrightarrow>
       net_usage s' = (openSockets s + fst (leftovers st), openSessions (net_token s),
                       liveBlocks (net_token s) + snd (snd (leftovers st))))"
proof -
  obtain k s1 where c: "create s = (k, s1)" by fastforce
  have s1: "openSockets s1 = openSockets s + of_bool (valid k)" "openSessions (net_token s1) = openSessions (net_token s)"
    "liveBlocks (net_token s1) = liveBlocks (net_token s)"
    using new by (simp_all add: c net_usage_def)
  obtain st1 s2 where r: "reach k s1 = (st1, s2)" by fastforce
  have s2: "openSockets s2 = openSockets s1" "openSessions (net_token s2) = openSessions (net_token s1)"
    "liveBlocks (net_token s2) = liveBlocks (net_token s1)"
    "st1 \<in> {TRANSPORT_STATUS_DNS_FAILURE, TRANSPORT_STATUS_CONNECT_FAILURE, TRANSPORT_STATUS_SUCCESS}"
    using reach [of k s1] codes [of k s1] by (simp_all add: r net_usage_def)
  consider (none) "\<not> valid k" | (unreached) "valid k" "st1 \<noteq> TRANSPORT_STATUS_SUCCESS"
    | (reached) "valid k" "st1 = TRANSPORT_STATUS_SUCCESS" by blast
  then show ?thesis
  proof cases
    case none
    then have "st = TRANSPORT_STATUS_SOCKET_CREATE_FAILURE" "ctx' = ctx\<lparr>socket := k\<rparr>" "s' = s1"
      using run by (simp_all add: connect_over_def c Let_def)
    then show ?thesis using none s1 by (simp add: c tls_owes_def net_usage_def leftovers_def)
  next
    case unreached
    then have "st = st1" "ctx' = ctx\<lparr>socket := k\<rparr>" "s' = s2"
      using run by (simp_all add: connect_over_def c r Let_def)
    then show ?thesis using unreached s1 s2 by (auto simp: c tls_owes_def net_usage_def leftovers_def)
  next
    case reached
    then obtain c3 where sec: "secure_over E n prepare host q (ctx\<lparr>socket := k\<rparr>, s2) = Some (st, ctx', c3)"
      and s': "s' = (if st = TRANSPORT_STATUS_SUCCESS then finish k c3 else c3)"
      using run by (auto simp: connect_over_def c r Let_def split: option.splits)
    have u: "net_usage s' = net_usage c3" using fin [of k] by (simp add: s' quiet_def)
    show ?thesis
    proof (cases q)
      case None
      then show ?thesis using sec u s1 s2 reached
        by (auto simp: c secure_over_def tls_owes_def net_usage_def)
    next
      case (Some q')
      then obtain params where
        "secure_connection E n (prepare k) params (ctx\<lparr>socket := k\<rparr>, s2) = Some (st, ctx', c3)"
        using sec by (auto simp: secure_over_def split: option.splits)
      from secure_connection_account [OF m prep this] secure_connection_status [OF this] show ?thesis
        using u s1 s2 reached by (auto simp: c net_usage_def leftovers_def tls_owes_def accounts_def split: option.splits)
    qed
  qed
qed

text \<open>Receiving and transmitting leave the account of the context as it is.\<close>

lemma receive_over_owes:
  assumes m: "module_ok E" and run: "receive_over E recv (Some ctx) b k s = Some (rc, bytes, Some ctx', s')"
  shows "socket ctx' = socket ctx \<and> openSockets s' = openSockets s \<and>
    (tls_owes n bl (pTLSContext ctx) (net_token s) \<longrightarrow> tls_owes n bl (pTLSContext ctx') (net_token s'))"
proof (cases "\<not> b \<or> k = 0 \<or> pTLSContext ctx = None")
  case True
  then show ?thesis using run by (auto simp: receive_over_def split_beta split: if_splits)
next
  case False
  then obtain x where x: "pTLSContext ctx = Some x" by blast
  then obtain y t where l: "TLS_Recv E (Some x) k (net_token s) = Some (rc, bytes, y, t)"
    and c': "ctx' = ctx\<lparr>pTLSContext := y\<rparr>" "s' = s\<lparr>net_token := t\<rparr>"
    using run False by (auto simp: receive_over_def split: option.splits)
  then show ?thesis using tls_recv_owes [OF m l] by (simp add: x)
qed

lemma transmit_over_owes:
  assumes m: "module_ok E" and run: "transmit_over E send (Some ctx) (Some msg) s = Some (rc, Some ctx', s')"
  shows "socket ctx' = socket ctx \<and> openSockets s' = openSockets s \<and>
    (tls_owes n bl (pTLSContext ctx) (net_token s) \<longrightarrow> tls_owes n bl (pTLSContext ctx') (net_token s'))"
proof (cases "msg = [] \<or> pTLSContext ctx = None")
  case True
  then show ?thesis using run by (auto simp: transmit_over_def split_beta split: if_splits)
next
  case False
  then obtain x where x: "pTLSContext ctx = Some x" by blast
  then obtain y t where l: "TLS_Send E (Some x) msg (net_token s) = Some (rc, y, t)"
    and c': "ctx' = ctx\<lparr>pTLSContext := y\<rparr>" "s' = s\<lparr>net_token := t\<rparr>"
    using run False by (auto simp: transmit_over_def split: option.splits)
  then show ?thesis using tls_send_owes [OF m l] by (simp add: x)
qed

section \<open>What a secure connection guarantees\<close>

text \<open>The settings of a context over which the peer has been verified.\<close>

definition verified_peer :: "string \<Rightarrow> TLSContext \<Rightarrow> bool" where
  "verified_peer host c \<longleftrightarrow>
     verifyRequired (settings c) \<and> caChain (settings c) \<and> hostname (settings c) = Some (c_str host) \<and>
     isSetup (settings c) \<and> ownCertificate (settings c) \<and> signerInstalled c"

lemma secure_connection_verified:
  assumes "seeding_needs_entropy E" and "tls_helper_params host q = Some params"
    and "secure_connection E k prepare params (ctx, s) = Some (TRANSPORT_STATUS_SUCCESS, ctx', s')"
  shows "\<exists>c. pTLSContext ctx' = Some c \<and> verified_peer host c \<and> alpnProtocols (settings c) = None"
proof -
  obtain s1 tls t1 r y t2 where i: "TLS_Init E params (Some zero_context) s1 = Some (True, Some tls, t1)"
    and c: "TLS_Connect E (tls, t1) = Some (r, y, t2)" and r: "r = 0" and ctx': "ctx' = ctx\<lparr>pTLSContext := Some y\<rparr>"
    using assms(3) by (auto simp: secure_connection_def Let_def split: option.splits prod.splits bool.splits if_splits)
  have "y = tls" using c r by (auto simp: TLS_Connect_def split: option.splits if_splits)
  moreover have "pcDestination params = Some host" "pcAlpnProtocols params = None"
    using assms(2) by (auto simp: tls_helper_params_def split: if_splits)
  ultimately show ?thesis
    using tls_init_settings [OF assms(1) i] by (simp add: ctx' verified_peer_def)
qed
section \<open>The contract of a transport\<close>

text \<open>
  A client that opens a connection, does something over it, and closes it: whatever the results,
  it is \<open>None\<close> only when a call does not return or is undefined.
\<close>

fun acts :: "('a \<Rightarrow> 'c \<Rightarrow> 'c option) \<Rightarrow> 'a list \<Rightarrow> 'c \<Rightarrow> 'c option" where
  "acts act [] c = Some c"
| "acts act (a # as) c = (case act a c of None \<Rightarrow> None | Some c \<Rightarrow> acts act as c)"

fun conversations ::
  "('p \<Rightarrow> 'c \<Rightarrow> (TransportStatus \<times> 'c) option) \<Rightarrow> ('a \<Rightarrow> 'c \<Rightarrow> 'c option) \<Rightarrow>
   ('c \<Rightarrow> (TransportStatus \<times> 'c) option) \<Rightarrow> ('p \<times> 'a list) list \<Rightarrow> 'c \<Rightarrow> 'c option" where
  "conversations connect act disconnect [] c = Some c"
| "conversations connect act disconnect ((p, as) # cs) c =
     (case connect p c of
        None \<Rightarrow> None
      | Some (_, c) \<Rightarrow>
          (case acts act as c of
             None \<Rightarrow> None
           | Some c \<Rightarrow>
               (case disconnect c of None \<Rightarrow> None | Some (_, c) \<Rightarrow> conversations connect act disconnect cs c)))"

text \<open>A client that only tries to connect, as long as it fails.\<close>

fun connect_attempts ::
  "('p \<Rightarrow> 'c \<Rightarrow> (TransportStatus \<times> 'c) option) \<Rightarrow> 'p list \<Rightarrow> 'c \<Rightarrow> (TransportStatus list \<times> 'c) option" where
  "connect_attempts connect [] c = Some ([], c)"
| "connect_attempts connect (p # ps) c =
     (case connect p c of
        None \<Rightarrow> None
      | Some (st, c) \<Rightarrow>
          if st = TRANSPORT_STATUS_SUCCESS then Some ([st], c)
          else (case connect_attempts connect ps c of None \<Rightarrow> None | Some (sts, c) \<Rightarrow> Some (st # sts, c)))"

text \<open>
  The contract, for the environments \<open>E\<close> in which the libraries below behave as documented (\<open>ok E\<close>).
  \<open>owes u c\<close> says that giving back what the connection \<open>c\<close> holds leaves \<open>u\<close> in use. A failed attempt
  adds to what is in use exactly \<open>left_behind\<close>.
\<close>

locale transport =
  fixes ok :: "'e \<Rightarrow> bool"
    and connect :: "'e \<Rightarrow> 'p \<Rightarrow> 'c \<Rightarrow> (TransportStatus \<times> 'c) option"
    and act :: "'e \<Rightarrow> 'a \<Rightarrow> 'c \<Rightarrow> 'c option"
    and disconnect :: "'e \<Rightarrow> 'c \<Rightarrow> (TransportStatus \<times> 'c) option"
    and usage :: "'c \<Rightarrow> nat \<times> nat \<times> nat"
    and idle :: "'c \<Rightarrow> bool"
    and owes :: "nat \<times> nat \<times> nat \<Rightarrow> 'c \<Rightarrow> bool"
    and left_behind :: "TransportStatus \<Rightarrow> nat \<times> nat \<times> nat"
  assumes connect_owes: "ok E \<Longrightarrow> idle c \<Longrightarrow> connect E p c = Some (st, c') \<Longrightarrow> owes (usage c) c'"
    and act_owes: "ok E \<Longrightarrow> owes u c \<Longrightarrow> act E a c = Some c' \<Longrightarrow> owes u c'"
    and disconnect_returns: "ok E \<Longrightarrow> owes u c \<Longrightarrow> disconnect E c = Some (st, c') \<Longrightarrow> idle c' \<and> usage c' = u"
    and failed_connect: "ok E \<Longrightarrow> connect E p c = Some (st, c') \<Longrightarrow> st \<noteq> TRANSPORT_STATUS_SUCCESS \<Longrightarrow>
      usage c' = (fst (usage c) + fst (left_behind st), fst (snd (usage c)) + fst (snd (left_behind st)),
                  snd (snd (usage c)) + snd (snd (left_behind st)))"
begin

lemma acts_owes: "ok E \<Longrightarrow> owes u c \<Longrightarrow> acts (act E) as c = Some c' \<Longrightarrow> owes u c'"
  by (induction as arbitrary: c) (auto split: option.splits dest: act_owes)

lemma conversations_balanced:
  assumes ok: "ok E"
  shows "idle c \<Longrightarrow> conversations (connect E) (act E) (disconnect E) cs c = Some c' \<Longrightarrow> idle c' \<and> usage c' = usage c"
proof (induction cs arbitrary: c)
  case (Cons x cs)
  obtain p as where x: "x = (p, as)" by fastforce
  obtain st1 c1 c2 st3 c3 where 1: "connect E p c = Some (st1, c1)" and 2: "acts (act E) as c1 = Some c2"
    and 3: "disconnect E c2 = Some (st3, c3)"
    and rest: "conversations (connect E) (act E) (disconnect E) cs c3 = Some c'"
    using Cons.prems(2) by (auto simp: x split: option.splits)
  have "owes (usage c) c2" by (rule acts_owes [OF ok connect_owes [OF ok Cons.prems(1) 1] 2])
  with ok have "idle c3 \<and> usage c3 = usage c" using 3 by (rule disconnect_returns)
  then show ?case using Cons.IH [OF _ rest] by simp
qed simp

lemma attempts_usage:
  assumes ok: "ok E"
  shows "connect_attempts (connect E) ps c = Some (sts, c') \<Longrightarrow> TRANSPORT_STATUS_SUCCESS \<notin> set sts \<Longrightarrow>
   usage c' = (fst (usage c) + sum_list (map (fst \<circ> left_behind) sts),
               fst (snd (usage c)) + sum_list (map (fst \<circ> snd \<circ> left_behind) sts),
               snd (snd (usage c)) + sum_list (map (snd \<circ> snd \<circ> left_behind) sts))"
proof (induction ps arbitrary: c sts)
  case (Cons p ps)
  obtain st c1 where 1: "connect E p c = Some (st, c1)" using Cons.prems(1) by (auto split: option.splits)
  with Cons.prems have st: "st \<noteq> TRANSPORT_STATUS_SUCCESS" by (auto split: if_splits)
  obtain sts1 where 2: "connect_attempts (connect E) ps c1 = Some (sts1, c')" and sts: "sts = st # sts1"
    using Cons.prems(1) 1 st by (auto split: option.splits)
  show ?case using Cons.IH [OF 2] Cons.prems(2) failed_connect [OF ok 1 st] by (simp add: sts)
qed (auto simp: prod_eq_iff)

end

abbreviation conn_usage :: "('s, 'w) conn \<Rightarrow> nat \<times> nat \<times> nat" where
  "conn_usage c \<equiv> net_usage (snd c)"

abbreviation conn_idle :: "('s, 'w) conn \<Rightarrow> bool" where
  "conn_idle c \<equiv> pTLSContext (fst c) = None"

text \<open>What may be done over a connection.\<close>

datatype transport_use = Receive nat | Transmit "u8 list"

section \<open>The functions as a client calls them\<close>

text \<open>
  A client that has a context, and a destination: host name, port, TLS parameters and the two
  timeouts.
\<close>

type_synonym destination = "string \<times> u16 \<times> TLSParams option \<times> u32 \<times> u32"

definition server_of :: "destination \<Rightarrow> ServerInfo" where
  "server_of d = \<lparr>pHostName = Some (fst d), hostNameLength = strlen (fst d), server_port = fst (snd d)\<rparr>"

definition call_connect ::
  "(('s NetworkContext) option \<Rightarrow> ServerInfo option \<Rightarrow> TLSParams option \<Rightarrow> u32 \<Rightarrow> u32 \<Rightarrow> 'w net_state \<Rightarrow>
    (TransportStatus \<times> ('s NetworkContext) option \<times> 'w net_state) option) \<Rightarrow>
   destination \<Rightarrow> ('s, 'w) conn \<Rightarrow> (TransportStatus \<times> ('s, 'w) conn) option" where
  "call_connect f d c =
     (case f (Some (fst c)) (Some (server_of d)) (fst (snd (snd d))) (fst (snd (snd (snd d)))) (snd (snd (snd (snd d)))) (snd c) of
        Some (st, Some ctx, s) \<Rightarrow> Some (st, ctx, s)
      | _ \<Rightarrow> None)"

definition call_use ::
  "(('s NetworkContext) option \<Rightarrow> bool \<Rightarrow> nat \<Rightarrow> 'w net_state \<Rightarrow> (int \<times> u8 list \<times> ('s NetworkContext) option \<times> 'w net_state) option) \<Rightarrow>
   (('s NetworkContext) option \<Rightarrow> u8 list option \<Rightarrow> 'w net_state \<Rightarrow> (int \<times> ('s NetworkContext) option \<times> 'w net_state) option) \<Rightarrow>
   transport_use \<Rightarrow> ('s, 'w) conn \<Rightarrow> ('s, 'w) conn option" where
  "call_use recv send u c =
     (case u of
        Receive n \<Rightarrow> (case recv (Some (fst c)) True n (snd c) of Some (_, _, Some ctx, s) \<Rightarrow> Some (ctx, s) | _ \<Rightarrow> None)
      | Transmit m \<Rightarrow> (case send (Some (fst c)) (Some m) (snd c) of Some (_, Some ctx, s) \<Rightarrow> Some (ctx, s) | _ \<Rightarrow> None))"

definition call_disconnect ::
  "(('s NetworkContext) option \<Rightarrow> 'w net_state \<Rightarrow> (TransportStatus \<times> ('s NetworkContext) option \<times> 'w net_state) option) \<Rightarrow>
   ('s, 'w) conn \<Rightarrow> (TransportStatus \<times> ('s, 'w) conn) option" where
  "call_disconnect f c = (case f (Some (fst c)) (snd c) of Some (st, Some ctx, s) \<Rightarrow> Some (st, ctx, s) | _ \<Rightarrow> None)"

lemma call_connect_with_server:
  "call_connect (\<lambda>n i q a b. with_server n i (g q a b)) d c =
   g (fst (snd (snd d))) (fst (snd (snd (snd d)))) (snd (snd (snd (snd d)))) (fst d) (fst (snd d)) c"
  by (simp add: call_connect_def with_server_def server_of_def split: option.split)

lemma call_use_account:
  assumes m: "module_ok E" and run: "call_use (receive_over E recv) (transmit_over E send) u c = Some c'"
  shows "socket (fst c') = socket (fst c) \<and> openSockets (snd c') = openSockets (snd c) \<and>
    (tls_owes n b (pTLSContext (fst c)) (net_token (snd c)) \<longrightarrow> tls_owes n b (pTLSContext (fst c')) (net_token (snd c')))"
proof (cases u)
  case (Receive k)
  then obtain rc bytes where "receive_over E recv (Some (fst c)) True k (snd c) = Some (rc, bytes, Some (fst c'), snd c')"
    using run by (auto simp: call_use_def split: option.splits)
  from receive_over_owes [OF m this] show ?thesis by blast
next
  case (Transmit msg)
  then obtain rc where "transmit_over E send (Some (fst c)) (Some msg) (snd c) = Some (rc, Some (fst c'), snd c')"
    using run by (auto simp: call_use_def split: option.splits)
  from transmit_over_owes [OF m this] show ?thesis by blast
qed

text \<open>The account of a whole connection: a valid socket and what the TLS context holds.\<close>

definition conn_owes :: "('s \<Rightarrow> bool) \<Rightarrow> nat \<times> nat \<times> nat \<Rightarrow> ('s, 'w) conn \<Rightarrow> bool" where
  "conn_owes valid u c \<longleftrightarrow>
     openSockets (snd c) = fst u + of_bool (valid (socket (fst c))) \<and>
     tls_owes (fst (snd u)) (snd (snd u)) (pTLSContext (fst c)) (net_token (snd c))"

lemma call_use_owes:
  assumes "module_ok E" and "conn_owes valid u c" and "call_use (receive_over E recv) (transmit_over E send) a c = Some c'"
  shows "conn_owes valid u c'"
  using call_use_account [OF assms(1,3), of "fst (snd u)" "snd (snd u)"] assms(2)
  unfolding conn_owes_def by metis

lemma failed_usage:
  "conn_usage c' = (openSockets (snd c) + fst (leftovers st), openSessions (net_token (snd c)),
                    liveBlocks (net_token (snd c)) + snd (snd (leftovers st))) \<Longrightarrow>
   conn_usage c' = (fst (conn_usage c) + fst (leftovers st), fst (snd (conn_usage c)) + fst (snd (leftovers st)),
                    snd (snd (conn_usage c)) + snd (snd (leftovers st)))"
  by (simp add: net_usage_def leftovers_def)

end
