(* ===== verification/Transport_Vsocket.thy ===== *)
theory Transport_Vsocket
  imports Transport
begin

text \<open>
  The transport over IoT sockets, \<^verbatim>\<open>transport_tls_iot_socket.c\<close>: every function, on top of the TLS
  layer. The IoT socket library is a parameter; the socket number is an int and a negative result an
  error.
\<close>

section \<open>The socket library\<close>

datatype iot_socket_option = IOT_SOCKET_SO_SNDTIMEO | IOT_SOCKET_SO_RCVTIMEO | IOT_SOCKET_IO_FIONBIO

record 'w iot_socket =
  iotSocketCreate :: "'w \<Rightarrow> int \<times> 'w"
  iotSocketGetHostByName :: "string \<Rightarrow> 'w \<Rightarrow> int \<times> u8 list \<times> 'w"
  iotSocketConnect :: "int \<Rightarrow> u8 list \<Rightarrow> u16 \<Rightarrow> 'w \<Rightarrow> int \<times> 'w"
  iotSocketSetOpt :: "int \<Rightarrow> iot_socket_option \<Rightarrow> u32 \<Rightarrow> 'w \<Rightarrow> int \<times> 'w"
  iotSocketRecv :: "int \<Rightarrow> nat \<Rightarrow> 'w \<Rightarrow> int \<times> u8 list \<times> 'w"
  iotSocketSend :: "int \<Rightarrow> u8 list \<Rightarrow> 'w \<Rightarrow> int \<times> 'w"
  iotSocketClose :: "int \<Rightarrow> 'w \<Rightarrow> int \<times> 'w"
  IOT_SOCKET_ERROR :: int
  IOT_SOCKET_EAGAIN :: int

record 'w vsocket_env =
  iot :: "'w iot_socket"
  vtls :: "'w tls_env"
  vsizeof_TLSContext :: nat

text \<open>A socket number that is not negative. Creation and closing are counted.\<close>

abbreviation (input) iot_valid :: "int \<Rightarrow> bool" where "iot_valid k \<equiv> 0 \<le> k"

definition iot_create :: "'w vsocket_env \<Rightarrow> 'w net_state \<Rightarrow> int \<times> 'w net_state" where
  "iot_create E s =
     (let (k, s) = on_net (iotSocketCreate (iot E)) s
      in (k, if 0 \<le> k then s\<lparr>openSockets := Suc (openSockets s)\<rparr> else s))"

text \<open>Closing is repeated as long as the library asks for it.\<close>

partial_function (option) iot_close :: "'w vsocket_env \<Rightarrow> int \<Rightarrow> 'w net_state \<Rightarrow> (int \<times> 'w net_state) option" where
  "iot_close E k s =
     (let (r, s) = on_net (iotSocketClose (iot E) k) s
      in if r = IOT_SOCKET_EAGAIN (iot E) then iot_close E k s
         else Some (r, if 0 \<le> r then s\<lparr>openSockets := openSockets s - 1\<rparr> else s))"

section \<open>Connecting\<close>

definition iot_timeouts :: "'w vsocket_env \<Rightarrow> int \<Rightarrow> u32 \<Rightarrow> u32 \<Rightarrow> 'w net_state \<Rightarrow> 'w net_state" where
  "iot_timeouts E k sendTimeoutMs recvTimeoutMs s =
     snd (on_net (iotSocketSetOpt (iot E) k IOT_SOCKET_SO_RCVTIMEO recvTimeoutMs)
       (snd (on_net (iotSocketSetOpt (iot E) k IOT_SOCKET_SO_SNDTIMEO sendTimeoutMs) s)))"

definition iot_set_blocking :: "'w vsocket_env \<Rightarrow> int \<Rightarrow> 'w net_state \<Rightarrow> 'w net_state" where
  "iot_set_blocking E k s = snd (on_net (iotSocketSetOpt (iot E) k IOT_SOCKET_IO_FIONBIO 0) s)"

text \<open>The connection over a socket that has been created.\<close>

definition iot_reach ::
  "'w vsocket_env \<Rightarrow> string \<Rightarrow> u16 \<Rightarrow> int \<Rightarrow> 'w net_state \<Rightarrow> TransportStatus \<times> 'w net_state" where
  "iot_reach E host p k s =
     (let (r, ipAddr, s) = on_net2 (iotSocketGetHostByName (iot E) (c_str host)) s
      in if r < 0 then (TRANSPORT_STATUS_DNS_FAILURE, s)
         else
           (let (r, s) = on_net (iotSocketConnect (iot E) k ipAddr p) s
            in (if r < 0 then TRANSPORT_STATUS_CONNECT_FAILURE else TRANSPORT_STATUS_SUCCESS, s)))"

definition Transport_Connect_vsocket ::
  "'w vsocket_env \<Rightarrow> (int NetworkContext) option \<Rightarrow> ServerInfo option \<Rightarrow> TLSParams option \<Rightarrow> u32 \<Rightarrow> u32 \<Rightarrow> 'w net_state \<Rightarrow>
   (TransportStatus \<times> (int NetworkContext) option \<times> 'w net_state) option" where
  "Transport_Connect_vsocket E pNetworkContext pServerInfo pTLSParams sendTimeoutMs recvTimeoutMs =
     with_server pNetworkContext pServerInfo (\<lambda>host p.
       connect_over iot_valid (iot_create E) (iot_reach E host p)
         (secure_over (vtls E) (vsizeof_TLSContext E) (\<lambda>k. iot_timeouts E k sendTimeoutMs recvTimeoutMs) host pTLSParams)
         (iot_set_blocking E))"

section \<open>Data\<close>

definition Transport_Recv_vsocket ::
  "'w vsocket_env \<Rightarrow> (int NetworkContext) option \<Rightarrow> bool \<Rightarrow> nat \<Rightarrow> 'w net_state \<Rightarrow>
   (int \<times> u8 list \<times> (int NetworkContext) option \<times> 'w net_state) option" where
  "Transport_Recv_vsocket E = receive_over (vtls E) (iotSocketRecv (iot E))"

definition Transport_Send_vsocket ::
  "'w vsocket_env \<Rightarrow> (int NetworkContext) option \<Rightarrow> u8 list option \<Rightarrow> 'w net_state \<Rightarrow>
   (int \<times> (int NetworkContext) option \<times> 'w net_state) option" where
  "Transport_Send_vsocket E = transmit_over (vtls E) (iotSocketSend (iot E))"

text \<open>The callbacks of the TLS layer, given the socket of the context.\<close>

definition Recv_Cb_vsocket ::
  "'w vsocket_env \<Rightarrow> int NetworkContext option \<Rightarrow> bool \<Rightarrow> nat \<Rightarrow> 'w net_state \<Rightarrow> int \<times> u8 list \<times> 'w net_state" where
  "Recv_Cb_vsocket E pvCallerContext buffered xReceiveLength s =
     (case pvCallerContext of
        None \<Rightarrow> (IOT_SOCKET_ERROR (iot E), [], s)
      | Some ctx \<Rightarrow>
          if \<not> buffered then (IOT_SOCKET_ERROR (iot E), [], s)
          else
            (let (rc, bytes, s) = on_net2 (iotSocketRecv (iot E) (socket ctx) xReceiveLength) s
             in (if rc < 0 \<and> rc = IOT_SOCKET_EAGAIN (iot E) then 0 else rc, bytes, s)))"

definition Send_Cb_vsocket ::
  "'w vsocket_env \<Rightarrow> int NetworkContext option \<Rightarrow> u8 list option \<Rightarrow> 'w net_state \<Rightarrow> int \<times> 'w net_state" where
  "Send_Cb_vsocket E pvCallerContext pucData s =
     (case (pvCallerContext, pucData) of
        (Some ctx, Some bytes) \<Rightarrow> on_net (iotSocketSend (iot E) (socket ctx) bytes) s
      | _ \<Rightarrow> (IOT_SOCKET_ERROR (iot E), s))"

section \<open>Disconnecting\<close>

definition iot_disconnect :: "'w vsocket_env \<Rightarrow> (int, 'w) conn \<Rightarrow> (TransportStatus \<times> (int, 'w) conn) option" where
  "iot_disconnect E c =
     (case iot_close E (socket (fst c)) (snd c) of
        None \<Rightarrow> None
      | Some (r, s) \<Rightarrow>
          (case release_tls (vtls E) (fst c, s) of
             None \<Rightarrow> None
           | Some c \<Rightarrow>
               Some (if r < 0 then TRANSPORT_STATUS_SOCKET_CLOSE_FAILURE else TRANSPORT_STATUS_SUCCESS, c)))"

definition Transport_Disconnect_vsocket ::
  "'w vsocket_env \<Rightarrow> int NetworkContext option \<Rightarrow> 'w net_state \<Rightarrow>
   (TransportStatus \<times> int NetworkContext option \<times> 'w net_state) option" where
  "Transport_Disconnect_vsocket E pNetworkContext s =
     (case pNetworkContext of
        None \<Rightarrow> Some (TRANSPORT_STATUS_INVALID_PARAMETER, None, s)
      | Some ctx \<Rightarrow>
          (case iot_disconnect E (ctx, s) of None \<Rightarrow> None | Some (status, ctx, s) \<Rightarrow> Some (status, Some ctx, s)))"
section \<open>The contract\<close>

text \<open>
  Closing an open socket succeeds or asks for a repetition, closing anything else is an error; the
  code that asks for a repetition is negative.
\<close>

definition iot_ok :: "'w vsocket_env \<Rightarrow> bool" where
  "iot_ok E \<longleftrightarrow> IOT_SOCKET_EAGAIN (iot E) < 0 \<and>
     (\<forall>k w. if 0 \<le> k then fst (iotSocketClose (iot E) k w) \<in> {0, IOT_SOCKET_EAGAIN (iot E)}
            else fst (iotSocketClose (iot E) k w) < 0)"

lemma iot_close_account:
  "iot_close E k s = Some y \<Longrightarrow>
   net_usage (snd y) = (openSockets s - of_bool (0 \<le> fst y), snd (net_usage s)) \<and>
   (\<exists>w. fst y = fst (iotSocketClose (iot E) k w)) \<and> fst y \<noteq> IOT_SOCKET_EAGAIN (iot E)"
proof (induction E k s y rule: iot_close.raw_induct [rotated, consumes 1])
  case (1 f E k s y)
  note IH = "1"(1) and body = "1"(2)
  obtain r s1 where c: "on_net (iotSocketClose (iot E) k) s = (r, s1)" by fastforce
  have u: "net_usage s1 = net_usage s"
    using arg_cong [OF c, of "\<lambda>x. net_usage (snd x)"] by (simp add: net_usage_def)
  have r: "\<exists>w. r = fst (iotSocketClose (iot E) k w)"
    using arg_cong [OF c, of fst] by (auto simp: on_net_def on_token_def split_beta)
  show ?case
  proof (cases "r = IOT_SOCKET_EAGAIN (iot E)")
    case True
    then have "f E k s1 = Some y" using body by (simp add: c)
    from IH [OF this] show ?thesis using u by (simp add: net_usage_def)
  next
    case False
    then show ?thesis using body u r by (auto simp: c net_usage_def)
  qed
qed

lemma vsocket_connect_account:
  assumes "module_ok (vtls E)" and "call_connect (Transport_Connect_vsocket E) d c = Some (st, c')"
  shows "openSockets (snd c') = openSockets (snd c) + of_bool (iot_valid (socket (fst c'))) \<and>
    (conn_idle c \<longrightarrow> conn_owes iot_valid (conn_usage c) c') \<and>
    (st \<noteq> TRANSPORT_STATUS_SUCCESS \<longrightarrow>
       conn_usage c' = (openSockets (snd c) + fst (leftovers st), openSessions (net_token (snd c)),
                        liveBlocks (net_token (snd c)) + snd (snd (leftovers st))))"
proof -
  obtain host p q a b where d: "d = (host, p, q, a, b)" by (metis prod_cases5)
  have run: "connect_over iot_valid (iot_create E) (iot_reach E host p)
      (secure_over (vtls E) (vsizeof_TLSContext E) (\<lambda>k. iot_timeouts E k a b) host q) (iot_set_blocking E) (fst c, snd c) =
      Some (st, fst c', snd c')"
    using assms(2) by (simp add: d Transport_Connect_vsocket_def [abs_def] call_connect_with_server)
  have quiet: "quiet (iot_timeouts E k a b)" "quiet (iot_set_blocking E k)" for k
    by (simp_all add: quiet_def iot_timeouts_def iot_set_blocking_def net_usage_def)
  have new: "net_usage (snd (iot_create E s)) = (openSockets s + of_bool (iot_valid (fst (iot_create E s))), snd (net_usage s))" for s
    by (simp add: iot_create_def net_usage_def split_beta)
  have reach: "net_usage (snd (iot_reach E host p k s)) = net_usage s"
    "fst (iot_reach E host p k s) \<in> {TRANSPORT_STATUS_DNS_FAILURE, TRANSPORT_STATUS_CONNECT_FAILURE, TRANSPORT_STATUS_SUCCESS}" for k s
    by (auto simp: iot_reach_def net_usage_def split_beta)
  show ?thesis
    using connect_over_account [where prepare = "\<lambda>k. iot_timeouts E k a b" and finish = "iot_set_blocking E" and
        reach = "iot_reach E host p", OF assms(1) quiet new reach run]
    unfolding conn_owes_def net_usage_def fst_conv snd_conv by blast
qed

lemma vsocket_disconnect_eq: "call_disconnect (Transport_Disconnect_vsocket E) c = iot_disconnect E c"
  by (simp add: call_disconnect_def Transport_Disconnect_vsocket_def split: option.split)

lemma vsocket_close_returns:
  assumes m: "module_ok (vtls E)" and i: "iot_ok E" and o: "conn_owes iot_valid u c" and run: "call_disconnect (Transport_Disconnect_vsocket E) c = Some (st, c')"
  shows "pTLSContext (fst c') = None \<and> net_usage (snd c') = u"
proof -
  obtain ctx s where c: "c = (ctx, s)" by fastforce
  obtain r s1 where cl: "iot_close E (socket ctx) s = Some (r, s1)" and rel: "release_tls (vtls E) (ctx, s1) = Some c'"
    using run by (auto simp: vsocket_disconnect_eq iot_disconnect_def c split: option.splits)
  have "net_usage s1 = (openSockets s - of_bool (0 \<le> r), snd (net_usage s))"
    using iot_close_account [OF cl] by simp
  moreover have "0 \<le> r \<longleftrightarrow> 0 \<le> socket ctx"
  proof -
    obtain w where "r = fst (iotSocketClose (iot E) (socket ctx) w)" "r \<noteq> IOT_SOCKET_EAGAIN (iot E)"
      using iot_close_account [OF cl] by auto
    then show ?thesis using i [unfolded iot_ok_def, THEN conjunct2, rule_format, of "socket ctx" w] by (auto split: if_splits)
  qed
  ultimately have u: "openSockets s1 = fst u" "tls_owes (fst (snd u)) (snd (snd u)) (pTLSContext ctx) (net_token s1)"
    using o by (auto simp: conn_owes_def c net_usage_def tls_owes_def accounts_def split: option.splits)
  show ?thesis
    using release_returns [OF m _ u(2), of "fst c'" "snd c'"] rel u(1) by (simp add: net_usage_def prod_eq_iff)
qed

definition vsocket_ok :: "'w vsocket_env \<Rightarrow> bool" where
  "vsocket_ok E \<longleftrightarrow> module_ok (vtls E) \<and> iot_ok E"

interpretation vsocket: transport vsocket_ok "\<lambda>E. call_connect (Transport_Connect_vsocket E)"
  "\<lambda>E. call_use (Transport_Recv_vsocket E) (Transport_Send_vsocket E)"
  "\<lambda>E. call_disconnect (Transport_Disconnect_vsocket E)" conn_usage conn_idle "conn_owes iot_valid" leftovers
proof unfold_locales
  fix E :: "'w vsocket_env" and d st and c c' :: "(int, 'w) conn"
  assume "vsocket_ok E" "conn_idle c" "call_connect (Transport_Connect_vsocket E) d c = Some (st, c')"
  then show "conn_owes iot_valid (conn_usage c) c'"
    using vsocket_connect_account [of E d c st c'] by (simp add: vsocket_ok_def)
next
  fix E :: "'w vsocket_env" and d st and c c' :: "(int, 'w) conn"
  assume "vsocket_ok E" "call_connect (Transport_Connect_vsocket E) d c = Some (st, c')" "st \<noteq> TRANSPORT_STATUS_SUCCESS"
  then show "conn_usage c' = (fst (conn_usage c) + fst (leftovers st), fst (snd (conn_usage c)) + fst (snd (leftovers st)),
        snd (snd (conn_usage c)) + snd (snd (leftovers st)))"
    using vsocket_connect_account [of E d c st c'] by (intro failed_usage) (simp add: vsocket_ok_def)
next
  fix E :: "'w vsocket_env" and u a and c c' :: "(int, 'w) conn"
  assume "vsocket_ok E" "conn_owes iot_valid u c" "call_use (Transport_Recv_vsocket E) (Transport_Send_vsocket E) a c = Some c'"
  then show "conn_owes iot_valid u c'"
    by (auto simp: vsocket_ok_def Transport_Recv_vsocket_def Transport_Send_vsocket_def intro: call_use_owes)
next
  fix E :: "'w vsocket_env" and u st and c c' :: "(int, 'w) conn"
  assume "vsocket_ok E" "conn_owes iot_valid u c" "call_disconnect (Transport_Disconnect_vsocket E) c = Some (st, c')"
  then show "conn_idle c' \<and> conn_usage c' = u" by (auto simp: vsocket_ok_def dest: vsocket_close_returns)
qed

end
