(* ===== verification/Transport_Tcp.thy ===== *)
theory Transport_Tcp
  imports Transport
begin

text \<open>
  The transport over FreeRTOS+TCP, \<^verbatim>\<open>transport_mbedtls.c\<close>: every function, on top of the TLS layer. The
  TCP stack is a parameter; a socket is an address, 0 the null pointer and the address of all ones the
  invalid socket.
\<close>

section \<open>The TCP stack\<close>

datatype tcp_socket_option = FREERTOS_SO_RCVTIMEO | FREERTOS_SO_SNDTIMEO

type_synonym tcp_socket = u32

abbreviation (input) FREERTOS_INVALID_SOCKET :: tcp_socket where "FREERTOS_INVALID_SOCKET \<equiv> - 1"
abbreviation (input) pdFREERTOS_ERRNO_EINVAL :: int where "pdFREERTOS_ERRNO_EINVAL \<equiv> 22"

record 'w tcp_stack =
  FreeRTOS_socket :: "'w \<Rightarrow> tcp_socket \<times> 'w"
  FreeRTOS_gethostbyname :: "string \<Rightarrow> 'w \<Rightarrow> u32 \<times> 'w"
  FreeRTOS_setsockopt :: "tcp_socket \<Rightarrow> tcp_socket_option \<Rightarrow> u32 \<Rightarrow> 'w \<Rightarrow> int \<times> 'w"
  FreeRTOS_htons :: "u16 \<Rightarrow> u16"
  FreeRTOS_connect :: "tcp_socket \<Rightarrow> u32 \<Rightarrow> u16 \<Rightarrow> 'w \<Rightarrow> int \<times> 'w"
  FreeRTOS_recv :: "tcp_socket \<Rightarrow> nat \<Rightarrow> 'w \<Rightarrow> int \<times> u8 list \<times> 'w"
  FreeRTOS_send :: "tcp_socket \<Rightarrow> u8 list \<Rightarrow> 'w \<Rightarrow> int \<times> 'w"
  FreeRTOS_shutdown :: "tcp_socket \<Rightarrow> 'w \<Rightarrow> int \<times> 'w"
  FreeRTOS_closesocket :: "tcp_socket \<Rightarrow> 'w \<Rightarrow> int \<times> 'w"

record 'w tcp_env =
  tcp :: "'w tcp_stack"
  ttls :: "'w tls_env"
  tsizeof_TLSContext :: nat

abbreviation (input) tcp_valid :: "tcp_socket \<Rightarrow> bool" where "tcp_valid k \<equiv> k \<noteq> FREERTOS_INVALID_SOCKET"

text \<open>Creation and closing are counted: closing succeeds with 1 and does nothing to an invalid socket.\<close>

definition tcp_create :: "'w tcp_env \<Rightarrow> 'w net_state \<Rightarrow> tcp_socket \<times> 'w net_state" where
  "tcp_create E s =
     (let (k, s) = on_net (FreeRTOS_socket (tcp E)) s
      in (k, if k \<noteq> FREERTOS_INVALID_SOCKET then s\<lparr>openSockets := Suc (openSockets s)\<rparr> else s))"

definition tcp_close :: "'w tcp_env \<Rightarrow> tcp_socket \<Rightarrow> 'w net_state \<Rightarrow> 'w net_state" where
  "tcp_close E k s =
     (let (r, s) = on_net (FreeRTOS_closesocket (tcp E) k) s
      in if r = 1 then s\<lparr>openSockets := openSockets s - 1\<rparr> else s)"

section \<open>Connecting\<close>

definition tcp_timeouts :: "'w tcp_env \<Rightarrow> tcp_socket \<Rightarrow> u32 \<Rightarrow> u32 \<Rightarrow> 'w net_state \<Rightarrow> 'w net_state" where
  "tcp_timeouts E k sendTimeoutMs recvTimeoutMs s =
     snd (on_net (FreeRTOS_setsockopt (tcp E) k FREERTOS_SO_SNDTIMEO (pdMS_TO_TICKS sendTimeoutMs))
       (snd (on_net (FreeRTOS_setsockopt (tcp E) k FREERTOS_SO_RCVTIMEO (pdMS_TO_TICKS recvTimeoutMs)) s)))"

text \<open>The connection over a socket that has been created.\<close>

definition tcp_reach ::
  "'w tcp_env \<Rightarrow> string \<Rightarrow> u16 \<Rightarrow> u32 \<Rightarrow> u32 \<Rightarrow> tcp_socket \<Rightarrow> 'w net_state \<Rightarrow> TransportStatus \<times> 'w net_state" where
  "tcp_reach E host p sendTimeoutMs recvTimeoutMs k s =
     (let (address, s) = on_net (FreeRTOS_gethostbyname (tcp E) (c_str host)) s
      in if address = 0 then (TRANSPORT_STATUS_DNS_FAILURE, s)
         else
           (let s = tcp_timeouts E k sendTimeoutMs recvTimeoutMs s;
                (r, s) = on_net (FreeRTOS_connect (tcp E) k address (FreeRTOS_htons (tcp E) p)) s
            in (if r < 0 then TRANSPORT_STATUS_CONNECT_FAILURE else TRANSPORT_STATUS_SUCCESS, s)))"

definition Transport_Connect_tcp ::
  "'w tcp_env \<Rightarrow> (tcp_socket NetworkContext) option \<Rightarrow> ServerInfo option \<Rightarrow> TLSParams option \<Rightarrow> u32 \<Rightarrow> u32 \<Rightarrow> 'w net_state \<Rightarrow>
   (TransportStatus \<times> (tcp_socket NetworkContext) option \<times> 'w net_state) option" where
  "Transport_Connect_tcp E pNetworkContext pServerInfo pTLSParams sendTimeoutMs recvTimeoutMs =
     with_server pNetworkContext pServerInfo (\<lambda>host p.
       connect_over tcp_valid (tcp_create E) (tcp_reach E host p sendTimeoutMs recvTimeoutMs)
         (secure_over (ttls E) (tsizeof_TLSContext E) (\<lambda>k s. s) host pTLSParams) (\<lambda>k s. s))"

section \<open>Data\<close>

definition Transport_Recv_tcp ::
  "'w tcp_env \<Rightarrow> (tcp_socket NetworkContext) option \<Rightarrow> bool \<Rightarrow> nat \<Rightarrow> 'w net_state \<Rightarrow>
   (int \<times> u8 list \<times> (tcp_socket NetworkContext) option \<times> 'w net_state) option" where
  "Transport_Recv_tcp E = receive_over (ttls E) (FreeRTOS_recv (tcp E))"

definition Transport_Send_tcp ::
  "'w tcp_env \<Rightarrow> (tcp_socket NetworkContext) option \<Rightarrow> u8 list option \<Rightarrow> 'w net_state \<Rightarrow>
   (int \<times> (tcp_socket NetworkContext) option \<times> 'w net_state) option" where
  "Transport_Send_tcp E = transmit_over (ttls E) (FreeRTOS_send (tcp E))"

text \<open>The callbacks of the TLS layer, given the socket of the context.\<close>

definition Recv_Cb_tcp ::
  "'w tcp_env \<Rightarrow> tcp_socket NetworkContext option \<Rightarrow> bool \<Rightarrow> nat \<Rightarrow> 'w net_state \<Rightarrow> int \<times> u8 list \<times> 'w net_state" where
  "Recv_Cb_tcp E pvCallerContext buffered xReceiveLength s =
     (case pvCallerContext of
        None \<Rightarrow> (pdFREERTOS_ERRNO_EINVAL, [], s)
      | Some ctx \<Rightarrow>
          if \<not> buffered then (pdFREERTOS_ERRNO_EINVAL, [], s)
          else
            on_net2 (FreeRTOS_recv (tcp E) (socket ctx) xReceiveLength) s)"

definition Send_Cb_tcp ::
  "'w tcp_env \<Rightarrow> tcp_socket NetworkContext option \<Rightarrow> u8 list option \<Rightarrow> 'w net_state \<Rightarrow> int \<times> 'w net_state" where
  "Send_Cb_tcp E pvCallerContext pucData s =
     (case (pvCallerContext, pucData) of
        (Some ctx, Some bytes) \<Rightarrow> on_net (FreeRTOS_send (tcp E) (socket ctx) bytes) s
      | _ \<Rightarrow> (pdFREERTOS_ERRNO_EINVAL, s))"

section \<open>Disconnecting\<close>

text \<open>Waiting for the peer: \<open>waitForShutdownLoopCount\<close> rounds have been made.\<close>

function tcp_wait :: "'w tcp_env \<Rightarrow> tcp_socket \<Rightarrow> nat \<Rightarrow> 'w net_state \<Rightarrow> 'w net_state" where
  "tcp_wait E k waitForShutdownLoopCount s =
     (let (r, bytes, s) = on_net2 (FreeRTOS_recv (tcp E) k 2) s
      in if r < 0 \<or> 3 \<le> Suc waitForShutdownLoopCount then s
         else tcp_wait E k (Suc waitForShutdownLoopCount) s)"
  by pat_completeness auto

termination
  by (relation "measure (\<lambda>(E, k, n, s). 3 - n)") auto

declare tcp_wait.simps [simp del]

definition tcp_disconnect :: "'w tcp_env \<Rightarrow> (tcp_socket, 'w) conn \<Rightarrow> (TransportStatus \<times> (tcp_socket, 'w) conn) option" where
  "tcp_disconnect E c =
     (let (ctx, s) = c
      in if socket ctx = 0 then Some (TRANSPORT_STATUS_INVALID_PARAMETER, c)
         else
           (let s = tcp_wait E (socket ctx) 0 (snd (on_net (FreeRTOS_shutdown (tcp E) (socket ctx)) s))
            in case release_tls (ttls E) (ctx, tcp_close E (socket ctx) s) of
                 None \<Rightarrow> None
               | Some c \<Rightarrow> Some (TRANSPORT_STATUS_SUCCESS, c)))"

definition Transport_Disconnect_tcp ::
  "'w tcp_env \<Rightarrow> tcp_socket NetworkContext option \<Rightarrow> 'w net_state \<Rightarrow>
   (TransportStatus \<times> tcp_socket NetworkContext option \<times> 'w net_state) option" where
  "Transport_Disconnect_tcp E pNetworkContext s =
     (case pNetworkContext of
        None \<Rightarrow> Some (TRANSPORT_STATUS_INVALID_PARAMETER, None, s)
      | Some ctx \<Rightarrow>
          (case tcp_disconnect E (ctx, s) of None \<Rightarrow> None | Some (status, ctx, s) \<Rightarrow> Some (status, Some ctx, s)))"

section \<open>The contract\<close>

text \<open>
  A new socket is not the null pointer; closing succeeds for the sockets that have been created; the
  module behaves.
\<close>

definition tcp_ok :: "'w tcp_env \<Rightarrow> bool" where
  "tcp_ok E \<longleftrightarrow> module_ok (ttls E) \<and> (\<forall>w. fst (FreeRTOS_socket (tcp E) w) \<noteq> 0) \<and>
     (\<forall>k w. k \<noteq> 0 \<longrightarrow> (fst (FreeRTOS_closesocket (tcp E) k w) = 1 \<longleftrightarrow> tcp_valid k))"

text \<open>The socket of the context is never the null pointer.\<close>

definition tcp_owes :: "nat \<times> nat \<times> nat \<Rightarrow> (tcp_socket, 'w) conn \<Rightarrow> bool" where
  "tcp_owes u c \<longleftrightarrow> socket (fst c) \<noteq> 0 \<and> conn_owes tcp_valid u c"

lemma tcp_connect_account:
  fixes E :: "'w tcp_env"
  assumes "module_ok (ttls E)" and "call_connect (Transport_Connect_tcp E) d c = Some (st, c')"
  shows "socket (fst c') = fst (tcp_create E (snd c)) \<and> openSockets (snd c') = openSockets (snd c) + of_bool (tcp_valid (socket (fst c'))) \<and>
    (conn_idle c \<longrightarrow> conn_owes tcp_valid (conn_usage c) c') \<and>
    (st \<noteq> TRANSPORT_STATUS_SUCCESS \<longrightarrow>
       conn_usage c' = (openSockets (snd c) + fst (leftovers st), openSessions (net_token (snd c)),
                        liveBlocks (net_token (snd c)) + snd (snd (leftovers st))))"
proof -
  obtain host p q a b where d: "d = (host, p, q, a, b)" by (metis prod_cases5)
  have run: "connect_over tcp_valid (tcp_create E) (tcp_reach E host p a b)
      (secure_over (ttls E) (tsizeof_TLSContext E) (\<lambda>k s. s) host q) (\<lambda>k s. s) (fst c, snd c) =
      Some (st, fst c', snd c')"
    using assms(2) by (simp add: d Transport_Connect_tcp_def [abs_def] call_connect_with_server)
  have quiet: "quiet (\<lambda>s :: 'w net_state. s)" by (simp add: quiet_def)
  have new: "net_usage (snd (tcp_create E s)) = (openSockets s + of_bool (tcp_valid (fst (tcp_create E s))), snd (net_usage s))" for s
    by (simp add: tcp_create_def net_usage_def split_beta)
  have reach: "net_usage (snd (tcp_reach E host p a b k s)) = net_usage s"
    "fst (tcp_reach E host p a b k s) \<in> {TRANSPORT_STATUS_DNS_FAILURE, TRANSPORT_STATUS_CONNECT_FAILURE, TRANSPORT_STATUS_SUCCESS}" for k s
    by (auto simp: tcp_reach_def Let_def tcp_timeouts_def net_usage_def split_beta)
  show ?thesis
    using connect_over_account [where prepare = "\<lambda>k s. s" and finish = "\<lambda>k s. s" and
        reach = "tcp_reach E host p a b", OF assms(1) quiet quiet new reach run]
    unfolding conn_owes_def net_usage_def fst_conv snd_conv by blast
qed

lemma tcp_wait_usage [simp]: "net_usage (tcp_wait E k n s) = net_usage s"
proof (induction E k n s rule: tcp_wait.induct)
  case (1 E k n s)
  obtain r bytes s1 where g: "on_net2 (FreeRTOS_recv (tcp E) k 2) s = (r, bytes, s1)" by (metis prod_cases3)
  have "net_usage s1 = net_usage s" using arg_cong [OF g, of "\<lambda>x. net_usage (snd (snd x))"] by (simp add: net_usage_def)
  then show ?case using 1 [OF g [symmetric] refl] by (subst tcp_wait.simps) (simp add: g)
qed

lemma tcp_disconnect_eq: "call_disconnect (Transport_Disconnect_tcp E) c = tcp_disconnect E c"
  by (simp add: call_disconnect_def Transport_Disconnect_tcp_def split: option.split)

lemma tcp_close_returns:
  assumes ok: "tcp_ok E" and o: "tcp_owes u c" and run: "call_disconnect (Transport_Disconnect_tcp E) c = Some (st, c')"
  shows "pTLSContext (fst c') = None \<and> net_usage (snd c') = u"
proof -
  obtain ctx s where c: "c = (ctx, s)" by fastforce
  define s1 where "s1 = tcp_wait E (socket ctx) 0 (snd (on_net (FreeRTOS_shutdown (tcp E) (socket ctx)) s))"
  have s1: "net_usage s1 = net_usage s" by (simp add: s1_def) (simp add: net_usage_def)
  have k: "socket ctx \<noteq> 0" using o by (simp add: tcp_owes_def c)
  have rel: "release_tls (ttls E) (ctx, tcp_close E (socket ctx) s1) = Some c'"
    using run k by (auto simp: tcp_disconnect_eq tcp_disconnect_def c s1_def [symmetric] Let_def split: option.splits)
  have "fst (on_net (FreeRTOS_closesocket (tcp E) (socket ctx)) s1) = 1 \<longleftrightarrow> tcp_valid (socket ctx)"
    using ok k by (simp add: tcp_ok_def on_net_def on_token_def split_beta)
  then have "net_usage (tcp_close E (socket ctx) s1) = (openSockets s - of_bool (tcp_valid (socket ctx)), snd (net_usage s))"
    using s1 by (simp add: tcp_close_def net_usage_def split_beta)
  then have u: "openSockets (tcp_close E (socket ctx) s1) = fst u"
    "tls_owes (fst (snd u)) (snd (snd u)) (pTLSContext ctx) (net_token (tcp_close E (socket ctx) s1))"
    using o by (auto simp: tcp_owes_def conn_owes_def c net_usage_def tls_owes_def accounts_def split: option.splits)
  have m: "module_ok (ttls E)" using ok by (simp add: tcp_ok_def)
  show ?thesis
    using release_returns [OF m _ u(2), of "fst c'" "snd c'"] rel u(1) by (simp add: net_usage_def prod_eq_iff)
qed

lemma tcp_connect_socket:
  assumes "tcp_ok E" and "call_connect (Transport_Connect_tcp E) d c = Some (st, c')"
  shows "socket (fst c') \<noteq> 0"
  using assms tcp_connect_account [of E d c st c'] by (auto simp: tcp_ok_def tcp_create_def on_net_def on_token_def split_beta split: if_splits)

interpretation tcp: transport tcp_ok "\<lambda>E. call_connect (Transport_Connect_tcp E)"
  "\<lambda>E. call_use (Transport_Recv_tcp E) (Transport_Send_tcp E)"
  "\<lambda>E. call_disconnect (Transport_Disconnect_tcp E)" conn_usage conn_idle tcp_owes leftovers
proof unfold_locales
  fix E :: "'w tcp_env" and d st and c c' :: "(tcp_socket, 'w) conn"
  assume "tcp_ok E" "conn_idle c" "call_connect (Transport_Connect_tcp E) d c = Some (st, c')"
  then show "tcp_owes (conn_usage c) c'"
    using tcp_connect_account [of E d c st c'] tcp_connect_socket [of E d c st c'] by (simp add: tcp_ok_def tcp_owes_def)
next
  fix E :: "'w tcp_env" and d st and c c' :: "(tcp_socket, 'w) conn"
  assume "tcp_ok E" "call_connect (Transport_Connect_tcp E) d c = Some (st, c')" "st \<noteq> TRANSPORT_STATUS_SUCCESS"
  then show "conn_usage c' = (fst (conn_usage c) + fst (leftovers st), fst (snd (conn_usage c)) + fst (snd (leftovers st)),
        snd (snd (conn_usage c)) + snd (snd (leftovers st)))"
    using tcp_connect_account [of E d c st c'] by (intro failed_usage) (simp add: tcp_ok_def)
next
  fix E :: "'w tcp_env" and u a and c c' :: "(tcp_socket, 'w) conn"
  assume "tcp_ok E" "tcp_owes u c" "call_use (Transport_Recv_tcp E) (Transport_Send_tcp E) a c = Some c'"
  then show "tcp_owes u c'"
    using call_use_owes [of "ttls E" tcp_valid u c] call_use_account [of "ttls E" _ _ a c c']
    by (simp add: tcp_ok_def tcp_owes_def Transport_Recv_tcp_def Transport_Send_tcp_def)
next
  fix E :: "'w tcp_env" and u st and c c' :: "(tcp_socket, 'w) conn"
  assume "tcp_ok E" "tcp_owes u c" "call_disconnect (Transport_Disconnect_tcp E) c = Some (st, c')"
  then show "conn_idle c' \<and> conn_usage c' = u" using tcp_close_returns by blast
qed

end
