(* ===== verification/Transport_Properties.thy ===== *)
theory Transport_Properties
  imports Transport_Vsocket Transport_Tcp
begin

text \<open>
  What both transports guarantee: connections that are closed give everything back, attempts that fail
  and are not closed do not, and a secure connection has verified its peer.
\<close>

section \<open>Sockets, sessions and blocks\<close>

abbreviation vsocket_conversations where
  "vsocket_conversations E \<equiv> conversations (call_connect (Transport_Connect_vsocket E))
     (call_use (Transport_Recv_vsocket E) (Transport_Send_vsocket E)) (call_disconnect (Transport_Disconnect_vsocket E))"

abbreviation tcp_conversations where
  "tcp_conversations E \<equiv> conversations (call_connect (Transport_Connect_tcp E))
     (call_use (Transport_Recv_tcp E) (Transport_Send_tcp E)) (call_disconnect (Transport_Disconnect_tcp E))"

text \<open>C23: Any number of connections, to any destinations and with any data, whatever fails on the way,
  leave the sockets, sessions and heap blocks in use as they were, provided that each is closed by
  Transport_Disconnect, also when Transport_Connect has failed.\<close>

theorem closed_connections_balanced:
  assumes "vsocket_ok E" and "conn_idle c" and "vsocket_conversations E ds c = Some c'"
    and "tcp_ok F" and "conn_idle k" and "tcp_conversations F es k = Some k'"
  shows "net_usage (snd c') = net_usage (snd c) \<and> net_usage (snd k') = net_usage (snd k)"
  using vsocket.conversations_balanced [OF assms(1,2,3)] tcp.conversations_balanced [OF assms(4,5,6)] by blast

text \<open>The counts of what failed attempts leave behind.\<close>

definition sockets_left :: "TransportStatus list \<Rightarrow> nat" where
  "sockets_left sts = length (filter (\<lambda>st. st \<in> {TRANSPORT_STATUS_DNS_FAILURE, TRANSPORT_STATUS_CONNECT_FAILURE,
     TRANSPORT_STATUS_TLS_FAILURE, TRANSPORT_STATUS_INSUFFICIENT_MEMORY}) sts)"

lemma sum_leftovers:
  "sum_list (map (fst \<circ> leftovers) sts) = sockets_left sts"
  "sum_list (map (fst \<circ> snd \<circ> leftovers) sts) = 0"
  "sum_list (map (snd \<circ> snd \<circ> leftovers) sts) = count_list sts TRANSPORT_STATUS_TLS_FAILURE"
  by (induction sts) (auto simp: sockets_left_def leftovers_def)

text \<open>A client that tries again after a failed attempt without disconnecting, as the MQTT agent does, loses
  one socket in every attempt after the socket was created, and one heap block in every attempt that
  fails in TLS: the next attempt overwrites both.\<close>

theorem failed_attempts_leak:
  assumes "vsocket_ok E" and "connect_attempts (call_connect (Transport_Connect_vsocket E)) ds c = Some (sts, c')"
    and "TRANSPORT_STATUS_SUCCESS \<notin> set sts"
    and "tcp_ok F" and "connect_attempts (call_connect (Transport_Connect_tcp F)) es k = Some (sts', k')"
    and "TRANSPORT_STATUS_SUCCESS \<notin> set sts'"
  shows "openSockets (snd c') = openSockets (snd c) + sockets_left sts \<and>
    liveBlocks (net_token (snd c')) = liveBlocks (net_token (snd c)) + count_list sts TRANSPORT_STATUS_TLS_FAILURE \<and>
    openSockets (snd k') = openSockets (snd k) + sockets_left sts' \<and>
    liveBlocks (net_token (snd k')) = liveBlocks (net_token (snd k)) + count_list sts' TRANSPORT_STATUS_TLS_FAILURE"
  using vsocket.attempts_usage [OF assms(1,2,3)] tcp.attempts_usage [OF assms(4,5,6)]
  by (simp add: sum_leftovers net_usage_def)

section \<open>Peers\<close>

lemma connect_over_verified:
  assumes s: "seeding_needs_entropy E"
    and run: "connect_over valid create reach (secure_over E n prepare host (Some q)) finish c = Some (TRANSPORT_STATUS_SUCCESS, c')"
  shows "\<exists>t. pTLSContext (fst c') = Some t \<and> verified_peer host t \<and> alpnProtocols (settings t) = None"
proof -
  obtain ctx s where "c = (ctx, s)" by fastforce
  with run obtain k s2 s3 where "secure_over E n prepare host (Some q) (ctx\<lparr>socket := k\<rparr>, s2) = Some (TRANSPORT_STATUS_SUCCESS, fst c', s3)"
    by (auto simp: connect_over_def Let_def split: prod.splits if_splits option.splits)
  then obtain params where "tls_helper_params host q = Some params"
    "secure_connection E n (prepare k) params (ctx\<lparr>socket := k\<rparr>, s2) = Some (TRANSPORT_STATUS_SUCCESS, fst c', s3)"
    by (auto simp: secure_over_def split: option.splits)
  then show ?thesis using secure_connection_verified [OF s] by blast
qed

lemma with_server_SomeD:
  "with_server (Some ctx) (Some info) f s = Some (TRANSPORT_STATUS_SUCCESS, Some ctx', s') \<Longrightarrow>
   \<exists>host. pHostName info = Some host \<and> f host (server_port info) (ctx, s) = Some (TRANSPORT_STATUS_SUCCESS, ctx', s')"
  by (auto simp: with_server_def split: option.splits)

text \<open>C24: After a successful Transport_Connect with TLS parameters, over either stack, the TLS context demands
  the verification of its peer against the host name that the caller gave and presents the client
  certificate; no application protocol is ever offered, whatever the caller asks for.\<close>

theorem secure_peer_verified:
  assumes "seeding_needs_entropy (vtls E)" and "seeding_needs_entropy (ttls F)"
  shows "(Transport_Connect_vsocket E (Some ctx) (Some info) (Some q) a b s = Some (TRANSPORT_STATUS_SUCCESS, Some ctx', s') \<longrightarrow>
      (\<exists>host t. pHostName info = Some host \<and> pTLSContext ctx' = Some t \<and> verified_peer host t \<and>
         alpnProtocols (settings t) = None)) \<and>
    (Transport_Connect_tcp F (Some k) (Some info) (Some q) a b s = Some (TRANSPORT_STATUS_SUCCESS, Some k', s') \<longrightarrow>
      (\<exists>host t. pHostName info = Some host \<and> pTLSContext k' = Some t \<and> verified_peer host t \<and>
         alpnProtocols (settings t) = None))"
  using connect_over_verified [OF assms(1)] connect_over_verified [OF assms(2)]
  by (fastforce simp: Transport_Connect_vsocket_def Transport_Connect_tcp_def dest: with_server_SomeD)
section \<open>Stacks for the witnesses\<close>

text \<open>
  Two stacks over the module of the TLS layer: every socket has the number 3, only one host is known,
  and what is sent is kept in the world.
\<close>

definition sample_vsocket :: "(u8 list) vsocket_env" where
  "sample_vsocket = \<lparr>iot = \<lparr>iotSocketCreate = (\<lambda>w. (3, w)),
       iotSocketGetHostByName = (\<lambda>h w. (if h = ''broker'' then 0 else - 1, [10, 0, 0, 1], w)),
       iotSocketConnect = (\<lambda>k ip p w. (0, w)), iotSocketSetOpt = (\<lambda>k x v w. (0, w)),
       iotSocketRecv = (\<lambda>k n w. (- 6, [], w)), iotSocketSend = (\<lambda>k m w. (int (length m), w @ m)),
       iotSocketClose = (\<lambda>k w. (if 0 \<le> k then 0 else - 2, w)), IOT_SOCKET_ERROR = - 1, IOT_SOCKET_EAGAIN = - 6\<rparr>,
     vtls = sample_tls, vsizeof_TLSContext = 1000\<rparr>"

definition sample_tcp :: "(u8 list) tcp_env" where
  "sample_tcp = \<lparr>tcp = \<lparr>FreeRTOS_socket = (\<lambda>w. (3, w)),
       FreeRTOS_gethostbyname = (\<lambda>h w. (if h = ''broker'' then 1 else 0, w)),
       FreeRTOS_setsockopt = (\<lambda>k x v w. (0, w)), FreeRTOS_htons = (\<lambda>p. p),
       FreeRTOS_connect = (\<lambda>k ip p w. (0, w)),
       FreeRTOS_recv = (\<lambda>k n w. (0, [], w)), FreeRTOS_send = (\<lambda>k m w. (int (length m), w @ m)),
       FreeRTOS_shutdown = (\<lambda>k w. (0, w)), FreeRTOS_closesocket = (\<lambda>k w. (if k = - 1 then 0 else 1, w))\<rparr>,
     ttls = sample_tls, tsizeof_TLSContext = 1000\<rparr>"

definition sample_credentials :: TLSParams where
  "sample_credentials = \<lparr>pAlpnProtos = Some [''mqtt''], disableSni = False, maxFragmentLength = 0, pRootCa = Some [1, 2, 3],
     rootCaSize = 3, pPrivateKeyLabel = ''key'', pClientCertLabel = ''cert'', pLoginPIN = Some ''0000''\<rparr>"

abbreviation sample_net :: "(u8 list) net_state" where
  "sample_net \<equiv> \<lparr>net_token = sample_world, openSockets = 0\<rparr>"

abbreviation idle_context :: "'s \<Rightarrow> 's NetworkContext" where
  "idle_context k \<equiv> \<lparr>socket = k, pTLSContext = None, useTLS = False\<rparr>"

lemma sample_vsocket_ok: "vsocket_ok sample_vsocket"
  using sample_module_ok by (auto simp: vsocket_ok_def iot_ok_def sample_vsocket_def)

lemma sample_tcp_ok: "tcp_ok sample_tcp"
  using sample_module_ok by (auto simp: tcp_ok_def sample_tcp_def)

lemma sample_shakes_hands: "TLS_Connect sample_tls (x, t) = Some (0, x, t)"
  by (simp add: TLS_Connect_def) (subst handshake_loop.simps, simp add: on_token_def sample_tls_def sample_mtls_def)

text \<open>The context of a secure connection over the samples.\<close>

lemma sample_secured:
  "\<exists>x t. TLS_Init sample_tls (the (tls_helper_params ''broker'' sample_credentials)) (Some zero_context) (sample_world\<lparr>liveBlocks := 1\<rparr>) =
     Some (True, Some x, t) \<and> pxP11FunctionList x"
proof -
  have "map_option (\<lambda>(ok, x, t). ok \<and> (case x of None \<Rightarrow> False | Some x \<Rightarrow> pxP11FunctionList x))
     (TLS_Init sample_tls (the (tls_helper_params ''broker'' sample_credentials)) (Some zero_context) (sample_world\<lparr>liveBlocks := 1\<rparr>)) = Some True"
    by code_simp
  then show ?thesis by (auto split: option.splits)
qed

abbreviation sample_secure :: destination where
  "sample_secure \<equiv> (''broker'', 8883, Some sample_credentials, 750, 750)"

lemma sample_opens:
  "\<exists>x s. Transport_Connect_vsocket sample_vsocket (Some (idle_context 0)) (Some (server_of sample_secure)) (Some sample_credentials) 750 750 sample_net =
       Some (TRANSPORT_STATUS_SUCCESS, Some \<lparr>socket = 3, pTLSContext = Some x, useTLS = False\<rparr>, s) \<and> pxP11FunctionList x"
  "\<exists>x s. Transport_Connect_tcp sample_tcp (Some (idle_context 0)) (Some (server_of sample_secure)) (Some sample_credentials) 750 750 sample_net =
       Some (TRANSPORT_STATUS_SUCCESS, Some \<lparr>socket = 3, pTLSContext = Some x, useTLS = False\<rparr>, s) \<and> pxP11FunctionList x"
proof -
  obtain x t where i: "TLS_Init sample_tls (the (tls_helper_params ''broker'' sample_credentials)) (Some zero_context)
      (sample_world\<lparr>liveBlocks := 1\<rparr>) = Some (True, Some x, t)" "pxP11FunctionList x"
    using sample_secured by blast
  obtain P where p: "tls_helper_params ''broker'' sample_credentials = Some P"
    by (simp add: tls_helper_params_def sample_credentials_def)
  have m: "tls_malloc sample_tls 1000 sample_world = (True, sample_world\<lparr>liveBlocks := 1\<rparr>)"
    by (simp add: tls_malloc_def sample_tls_def sample_module_def)
  have h: "c_str ''broker'' = ''broker''" by code_simp
  have v: "iot_create sample_vsocket sample_net = (3, sample_net\<lparr>openSockets := 1\<rparr>)"
    "iot_reach sample_vsocket ''broker'' 8883 3 s = (TRANSPORT_STATUS_SUCCESS, s)"
    "iot_timeouts sample_vsocket k a b s = s" "iot_set_blocking sample_vsocket k s = s" for s k a b
    by (simp_all add: iot_create_def iot_reach_def iot_timeouts_def iot_set_blocking_def on_net_def on_net2_def on_token_def
        on_token2_def sample_vsocket_def h)
  have c: "tcp_create sample_tcp sample_net = (3, sample_net\<lparr>openSockets := 1\<rparr>)"
    "tcp_reach sample_tcp ''broker'' 8883 a b 3 s = (TRANSPORT_STATUS_SUCCESS, s)" for s a b
    by (simp_all add: tcp_create_def tcp_reach_def tcp_timeouts_def on_net_def on_token_def Let_def sample_tcp_def h)
  have e: "vtls sample_vsocket = sample_tls" "vsizeof_TLSContext sample_vsocket = 1000" "ttls sample_tcp = sample_tls"
    "tsizeof_TLSContext sample_tcp = 1000"
    by (simp_all add: sample_vsocket_def sample_tcp_def)
  note parts = with_server_def server_of_def connect_over_def secure_over_def secure_connection_def e p m sample_shakes_hands Let_def
  show "\<exists>x s. Transport_Connect_vsocket sample_vsocket (Some (idle_context 0)) (Some (server_of sample_secure)) (Some sample_credentials) 750 750 sample_net =
       Some (TRANSPORT_STATUS_SUCCESS, Some \<lparr>socket = 3, pTLSContext = Some x, useTLS = False\<rparr>, s) \<and> pxP11FunctionList x"
    using i by (simp add: Transport_Connect_vsocket_def parts v)
  show "\<exists>x s. Transport_Connect_tcp sample_tcp (Some (idle_context 0)) (Some (server_of sample_secure)) (Some sample_credentials) 750 750 sample_net =
       Some (TRANSPORT_STATUS_SUCCESS, Some \<lparr>socket = 3, pTLSContext = Some x, useTLS = False\<rparr>, s) \<and> pxP11FunctionList x"
    using i by (simp add: Transport_Connect_tcp_def parts c)
qed
lemma listed_frees: "pxP11FunctionList x \<Longrightarrow> \<exists>y t'. prvFreeContext E (x, t) = Some (y, t') \<and> pxP11FunctionList y"
  by (simp add: prvFreeContext_def Let_def checked_def split: if_split)

lemma listed_sends:
  assumes "pxP11FunctionList x"
  shows "\<exists>r y t'. TLS_Send E (Some x) m t = Some (r, Some y, t') \<and> pxP11FunctionList y"
proof -
  obtain r k failed t1 where l: "send_loop E m 0 0 t = (r, k, failed, t1)" by (metis prod_cases4)
  obtain y t' where "prvFreeContext E (x, t1) = Some (y, t')" "pxP11FunctionList y" using listed_frees [OF assms] by blast
  then show ?thesis using assms by (simp add: TLS_Send_def l)
qed

lemma listed_releases:
  assumes "pxP11FunctionList x"
  shows "\<exists>s'. release_tls E (\<lparr>socket = k, pTLSContext = Some x, useTLS = u\<rparr>, s) = Some (\<lparr>socket = k, pTLSContext = None, useTLS = u\<rparr>, s')"
proof -
  obtain y t' where "prvFreeContext E (x, net_token s) = Some (y, t')" using listed_frees [OF assms] by blast
  then show ?thesis by (simp add: release_tls_def TLS_Cleanup_def)
qed

lemma sample_converses:
  "\<exists>c'. vsocket_conversations sample_vsocket [(sample_secure, [Transmit [1, 2, 3]])] (idle_context 0, sample_net) = Some c'"
  "\<exists>c'. tcp_conversations sample_tcp [(sample_secure, [Transmit [1, 2, 3]])] (idle_context 0, sample_net) = Some c'"
proof -
  have e: "vtls sample_vsocket = sample_tls" "ttls sample_tcp = sample_tls" by (simp_all add: sample_vsocket_def sample_tcp_def)
  obtain x s where x: "Transport_Connect_vsocket sample_vsocket (Some (idle_context 0)) (Some (server_of sample_secure)) (Some sample_credentials) 750 750 sample_net =
       Some (TRANSPORT_STATUS_SUCCESS, Some \<lparr>socket = 3, pTLSContext = Some x, useTLS = False\<rparr>, s)" "pxP11FunctionList x"
    using sample_opens(1) by blast
  obtain r y t where y: "TLS_Send sample_tls (Some x) [1, 2, 3] (net_token s) = Some (r, Some y, t)" "pxP11FunctionList y"
    using listed_sends [OF x(2)] by blast
  have close: "iot_close sample_vsocket 3 s = Some (0, s\<lparr>openSockets := openSockets s - 1\<rparr>)" for s
    by (subst iot_close.simps) (simp add: sample_vsocket_def on_net_def on_token_def)
  obtain s' where z: "release_tls sample_tls (\<lparr>socket = 3 :: int, pTLSContext = Some y, useTLS = False\<rparr>,
      s\<lparr>net_token := t, openSockets := openSockets s - 1\<rparr>) = Some (\<lparr>socket = 3, pTLSContext = None, useTLS = False\<rparr>, s')"
    by (metis (no_types) listed_releases [OF y(2)])
  show "\<exists>c'. vsocket_conversations sample_vsocket [(sample_secure, [Transmit [1, 2, 3]])] (idle_context 0, sample_net) = Some c'"
    using x y z by (simp add: call_connect_def call_use_def Transport_Send_vsocket_def transmit_over_def vsocket_disconnect_eq
        iot_disconnect_def close e)
next
  have e: "ttls sample_tcp = sample_tls" by (simp add: sample_tcp_def)
  obtain x s where x: "Transport_Connect_tcp sample_tcp (Some (idle_context 0)) (Some (server_of sample_secure)) (Some sample_credentials) 750 750 sample_net =
       Some (TRANSPORT_STATUS_SUCCESS, Some \<lparr>socket = 3, pTLSContext = Some x, useTLS = False\<rparr>, s)" "pxP11FunctionList x"
    using sample_opens(2) by blast
  obtain r y t where y: "TLS_Send sample_tls (Some x) [1, 2, 3] (net_token s) = Some (r, Some y, t)" "pxP11FunctionList y"
    using listed_sends [OF x(2)] by blast
  have "\<exists>s'. release_tls sample_tls (\<lparr>socket = 3 :: tcp_socket, pTLSContext = Some y, useTLS = False\<rparr>, s1) = Some (\<lparr>socket = 3, pTLSContext = None, useTLS = False\<rparr>, s')" for s1
    by (metis (no_types) listed_releases [OF y(2)])
  then obtain f where f: "\<And>s1. release_tls sample_tls (\<lparr>socket = 3 :: tcp_socket, pTLSContext = Some y, useTLS = False\<rparr>, s1) =
      Some (\<lparr>socket = 3, pTLSContext = None, useTLS = False\<rparr>, f s1)" by metis
  show "\<exists>c'. tcp_conversations sample_tcp [(sample_secure, [Transmit [1, 2, 3]])] (idle_context 0, sample_net) = Some c'"
    using x y by (simp add: call_connect_def call_use_def Transport_Send_tcp_def transmit_over_def tcp_disconnect_eq
        tcp_disconnect_def Let_def e f)
qed

theorem closed_connections_balanced_witness:
  "\<exists>c' k'. vsocket_conversations sample_vsocket [(sample_secure, [Transmit [1, 2, 3]])] (idle_context 0, sample_net) = Some c' \<and>
     tcp_conversations sample_tcp [(sample_secure, [Transmit [1, 2, 3]])] (idle_context 0, sample_net) = Some k' \<and>
     net_usage (snd c') = (0, 0, 0) \<and> net_usage (snd k') = (0, 0, 0)"
proof -
  obtain c' k' where "vsocket_conversations sample_vsocket [(sample_secure, [Transmit [1, 2, 3]])] (idle_context 0, sample_net) = Some c'"
    "tcp_conversations sample_tcp [(sample_secure, [Transmit [1, 2, 3]])] (idle_context 0, sample_net) = Some k'"
    using sample_converses by blast
  from closed_connections_balanced [OF sample_vsocket_ok _ this(1) sample_tcp_ok _ this(2)] this
  show ?thesis by (simp add: net_usage_def)
qed

text \<open>A host that is not known.\<close>

abbreviation sample_unknown :: destination where
  "sample_unknown \<equiv> (''other'', 8883, None, 750, 750)"

lemma sample_fails:
  "connect_attempts (call_connect (Transport_Connect_vsocket sample_vsocket)) [sample_unknown, sample_unknown] (idle_context 0, sample_net) =
     Some ([TRANSPORT_STATUS_DNS_FAILURE, TRANSPORT_STATUS_DNS_FAILURE], idle_context 3, sample_net\<lparr>openSockets := 2\<rparr>)"
  "connect_attempts (call_connect (Transport_Connect_tcp sample_tcp)) [sample_unknown, sample_unknown] (idle_context 0, sample_net) =
     Some ([TRANSPORT_STATUS_DNS_FAILURE, TRANSPORT_STATUS_DNS_FAILURE], idle_context 3, sample_net\<lparr>openSockets := 2\<rparr>)"
proof -
  have h: "c_str ''other'' = ''other''" by code_simp
  show "connect_attempts (call_connect (Transport_Connect_vsocket sample_vsocket)) [sample_unknown, sample_unknown] (idle_context 0, sample_net) =
     Some ([TRANSPORT_STATUS_DNS_FAILURE, TRANSPORT_STATUS_DNS_FAILURE], idle_context 3, sample_net\<lparr>openSockets := 2\<rparr>)"
    by (simp add: call_connect_def server_of_def Transport_Connect_vsocket_def with_server_def connect_over_def iot_create_def iot_reach_def
        on_net_def on_net2_def on_token_def on_token2_def sample_vsocket_def h)
  show "connect_attempts (call_connect (Transport_Connect_tcp sample_tcp)) [sample_unknown, sample_unknown] (idle_context 0, sample_net) =
     Some ([TRANSPORT_STATUS_DNS_FAILURE, TRANSPORT_STATUS_DNS_FAILURE], idle_context 3, sample_net\<lparr>openSockets := 2\<rparr>)"
    by (simp add: call_connect_def server_of_def Transport_Connect_tcp_def with_server_def connect_over_def tcp_create_def tcp_reach_def
        on_net_def on_token_def Let_def sample_tcp_def h)
qed

theorem failed_attempts_leak_witness:
  "\<exists>c'. connect_attempts (call_connect (Transport_Connect_vsocket sample_vsocket)) [sample_unknown, sample_unknown]
       (idle_context 0, sample_net) = Some ([TRANSPORT_STATUS_DNS_FAILURE, TRANSPORT_STATUS_DNS_FAILURE], c') \<and>
     openSockets (snd c') = 2"
  using failed_attempts_leak [OF sample_vsocket_ok sample_fails(1) _ sample_tcp_ok sample_fails(2)] sample_fails(1)
  by (simp add: sockets_left_def)

theorem secure_peer_verified_witness:
  "\<exists>ctx' s' t. Transport_Connect_vsocket sample_vsocket (Some (idle_context 0)) (Some (server_of sample_secure)) (Some sample_credentials) 750 750 sample_net =
     Some (TRANSPORT_STATUS_SUCCESS, Some ctx', s') \<and> pTLSContext ctx' = Some t \<and> verified_peer ''broker'' t"
proof -
  have e: "seeding_needs_entropy (vtls sample_vsocket)" "seeding_needs_entropy (ttls sample_tcp)"
    using sample_seeding by (simp_all add: sample_vsocket_def sample_tcp_def)
  obtain x s where x: "Transport_Connect_vsocket sample_vsocket (Some (idle_context 0)) (Some (server_of sample_secure)) (Some sample_credentials) 750 750 sample_net =
       Some (TRANSPORT_STATUS_SUCCESS, Some \<lparr>socket = 3, pTLSContext = Some x, useTLS = False\<rparr>, s)"
    using sample_opens(1) by blast
  then have "verified_peer ''broker'' x"
    using secure_peer_verified [OF e, of "idle_context 0" "server_of sample_secure" sample_credentials 750 750 sample_net] by (fastforce simp: server_of_def)
  then show ?thesis using x by fastforce
qed

end
