(* ===== verification/Mbedtls_Port.thy ===== *)
theory Mbedtls_Port
  imports Prelude
begin

text \<open>
  The platform functions that Mbed TLS is given, \<^verbatim>\<open>mbedtls_freertos_port.c\<close>: the allocator with its
  overflow check, on sizes of 32 bits, and the mutexes. The heap and the mutexes of the kernel are
  parameters.
\<close>

section \<open>The allocator\<close>

text \<open>The heap and the bytes in memory. A heap that grants a block gives its address and its new state.\<close>

record 'h memory_state =
  heap_state :: 'h
  memory_bytes :: "ptr \<Rightarrow> u8"

definition memset :: "ptr \<Rightarrow> u8 \<Rightarrow> nat \<Rightarrow> (ptr \<Rightarrow> u8) \<Rightarrow> ptr \<Rightarrow> u8" where
  "memset p c n m = (\<lambda>a. if p \<le> a \<and> a < p + n then c else m a)"

text \<open>\<open>None\<close> is the null pointer. All sizes wrap around at 32 bits.\<close>

definition mbedtls_platform_calloc ::
  "(u32 \<Rightarrow> 'h \<Rightarrow> (ptr \<times> 'h) option) \<Rightarrow> u32 \<Rightarrow> u32 \<Rightarrow> 'h memory_state \<Rightarrow> ptr option \<times> 'h memory_state" where
  "mbedtls_platform_calloc pvPortMalloc nmemb size_of s =
     (let totalSize = nmemb * size_of
      in if totalSize > 0 \<and> totalSize div size_of = nmemb
         then (case pvPortMalloc totalSize (heap_state s) of
                 None \<Rightarrow> (None, s)
               | Some (p, h) \<Rightarrow>
                   (Some p, s\<lparr>heap_state := h, memory_bytes := memset p 0 (unat totalSize) (memory_bytes s)\<rparr>))
         else (None, s))"

definition mbedtls_platform_free :: "(ptr \<Rightarrow> 'h \<Rightarrow> 'h) \<Rightarrow> ptr \<Rightarrow> 'h memory_state \<Rightarrow> 'h memory_state" where
  "mbedtls_platform_free vPortFree p s = s\<lparr>heap_state := vPortFree p (heap_state s)\<rparr>"

lemma unat_product: "unat (n * k :: u32) = unat n * unat k mod 2 ^ 32"
  by (simp add: unat_word_ariths)

text \<open>The overflow check: a quotient tells whether a product of words has wrapped around.\<close>

lemma wrapped_product:
  fixes n k :: u32
  assumes "0 < n * k"
  shows "(n * k) div k = n \<longleftrightarrow> unat n * unat k < 2 ^ 32"
proof -
  have k: "0 < unat k" using assms by (cases "k = 0") (auto simp: unat_gt_0)
  note p = unat_product [of n k]
  show ?thesis
  proof
    assume "(n * k) div k = n"
    then have "unat n * unat k mod 2 ^ 32 div unat k = unat n" by (metis p unat_div)
    then have "unat n * unat k \<le> unat n * unat k mod 2 ^ 32" using k by (metis times_div_less_eq_dividend mult.commute)
    also have "\<dots> < 2 ^ 32" by simp
    finally show "unat n * unat k < 2 ^ 32" .
  next
    assume "unat n * unat k < 2 ^ 32"
    then show "(n * k) div k = n" using p k by (simp add: word_unat_eq_iff unat_div)
  qed
qed

text \<open>The allocator gives a block exactly when both sizes are positive, their product fits in 32 bits and the
  heap grants that many bytes; the block is then filled with zeros and nothing else is written. So no block is
  ever smaller than what was asked for.\<close>

theorem calloc_exact:
  "mbedtls_platform_calloc malloc n k s =
     (if 0 < unat n * unat k \<and> unat n * unat k < 2 ^ 32
      then (case malloc (of_nat (unat n * unat k)) (heap_state s) of
              None \<Rightarrow> (None, s)
            | Some (p, h) \<Rightarrow>
                (Some p, \<lparr>heap_state = h,
                   memory_bytes = (\<lambda>a. if a \<in> {p..<p + unat n * unat k} then 0 else memory_bytes s a)\<rparr>))
      else (None, s))"
proof (cases "0 < n * k")
  case False
  then have "n * k = 0" by (simp only: word_gt_0 not_not)
  then have "unat n * unat k mod 2 ^ 32 = 0" by (simp only: unat_product [symmetric] unat_0)
  then have "\<not> (0 < unat n * unat k \<and> unat n * unat k < 2 ^ 32)" by fastforce
  then show ?thesis using False by (auto simp: mbedtls_platform_calloc_def)
next
  case True
  then have "0 < unat (n * k)" by (simp only: unat_gt_0 word_gt_0)
  then have pos: "0 < unat n * unat k" unfolding unat_product by (metis mod_0 neq0_conv)
  show ?thesis
  proof (cases "unat n * unat k < 2 ^ 32")
    case False
    then show ?thesis using True wrapped_product [OF True] by (simp add: mbedtls_platform_calloc_def)
  next
    case fits: True
    have t: "unat (n * k) = unat n * unat k" using fits by (simp only: unat_product mod_less)
    have "n * k = of_nat (unat n * unat k)" by simp
    then show ?thesis using True fits pos t wrapped_product [OF True]
      by (auto simp: mbedtls_platform_calloc_def Let_def memset_def fun_eq_iff split: option.split)
  qed
qed

section \<open>Mutexes\<close>

text \<open>
  A mutex of Mbed TLS has its storage and, once initialised, a handle. The calls of the kernel act on
  the world; a failed assertion and a null pointer are \<open>None\<close>.
\<close>

record 'm mbedtls_threading_mutex =
  mutexHandle :: "'m option"

record ('m, 'w) kernel_mutexes =
  xSemaphoreCreateMutexStatic :: "'w \<Rightarrow> 'm option \<times> 'w"
  xSemaphoreTake :: "'m option \<Rightarrow> u32 \<Rightarrow> 'w \<Rightarrow> bool \<times> 'w"
  xSemaphoreGive :: "'m option \<Rightarrow> 'w \<Rightarrow> bool \<times> 'w"

definition mbedtls_platform_mutex_init ::
  "('m, 'w) kernel_mutexes \<Rightarrow> ('m mbedtls_threading_mutex) option \<Rightarrow> 'w \<Rightarrow> ('m mbedtls_threading_mutex \<times> 'w) option" where
  "mbedtls_platform_mutex_init K pMutex w =
     (case pMutex of
        None \<Rightarrow> None
      | Some m \<Rightarrow>
          (let (h, w) = xSemaphoreCreateMutexStatic K w
           in if h = None then None else Some (m\<lparr>mutexHandle := h\<rparr>, w)))"

definition mbedtls_platform_mutex_free :: "('m mbedtls_threading_mutex) option \<Rightarrow> 'w \<Rightarrow> 'w" where
  "mbedtls_platform_mutex_free pMutex w = w"

definition mbedtls_platform_mutex_lock ::
  "('m, 'w) kernel_mutexes \<Rightarrow> ('m mbedtls_threading_mutex) option \<Rightarrow> 'w \<Rightarrow> (int \<times> 'w) option" where
  "mbedtls_platform_mutex_lock K pMutex w =
     (case pMutex of
        None \<Rightarrow> None
      | Some m \<Rightarrow> (let (mutexStatus, w) = xSemaphoreTake K (mutexHandle m) (- 1) w in if mutexStatus then Some (0, w) else None))"

definition mbedtls_platform_mutex_unlock ::
  "('m, 'w) kernel_mutexes \<Rightarrow> ('m mbedtls_threading_mutex) option \<Rightarrow> 'w \<Rightarrow> (int \<times> 'w) option" where
  "mbedtls_platform_mutex_unlock K pMutex w =
     (case pMutex of
        None \<Rightarrow> None
      | Some m \<Rightarrow> (let (mutexStatus, w) = xSemaphoreGive K (mutexHandle m) w in if mutexStatus then Some (0, w) else None))"

end
