(* ===== verification/Sliding_Window.thy ===== *)
theory Sliding_Window
  imports Prelude
begin

text \<open>
  The audio input of the keyword detection, \<^verbatim>\<open>CircularSlidingWindow\<close> of \<^verbatim>\<open>ml_interface.cc\<close>: windows of
  samples out of a circular buffer that the audio driver fills block by block. Sizes and positions
  are natural numbers, far below the range of \<^verbatim>\<open>size_t\<close>.
\<close>

section \<open>The window\<close>

record 'a CircularSlidingWindow =
  buffer :: "'a list"
  block_size :: nat
  block_count :: nat
  window_size :: nat
  stride_size :: nat
  block_under_write :: nat
  current_stride :: nat

text \<open>The constructor; \<open>None\<close> when one of its assertions fails.\<close>

definition make_window :: "'a list \<Rightarrow> nat \<Rightarrow> nat \<Rightarrow> nat \<Rightarrow> nat \<Rightarrow> ('a CircularSlidingWindow) option" where
  "make_window buf block n window stride =
     (if stride < block \<and> stride < window \<and> window < block \<and> block mod stride = 0 \<and> window mod stride = 0
      then Some \<lparr>buffer = buf, block_size = block, block_count = n, window_size = window, stride_size = stride,
                 block_under_write = 0, current_stride = 0\<rparr>
      else None)"

definition prvStrideCount :: "('a, 'b) CircularSlidingWindow_scheme \<Rightarrow> nat" where
  "prvStrideCount W = (block_size W * block_count W) div stride_size W"

definition prvStridesPerBlock :: "('a, 'b) CircularSlidingWindow_scheme \<Rightarrow> nat" where
  "prvStridesPerBlock W = block_size W div stride_size W"

definition first_block :: "('a, 'b) CircularSlidingWindow_scheme \<Rightarrow> nat" where
  "first_block W = current_stride W div prvStridesPerBlock W"

definition last_block :: "('a, 'b) CircularSlidingWindow_scheme \<Rightarrow> nat" where
  "last_block W = ((current_stride W * stride_size W + window_size W - 1) div block_size W) mod block_count W"

text \<open>The interrupt at the end of a block.\<close>

definition prvSignalBlockWritten :: "('a, 'b) CircularSlidingWindow_scheme \<Rightarrow> ('a, 'b) CircularSlidingWindow_scheme" where
  "prvSignalBlockWritten W = W\<lparr>block_under_write := (block_under_write W + 1) mod block_count W\<rparr>"

definition blocked :: "('a, 'b) CircularSlidingWindow_scheme \<Rightarrow> bool" where
  "blocked W \<longleftrightarrow> first_block W = block_under_write W \<or> last_block W = block_under_write W"

text \<open>
  Waiting: \<open>asleep\<close> is what the driver does to the buffer and the block number while the task sleeps on
  the semaphore, until it is woken.
\<close>

partial_function (option) wait_for_blocks ::
  "('a CircularSlidingWindow \<Rightarrow> 'w \<Rightarrow> 'a CircularSlidingWindow \<times> 'w) \<Rightarrow> 'a CircularSlidingWindow \<times> 'w \<Rightarrow>
   ('a CircularSlidingWindow \<times> 'w) option" where
  "wait_for_blocks asleep s =
     (if blocked (fst s) then wait_for_blocks asleep (asleep (fst s) (snd s)) else Some s)"

text \<open>The copy, in two parts when the window spans the end of the buffer, and the next stride.\<close>

definition copy_window :: "('a, 'b) CircularSlidingWindow_scheme \<Rightarrow> 'a list" where
  "copy_window W =
     (let begin_ix = current_stride W * stride_size W
      in if last_block W < first_block W
         then (let rest = drop begin_ix (take (block_size W * block_count W) (buffer W));
                   offset = block_size W * block_count W - begin_ix
               in rest @ take (window_size W - offset) (buffer W))
         else take (window_size W) (drop begin_ix (buffer W)))"

definition advance :: "('a, 'b) CircularSlidingWindow_scheme \<Rightarrow> ('a, 'b) CircularSlidingWindow_scheme" where
  "advance W = W\<lparr>current_stride := (current_stride W + 1) mod prvStrideCount W\<rparr>"

definition next_window ::
  "('a CircularSlidingWindow \<Rightarrow> 'w \<Rightarrow> 'a CircularSlidingWindow \<times> 'w) \<Rightarrow> 'a CircularSlidingWindow \<times> 'w \<Rightarrow>
   ('a list \<times> 'a CircularSlidingWindow \<times> 'w) option" where
  "next_window asleep s =
     (case wait_for_blocks asleep s of
        None \<Rightarrow> None
      | Some (W, w) \<Rightarrow> Some (copy_window W, advance W, w))"

section \<open>The reference\<close>

text \<open>What a window is: consecutive samples, counted around the circle.\<close>

definition samples_at :: "'a list \<Rightarrow> nat \<Rightarrow> nat \<Rightarrow> 'a list" where
  "samples_at buf p n = map (\<lambda>i. buf ! ((p + i) mod length buf)) [0..<n]"

text \<open>The requirements of the constructor, and the position within the circle.\<close>

definition window_ok :: "('a, 'b) CircularSlidingWindow_scheme \<Rightarrow> bool" where
  "window_ok W \<longleftrightarrow>
     0 < stride_size W \<and> stride_size W < window_size W \<and> window_size W < block_size W \<and>
     block_size W mod stride_size W = 0 \<and> length (buffer W) = block_size W * block_count W \<and>
     2 \<le> block_count W \<and> current_stride W < prvStrideCount W \<and> block_under_write W < block_count W"

text \<open>The stride as a position of the buffer.\<close>

definition position :: "('a, 'b) CircularSlidingWindow_scheme \<Rightarrow> nat" where
  "position W = current_stride W * stride_size W"

lemma position_fits:
  assumes "window_ok W"
  shows "position W + stride_size W \<le> block_size W * block_count W"
proof -
  have st: "0 < stride_size W" and b: "stride_size W dvd block_size W" using assms by (auto simp: window_ok_def)
  have "Suc (current_stride W) * stride_size W \<le> prvStrideCount W * stride_size W"
    using assms by (intro mult_right_mono) (auto simp: window_ok_def)
  also have "\<dots> = block_size W * block_count W"
    using b by (simp add: prvStrideCount_def dvd_div_mult_self)
  finally show ?thesis by (simp add: position_def)
qed

lemma first_block_position: "window_ok W \<Longrightarrow> first_block W = position W div block_size W"
proof -
  assume ok: "window_ok W"
  then obtain k where k: "block_size W = stride_size W * k" by (auto simp: window_ok_def)
  have "0 < stride_size W" using ok by (simp add: window_ok_def)
  then show ?thesis by (simp add: first_block_def prvStridesPerBlock_def position_def k mult.commute [of _ "stride_size W"])
qed

lemma window_spans_end:
  assumes "window_ok W"
  shows "last_block W < first_block W \<longleftrightarrow> block_size W * block_count W < position W + window_size W"
proof -
  let ?b = "block_size W" and ?n = "block_count W" and ?p = "position W" and ?w = "window_size W"
  have facts: "0 < ?b" "?w < ?b" "0 < ?w" "2 \<le> ?n" using assms by (auto simp: window_ok_def)
  have p: "?p < ?b * ?n" using position_fits [OF assms] assms by (auto simp: window_ok_def)
  have last: "last_block W = ((?p + ?w - 1) div ?b) mod ?n" by (simp add: last_block_def position_def)
  show ?thesis
  proof (cases "?b * ?n < ?p + ?w")
    case True
    have "?p + ?w - 1 < ?b * ?n + ?b" using p facts by linarith
    then have "(?p + ?w - 1) div ?b < ?n + 1" using facts(1) by (simp add: less_mult_imp_div_less mult.commute)
    moreover have "?n \<le> (?p + ?w - 1) div ?b" using True facts(1) by (simp add: less_eq_div_iff_mult_less_eq mult.commute)
    ultimately have "(?p + ?w - 1) div ?b = ?n" by linarith
    then have "last_block W = 0" by (simp add: last)
    have "?b \<le> ?p"
    proof -
      have "?b * 2 \<le> ?b * ?n" using facts(4) by simp
      then show ?thesis using True facts(2) by linarith
    qed
    then have "0 < first_block W" using facts(1) by (simp add: first_block_position [OF assms] div_greater_zero_iff)
    then show ?thesis using True \<open>last_block W = 0\<close> by simp
  next
    case False
    then have "(?p + ?w - 1) div ?b < ?n" using facts by (intro less_mult_imp_div_less) (auto simp: mult.commute)
    then have "last_block W = (?p + ?w - 1) div ?b" by (simp add: last)
    also have "\<dots> \<ge> ?p div ?b" using facts(3) by (intro div_le_mono) linarith
    finally show ?thesis using False by (simp add: first_block_position [OF assms])
  qed
qed

lemma window_copy_all:
  assumes "window_ok W"
  shows "copy_window W = samples_at (buffer W) (position W) (window_size W) \<and> window_ok (advance W) \<and>
    position (advance W) = (position W + stride_size W) mod length (buffer W)"
proof (intro conjI)
  let ?n = "block_size W * block_count W" and ?p = "position W" and ?w = "window_size W"
  have l: "length (buffer W) = ?n" using assms by (simp add: window_ok_def)
  have p: "?p < ?n" using position_fits [OF assms] assms by (auto simp: window_ok_def)
  have w: "?w \<le> ?n"
  proof -
    have "block_size W * 1 \<le> ?n" using assms by (intro mult_le_mono2) (simp add: window_ok_def)
    moreover have "?w < block_size W" using assms by (simp add: window_ok_def)
    ultimately show ?thesis by linarith
  qed
  show "copy_window W = samples_at (buffer W) ?p ?w"
  proof (cases "?n < ?p + ?w")
    case True
    then have "copy_window W = drop ?p (buffer W) @ take (?w - (?n - ?p)) (buffer W)"
      using l by (simp add: copy_window_def window_spans_end [OF assms] position_def Let_def)
    then show ?thesis
      using True p w l by (intro nth_equalityI) (auto simp: samples_at_def nth_append mod_if add.commute)
  next
    case False
    then have "copy_window W = take ?w (drop ?p (buffer W))"
      by (simp add: copy_window_def window_spans_end [OF assms] position_def Let_def)
    then show ?thesis using False l by (intro nth_equalityI) (auto simp: samples_at_def)
  qed
  have sc: "prvStrideCount W * stride_size W = ?n"
    using assms by (auto simp: prvStrideCount_def window_ok_def dvd_div_mult_self)
  have pos: "0 < prvStrideCount W" using assms by (auto simp: window_ok_def)
  show "window_ok (advance W)"
    using assms pos by (simp add: window_ok_def advance_def prvStrideCount_def)
  show "position (advance W) = (?p + stride_size W) mod length (buffer W)"
    by (simp add: l position_def advance_def sc [symmetric] mult_mod_left add.commute)
qed

lemmas window_copy = window_copy_all [THEN conjunct1]

text \<open>The copy out of the circular buffer, split in two where the window spans its end, gives exactly the
  consecutive samples around the circle from the position of the stride, and the next stride follows.\<close>

theorem window_copy_exact:
  assumes "window_ok W"
  shows "copy_window W = samples_at (buffer W) (position W) (window_size W) \<and> window_ok (advance W) \<and>
    position (advance W) = (position W + stride_size W) mod length (buffer W)"
  by (rule window_copy_all [OF assms])

section \<open>Waiting for the driver\<close>

text \<open>While the task sleeps the driver finishes exactly one block, whatever it writes.\<close>

definition one_block :: "('a CircularSlidingWindow \<Rightarrow> 'w \<Rightarrow> 'a CircularSlidingWindow \<times> 'w) \<Rightarrow> bool" where
  "one_block asleep \<longleftrightarrow>
     (\<forall>W w. \<exists>buf w'. length buf = length (buffer W) \<and> asleep W w = (prvSignalBlockWritten (W\<lparr>buffer := buf\<rparr>), w'))"

lemma wait_steps:
  assumes "\<not> blocked (fst s)"
  shows "wait_for_blocks asleep s = Some s"
  using assms by (subst wait_for_blocks.simps) simp

lemma signal_keeps:
  "window_ok W \<Longrightarrow> length buf = length (buffer W) \<Longrightarrow> window_ok (prvSignalBlockWritten (W\<lparr>buffer := buf\<rparr>))"
  "current_stride (prvSignalBlockWritten (W\<lparr>buffer := buf\<rparr>)) = current_stride W"
  "first_block (prvSignalBlockWritten (W\<lparr>buffer := buf\<rparr>)) = first_block W"
  "last_block (prvSignalBlockWritten (W\<lparr>buffer := buf\<rparr>)) = last_block W"
  by (simp_all add: window_ok_def prvSignalBlockWritten_def prvStrideCount_def first_block_def last_block_def prvStridesPerBlock_def)

text \<open>The last block of a window is its first or the one after.\<close>

lemma last_block_cases:
  assumes "window_ok W"
  shows "last_block W = first_block W \<or> last_block W = (first_block W + 1) mod block_count W"
proof -
  let ?b = "block_size W" and ?n = "block_count W" and ?p = "position W" and ?w = "window_size W"
  have facts: "0 < ?b" "?w < ?b" "0 < ?w" "2 \<le> ?n" using assms by (auto simp: window_ok_def)
  have p: "?p < ?b * ?n" using position_fits [OF assms] assms by (auto simp: window_ok_def)
  then have f: "?p div ?b < ?n" by (intro less_mult_imp_div_less) (simp add: mult.commute)
  have "(?p + ?w - 1) div ?b \<le> (?p + ?b) div ?b" using facts by (intro div_le_mono) linarith
  moreover have "?p div ?b \<le> (?p + ?w - 1) div ?b" using facts by (intro div_le_mono) linarith
  moreover have "(?p + ?b) div ?b = ?p div ?b + 1" using facts(1) by (simp add: div_add_self2)
  ultimately have "(?p + ?w - 1) div ?b = ?p div ?b \<or> (?p + ?w - 1) div ?b = ?p div ?b + 1" by linarith
  then show ?thesis using f by (auto simp: last_block_def first_block_position [OF assms] position_def)
qed

text \<open>With at least three blocks, and whatever the driver writes, a window is ready after at most two
  blocks have been finished; its samples are then the ones in the buffer, and none of them lies in the block
  being written.\<close>

theorem window_arrives:
  assumes "window_ok W" and "3 \<le> block_count W" and "one_block asleep"
  shows "\<exists>W' w'. next_window asleep (W, w) = Some (samples_at (buffer W') (position W) (window_size W), advance W', w') \<and>
    \<not> blocked W' \<and> current_stride W' = current_stride W \<and>
    (\<exists>k\<le>2. block_under_write W' = (block_under_write W + k) mod block_count W)"
proof -
  have step: "\<exists>buf w'. length buf = length (buffer V) \<and> asleep V v = (prvSignalBlockWritten (V\<lparr>buffer := buf\<rparr>), w')" for V v
    using assms(3) unfolding one_block_def by blast
  obtain b1 w1 where 1: "length b1 = length (buffer W)" "asleep W w = (prvSignalBlockWritten (W\<lparr>buffer := b1\<rparr>), w1)"
    using step by blast
  define W1 where "W1 = prvSignalBlockWritten (W\<lparr>buffer := b1\<rparr>)"
  obtain b2 w2 where 2: "length b2 = length (buffer W1)" "asleep W1 w1 = (prvSignalBlockWritten (W1\<lparr>buffer := b2\<rparr>), w2)"
    using step by blast
  define W2 where "W2 = prvSignalBlockWritten (W1\<lparr>buffer := b2\<rparr>)"
  have ok1: "window_ok W1" unfolding W1_def by (rule signal_keeps(1) [OF assms(1) 1(1)])
  have ok2: "window_ok W2" unfolding W2_def by (rule signal_keeps(1) [OF ok1 2(1)])
  have same: "current_stride W1 = current_stride W" "current_stride W2 = current_stride W"
    "first_block W1 = first_block W" "first_block W2 = first_block W" "last_block W1 = last_block W" "last_block W2 = last_block W"
    "window_size W1 = window_size W" "window_size W2 = window_size W" "position W1 = position W" "position W2 = position W"
    by (simp_all add: W1_def W2_def signal_keeps position_def) (simp_all add: prvSignalBlockWritten_def)
  have under: "block_under_write W1 = (block_under_write W + 1) mod block_count W"
    "block_under_write W2 = (block_under_write W + 2) mod block_count W"
    by (simp_all add: W1_def W2_def prvSignalBlockWritten_def mod_Suc_eq)
  have bounds: "block_under_write W < block_count W" "first_block W < block_count W"
  proof -
    show "block_under_write W < block_count W" using assms(1) by (simp add: window_ok_def)
    have "position W < block_size W * block_count W" using position_fits [OF assms(1)] assms(1) by (auto simp: window_ok_def)
    then show "first_block W < block_count W"
      by (simp add: first_block_position [OF assms(1)] less_mult_imp_div_less mult.commute)
  qed
  have distinct: "\<not> (blocked W \<and> blocked W1 \<and> blocked W2)"
    using last_block_cases [OF assms(1)] under same bounds assms(2)
    by (auto simp: blocked_def mod_if split: if_splits)
  have copied: "wait_for_blocks asleep (W, w) = Some (V, v) \<Longrightarrow> window_ok V \<Longrightarrow> position V = position W \<Longrightarrow>
      window_size V = window_size W \<Longrightarrow>
      next_window asleep (W, w) = Some (samples_at (buffer V) (position W) (window_size W), advance V, v)" for V v
    by (simp add: next_window_def window_copy [of V])
  have first: "wait_for_blocks asleep (W, w) = (if blocked W then wait_for_blocks asleep (W1, w1) else Some (W, w))"
    by (subst wait_for_blocks.simps) (simp add: 1(2) W1_def)
  have second: "wait_for_blocks asleep (W1, w1) = (if blocked W1 then wait_for_blocks asleep (W2, w2) else Some (W1, w1))"
    by (subst wait_for_blocks.simps) (simp add: 2(2) W2_def)
  consider "\<not> blocked W" | "blocked W" "\<not> blocked W1" | "blocked W" "blocked W1" "\<not> blocked W2" using distinct by blast
  then show ?thesis
  proof cases
    case 1
    then show ?thesis using copied [of W w] assms(1) first bounds
      by (intro exI [of _ W] exI [of _ w] conjI exI [of _ 0]) simp_all
  next
    case 2
    then show ?thesis using copied [of W1 w1] ok1 first second same under
      by (intro exI [of _ W1] exI [of _ w1] conjI exI [of _ 1]) simp_all
  next
    case 3
    then show ?thesis using copied [of W2 w2] ok2 first second same under wait_steps [of "(W2, w2)" asleep]
      by (intro exI [of _ W2] exI [of _ w2] conjI exI [of _ 2]) simp_all
  qed
qed
section \<open>A window for the witnesses\<close>

definition sample_slider :: "nat CircularSlidingWindow" where
  "sample_slider = \<lparr>buffer = [0..<24], block_size = 6, block_count = 4, window_size = 4, stride_size = 2,
     block_under_write = 3, current_stride = 11\<rparr>"

lemma sample_slider_ok: "window_ok sample_slider"
  by (simp add: window_ok_def sample_slider_def prvStrideCount_def)

theorem window_copy_exact_witness:
  "copy_window sample_slider = [22, 23, 0, 1] \<and> position (advance sample_slider) = 0"
proof -
  have "samples_at (buffer sample_slider) (position sample_slider) (window_size sample_slider) = [22, 23, 0, 1]" by code_simp
  moreover have "(position sample_slider + stride_size sample_slider) mod length (buffer sample_slider) = 0" by code_simp
  ultimately show ?thesis using window_copy_exact [OF sample_slider_ok] by simp
qed

theorem window_arrives_witness:
  "\<exists>W' w'. next_window (\<lambda>W w. (prvSignalBlockWritten W, w)) (sample_slider, ()) =
     Some (samples_at (buffer W') (position sample_slider) (window_size sample_slider), advance W', w') \<and> \<not> blocked W'"
proof -
  have "one_block (\<lambda>(W :: nat CircularSlidingWindow) (w :: unit). (prvSignalBlockWritten W, w))"
    unfolding one_block_def
  proof (intro allI)
    fix W :: "nat CircularSlidingWindow" and w
    show "\<exists>buf w'. length buf = length (buffer W) \<and> (prvSignalBlockWritten W, w) = (prvSignalBlockWritten (W\<lparr>buffer := buf\<rparr>), w')"
      by (rule exI [of _ "buffer W"]) simp
  qed
  from window_arrives [OF sample_slider_ok _ this, of "()"] show ?thesis by (simp add: sample_slider_def) blast
qed

end
