(* ===== verification/Leds.thy ===== *)
theory Leds
  imports Prelude
begin

text \<open>
  The LEDs of the board, \<^verbatim>\<open>mps3_leds.c\<close>, and the task that drives them, the \<^verbatim>\<open>blink_task.c\<close> of the keyword
  detection application, which shows the last keywords and that the system is alive. The driver of the
  I/O block is a parameter.
\<close>

section \<open>The LED library\<close>

datatype io_access = ARM_MPS3_IO_ACCESS_PORT | ARM_MPS3_IO_ACCESS_PIN

text \<open>The calls of the driver: how to access, the pin, the value, and the state \<open>'w\<close> of the hardware.\<close>

record 'w mps3_io =
  arm_mps3_io_write_leds :: "io_access \<Rightarrow> nat \<Rightarrow> u32 \<Rightarrow> 'w \<Rightarrow> 'w"
  arm_mps3_io_read_leds :: "io_access \<Rightarrow> nat \<Rightarrow> 'w \<Rightarrow> u32"

record 'w led_state =
  leds_state :: u32
  io_world :: 'w

definition TOTAL_NUMBER_OF_LEDS :: nat where "TOTAL_NUMBER_OF_LEDS = 10"
definition MAX_LED_MASK :: u32 where "MAX_LED_MASK = push_bit TOTAL_NUMBER_OF_LEDS 1 - 1"

definition GET_BIT_STATE :: "u32 \<Rightarrow> nat \<Rightarrow> u32" where
  "GET_BIT_STATE v position = drop_bit position v AND 1"

definition mps3_leds_get_total_number :: nat where
  "mps3_leds_get_total_number = TOTAL_NUMBER_OF_LEDS"

definition mps3_leds_init :: "'w mps3_io \<Rightarrow> 'w led_state \<Rightarrow> 'w led_state" where
  "mps3_leds_init D s =
     s\<lparr>io_world := arm_mps3_io_write_leds D ARM_MPS3_IO_ACCESS_PORT 0 0 (io_world s), leds_state := 0\<rparr>"

text \<open>One round of the loop over the LEDs: a LED is written when its state changes.\<close>

definition led_round :: "'w mps3_io \<Rightarrow> u32 \<Rightarrow> u32 \<Rightarrow> nat \<Rightarrow> 'w \<Rightarrow> 'w" where
  "led_round D new old position w =
     (if GET_BIT_STATE (new XOR old) position \<noteq> 0
      then arm_mps3_io_write_leds D ARM_MPS3_IO_ACCESS_PIN position (GET_BIT_STATE new position) w else w)"

definition mps3_leds_set_state :: "'w mps3_io \<Rightarrow> u32 \<Rightarrow> 'w led_state \<Rightarrow> bool \<times> 'w led_state" where
  "mps3_leds_set_state D new s =
     (if new > MAX_LED_MASK then (False, s)
      else (True, s\<lparr>io_world := fold (led_round D new (leds_state s)) [0..<TOTAL_NUMBER_OF_LEDS] (io_world s),
                    leds_state := new\<rparr>))"

definition mps3_leds_get_state :: "'w mps3_io \<Rightarrow> 'w led_state \<Rightarrow> u32" where
  "mps3_leds_get_state D s = arm_mps3_io_read_leds D ARM_MPS3_IO_ACCESS_PORT 0 (io_world s)"

definition mps3_leds_get_pin_state :: "'w mps3_io \<Rightarrow> u8 \<Rightarrow> 'w led_state \<Rightarrow> u8" where
  "mps3_leds_get_pin_state D n s = ucast (arm_mps3_io_read_leds D ARM_MPS3_IO_ACCESS_PIN (unat n) (io_world s))"

definition mps3_leds_turn_on :: "'w mps3_io \<Rightarrow> u32 \<Rightarrow> 'w led_state \<Rightarrow> bool \<times> 'w led_state" where
  "mps3_leds_turn_on D leds s = mps3_leds_set_state D (mps3_leds_get_state D s OR leds) s"

definition mps3_leds_turn_off :: "'w mps3_io \<Rightarrow> u32 \<Rightarrow> 'w led_state \<Rightarrow> bool \<times> 'w led_state" where
  "mps3_leds_turn_off D leds s = mps3_leds_set_state D (mps3_leds_get_state D s AND NOT leds) s"

definition mps3_leds_toggle :: "'w mps3_io \<Rightarrow> u32 \<Rightarrow> 'w led_state \<Rightarrow> bool \<times> 'w led_state" where
  "mps3_leds_toggle D leds s = mps3_leds_set_state D (mps3_leds_get_state D s XOR leds) s"

section \<open>The blink task\<close>

datatype ml_processing_state =
    ML_SILENCE | ML_UNKNOWN | ML_HEARD_YES | ML_HEARD_NO | ML_HEARD_UP | ML_HEARD_DOWN
  | ML_HEARD_LEFT | ML_HEARD_RIGHT | ML_HEARD_ON | ML_HEARD_OFF | ML_HEARD_GO | ML_HEARD_STOP

definition LED_YES :: u32 where "LED_YES = push_bit 0 1"
definition LED_GO :: u32 where "LED_GO = push_bit 1 1"
definition LED_UP :: u32 where "LED_UP = push_bit 2 1"
definition LED_LEFT :: u32 where "LED_LEFT = push_bit 3 1"
definition LED_ON :: u32 where "LED_ON = push_bit 4 1"
definition LED_ALIVE :: u32 where "LED_ALIVE = push_bit 5 1"
definition LED_ALL :: u32 where "LED_ALL = 0xFF"

lemmas led_names = LED_YES_def LED_GO_def LED_UP_def LED_LEFT_def LED_ON_def LED_ALIVE_def

fun prvProcessMlStateChange :: "'w mps3_io \<Rightarrow> ml_processing_state \<Rightarrow> 'w led_state \<Rightarrow> bool \<times> 'w led_state" where
  "prvProcessMlStateChange D ML_HEARD_YES s = mps3_leds_turn_on D LED_YES s"
| "prvProcessMlStateChange D ML_HEARD_NO s = mps3_leds_turn_off D LED_YES s"
| "prvProcessMlStateChange D ML_HEARD_GO s = mps3_leds_turn_on D LED_GO s"
| "prvProcessMlStateChange D ML_HEARD_STOP s = mps3_leds_turn_off D LED_GO s"
| "prvProcessMlStateChange D ML_HEARD_UP s = mps3_leds_turn_on D LED_UP s"
| "prvProcessMlStateChange D ML_HEARD_DOWN s = mps3_leds_turn_off D LED_UP s"
| "prvProcessMlStateChange D ML_HEARD_LEFT s = mps3_leds_turn_on D LED_LEFT s"
| "prvProcessMlStateChange D ML_HEARD_RIGHT s = mps3_leds_turn_off D LED_LEFT s"
| "prvProcessMlStateChange D ML_HEARD_ON s = mps3_leds_turn_on D LED_ON s"
| "prvProcessMlStateChange D ML_HEARD_OFF s = mps3_leds_turn_off D LED_ON s"
| "prvProcessMlStateChange D ML_SILENCE s = (True, s)"
| "prvProcessMlStateChange D ML_UNKNOWN s = (True, s)"

definition prvMlChangeHandler :: "'w mps3_io \<Rightarrow> ml_processing_state \<Rightarrow> 'w led_state \<Rightarrow> 'w led_state" where
  "prvMlChangeHandler D new_state s = snd (prvProcessMlStateChange D new_state s)"

text \<open>
  The task up to its loop, and one round of the loop: whether the task goes on. \<open>hz\<close> is the tick rate;
  the number of ticks is computed with 32 bits.
\<close>

definition ticks_interval :: "u32 \<Rightarrow> u32" where
  "ticks_interval hz = 250 * hz div 1000"

definition blink_start :: "'w mps3_io \<Rightarrow> 'w led_state \<Rightarrow> bool \<times> 'w led_state" where
  "blink_start D s = mps3_leds_turn_off D LED_ALL (mps3_leds_init D s)"

definition blink_round :: "'w mps3_io \<Rightarrow> u32 \<Rightarrow> 'w led_state \<Rightarrow> bool \<times> 'w led_state" where
  "blink_round D hz s = (if ticks_interval hz = 0 then (False, s) else mps3_leds_toggle D LED_ALIVE s)"

section \<open>What the LEDs show\<close>

text \<open>
  The driver: the hardware has a register with a bit per LED, which port accesses write and read as a
  whole and pin accesses bit by bit.
\<close>

definition io_ok :: "'w mps3_io \<Rightarrow> ('w \<Rightarrow> u32) \<Rightarrow> bool" where
  "io_ok D reg \<longleftrightarrow>
     (\<forall>w. arm_mps3_io_read_leds D ARM_MPS3_IO_ACCESS_PORT 0 w = reg w) \<and>
     (\<forall>v w. reg (arm_mps3_io_write_leds D ARM_MPS3_IO_ACCESS_PORT 0 v w) = v AND MAX_LED_MASK) \<and>
     (\<forall>p v w. p < TOTAL_NUMBER_OF_LEDS \<longrightarrow>
        reg (arm_mps3_io_write_leds D ARM_MPS3_IO_ACCESS_PIN p v w) =
          (if v = 0 then unset_bit p (reg w) else set_bit p (reg w)))"

definition leds_ok :: "('w \<Rightarrow> u32) \<Rightarrow> 'w led_state \<Rightarrow> bool" where
  "leds_ok reg s \<longleftrightarrow> reg (io_world s) = leds_state s \<and> leds_state s \<le> MAX_LED_MASK"

lemma max_led_mask: "MAX_LED_MASK = 0x3FF"
  by (simp add: MAX_LED_MASK_def TOTAL_NUMBER_OF_LEDS_def push_bit_eq_mult)

lemma within_mask: "v \<le> MAX_LED_MASK \<longleftrightarrow> (\<forall>n\<ge>10. \<not> bit v n)"
proof -
  have "v \<le> MAX_LED_MASK \<longleftrightarrow> unat v < 2 ^ 10"
    by (auto simp: max_led_mask word_le_nat_alt)
  also have "\<dots> \<longleftrightarrow> take_bit 10 v = v"
    by (simp add: word_unat_eq_iff unsigned_take_bit_eq take_bit_nat_eq_self_iff)
  also have "\<dots> \<longleftrightarrow> (\<forall>n\<ge>10. \<not> bit v n)"
  proof -
    have "n < 32" if "bit v n" for n using bit_imp_le_length [OF that] by simp
    then show ?thesis by (simp add: bit_eq_iff bit_take_bit_iff) (meson linorder_not_le)
  qed
  finally show ?thesis .
qed

lemma get_bit_state: "GET_BIT_STATE v n = of_bool (bit v n)"
  by (simp add: GET_BIT_STATE_def and_one_eq mod2_eq_if bit_iff_odd_drop_bit)

text \<open>The loop writes the bits one after the other.\<close>

lemma led_rounds:
  assumes "io_ok D reg" and "n \<le> TOTAL_NUMBER_OF_LEDS" and "reg w = old"
  shows "bit (reg (fold (led_round D new old) [0..<n] w)) k = (if k < n then bit new k else bit old k)"
  using assms(2)
proof (induction n arbitrary: k)
  case 0
  then show ?case by (simp add: assms(3))
next
  case (Suc n)
  define w1 where "w1 = fold (led_round D new old) [0..<n] w"
  have ih: "bit (reg w1) k = (if k < n then bit new k else bit old k)" for k
    using Suc by (simp add: w1_def)
  have "reg (led_round D new old n w1) =
      (if bit new n = bit old n then reg w1 else if bit new n then set_bit n (reg w1) else unset_bit n (reg w1))"
    using assms(1) Suc.prems by (auto simp: led_round_def get_bit_state bit_xor_iff io_ok_def)
  then show ?case
    using ih Suc.prems
    by (auto simp: w1_def [symmetric] bit_set_bit_iff bit_unset_bit_iff less_Suc_eq TOTAL_NUMBER_OF_LEDS_def)
qed

lemma set_state_exact:
  assumes "io_ok D reg" and "leds_ok reg s" and "new \<le> MAX_LED_MASK"
  shows "\<exists>s'. mps3_leds_set_state D new s = (True, s') \<and> leds_ok reg s' \<and> leds_state s' = new"
proof -
  let ?w = "fold (led_round D new (leds_state s)) [0..<TOTAL_NUMBER_OF_LEDS] (io_world s)"
  have "bit (reg ?w) k = bit new k" for k
    using led_rounds [OF assms(1) order_refl, of "io_world s" "leds_state s" new k] assms(2,3)
    by (auto simp: leds_ok_def within_mask TOTAL_NUMBER_OF_LEDS_def)
  then have "reg ?w = new" by (simp add: bit_eq_iff)
  then show ?thesis using assms(3) by (auto simp: mps3_leds_set_state_def leds_ok_def)
qed
lemma on_off_exact:
  assumes "io_ok D reg" and "leds_ok reg s" and "n < TOTAL_NUMBER_OF_LEDS"
  shows "\<exists>s'. mps3_leds_turn_on D (push_bit n 1) s = (True, s') \<and> leds_ok reg s' \<and> leds_state s' = set_bit n (leds_state s)"
    "\<exists>s'. mps3_leds_turn_off D (push_bit n 1) s = (True, s') \<and> leds_ok reg s' \<and> leds_state s' = unset_bit n (leds_state s)"
    "\<exists>s'. mps3_leds_toggle D (push_bit n 1) s = (True, s') \<and> leds_ok reg s' \<and> leds_state s' = flip_bit n (leds_state s)"
proof -
  have g: "mps3_leds_get_state D s = leds_state s" using assms(1,2) by (simp add: mps3_leds_get_state_def io_ok_def leds_ok_def)
  have m: "\<forall>k\<ge>10. \<not> bit (leds_state s) k" using assms(2) by (simp add: leds_ok_def within_mask)
  have n: "n < 10" using assms(3) by (simp add: TOTAL_NUMBER_OF_LEDS_def)
  have "set_bit n (leds_state s) \<le> MAX_LED_MASK" "unset_bit n (leds_state s) \<le> MAX_LED_MASK" "flip_bit n (leds_state s) \<le> MAX_LED_MASK"
    using m n by (auto simp: within_mask bit_set_bit_iff bit_unset_bit_iff bit_flip_bit_iff)
  then show "\<exists>s'. mps3_leds_turn_on D (push_bit n 1) s = (True, s') \<and> leds_ok reg s' \<and> leds_state s' = set_bit n (leds_state s)"
    "\<exists>s'. mps3_leds_turn_off D (push_bit n 1) s = (True, s') \<and> leds_ok reg s' \<and> leds_state s' = unset_bit n (leds_state s)"
    "\<exists>s'. mps3_leds_toggle D (push_bit n 1) s = (True, s') \<and> leds_ok reg s' \<and> leds_state s' = flip_bit n (leds_state s)"
    using set_state_exact [OF assms(1,2)]
    by (simp_all add: mps3_leds_turn_on_def mps3_leds_turn_off_def mps3_leds_toggle_def g set_bit_eq_or unset_bit_eq_and_not flip_bit_eq_xor)
qed

text \<open>What may happen, one after the other, and the specification: the positions of the LEDs that are lit.\<close>

datatype led_event = Keyword ml_processing_state | Tick

fun led_step :: "'w mps3_io \<Rightarrow> u32 \<Rightarrow> led_event \<Rightarrow> 'w led_state \<Rightarrow> bool \<times> 'w led_state" where
  "led_step D hz (Keyword k) s = (True, prvMlChangeHandler D k s)"
| "led_step D hz Tick s = blink_round D hz s"

fun led_run :: "'w mps3_io \<Rightarrow> u32 \<Rightarrow> led_event list \<Rightarrow> 'w led_state \<Rightarrow> bool \<times> 'w led_state" where
  "led_run D hz [] s = (True, s)"
| "led_run D hz (e # es) s =
     (let (goes_on, s) = led_step D hz e s in if goes_on then led_run D hz es s else (False, s))"

fun lit :: "led_event \<Rightarrow> nat set \<Rightarrow> nat set" where
  "lit (Keyword ML_HEARD_YES) L = insert 0 L" | "lit (Keyword ML_HEARD_NO) L = L - {0}"
| "lit (Keyword ML_HEARD_GO) L = insert 1 L" | "lit (Keyword ML_HEARD_STOP) L = L - {1}"
| "lit (Keyword ML_HEARD_UP) L = insert 2 L" | "lit (Keyword ML_HEARD_DOWN) L = L - {2}"
| "lit (Keyword ML_HEARD_LEFT) L = insert 3 L" | "lit (Keyword ML_HEARD_RIGHT) L = L - {3}"
| "lit (Keyword ML_HEARD_ON) L = insert 4 L" | "lit (Keyword ML_HEARD_OFF) L = L - {4}"
| "lit (Keyword ML_SILENCE) L = L" | "lit (Keyword ML_UNKNOWN) L = L"
| "lit Tick L = (if 5 \<in> L then L - {5} else insert 5 L)"

definition lit_bits :: "u32 \<Rightarrow> nat set" where "lit_bits v = {n. bit v n}"

lemma lit_bits_changes:
  assumes "n < 32"
  shows "lit_bits (set_bit n v) = insert n (lit_bits v)" "lit_bits (unset_bit n v) = lit_bits v - {n}"
    "lit_bits (flip_bit n v) = (if n \<in> lit_bits v then lit_bits v - {n} else insert n (lit_bits v))"
  using assms by (auto simp: lit_bits_def bit_set_bit_iff bit_unset_bit_iff bit_flip_bit_iff dest: bit_imp_le_length [of v])

lemma led_step_exact:
  assumes d: "io_ok D reg" and s: "leds_ok reg s" and hz: "ticks_interval hz \<noteq> 0"
  shows "\<exists>s'. led_step D hz e s = (True, s') \<and> leds_ok reg s' \<and> lit_bits (leds_state s') = lit e (lit_bits (leds_state s))"
proof -
  have n: "n < TOTAL_NUMBER_OF_LEDS" if "n \<le> 5" for n using that by (simp add: TOTAL_NUMBER_OF_LEDS_def)
  note on_off = on_off_exact [OF d s n]
  show ?thesis
  proof (cases e)
    case (Keyword k)
    then show ?thesis
      using on_off [of 0] on_off [of 1] on_off [of 2] on_off [of 3] on_off [of 4] s
      by (cases k) (auto simp: prvMlChangeHandler_def led_names lit_bits_changes)
  next
    case Tick
    then show ?thesis using on_off(3) [of 5] hz by (auto simp: blink_round_def led_names lit_bits_changes)
  qed
qed

lemma led_run_exact:
  assumes "io_ok D reg" and "ticks_interval hz \<noteq> 0"
  shows "leds_ok reg s \<Longrightarrow> \<exists>s'. led_run D hz es s = (True, s') \<and> leds_ok reg s' \<and>
    lit_bits (leds_state s') = fold lit es (lit_bits (leds_state s))"
proof (induction es arbitrary: s)
  case (Cons e es)
  obtain s1 where "led_step D hz e s = (True, s1)" "leds_ok reg s1" "lit_bits (leds_state s1) = lit e (lit_bits (leds_state s))"
    using led_step_exact [OF assms(1) Cons.prems assms(2)] by blast
  then show ?case using Cons.IH [of s1] by simp
qed simp

lemma blink_start_exact:
  assumes "io_ok D reg"
  shows "\<exists>s'. blink_start D s = (True, s') \<and> leds_ok reg s' \<and> leds_state s' = 0"
proof -
  have i: "leds_ok reg (mps3_leds_init D s)" "leds_state (mps3_leds_init D s) = 0"
    using assms by (auto simp: leds_ok_def mps3_leds_init_def io_ok_def)
  moreover have "mps3_leds_get_state D (mps3_leds_init D s) = 0"
    using i assms by (simp add: mps3_leds_get_state_def io_ok_def leds_ok_def)
  ultimately show ?thesis using set_state_exact [OF assms i(1), of 0] by (simp add: blink_start_def mps3_leds_turn_off_def)
qed

text \<open>From any state of the hardware, and whatever keywords are heard between the rounds of the blink task,
  no call fails and the LEDs that are lit are exactly the ones the specification names: those of the last keyword
  of each pair, and the sign of life after an odd number of rounds.\<close>

theorem leds_show_keywords:
  assumes "io_ok D reg" and "ticks_interval hz \<noteq> 0"
  shows "\<exists>s1 s2. blink_start D s = (True, s1) \<and> led_run D hz es s1 = (True, s2) \<and>
    {n. bit (reg (io_world s2)) n} = fold lit es {}"
proof -
  obtain s1 where 1: "blink_start D s = (True, s1)" "leds_ok reg s1" "leds_state s1 = 0"
    using blink_start_exact [OF assms(1)] by blast
  obtain s2 where "led_run D hz es s1 = (True, s2)" "leds_ok reg s2" "lit_bits (leds_state s2) = fold lit es (lit_bits 0)"
    using led_run_exact [OF assms 1(2)] 1(3) by metis
  then show ?thesis using 1 by (auto simp: lit_bits_def leds_ok_def)
qed

section \<open>Two tasks at once\<close>

text \<open>
  The blink task and the task that hears keywords change the LEDs without a lock. In the middle of a
  call that changes the state by \<open>f\<close>, after the state was read, the other task makes a whole call.
\<close>

definition interrupted :: "'w mps3_io \<Rightarrow> (u32 \<Rightarrow> u32) \<Rightarrow> ('w led_state \<Rightarrow> bool \<times> 'w led_state) \<Rightarrow> 'w led_state \<Rightarrow> bool \<times> 'w led_state" where
  "interrupted D f other s =
     (let v = mps3_leds_get_state D s; (b, s) = other s in mps3_leds_set_state D (f v) s)"

text \<open>A keyword that is heard while the sign of life is being toggled can be lost: its LED is as it was before,
  although both calls report success.\<close>

theorem interrupted_toggle_loses_keyword:
  assumes "io_ok D reg" and "leds_ok reg s" and "n < 5"
  shows "\<exists>s'. interrupted D (\<lambda>v. v XOR LED_ALIVE) (mps3_leds_turn_on D (push_bit n 1)) s = (True, s') \<and>
    fst (mps3_leds_turn_on D (push_bit n 1) s) \<and> (bit (reg (io_world s')) n \<longleftrightarrow> bit (reg (io_world s)) n)"
proof -
  have t: "n < TOTAL_NUMBER_OF_LEDS" "5 < TOTAL_NUMBER_OF_LEDS" using assms(3) by (simp_all add: TOTAL_NUMBER_OF_LEDS_def)
  obtain s1 where 1: "mps3_leds_turn_on D (push_bit n 1) s = (True, s1)" "leds_ok reg s1"
    using on_off_exact(1) [OF assms(1,2) t(1)] by blast
  have g: "mps3_leds_get_state D s = leds_state s" using assms(1,2) by (simp add: mps3_leds_get_state_def io_ok_def leds_ok_def)
  have m: "flip_bit 5 (leds_state s) \<le> MAX_LED_MASK"
    using assms(2) by (auto simp: leds_ok_def within_mask bit_flip_bit_iff)
  obtain s2 where "mps3_leds_set_state D (flip_bit 5 (leds_state s)) s1 = (True, s2)" "leds_ok reg s2"
    "leds_state s2 = flip_bit 5 (leds_state s)"
    using set_state_exact [OF assms(1) 1(2) m] by blast
  moreover from this have "bit (reg (io_world s2)) n = bit (reg (io_world s)) n"
    using assms(2,3) by (simp add: leds_ok_def bit_flip_bit_iff)
  ultimately show ?thesis using 1(1) by (simp add: interrupted_def g LED_ALIVE_def flip_bit_eq_xor)
qed

section \<open>A board for the witnesses\<close>

definition sample_io :: "u32 mps3_io" where
  "sample_io = \<lparr>arm_mps3_io_write_leds = (\<lambda>a p v w. case a of ARM_MPS3_IO_ACCESS_PORT \<Rightarrow> v AND MAX_LED_MASK
       | ARM_MPS3_IO_ACCESS_PIN \<Rightarrow> if v = 0 then unset_bit p w else set_bit p w),
     arm_mps3_io_read_leds = (\<lambda>a p w. case a of ARM_MPS3_IO_ACCESS_PORT \<Rightarrow> w | ARM_MPS3_IO_ACCESS_PIN \<Rightarrow> of_bool (bit w p))\<rparr>"

lemma sample_io_ok: "io_ok sample_io (\<lambda>w. w)"
  by (simp add: io_ok_def sample_io_def)

theorem leds_show_keywords_witness:
  "\<exists>s1 s2. blink_start sample_io \<lparr>leds_state = 77, io_world = 3\<rparr> = (True, s1) \<and>
     led_run sample_io 1000 [Keyword ML_HEARD_YES, Tick, Keyword ML_HEARD_GO, Keyword ML_HEARD_NO] s1 = (True, s2) \<and>
     {n. bit (io_world s2) n} = {1, 5}"
proof -
  have "ticks_interval 1000 \<noteq> 0" by (simp add: ticks_interval_def)
  from leds_show_keywords [OF sample_io_ok this, of "\<lparr>leds_state = 77, io_world = 3\<rparr>"
      "[Keyword ML_HEARD_YES, Tick, Keyword ML_HEARD_GO, Keyword ML_HEARD_NO]"]
  show ?thesis by (simp add: insert_Diff_if)
qed

theorem interrupted_toggle_loses_keyword_witness:
  "\<exists>s'. interrupted sample_io (\<lambda>v. v XOR LED_ALIVE) (mps3_leds_turn_on sample_io (push_bit 0 1)) \<lparr>leds_state = 0, io_world = 0\<rparr> = (True, s') \<and>
     \<not> bit (io_world s') 0"
  using interrupted_toggle_loses_keyword [OF sample_io_ok, of "\<lparr>leds_state = 0, io_world = 0\<rparr>" 0]
  by (auto simp: leds_ok_def)

end
