(* ===== verification/Keyword_Detection.thy ===== *)
theory Keyword_Detection
  imports Sliding_Window Leds System_Events
begin

text \<open>
  The audio features of the keyword detection application, \<^verbatim>\<open>ml_interface.cc\<close>: the feature calculator with
  its cache, the sizes \<^verbatim>\<open>prvProcessAudio\<close> derives from the model, and the loop over the strides of an
  inference. The feature computation itself is a parameter.
\<close>

section \<open>Features\<close>

text \<open>The static cache, and the memory from the start of the input tensor.\<close>

record 'f features =
  featureCache :: "'f list list"
  tensorData :: "'f list"

text \<open>
  One call of the feature calculator: \<open>compute\<close> is the computation on a window of samples. Features
  taken from the cache are moved out of it. A write outside of memory or cache is \<open>None\<close>.
\<close>

definition FeatureCalc ::
  "('a list \<Rightarrow> 'f list) \<Rightarrow> 'a list \<Rightarrow> nat \<Rightarrow> bool \<Rightarrow> nat \<Rightarrow> 'f features \<Rightarrow> 'f features option" where
  "FeatureCalc compute audioDataWindow index useCache featuresOverlapIndex F =
     (let cached = useCache \<and> index < length (featureCache F);
          features = (if cached then featureCache F ! index else compute audioDataWindow);
          cache = (if cached then (featureCache F)[index := []] else featureCache F);
          size_of = length features
      in if \<not> buf_fits (tensorData F) (index * size_of) size_of then None
         else
           (let data = buf_write (tensorData F) (index * size_of) features
            in if index \<ge> featuresOverlapIndex
               then (if index - featuresOverlapIndex < length cache
                     then Some \<lparr>featureCache = cache[index - featuresOverlapIndex := features], tensorData = data\<rparr>
                     else None)
               else Some \<lparr>featureCache = cache, tensorData = data\<rparr>))"

text \<open>
  The sizes that \<open>prvProcessAudio\<close> derives from the rows of the input tensor and the length and
  stride of a frame.
\<close>

definition audioDataWindowSize :: "nat \<Rightarrow> nat \<Rightarrow> nat \<Rightarrow> nat" where
  "audioDataWindowSize kNumRows frameLength frameStride = kNumRows * frameStride + (frameLength - frameStride)"

definition audioDataStride :: "nat \<Rightarrow> nat \<Rightarrow> nat \<Rightarrow> nat" where
  "audioDataStride kNumRows frameLength frameStride =
     (let s = audioDataWindowSize kNumRows frameLength frameStride div 2
      in if s mod frameStride \<noteq> 0 then s - s mod frameStride else s)"

definition nMfccVectorsInAudioStride :: "nat \<Rightarrow> nat \<Rightarrow> nat \<Rightarrow> nat" where
  "nMfccVectorsInAudioStride kNumRows frameLength frameStride = audioDataStride kNumRows frameLength frameStride div frameStride"

definition stride_rounds :: "nat \<Rightarrow> nat \<Rightarrow> nat \<Rightarrow> nat" where
  "stride_rounds kNumRows frameLength frameStride = audioDataWindowSize kNumRows frameLength frameStride div frameStride"

text \<open>
  The loop over the strides of one inference: \<open>nxt\<close> reads the next window, the last one read is kept.
  \<open>R\<close> is the number of reused feature vectors.
\<close>

fun feature_strides ::
  "('a list \<Rightarrow> 'f list) \<Rightarrow> ('s \<Rightarrow> ('a list \<times> 's) option) \<Rightarrow> nat \<Rightarrow> bool \<Rightarrow> nat list \<Rightarrow> 'a list \<times> 's \<times> 'f features \<Rightarrow>
   ('a list \<times> 's \<times> 'f features) option" where
  "feature_strides compute nxt R useCache [] t = Some t"
| "feature_strides compute nxt R useCache (i # is) (data, s, F) =
     (case (if \<not> useCache \<or> i \<ge> R then nxt s else Some (data, s)) of
        None \<Rightarrow> None
      | Some (data, s) \<Rightarrow>
          (case FeatureCalc compute data i useCache R F of
             None \<Rightarrow> None
           | Some F \<Rightarrow> feature_strides compute nxt R useCache is (data, s, F)))"

definition compute_features ::
  "('a list \<Rightarrow> 'f list) \<Rightarrow> ('s \<Rightarrow> ('a list \<times> 's) option) \<Rightarrow> nat \<Rightarrow> nat \<Rightarrow> bool \<Rightarrow> 'a list \<times> 's \<times> 'f features \<Rightarrow>
   ('a list \<times> 's \<times> 'f features) option" where
  "compute_features compute nxt rounds R first_iteration t =
     feature_strides compute nxt R (\<not> first_iteration \<and> R > 0) [0..<rounds] t"

section \<open>Correctness of the cache\<close>

text \<open>Row \<open>i\<close> of the tensor memory, with rows of \<open>cols\<close> features.\<close>

definition row :: "nat \<Rightarrow> 'f list \<Rightarrow> nat \<Rightarrow> 'f list" where
  "row cols m i = take cols (drop (i * cols) m)"

lemma row_write:
  assumes "length x = cols" and "(i + 1) * cols \<le> length m" and "j * cols + cols \<le> length m"
  shows "row cols (buf_write m (i * cols) x) j = (if j = i then x else row cols m j)"
proof -
  consider "j = i" | "j < i" | "i < j" by linarith
  then show ?thesis
  proof cases
    case 1
    then show ?thesis using assms by (simp add: row_def buf_write_def)
  next
    case 2
    then have "(j + 1) * cols \<le> i * cols" by (intro mult_right_mono) auto
    then show ?thesis using 2 assms
      by (simp add: row_def buf_write_def min_def algebra_simps take_drop del: take_drop) (auto simp: drop_take take_append)
  next
    case 3
    then have "(i + 1) * cols \<le> j * cols" by (intro mult_right_mono) auto
    then obtain d where d: "j * cols = i * cols + cols + d" by (auto simp: le_iff_add algebra_simps)
    show ?thesis using 3 assms d by (simp add: row_def buf_write_def algebra_simps)
  qed
qed
text \<open>Reading windows one after the other; \<open>cursor\<close> is the number of the next.\<close>

definition reads_windows :: "('s \<Rightarrow> ('a list \<times> 's) option) \<Rightarrow> ('s \<Rightarrow> nat) \<Rightarrow> (nat \<Rightarrow> 'a list) \<Rightarrow> bool" where
  "reads_windows nxt cursor frames \<longleftrightarrow>
     (\<forall>s. \<exists>s'. nxt s = Some (frames (cursor s), s') \<and> cursor s' = cursor s + 1)"

text \<open>
  Before stride \<open>m\<close> of an inference whose first window has the number \<open>base\<close>: the rows written, and
  what the cache holds of this inference and for the next one.
\<close>

definition stride_inv ::
  "('a list \<Rightarrow> 'f list) \<Rightarrow> ('s \<Rightarrow> nat) \<Rightarrow> (nat \<Rightarrow> 'a list) \<Rightarrow> nat \<Rightarrow> nat \<Rightarrow> bool \<Rightarrow> nat \<Rightarrow> nat \<Rightarrow> 's \<Rightarrow> 'f features \<Rightarrow> bool" where
  "stride_inv compute cursor frames cols R useCache base m s F \<longleftrightarrow>
     length (featureCache F) = R \<and> 2 * R * cols \<le> length (tensorData F) \<and>
     cursor s = base + (if useCache then max m R else m) \<and>
     (\<forall>i<m. row cols (tensorData F) i = compute (frames (base + i))) \<and>
     (useCache \<longrightarrow> (\<forall>i. m \<le> i \<longrightarrow> i < R \<longrightarrow> featureCache F ! i = compute (frames (base + i)))) \<and>
     (\<forall>j. R \<le> j \<longrightarrow> j < m \<longrightarrow> featureCache F ! (j - R) = compute (frames (base + j)))"

lemma stride_step:
  assumes nxt: "reads_windows nxt cursor frames" and size: "\<And>x. length (compute x) = cols"
    and inv: "stride_inv compute cursor frames cols R useCache base m s F" and m: "m < 2 * R"
  shows "\<exists>data' s' F'. feature_strides compute nxt R useCache (m # is) (data, s, F) =
      feature_strides compute nxt R useCache is (data', s', F') \<and>
    stride_inv compute cursor frames cols R useCache base (Suc m) s' F'"
proof -
  have fit: "(m + 1) * cols \<le> length (tensorData F)"
  proof -
    have "(m + 1) * cols \<le> 2 * R * cols" using m by (intro mult_right_mono) auto
    then show ?thesis using inv by (simp add: stride_inv_def)
  qed
  have rows: "row cols (buf_write (tensorData F) (m * cols) (compute (frames (base + m)))) i = compute (frames (base + i))"
    if "i < Suc m" for i
  proof -
    have "(i + 1) * cols \<le> (m + 1) * cols" using that by (intro mult_right_mono) auto
    from order_trans [OF this fit] have "i * cols + cols \<le> length (tensorData F)" by (simp add: algebra_simps)
    note w = row_write [OF size fit this, of "frames (base + m)"]
    have "row cols (tensorData F) i = compute (frames (base + i))" if "i \<noteq> m"
      using inv that \<open>i < Suc m\<close> by (auto simp: stride_inv_def)
    then show ?thesis unfolding w by auto
  qed
  have fits: "buf_fits (tensorData F) (m * cols) cols" using fit by (simp add: buf_fits_def)
  have len: "length (buf_write (tensorData F) (m * cols) (compute (frames (base + m)))) = length (tensorData F)"
    using fit by (intro length_buf_write) simp
  show ?thesis
  proof (cases "useCache \<and> m < R")
    case True
    define F' where "F' = \<lparr>featureCache = (featureCache F)[m := []],
      tensorData = buf_write (tensorData F) (m * cols) (compute (frames (base + m)))\<rparr>"
    have "featureCache F ! m = compute (frames (base + m))" "length (featureCache F) = R"
      using True inv by (auto simp: stride_inv_def)
    then have "FeatureCalc compute data m useCache R F = Some F'"
      using True fits by (simp add: FeatureCalc_def F'_def size)
    moreover have "stride_inv compute cursor frames cols R useCache base (Suc m) s F'"
      using inv True rows len by (auto simp: stride_inv_def F'_def)
    ultimately show ?thesis using True by (intro exI [of _ data] exI [of _ s] exI [of _ F']) simp
  next
    case False
    obtain s' where n: "nxt s = Some (frames (cursor s), s')" and c: "cursor s' = cursor s + 1"
      using nxt unfolding reads_windows_def by blast
    have cur: "cursor s = base + m" using inv False by (auto simp: stride_inv_def max_def)
    define F' where "F' = \<lparr>featureCache = (if m \<ge> R then (featureCache F)[m - R := compute (frames (base + m))] else featureCache F),
      tensorData = buf_write (tensorData F) (m * cols) (compute (frames (base + m)))\<rparr>"
    have "FeatureCalc compute (frames (cursor s)) m useCache R F = Some F'"
      using False fits inv m by (auto simp: FeatureCalc_def F'_def size cur stride_inv_def Let_def)
    moreover have "stride_inv compute cursor frames cols R useCache base (Suc m) s' F'"
      using inv False rows len c cur m by (auto simp: stride_inv_def F'_def nth_list_update less_Suc_eq)
    ultimately show ?thesis using False n by (intro exI [of _ "frames (cursor s)"] exI [of _ s'] exI [of _ F']) auto
  qed
qed

lemma stride_loop:
  assumes "reads_windows nxt cursor frames" and "\<And>x. length (compute x) = cols"
  shows "stride_inv compute cursor frames cols R useCache base m s F \<Longrightarrow> m \<le> 2 * R \<Longrightarrow>
    \<exists>data' s' F'. feature_strides compute nxt R useCache [m..<2 * R] (data, s, F) = Some (data', s', F') \<and>
      stride_inv compute cursor frames cols R useCache base (2 * R) s' F'"
proof (induction "2 * R - m" arbitrary: m data s F)
  case 0
  then have "m = 2 * R" by simp
  then show ?case using 0 by auto
next
  case (Suc d)
  then have m: "m < 2 * R" by simp
  obtain data1 s1 F1 where 1: "feature_strides compute nxt R useCache (m # [Suc m..<2 * R]) (data, s, F) =
      feature_strides compute nxt R useCache [Suc m..<2 * R] (data1, s1, F1)"
    "stride_inv compute cursor frames cols R useCache base (Suc m) s1 F1"
    using stride_step [OF assms Suc.prems(1) m] by blast
  show ?case using Suc.hyps(1) [OF _ 1(2), of data1] Suc.hyps(2) m 1(1) by (simp add: upt_conv_Cons)
qed

text \<open>Several inferences, one after the other.\<close>

fun inferences ::
  "('a list \<Rightarrow> 'f list) \<Rightarrow> ('s \<Rightarrow> ('a list \<times> 's) option) \<Rightarrow> nat \<Rightarrow> nat \<Rightarrow> nat \<Rightarrow> 'a list \<times> 's \<times> 'f features \<Rightarrow>
   ('a list \<times> 's \<times> 'f features) option" where
  "inferences compute nxt rounds R 0 t = Some t"
| "inferences compute nxt rounds R (Suc k) t =
     (case inferences compute nxt rounds R k t of
        None \<Rightarrow> None
      | Some t \<Rightarrow> compute_features compute nxt rounds R (k = 0) t)"

text \<open>What holds after \<open>k\<close> inferences, and that the next one keeps it.\<close>

definition cache_inv ::
  "('a list \<Rightarrow> 'f list) \<Rightarrow> ('s \<Rightarrow> nat) \<Rightarrow> (nat \<Rightarrow> 'a list) \<Rightarrow> nat \<Rightarrow> nat \<Rightarrow> nat \<Rightarrow> 's \<Rightarrow> 'f features \<Rightarrow> bool" where
  "cache_inv compute cursor frames cols R k s F \<longleftrightarrow>
     (if k = 0 then length (featureCache F) = R \<and> 2 * R * cols \<le> length (tensorData F) \<and> cursor s = 0
      else stride_inv compute cursor frames cols R (1 < k) ((k - 1) * R) (2 * R) s F)"

lemma next_inference:
  assumes nxt: "reads_windows nxt cursor frames" and size: "\<And>x. length (compute x) = cols" and R: "0 < R"
    and inv: "cache_inv compute cursor frames cols R k s F"
  shows "\<exists>data' s' F'. compute_features compute nxt (2 * R) R (k = 0) (data, s, F) = Some (data', s', F') \<and>
    cache_inv compute cursor frames cols R (Suc k) s' F'"
proof -
  have "stride_inv compute cursor frames cols R (0 < k) (k * R) 0 s F"
  proof (cases k)
    case 0
    then show ?thesis using inv by (simp add: stride_inv_def cache_inv_def)
  next
    case (Suc j)
    then have i: "stride_inv compute cursor frames cols R (0 < j) (j * R) (2 * R) s F" using inv by (simp add: cache_inv_def)
    have "cursor s = j * R + 2 * R" using i R by (auto simp: stride_inv_def max_def)
    moreover have "featureCache F ! i = compute (frames (j * R + (R + i)))" if "i < R" for i
    proof -
      have "R \<le> R + i" "R + i < 2 * R" using that by simp_all
      then have "featureCache F ! (R + i - R) = compute (frames (j * R + (R + i)))" using i unfolding stride_inv_def by blast
      then show ?thesis by simp
    qed
    ultimately show ?thesis using i Suc by (simp add: stride_inv_def algebra_simps)
  qed
  from stride_loop [OF nxt size this, of data] R show ?thesis by (simp add: compute_features_def cache_inv_def)
qed

lemma inferences_inv:
  assumes nxt: "reads_windows nxt cursor frames" and size: "\<And>x. length (compute x) = cols" and R: "0 < R"
    and inv: "cache_inv compute cursor frames cols R 0 s F"
  shows "\<exists>data' s' F'. inferences compute nxt (2 * R) R k (data, s, F) = Some (data', s', F') \<and>
    cache_inv compute cursor frames cols R k s' F'"
proof (induction k)
  case 0
  show ?case using inv by simp
next
  case (Suc k)
  then obtain data1 s1 F1 where "inferences compute nxt (2 * R) R k (data, s, F) = Some (data1, s1, F1)"
    "cache_inv compute cursor frames cols R k s1 F1" by blast
  with next_inference [OF nxt size R this(2), of data1] show ?case by simp
qed

text \<open>The rows of the last inference, one after the other.\<close>

lemma cache_inv_rows:
  "cache_inv compute cursor frames cols R (Suc k) s F \<Longrightarrow> i < 2 * R \<Longrightarrow>
   row cols (tensorData F) i = compute (frames (k * R + i))"
  by (simp add: cache_inv_def stride_inv_def)

lemma rows_tensor:
  assumes "\<forall>i<n. row cols m i = f i" and "n * cols \<le> length m"
  shows "take (n * cols) m = concat (map f [0..<n])"
  using assms
proof (induction n)
  case (Suc n)
  have "take (Suc n * cols) m = take (n * cols) m @ row cols m n"
    by (simp add: row_def take_add [symmetric] add.commute)
  moreover have "n * cols \<le> length m" using Suc.prems(2) by simp
  ultimately show ?case using Suc by simp
qed simp

lemma round_sizes:
  assumes "odd kNumRows" and "0 < frameStride"
  shows "stride_rounds kNumRows (2 * frameStride) frameStride = kNumRows + 1"
    "2 * nMfccVectorsInAudioStride kNumRows (2 * frameStride) frameStride = kNumRows + 1"
proof -
  obtain R where R: "kNumRows + 1 = 2 * R" using assms(1) by (metis odd_even_add odd_one evenE)
  have w: "audioDataWindowSize kNumRows (2 * frameStride) frameStride = (2 * R) * frameStride"
    unfolding R [symmetric] audioDataWindowSize_def by simp
  show "stride_rounds kNumRows (2 * frameStride) frameStride = kNumRows + 1"
    using assms(2) R by (simp add: stride_rounds_def w)
  have "audioDataStride kNumRows (2 * frameStride) frameStride = R * frameStride" by (simp add: audioDataStride_def w)
  then show "2 * nMfccVectorsInAudioStride kNumRows (2 * frameStride) frameStride = kNumRows + 1"
    using assms(2) R by (simp add: nMfccVectorsInAudioStride_def)
qed

text \<open>C27: With frames that overlap by half and an odd number of rows, as in the model in use (640, 320 and 49), the
  cached computation gives in every inference exactly the rows that computing each window anew would give, and
  the window of the next inference starts half a tensor later; but one row more is computed than the tensor
  has, and it is written behind its end.\<close>

theorem cached_features_exact:
  assumes "reads_windows nxt cursor frames" and "\<And>x. length (compute x) = cols"
    and "odd kNumRows" and "0 < frameStride" and "R = nMfccVectorsInAudioStride kNumRows (2 * frameStride) frameStride"
    and "length (featureCache F) = R" and "(kNumRows + 1) * cols \<le> length (tensorData F)" and "cursor s = 0"
  shows "\<exists>data' s' F'. inferences compute nxt (stride_rounds kNumRows (2 * frameStride) frameStride) R (Suc k) (data, s, F) =
      Some (data', s', F') \<and>
    (\<forall>i<kNumRows. row cols (tensorData F') i = compute (frames (k * R + i))) \<and>
    take cols (drop (kNumRows * cols) (tensorData F')) = compute (frames (k * R + kNumRows))"
proof -
  have N: "kNumRows + 1 = 2 * R" "stride_rounds kNumRows (2 * frameStride) frameStride = 2 * R"
    using round_sizes [OF assms(3,4)] assms(5) by simp_all
  have "0 < R" using N(1) by simp
  have "2 * R * cols \<le> length (tensorData F)" using assms(7) unfolding N(1) .
  then have "cache_inv compute cursor frames cols R 0 s F" using assms(6,8) by (simp add: cache_inv_def)
  from inferences_inv [where compute = compute and k = "Suc k" and data = data, OF assms(1) assms(2) \<open>0 < R\<close> this]
  obtain data' s' F' where r: "inferences compute nxt (2 * R) R (Suc k) (data, s, F) = Some (data', s', F')"
    and i: "cache_inv compute cursor frames cols R (Suc k) s' F'"
    by blast
  have rows: "row cols (tensorData F') i = compute (frames (k * R + i))" if "i < kNumRows + 1" for i
    using cache_inv_rows [OF i] that N(1) by simp
  show ?thesis using r rows rows [of kNumRows] N(2) by (auto simp: row_def)
qed

section \<open>A small model for the witness\<close>

text \<open>Three rows of one feature; the windows are the numbers from 0 on.\<close>

definition count_windows :: "nat \<Rightarrow> (nat list \<times> nat) option" where
  "count_windows s = Some ([s], s + 1)"

lemma count_windows_reads: "reads_windows count_windows (\<lambda>s. s) (\<lambda>i. [i])"
  by (simp add: reads_windows_def count_windows_def)

definition head_feature :: "nat list \<Rightarrow> nat list" where "head_feature x = [hd x]"

theorem cached_features_exact_witness:
  "\<exists>data' s' F'. inferences head_feature count_windows 4 2 6 ([], 0, \<lparr>featureCache = [[], []], tensorData = replicate 5 0\<rparr>) =
     Some (data', s', F') \<and> row 1 (tensorData F') 2 = [12] \<and> take 1 (drop 3 (tensorData F')) = [13]"
proof -
  have "length (head_feature x) = 1" for x by (simp add: head_feature_def)
  moreover have "stride_rounds 3 (2 * 5) 5 = 4" "nMfccVectorsInAudioStride 3 (2 * 5) 5 = 2" by code_simp+
  ultimately obtain data' s' F' where
    "inferences head_feature count_windows 4 2 (Suc 5) ([], 0, \<lparr>featureCache = [[], []], tensorData = replicate 5 0\<rparr>) =
       Some (data', s', F')" "\<forall>i<3. row 1 (tensorData F') i = head_feature [5 * 2 + i]"
    "take 1 (drop 3 (tensorData F')) = head_feature [5 * 2 + 3]"
    using cached_features_exact [OF count_windows_reads, of head_feature 1 3 5 2
        "\<lparr>featureCache = [[], []], tensorData = replicate 5 0\<rparr>" 0 5 "[]"] by auto
  then show ?thesis by (auto simp: head_feature_def)
qed

end
