(* ===== verification/Keyword_Reports.thy ===== *)
theory Keyword_Reports
  imports Keyword_Detection Mqtt_Types "HOL-Library.Sublist"
begin

text \<open>
  What \<^verbatim>\<open>ml_interface.cc\<close> of the keyword detection does with the results of the inferences: the state
  it reports to the LEDs and, through a queue, to the task that publishes it. The kernel and the MQTT agent are
  parameters.
\<close>

section \<open>Labels\<close>

definition label_to_state :: "(string \<times> ml_processing_state) list" where
  "label_to_state =
     [(''_silence_'', ML_SILENCE), (''_unknown_'', ML_UNKNOWN), (''yes'', ML_HEARD_YES), (''no'', ML_HEARD_NO),
      (''up'', ML_HEARD_UP), (''down'', ML_HEARD_DOWN), (''left'', ML_HEARD_LEFT), (''right'', ML_HEARD_RIGHT),
      (''on'', ML_HEARD_ON), (''off'', ML_HEARD_OFF), (''go'', ML_HEARD_GO), (''stop'', ML_HEARD_STOP)]"

definition prvConvertInferenceResult :: "string \<Rightarrow> ml_processing_state" where
  "prvConvertInferenceResult label =
     (case find (\<lambda>label_to_state_pair. label = fst label_to_state_pair) label_to_state of
        None \<Rightarrow> ML_UNKNOWN
      | Some label_to_state_pair \<Rightarrow> snd label_to_state_pair)"

text \<open>The value of an enumerator, which is the index into the table.\<close>

fun ml_index :: "ml_processing_state \<Rightarrow> nat" where
  "ml_index ML_SILENCE = 0" | "ml_index ML_UNKNOWN = 1" | "ml_index ML_HEARD_YES = 2" | "ml_index ML_HEARD_NO = 3"
| "ml_index ML_HEARD_UP = 4" | "ml_index ML_HEARD_DOWN = 5" | "ml_index ML_HEARD_LEFT = 6" | "ml_index ML_HEARD_RIGHT = 7"
| "ml_index ML_HEARD_ON = 8" | "ml_index ML_HEARD_OFF = 9" | "ml_index ML_HEARD_GO = 10" | "ml_index ML_HEARD_STOP = 11"

definition prvGetInferenceResultString :: "ml_processing_state \<Rightarrow> string" where
  "prvGetInferenceResultString ref_state = fst (label_to_state ! ml_index ref_state)"

text \<open>The string that is published for a state is read back as the state, and the state of a label is published
  as the label itself, or as unknown when the table has no such label.\<close>

theorem published_label_roundtrip:
  "prvConvertInferenceResult (prvGetInferenceResultString k) = k \<and>
   prvGetInferenceResultString (prvConvertInferenceResult l) = (if l \<in> set (map fst label_to_state) then l else ''_unknown_'')"
proof
  show "prvConvertInferenceResult (prvGetInferenceResultString k) = k"
    by (cases k) (simp_all add: prvConvertInferenceResult_def prvGetInferenceResultString_def label_to_state_def)
  show "prvGetInferenceResultString (prvConvertInferenceResult l) = (if l \<in> set (map fst label_to_state) then l else ''_unknown_'')"
    by (simp add: prvConvertInferenceResult_def prvGetInferenceResultString_def label_to_state_def)
qed

section \<open>The reported state\<close>

text \<open>
  The static state with its handler, and the queue, \<open>None\<close> before it was created; its elements are the
  states inside the messages. \<open>'c\<close> is the context of the handler, \<open>'w\<close> what the handler acts on.
\<close>

record ('c, 'w) reports =
  ml_state :: ml_processing_state
  xMlMqttQueue :: "ml_processing_state list option"
  ml_processing_change_handler :: "('c \<Rightarrow> ml_processing_state \<Rightarrow> 'w \<Rightarrow> 'w) option"
  ml_processing_change_ptr :: 'c
  ml_world :: 'w

definition vRegisterMlProcessingChangeCb ::
  "('c \<Rightarrow> ml_processing_state \<Rightarrow> 'w \<Rightarrow> 'w) option \<Rightarrow> 'c \<Rightarrow> ('c, 'w) reports \<Rightarrow> ('c, 'w) reports" where
  "vRegisterMlProcessingChangeCb handler ctx r =
     r\<lparr>ml_processing_change_handler := handler, ml_processing_change_ptr := ctx\<rparr>"

text \<open>\<open>n\<close> is the length of the queue; the message is lost when it is full, for the sender does not wait.\<close>

definition prvSetMlProcessingState :: "nat \<Rightarrow> ml_processing_state \<Rightarrow> ('c, 'w) reports \<Rightarrow> ('c, 'w) reports" where
  "prvSetMlProcessingState n new_state r =
     (if new_state \<noteq> ml_state r
      then
        (case xMlMqttQueue r of
           None \<Rightarrow> r
         | Some q \<Rightarrow>
             (let q = (if length q < n then q @ [new_state] else q);
                  r = r\<lparr>xMlMqttQueue := Some q, ml_state := new_state\<rparr>
              in case ml_processing_change_handler r of
                   None \<Rightarrow> r
                 | Some handler \<Rightarrow> r\<lparr>ml_world := handler (ml_processing_change_ptr r) new_state (ml_world r)\<rparr>))
      else r)"

text \<open>After an inference: the label of the best result above the threshold, if there is one.\<close>

definition inferred_state :: "string option \<Rightarrow> ml_processing_state" where
  "inferred_state res = (case res of None \<Rightarrow> ML_UNKNOWN | Some label \<Rightarrow> prvConvertInferenceResult label)"

definition report_result :: "nat \<Rightarrow> string option \<Rightarrow> ('c, 'w) reports \<Rightarrow> ('c, 'w) reports" where
  "report_result n res r = prvSetMlProcessingState n (inferred_state res) r"

section \<open>Publishing\<close>

record ml_publish =
  publishContext :: MQTTAgentCommandContext
  ml_notification :: notification

definition appMQTT_TIMEOUT_MS :: u32 where "appMQTT_TIMEOUT_MS = 5000"

definition prvAppPublishCommandCallback :: "MQTTStatus \<Rightarrow> ml_publish \<Rightarrow> ml_publish" where
  "prvAppPublishCommandCallback code p =
     (let p = p\<lparr>publishContext := (publishContext p)\<lparr>xReturnStatus := code\<rparr>\<rparr>
      in if xTaskToNotify (publishContext p) \<noteq> None then p\<lparr>ml_notification := Some (mqtt_status_code code)\<rparr> else p)"

text \<open>
  The agent: \<open>agent_publish\<close> queues a command; while the task waits the agent may complete commands, with
  \<open>completions\<close> their statuses in order; the wait ends with the first, when the task is notified.
\<close>

record 'w ml_agent =
  agent_publish :: "MQTTPublishInfo \<Rightarrow> MQTTQoS \<Rightarrow> u32 \<Rightarrow> 'w \<Rightarrow> MQTTStatus \<times> 'w"
  completions :: "u32 \<Rightarrow> 'w \<Rightarrow> MQTTStatus list \<times> 'w"
  ml_task_handle :: nat

definition prvMqttSendMessage ::
  "'w ml_agent \<Rightarrow> string \<Rightarrow> string \<Rightarrow> ml_publish \<times> 'w \<Rightarrow> MQTTStatus \<times> ml_publish \<times> 'w" where
  "prvMqttSendMessage A topic message = (\<lambda>(p, w).
     (let publishInfo = \<lparr>pTopicName = topic, topicNameLength = of_nat (length topic),
                         pPayload = message, payloadLength = length message\<rparr>;
          p = p\<lparr>publishContext := (publishContext p)\<lparr>xTaskToNotify := Some (ml_task_handle A)\<rparr>, ml_notification := None\<rparr>;
          (mqttStatus, w) = agent_publish A publishInfo MQTTQoS1 appMQTT_TIMEOUT_MS w
      in if mqttStatus = MQTTSuccess
         then
           (let (codes, w) = completions A (pdMS_TO_TICKS appMQTT_TIMEOUT_MS) w;
                p = fold prvAppPublishCommandCallback codes p;
                result = ml_notification p \<noteq> None;
                p = p\<lparr>ml_notification := None\<rparr>
            in (if result then xReturnStatus (publishContext p) else MQTTSendFailed, p, w))
         else (mqttStatus, p, w)))"

text \<open>
  One round of the task that publishes: \<open>None\<close> when it stays blocked on the empty queue.
\<close>

definition vMlMqttTask_round ::
  "'w ml_agent \<Rightarrow> string \<Rightarrow> ml_processing_state list \<Rightarrow> ml_publish \<times> 'w \<Rightarrow>
   (MQTTStatus \<times> ml_processing_state list \<times> ml_publish \<times> 'w) option" where
  "vMlMqttTask_round A topic queue s =
     (case queue of
        [] \<Rightarrow> None
      | msg # queue \<Rightarrow>
          (let (st, s) = prvMqttSendMessage A topic (prvGetInferenceResultString msg) s in Some (st, queue, s)))"

section \<open>What is reported\<close>

text \<open>The changes in a sequence of results, from the state \<open>p\<close> on.\<close>

fun changes :: "'a \<Rightarrow> 'a list \<Rightarrow> 'a list" where
  "changes p [] = []"
| "changes p (x # xs) = (if x = p then changes p xs else x # changes x xs)"

lemma changes_snoc: "changes p (xs @ [x]) = changes p xs @ (if last (p # xs) = x then [] else [x])"
  by (induction xs arbitrary: p) auto

text \<open>What may happen, one after the other: an inference gives a result, or the publishing task takes a message.\<close>

datatype report_event = Inferred "string option" | Taken

fun report_step :: "nat \<Rightarrow> report_event \<Rightarrow> ('c, 'w) reports \<times> ml_processing_state list \<Rightarrow> ('c, 'w) reports \<times> ml_processing_state list" where
  "report_step n (Inferred res) (r, out) = (report_result n res r, out)"
| "report_step n Taken (r, out) =
     (case xMlMqttQueue r of
        Some (msg # q) \<Rightarrow> (r\<lparr>xMlMqttQueue := Some q\<rparr>, out @ [msg])
      | _ \<Rightarrow> (r, out))"

definition report_run :: "nat \<Rightarrow> report_event list \<Rightarrow> ('c, 'w) reports \<Rightarrow> ('c, 'w) reports \<times> ml_processing_state list" where
  "report_run n es r = fold (report_step n) es (r, [])"

fun results_of :: "report_event list \<Rightarrow> ml_processing_state list" where
  "results_of [] = []"
| "results_of (Inferred res # es) = inferred_state res # results_of es"
| "results_of (Taken # es) = results_of es"

lemma results_of_append [simp]: "results_of (xs @ ys) = results_of xs @ results_of ys"
  by (induction xs rule: results_of.induct) auto

text \<open>\<open>D\<close> messages have been lost.\<close>

definition reports_inv ::
  "nat \<Rightarrow> ('c \<Rightarrow> ml_processing_state \<Rightarrow> 'w \<Rightarrow> 'w) \<Rightarrow> ('c, 'w) reports \<Rightarrow> report_event list \<Rightarrow>
   ('c, 'w) reports \<Rightarrow> ml_processing_state list \<Rightarrow> bool" where
  "reports_inv n h r es r' out \<longleftrightarrow>
     (let ch = changes (ml_state r) (results_of es)
      in ml_state r' = last (ml_state r # results_of es) \<and>
         ml_processing_change_handler r' = Some h \<and> ml_processing_change_ptr r' = ml_processing_change_ptr r \<and>
         ml_world r' = fold (h (ml_processing_change_ptr r)) ch (ml_world r) \<and>
         (\<exists>q. xMlMqttQueue r' = Some q \<and> length q \<le> n \<and> subseq (out @ q) ch))"

lemma report_run_snoc: "report_run n (es @ [e]) r = report_step n e (report_run n es r)"
  by (simp add: report_run_def)

lemma report_run_inv:
  assumes "xMlMqttQueue r = Some []" and "ml_processing_change_handler r = Some h"
  shows "reports_inv n h r es (fst (report_run n es r)) (snd (report_run n es r))"
proof (induction es rule: rev_induct)
  case Nil
  show ?case using assms by (simp add: reports_inv_def report_run_def)
next
  case (snoc e es)
  obtain r' out where run: "report_run n es r = (r', out)" by fastforce
  have ih: "reports_inv n h r es r' out" using snoc run by simp
  then obtain q where q: "xMlMqttQueue r' = Some q" "length q \<le> n" "subseq (out @ q) (changes (ml_state r) (results_of es))"
    by (auto simp: reports_inv_def Let_def)
  show ?case
  proof (cases e)
    case (Inferred res)
    show ?thesis
    proof (cases "inferred_state res = ml_state r'")
      case True
      then show ?thesis using ih Inferred
        by (simp add: report_run_snoc run report_result_def prvSetMlProcessingState_def reports_inv_def Let_def changes_snoc)
    next
      case False
      let ?ch = "changes (ml_state r) (results_of es)" and ?x = "inferred_state res"
      have "subseq (out @ q @ [?x]) (?ch @ [?x])" "subseq (out @ q) (?ch @ [?x])"
        using list_emb_append_mono [OF q(3), of "[?x]" "[?x]"] list_emb_append_mono [OF q(3), of "[]" "[?x]"] by simp_all
      then show ?thesis using ih Inferred False q
        by (auto simp: report_run_snoc run report_result_def prvSetMlProcessingState_def reports_inv_def Let_def changes_snoc)
    qed
  next
    case Taken
    then show ?thesis using ih q by (cases q) (auto simp: report_run_snoc run reports_inv_def Let_def)
  qed
qed
text \<open>Nothing is lost as long as the publishing task is never more than the length of the queue behind.\<close>

lemma report_run_complete:
  assumes "xMlMqttQueue r = Some []" and "ml_processing_change_handler r = Some h"
    and "\<forall>k\<le>length es. length (changes (ml_state r) (results_of (take k es))) \<le> n + length (snd (report_run n (take k es) r))"
  shows "\<exists>q. xMlMqttQueue (fst (report_run n es r)) = Some q \<and>
    snd (report_run n es r) @ q = changes (ml_state r) (results_of es)"
  using assms(3)
proof (induction es rule: rev_induct)
  case Nil
  show ?case using assms by (simp add: report_run_def)
next
  case (snoc e es)
  obtain r' out where run: "report_run n es r = (r', out)" by fastforce
  have "\<forall>k\<le>length es. length (changes (ml_state r) (results_of (take k es))) \<le> n + length (snd (report_run n (take k es) r))"
    using snoc.prems by (metis append_eq_conv_conj le_SucI length_append_singleton take_append take_take min.absorb1)
  from snoc.IH [OF this] obtain q where q: "xMlMqttQueue r' = Some q" "out @ q = changes (ml_state r) (results_of es)"
    using run by auto
  have inv: "reports_inv n h r es r' out" using report_run_inv [OF assms(1,2), of n es] run by simp
  have bound: "length (changes (ml_state r) (results_of (es @ [e]))) \<le> n + length (snd (report_run n (es @ [e]) r))"
    using snoc.prems [rule_format, of "length (es @ [e])"] by simp
  show ?case
  proof (cases e)
    case (Inferred res)
    have len: "length (changes (ml_state r) (results_of es)) = length out + length q" by (simp add: q(2) [symmetric])
    have out: "snd (report_run n (es @ [e]) r) = out" by (simp add: report_run_snoc run Inferred)
    show ?thesis
    proof (cases "inferred_state res = ml_state r'")
      case True
      then show ?thesis using inv q Inferred
        by (simp add: report_run_snoc run report_result_def prvSetMlProcessingState_def reports_inv_def Let_def changes_snoc)
    next
      case False
      then have "length q < n" using bound inv Inferred len out by (simp add: changes_snoc reports_inv_def Let_def)
      then show ?thesis using inv q Inferred False
        by (auto simp: report_run_snoc run report_result_def prvSetMlProcessingState_def reports_inv_def Let_def changes_snoc)
    qed
  next
    case Taken
    then show ?thesis using q run by (cases q) (auto simp: report_run_snoc)
  qed
qed

text \<open>C26: However the inferences and the publishing task interleave: the handler is called exactly for the changes in
  the sequence of results, in order; the states that were taken for publishing and those still in the queue are a
  subsequence of them, and all of them as long as the publisher is never more than the length of the queue behind.\<close>

theorem reports_follow_changes:
  assumes "xMlMqttQueue r = Some []" and "ml_processing_change_handler r = Some h" and "report_run n es r = (r', out)"
  shows "ml_state r' = last (ml_state r # results_of es) \<and>
    ml_world r' = fold (h (ml_processing_change_ptr r)) (changes (ml_state r) (results_of es)) (ml_world r) \<and>
    (\<exists>q. xMlMqttQueue r' = Some q \<and> length q \<le> n \<and> subseq (out @ q) (changes (ml_state r) (results_of es)) \<and>
      ((\<forall>k\<le>length es. length (changes (ml_state r) (results_of (take k es))) \<le> n + length (snd (report_run n (take k es) r))) \<longrightarrow>
        out @ q = changes (ml_state r) (results_of es)))"
proof -
  have "reports_inv n h r es r' out" using report_run_inv [OF assms(1,2), of n es] assms(3) by simp
  moreover have "(\<forall>k\<le>length es. length (changes (ml_state r) (results_of (take k es))) \<le> n + length (snd (report_run n (take k es) r))) \<longrightarrow>
      (\<exists>q. xMlMqttQueue r' = Some q \<and> out @ q = changes (ml_state r) (results_of es))"
    using report_run_complete [OF assms(1,2)] assms(3) by (metis fst_conv snd_conv)
  ultimately show ?thesis by (auto simp: reports_inv_def Let_def)
qed

section \<open>The LEDs\<close>

text \<open>With the handler of the blink task the LEDs depend on the results alone, repeated or not.\<close>

lemma lit_idem: "lit (Keyword k) (lit (Keyword k) L) = lit (Keyword k) L"
  by (cases k) auto

lemma lit_changes: "fold lit (map Keyword (changes p xs)) (lit (Keyword p) L) = fold lit (map Keyword xs) (lit (Keyword p) L)"
proof (induction xs arbitrary: p L)
  case (Cons x xs)
  show ?case
  proof (cases "x = p")
    case True
    then show ?thesis using Cons.IH [of p L] by (simp add: lit_idem)
  next
    case False
    then show ?thesis using Cons.IH [of x "lit (Keyword p) L"] by simp
  qed
qed simp

lemma handler_run:
  assumes "io_ok D reg"
  shows "leds_ok reg s \<Longrightarrow> leds_ok reg (fold (prvMlChangeHandler D) ks s) \<and>
    lit_bits (leds_state (fold (prvMlChangeHandler D) ks s)) = fold lit (map Keyword ks) (lit_bits (leds_state s))"
proof (induction ks arbitrary: s)
  case (Cons k ks)
  have "ticks_interval 1000 \<noteq> 0" by (simp add: ticks_interval_def)
  from led_step_exact [OF assms Cons.prems this, of "Keyword k"]
  have "leds_ok reg (prvMlChangeHandler D k s)" "lit_bits (leds_state (prvMlChangeHandler D k s)) = lit (Keyword k) (lit_bits (leds_state s))"
    by auto
  then show ?case using Cons.IH by simp
qed simp

text \<open>Although only changes are reported, the LEDs show the results of all inferences: what is lit in the end is
  what the specification of the LEDs says for the whole sequence of results, whatever the publishing task does
  and whether or not messages for the broker are lost.\<close>

theorem leds_follow_inferences:
  assumes "io_ok D reg" and "leds_ok reg (ml_world r)" and "ml_state r = ML_SILENCE" and "xMlMqttQueue r = Some []"
  shows "{k. bit (reg (io_world (ml_world (fst (report_run n es (vRegisterMlProcessingChangeCb (Some (\<lambda>ctx. prvMlChangeHandler D)) c r)))))) k} =
    fold lit (map Keyword (results_of es)) {k. bit (reg (io_world (ml_world r))) k}"
proof -
  define r0 where "r0 = vRegisterMlProcessingChangeCb (Some (\<lambda>ctx. prvMlChangeHandler D)) c r"
  define r1 where "r1 = fst (report_run n es r0)"
  have r0: "xMlMqttQueue r0 = Some []" "ml_processing_change_handler r0 = Some (\<lambda>ctx. prvMlChangeHandler D)"
    "ml_state r0 = ML_SILENCE" "ml_world r0 = ml_world r"
    using assms by (simp_all add: r0_def vRegisterMlProcessingChangeCb_def)
  have "ml_world r1 = fold (prvMlChangeHandler D) (changes ML_SILENCE (results_of es)) (ml_world r)"
    using report_run_inv [OF r0(1,2), of n es] r0 by (simp add: reports_inv_def Let_def r1_def)
  with handler_run [OF assms(1,2)] lit_changes [of ML_SILENCE "results_of es" "lit_bits (leds_state (ml_world r))"]
  have "leds_ok reg (ml_world r1)"
    "lit_bits (leds_state (ml_world r1)) = fold lit (map Keyword (results_of es)) (lit_bits (leds_state (ml_world r)))"
    by simp_all
  then show ?thesis using assms(2) by (simp add: r1_def r0_def leds_ok_def lit_bits_def)
qed
section \<open>Reports for the witnesses\<close>

definition sample_reports :: "(unit, ml_processing_state list) reports" where
  "sample_reports = \<lparr>ml_state = ML_SILENCE, xMlMqttQueue = Some [], ml_processing_change_handler = Some (\<lambda>ctx k w. w @ [k]),
     ml_processing_change_ptr = (), ml_world = []\<rparr>"

definition sample_reports_run :: "report_event list" where
  "sample_reports_run = [Inferred (Some ''yes''), Inferred (Some ''yes''), Inferred None, Taken, Inferred (Some ''no'')]"

theorem reports_follow_changes_witness:
  "ml_world (fst (report_run 1 sample_reports_run sample_reports)) = [ML_HEARD_YES, ML_UNKNOWN, ML_HEARD_NO] \<and>
   snd (report_run 1 sample_reports_run sample_reports) = [ML_HEARD_YES]"
proof
  obtain r' out where run: "report_run 1 sample_reports_run sample_reports = (r', out)" by fastforce
  have "xMlMqttQueue sample_reports = Some []" "ml_processing_change_handler sample_reports = Some (\<lambda>ctx k w. w @ [k])"
    by (simp_all add: sample_reports_def)
  from reports_follow_changes [OF this run]
  have "ml_world r' = fold (\<lambda>k w. w @ [k]) (changes ML_SILENCE (results_of sample_reports_run)) []"
    by (simp add: sample_reports_def)
  also have "changes ML_SILENCE (results_of sample_reports_run) = [ML_HEARD_YES, ML_UNKNOWN, ML_HEARD_NO]" by code_simp
  finally show "ml_world (fst (report_run 1 sample_reports_run sample_reports)) = [ML_HEARD_YES, ML_UNKNOWN, ML_HEARD_NO]"
    unfolding run by simp
  show "snd (report_run 1 sample_reports_run sample_reports) = [ML_HEARD_YES]" by code_simp
qed

definition sample_led_reports :: "(unit, u32 led_state) reports" where
  "sample_led_reports = \<lparr>ml_state = ML_SILENCE, xMlMqttQueue = Some [], ml_processing_change_handler = None,
     ml_processing_change_ptr = (), ml_world = \<lparr>leds_state = 0, io_world = 0\<rparr>\<rparr>"

theorem leds_follow_inferences_witness:
  "{k. bit (io_world (ml_world (fst (report_run 1 [Inferred (Some ''yes''), Inferred (Some ''on''), Inferred (Some ''no'')]
      (vRegisterMlProcessingChangeCb (Some (\<lambda>ctx. prvMlChangeHandler sample_io)) () sample_led_reports))))) k} = {4}"
proof -
  have "leds_ok (\<lambda>w. w) (ml_world sample_led_reports)" "ml_state sample_led_reports = ML_SILENCE"
    "xMlMqttQueue sample_led_reports = Some []" "{k. bit (io_world (ml_world sample_led_reports)) k} = {}"
    by (simp_all add: sample_led_reports_def leds_ok_def)
  moreover have "results_of [Inferred (Some ''yes''), Inferred (Some ''on''), Inferred (Some ''no'')] = [ML_HEARD_YES, ML_HEARD_ON, ML_HEARD_NO]"
    by code_simp
  moreover have "fold lit (map Keyword [ML_HEARD_YES, ML_HEARD_ON, ML_HEARD_NO]) {} = {4}" by (simp add: insert_Diff_if)
  ultimately show ?thesis
    using leds_follow_inferences [OF sample_io_ok, of sample_led_reports 1 "[Inferred (Some ''yes''), Inferred (Some ''on''), Inferred (Some ''no'')]" "()"]
    by metis
qed

end
