(* ===== verification/Keyword_Task.thy ===== *)
theory Keyword_Task
  imports Keyword_Reports
begin

text \<open>
  The audio task of the keyword detection, \<^verbatim>\<open>vMlTask\<close> and \<^verbatim>\<open>prvProcessAudio\<close> with the input from the
  virtual streaming interface: the loop of inferences and its start and stop through the system events.
\<close>

section \<open>The commands\<close>

text \<open>The other tasks start and stop the inferences with two calls of the event group each; nothing happens without the group.\<close>

definition vMlTaskInferenceStart :: "'e event_ops \<Rightarrow> 'e option \<Rightarrow> 'e option" where
  "vMlTaskInferenceStart G h =
     (case h of
        None \<Rightarrow> None
      | Some e \<Rightarrow> Some (xEventGroupSetBits G (xEventGroupClearBits G e EVENT_MASK_ML_STOP) EVENT_MASK_ML_START))"

definition vMlTaskInferenceStop :: "'e event_ops \<Rightarrow> 'e option \<Rightarrow> 'e option" where
  "vMlTaskInferenceStop G h =
     (case h of
        None \<Rightarrow> None
      | Some e \<Rightarrow> Some (xEventGroupSetBits G (xEventGroupClearBits G e EVENT_MASK_ML_START) EVENT_MASK_ML_STOP))"

section \<open>The task\<close>

text \<open>\<open>xEventGroupWaitBits\<close> that clears the bits it waited for: whether it lets the task pass.\<close>

definition take_event :: "'e event_ops \<Rightarrow> u32 \<Rightarrow> 'e \<Rightarrow> bool \<times> 'e" where
  "take_event G bits e = (if wait_passes G bits e then (True, xEventGroupClearBits G e bits) else (False, e))"

datatype ml_phase = Starting | Processing | Waiting | Ended

record ('a, 's, 'f, 'e, 'c, 'w) ml_task =
  phase :: ml_phase
  events :: 'e
  first_iteration :: bool
  mfccAudioData :: "'a list"
  circularSlider :: 's
  mfccFeatures :: "'f features"
  ml_reports :: "('c, 'w) reports"

text \<open>
  The model: the features of a window, the next window, the rows and columns of the input tensor, the
  result of an inference on that tensor (\<open>None\<close> when it fails, else the label of the best result
  above the threshold), whether it could be initialised, and the length of a frame and of its stride.
\<close>

record ('a, 's, 'f) ml_model =
  mfcc_compute :: "'a list \<Rightarrow> 'f list"
  next_frame :: "'s \<Rightarrow> ('a list \<times> 's) option"
  RunInference :: "'f list \<Rightarrow> string option option"
  prvMlInterfaceInit_ok :: bool
  kNumRows :: nat
  kNumCols :: nat
  frameLength :: nat
  frameStride :: nat

definition reused :: "('a, 's, 'f) ml_model \<Rightarrow> nat" where
  "reused M = nMfccVectorsInAudioStride (kNumRows M) (frameLength M) (frameStride M)"

text \<open>One round; a blocked task stays as it is. \<open>n\<close> is the length of the queue.\<close>

definition inference_round ::
  "nat \<Rightarrow> ('a, 's, 'f) ml_model \<Rightarrow> ('a, 's, 'f, 'e, 'c, 'w) ml_task \<Rightarrow> ('a, 's, 'f, 'e, 'c, 'w) ml_task option" where
  "inference_round n M T =
     (case compute_features (mfcc_compute M) (next_frame M) (stride_rounds (kNumRows M) (frameLength M) (frameStride M))
             (reused M) (first_iteration T) (mfccAudioData T, circularSlider T, mfccFeatures T) of
        None \<Rightarrow> None
      | Some (data, s, F) \<Rightarrow>
          (let T = T\<lparr>mfccAudioData := data, circularSlider := s, mfccFeatures := F\<rparr>
           in case RunInference M (take (kNumRows M * kNumCols M) (tensorData F)) of
                None \<Rightarrow> Some (T\<lparr>phase := Ended\<rparr>)
              | Some res \<Rightarrow> Some (T\<lparr>ml_reports := report_result n res (ml_reports T), first_iteration := False\<rparr>)))"

definition ml_round ::
  "nat \<Rightarrow> 'e event_ops \<Rightarrow> ('a, 's, 'f) ml_model \<Rightarrow> ('a, 's, 'f, 'e, 'c, 'w) ml_task \<Rightarrow> ('a, 's, 'f, 'e, 'c, 'w) ml_task option" where
  "ml_round n G M T =
     (case phase T of
        Starting \<Rightarrow>
          (let (start, e) = take_event G EVENT_MASK_ML_START (events T)
           in Some (if start then T\<lparr>events := e, phase := if prvMlInterfaceInit_ok M then Processing else Ended\<rparr> else T))
      | Processing \<Rightarrow>
          (let (stop, e) = take_event G EVENT_MASK_ML_STOP (events T)
           in if stop then Some (T\<lparr>events := e, phase := Waiting\<rparr>) else inference_round n M T)
      | Waiting \<Rightarrow>
          (let (start, e) = take_event G EVENT_MASK_ML_START (events T)
           in Some (if start then T\<lparr>events := e, phase := Processing\<rparr> else T))
      | Ended \<Rightarrow> Some T)"

fun ml_rounds ::
  "nat \<Rightarrow> 'e event_ops \<Rightarrow> ('a, 's, 'f) ml_model \<Rightarrow> nat \<Rightarrow> ('a, 's, 'f, 'e, 'c, 'w) ml_task \<Rightarrow> ('a, 's, 'f, 'e, 'c, 'w) ml_task option" where
  "ml_rounds n G M 0 T = Some T"
| "ml_rounds n G M (Suc k) T = (case ml_round n G M T of None \<Rightarrow> None | Some T \<Rightarrow> ml_rounds n G M k T)"

text \<open>
  A command of another task, with \<open>i\<close> rounds of the audio task between its two calls and \<open>j\<close> rounds
  before the next command.
\<close>

datatype ml_command = Start | Stop

definition first_call :: "'e event_ops \<Rightarrow> ml_command \<Rightarrow> 'e \<Rightarrow> 'e" where
  "first_call G c e = xEventGroupClearBits G e (case c of Start \<Rightarrow> EVENT_MASK_ML_STOP | Stop \<Rightarrow> EVENT_MASK_ML_START)"

definition second_call :: "'e event_ops \<Rightarrow> ml_command \<Rightarrow> 'e \<Rightarrow> 'e" where
  "second_call G c e = xEventGroupSetBits G e (case c of Start \<Rightarrow> EVENT_MASK_ML_START | Stop \<Rightarrow> EVENT_MASK_ML_STOP)"

lemma command_calls:
  "vMlTaskInferenceStart G (Some e) = Some (second_call G Start (first_call G Start e))"
  "vMlTaskInferenceStop G (Some e) = Some (second_call G Stop (first_call G Stop e))"
  by (simp_all add: vMlTaskInferenceStart_def vMlTaskInferenceStop_def first_call_def second_call_def)

fun ml_run ::
  "nat \<Rightarrow> 'e event_ops \<Rightarrow> ('a, 's, 'f) ml_model \<Rightarrow> (ml_command \<times> nat \<times> nat) list \<Rightarrow> ('a, 's, 'f, 'e, 'c, 'w) ml_task \<Rightarrow>
   ('a, 's, 'f, 'e, 'c, 'w) ml_task option" where
  "ml_run n G M [] T = Some T"
| "ml_run n G M ((c, i, j) # cs) T =
     (case ml_rounds n G M i (T\<lparr>events := first_call G c (events T)\<rparr>) of
        None \<Rightarrow> None
      | Some T \<Rightarrow>
          (case ml_rounds n G M j (T\<lparr>events := second_call G c (events T)\<rparr>) of
             None \<Rightarrow> None
           | Some T \<Rightarrow> ml_run n G M cs T))"

section \<open>Every round succeeds\<close>

text \<open>What holds after \<open>k\<close> inferences: the cache, and the state reported.\<close>

definition inference_result :: "('a, 's, 'f) ml_model \<Rightarrow> (nat \<Rightarrow> 'a list) \<Rightarrow> nat \<Rightarrow> string option option" where
  "inference_result M frames k =
     RunInference M (concat (map (\<lambda>i. mfcc_compute M (frames (k * reused M + i))) [0..<kNumRows M]))"

definition model_ok :: "('a, 's, 'f) ml_model \<Rightarrow> ('s \<Rightarrow> nat) \<Rightarrow> (nat \<Rightarrow> 'a list) \<Rightarrow> bool" where
  "model_ok M cursor frames \<longleftrightarrow>
     prvMlInterfaceInit_ok M \<and> reads_windows (next_frame M) cursor frames \<and>
     (\<forall>x. length (mfcc_compute M x) = kNumCols M) \<and> (\<forall>k. inference_result M frames k \<noteq> None) \<and>
     odd (kNumRows M) \<and> 0 < frameStride M \<and> frameLength M = 2 * frameStride M"

definition task_inv ::
  "nat \<Rightarrow> ('a, 's, 'f) ml_model \<Rightarrow> ('s \<Rightarrow> nat) \<Rightarrow> (nat \<Rightarrow> 'a list) \<Rightarrow> ('c, 'w) reports \<Rightarrow> nat \<Rightarrow>
   ('a, 's, 'f, 'e, 'c, 'w) ml_task \<Rightarrow> bool" where
  "task_inv n M cursor frames r k T \<longleftrightarrow>
     phase T \<noteq> Ended \<and> first_iteration T = (k = 0) \<and>
     cache_inv (mfcc_compute M) cursor frames (kNumCols M) (reused M) k (circularSlider T) (mfccFeatures T) \<and>
     ml_reports T = fold (\<lambda>k. report_result n (the (inference_result M frames k))) [0..<k] r"

lemma inference_round_inv:
  assumes M: "model_ok M cursor frames" and T: "task_inv n M cursor frames r k T"
  shows "\<exists>T'. inference_round n M T = Some T' \<and> task_inv n M cursor frames r (Suc k) T' \<and>
    phase T' = phase T \<and> events T' = events T"
proof -
  let ?R = "reused M" and ?rows = "kNumRows M" and ?cols = "kNumCols M"
  have sizes: "stride_rounds ?rows (frameLength M) (frameStride M) = 2 * ?R" "?rows + 1 = 2 * ?R"
    using round_sizes [of ?rows "frameStride M"] M by (simp_all add: model_ok_def reused_def)
  have R: "0 < ?R" using sizes(2) by simp
  have nxt: "reads_windows (next_frame M) cursor frames" and size: "\<And>x. length (mfcc_compute M x) = ?cols"
    using M by (simp_all add: model_ok_def)
  have cache: "cache_inv (mfcc_compute M) cursor frames ?cols ?R k (circularSlider T) (mfccFeatures T)"
    using T by (simp add: task_inv_def)
  from next_inference [where compute = "mfcc_compute M" and data = "mfccAudioData T", OF nxt size R cache]
  obtain data s F where 1: "compute_features (mfcc_compute M) (next_frame M) (2 * ?R) ?R (k = 0)
      (mfccAudioData T, circularSlider T, mfccFeatures T) = Some (data, s, F)"
    and 2: "cache_inv (mfcc_compute M) cursor frames ?cols ?R (Suc k) s F" by blast
  have "?rows * ?cols \<le> 2 * ?R * ?cols" using sizes(2) by (intro mult_right_mono) linarith+
  also have "\<dots> \<le> length (tensorData F)" using 2 by (simp add: cache_inv_def stride_inv_def)
  finally have "?rows * ?cols \<le> length (tensorData F)" .
  moreover have "\<forall>i<?rows. row ?cols (tensorData F) i = mfcc_compute M (frames (k * ?R + i))"
    using cache_inv_rows [OF 2] sizes(2) by simp
  ultimately have tensor: "take (?rows * ?cols) (tensorData F) = concat (map (\<lambda>i. mfcc_compute M (frames (k * ?R + i))) [0..<?rows])"
    by (intro rows_tensor) auto
  obtain res where res: "inference_result M frames k = Some res" using M by (auto simp: model_ok_def)
  have "first_iteration T = (k = 0)" using T by (simp add: task_inv_def)
  then show ?thesis using 1 2 T res
    by (simp add: inference_round_def sizes(1) tensor inference_result_def task_inv_def)
qed

lemma ml_round_inv:
  assumes "model_ok M cursor frames" and "task_inv n M cursor frames r k T"
  shows "\<exists>T' k'. ml_round n G M T = Some T' \<and> task_inv n M cursor frames r k' T' \<and>
    k' = (if phase T = Processing \<and> \<not> wait_passes G EVENT_MASK_ML_STOP (events T) then Suc k else k) \<and>
    (phase T', events T') =
      (case phase T of
         Processing \<Rightarrow> (let (stop, e) = take_event G EVENT_MASK_ML_STOP (events T) in (if stop then Waiting else Processing, e))
       | ph \<Rightarrow> (let (start, e) = take_event G EVENT_MASK_ML_START (events T) in (if start then Processing else ph, e)))"
proof (cases "phase T = Processing \<and> \<not> wait_passes G EVENT_MASK_ML_STOP (events T)")
  case True
  obtain T' where "inference_round n M T = Some T'" "task_inv n M cursor frames r (Suc k) T'"
    "phase T' = phase T" "events T' = events T"
    using inference_round_inv [OF assms] by blast
  with True show ?thesis by (intro exI [of _ T'] exI [of _ "Suc k"]) (simp add: ml_round_def take_event_def)
next
  case False
  then show ?thesis using assms
    by (intro exI [of _ "the (ml_round n G M T)"] exI [of _ k])
       (auto simp: ml_round_def take_event_def model_ok_def task_inv_def split: ml_phase.splits)
qed

section \<open>Commands\<close>

lemma event_bits:
  assumes "event_laws G"
  shows "\<not> wait_passes G m (xEventGroupClearBits G e m)"
    "wait_passes G EVENT_MASK_ML_STOP (xEventGroupClearBits G e EVENT_MASK_ML_START) = wait_passes G EVENT_MASK_ML_STOP e"
    "wait_passes G EVENT_MASK_ML_START (xEventGroupClearBits G e EVENT_MASK_ML_STOP) = wait_passes G EVENT_MASK_ML_START e"
    "wait_passes G EVENT_MASK_ML_START (xEventGroupSetBits G e EVENT_MASK_ML_START)"
    "wait_passes G EVENT_MASK_ML_STOP (xEventGroupSetBits G e EVENT_MASK_ML_STOP)"
    "wait_passes G EVENT_MASK_ML_STOP (xEventGroupSetBits G e EVENT_MASK_ML_START) = wait_passes G EVENT_MASK_ML_STOP e"
    "wait_passes G EVENT_MASK_ML_START (xEventGroupSetBits G e EVENT_MASK_ML_STOP) = wait_passes G EVENT_MASK_ML_START e"
proof -
  have "(x AND NOT EVENT_MASK_ML_START) AND EVENT_MASK_ML_STOP = x AND EVENT_MASK_ML_STOP"
    "(x AND NOT EVENT_MASK_ML_STOP) AND EVENT_MASK_ML_START = x AND EVENT_MASK_ML_START"
    "(x OR EVENT_MASK_ML_START) AND EVENT_MASK_ML_STOP = x AND EVENT_MASK_ML_STOP"
    "(x OR EVENT_MASK_ML_STOP) AND EVENT_MASK_ML_START = x AND EVENT_MASK_ML_START" for x
    by (simp_all add: event_masks and.assoc bit.conj_disj_distrib2)
  then show "\<not> wait_passes G m (xEventGroupClearBits G e m)"
    "wait_passes G EVENT_MASK_ML_STOP (xEventGroupClearBits G e EVENT_MASK_ML_START) = wait_passes G EVENT_MASK_ML_STOP e"
    "wait_passes G EVENT_MASK_ML_START (xEventGroupClearBits G e EVENT_MASK_ML_STOP) = wait_passes G EVENT_MASK_ML_START e"
    "wait_passes G EVENT_MASK_ML_START (xEventGroupSetBits G e EVENT_MASK_ML_START)"
    "wait_passes G EVENT_MASK_ML_STOP (xEventGroupSetBits G e EVENT_MASK_ML_STOP)"
    "wait_passes G EVENT_MASK_ML_STOP (xEventGroupSetBits G e EVENT_MASK_ML_START) = wait_passes G EVENT_MASK_ML_STOP e"
    "wait_passes G EVENT_MASK_ML_START (xEventGroupSetBits G e EVENT_MASK_ML_STOP) = wait_passes G EVENT_MASK_ML_START e"
    using assms by (simp_all add: wait_passes_def and_not_cancel and_or_absorb) (simp_all add: event_masks)
qed

text \<open>When the stop event is pending after a call.\<close>

lemma stop_bit:
  assumes "event_laws G"
  shows "wait_passes G EVENT_MASK_ML_STOP (first_call G c e) \<longrightarrow> wait_passes G EVENT_MASK_ML_STOP e"
    and "wait_passes G EVENT_MASK_ML_STOP (second_call G c e) \<longrightarrow> wait_passes G EVENT_MASK_ML_STOP e \<or> c = Stop"
    and "wait_passes G EVENT_MASK_ML_STOP (xEventGroupClearBits G e EVENT_MASK_ML_START) = wait_passes G EVENT_MASK_ML_STOP e"
    and "\<not> wait_passes G EVENT_MASK_ML_STOP (xEventGroupClearBits G e EVENT_MASK_ML_STOP)"
  using event_bits [OF assms] by (cases c; simp add: first_call_def second_call_def)+

text \<open>After a command: its effect has come or is under way, and nothing is under way against it.\<close>

fun settled :: "'e event_ops \<Rightarrow> ml_command \<Rightarrow> ml_phase \<Rightarrow> 'e \<Rightarrow> bool" where
  "settled G Start ph e \<longleftrightarrow> \<not> wait_passes G EVENT_MASK_ML_STOP e \<and> (ph = Processing \<or> wait_passes G EVENT_MASK_ML_START e)"
| "settled G Stop ph e \<longleftrightarrow> \<not> wait_passes G EVENT_MASK_ML_START e \<and> (ph \<noteq> Processing \<or> wait_passes G EVENT_MASK_ML_STOP e)"

fun prepared :: "'e event_ops \<Rightarrow> ml_command \<Rightarrow> 'e \<Rightarrow> bool" where
  "prepared G Start e \<longleftrightarrow> \<not> wait_passes G EVENT_MASK_ML_STOP e"
| "prepared G Stop e \<longleftrightarrow> \<not> wait_passes G EVENT_MASK_ML_START e"

lemma command_prepares:
  "event_laws G \<Longrightarrow> prepared G c (first_call G c e)"
  "event_laws G \<Longrightarrow> prepared G c e \<Longrightarrow> settled G c ph (second_call G c e)"
  by (cases c; simp add: first_call_def second_call_def event_bits)+

lemma settled_round:
  assumes G: "event_laws G" and "settled G c ph e"
    and "(ph', e') =
      (case ph of
         Processing \<Rightarrow> (let (stop, e) = take_event G EVENT_MASK_ML_STOP e in (if stop then Waiting else Processing, e))
       | ph \<Rightarrow> (let (start, e) = take_event G EVENT_MASK_ML_START e in (if start then Processing else ph, e)))"
    and "ph \<noteq> Ended"
  shows "settled G c ph' e'" "(ph' = Processing) = (c = Start)"
  using assms(2-) event_bits [OF G]
  by (cases c; cases ph; simp add: take_event_def split: if_splits)+

lemma prepared_round:
  assumes G: "event_laws G" and "prepared G c e"
    and "(ph', e') =
      (case ph of
         Processing \<Rightarrow> (let (stop, e) = take_event G EVENT_MASK_ML_STOP e in (if stop then Waiting else Processing, e))
       | ph \<Rightarrow> (let (start, e) = take_event G EVENT_MASK_ML_START e in (if start then Processing else ph, e)))"
  shows "prepared G c e'"
  using assms(2-) event_bits [OF G]
  by (cases c; cases ph; simp add: take_event_def split: if_splits)

lemma ml_rounds_inv:
  assumes "model_ok M cursor frames" and "event_laws G"
  shows "task_inv n M cursor frames r k T \<Longrightarrow> \<exists>T' k'. ml_rounds n G M i T = Some T' \<and> k \<le> k' \<and> task_inv n M cursor frames r k' T' \<and>
    (prepared G c (events T) \<longrightarrow> prepared G c (events T')) \<and>
    (settled G c (phase T) (events T) \<longrightarrow>
       settled G c (phase T') (events T') \<and> (0 < i \<longrightarrow> (phase T' = Processing) = (c = Start))) \<and>
    (settled G Start (phase T) (events T) \<longrightarrow> k + i \<le> k' + of_bool (phase T \<noteq> Processing))"
proof (induction i arbitrary: k T)
  case 0
  then show ?case by auto
next
  case (Suc i)
  obtain T1 k1 where 1: "ml_round n G M T = Some T1" "task_inv n M cursor frames r k1 T1"
    and k1: "k1 = (if phase T = Processing \<and> \<not> wait_passes G EVENT_MASK_ML_STOP (events T) then Suc k else k)"
    and ph: "(phase T1, events T1) =
      (case phase T of
         Processing \<Rightarrow> (let (stop, e) = take_event G EVENT_MASK_ML_STOP (events T) in (if stop then Waiting else Processing, e))
       | ph \<Rightarrow> (let (start, e) = take_event G EVENT_MASK_ML_START (events T) in (if start then Processing else ph, e)))"
    using ml_round_inv [OF assms(1) Suc.prems, of G] by blast
  have alive: "phase T \<noteq> Ended" using Suc.prems by (simp add: task_inv_def)
  note s = settled_round [OF assms(2) _ ph alive, of c]
  note p = prepared_round [OF assms(2) _ ph, of c]
  obtain T2 k2 where 2: "ml_rounds n G M i T1 = Some T2" "k1 \<le> k2" "task_inv n M cursor frames r k2 T2"
    "prepared G c (events T1) \<longrightarrow> prepared G c (events T2)"
    "settled G c (phase T1) (events T1) \<longrightarrow>
       settled G c (phase T2) (events T2) \<and> (0 < i \<longrightarrow> (phase T2 = Processing) = (c = Start))"
    "settled G Start (phase T1) (events T1) \<longrightarrow> k1 + i \<le> k2 + of_bool (phase T1 \<noteq> Processing)"
    using Suc.IH [OF 1(2)] by blast
  have "ml_rounds n G M (Suc i) T = Some T2" using 1(1) 2(1) by simp
  moreover have "k \<le> k2" using k1 2(2) by (simp split: if_splits)
  moreover have "k + Suc i \<le> k2 + of_bool (phase T \<noteq> Processing)" if "settled G Start (phase T) (events T)"
    using 2(6) k1 that settled_round(1) [OF assms(2) that ph alive] settled_round(2) [OF assms(2) that ph alive] by (simp split: if_splits)
  moreover have "i = 0 \<Longrightarrow> T2 = T1" using 2(1) by simp
  ultimately show ?case using 2(3,4,5) s p
    by (intro exI [of _ T2] exI [of _ k2] conjI impI) auto
qed

lemma ml_command_inv:
  assumes M: "model_ok M cursor frames" and G: "event_laws G" and T: "task_inv n M cursor frames r k T"
  shows "\<exists>T' k'. ml_run n G M ((c, i, j) # cs) T = ml_run n G M cs T' \<and> k \<le> k' \<and> task_inv n M cursor frames r k' T' \<and>
    (0 < j \<longrightarrow> (phase T' = Processing) = (c = Start)) \<and> (c = Start \<longrightarrow> j \<le> k' + 1)"
proof -
  let ?T = "T\<lparr>events := first_call G c (events T)\<rparr>"
  have "task_inv n M cursor frames r k ?T" using T by (simp add: task_inv_def)
  from ml_rounds_inv [OF M G this, of i c] obtain T1 k1
    where 1: "ml_rounds n G M i ?T = Some T1" "k \<le> k1" "task_inv n M cursor frames r k1 T1"
      "prepared G c (events ?T) \<longrightarrow> prepared G c (events T1)"
    by blast
  let ?T1 = "T1\<lparr>events := second_call G c (events T1)\<rparr>"
  have "prepared G c (events T1)" using 1(4) command_prepares(1) [OF G] by simp
  then have s: "settled G c (phase ?T1) (events ?T1)" using command_prepares(2) [OF G] by simp
  have "task_inv n M cursor frames r k1 ?T1" using 1(3) by (simp add: task_inv_def)
  from ml_rounds_inv [OF M G this, of j c] obtain T2 k2
    where 2: "ml_rounds n G M j ?T1 = Some T2" "k1 \<le> k2" "task_inv n M cursor frames r k2 T2"
      "settled G c (phase ?T1) (events ?T1) \<longrightarrow> settled G c (phase T2) (events T2) \<and> (0 < j \<longrightarrow> (phase T2 = Processing) = (c = Start))"
      "settled G Start (phase ?T1) (events ?T1) \<longrightarrow> k1 + j \<le> k2 + of_bool (phase ?T1 \<noteq> Processing)"
    by blast
  have j: "j \<le> k2 + 1" if "c = Start" using 2(5) s that by (cases "phase ?T1 = Processing") simp_all
  have "ml_run n G M ((c, i, j) # cs) T = ml_run n G M cs T2" using 1(1) 2(1) by simp
  moreover have "k \<le> k2" using 1(2) 2(2) by simp
  ultimately show ?thesis using 2(3,4) s j by (intro exI [of _ T2] exI [of _ k2]) simp
qed

lemma ml_run_inv:
  assumes M: "model_ok M cursor frames" and G: "event_laws G"
  shows "task_inv n M cursor frames r k T \<Longrightarrow> cs \<noteq> [] \<Longrightarrow> \<exists>T' k'. ml_run n G M cs T = Some T' \<and> k \<le> k' \<and>
    task_inv n M cursor frames r k' T' \<and> (0 < snd (snd (last cs)) \<longrightarrow> (phase T' = Processing) = (fst (last cs) = Start)) \<and>
    (fst (last cs) = Start \<longrightarrow> snd (snd (last cs)) \<le> k' + 1)"
proof (induction cs arbitrary: k T)
  case (Cons x cs)
  obtain c i j where x: "x = (c, i, j)" by (cases x)
  obtain T1 k1 where 1: "ml_run n G M (x # cs) T = ml_run n G M cs T1" "k \<le> k1" "task_inv n M cursor frames r k1 T1"
    "0 < j \<longrightarrow> (phase T1 = Processing) = (c = Start)" "c = Start \<longrightarrow> j \<le> k1 + 1"
    unfolding x using ml_command_inv [OF M G Cons.prems(1), of c i j cs] by blast
  show ?case
  proof (cases "cs = []")
    case True
    then show ?thesis using 1 x by auto
  next
    case False
    then have l: "last (x # cs) = last cs" by simp
    obtain T2 k2 where "ml_run n G M cs T1 = Some T2" "k1 \<le> k2" "task_inv n M cursor frames r k2 T2"
      "0 < snd (snd (last cs)) \<longrightarrow> (phase T2 = Processing) = (fst (last cs) = Start)"
      "fst (last cs) = Start \<longrightarrow> snd (snd (last cs)) \<le> k2 + 1"
      using Cons.IH [OF 1(3) False] by (elim exE conjE that)
    then show ?thesis unfolding l using 1(1,2) by (intro exI [of _ T2] exI [of _ k2]) simp
  qed
qed simp

text \<open>Before the first round: the features are not yet there and no window was read.\<close>

definition ml_task_start :: "('a, 's, 'f) ml_model \<Rightarrow> ('s \<Rightarrow> nat) \<Rightarrow> ('a, 's, 'f, 'e, 'c, 'w) ml_task \<Rightarrow> bool" where
  "ml_task_start M cursor T \<longleftrightarrow>
     phase T = Starting \<and> first_iteration T \<and> length (featureCache (mfccFeatures T)) = reused M \<and>
     (kNumRows M + 1) * kNumCols M \<le> length (tensorData (mfccFeatures T)) \<and> cursor (circularSlider T) = 0"

text \<open>C25: Whatever commands the other tasks give, and however the rounds of the audio task fall between the two calls of
  a command and between the commands: one round after the last command the task is processing audio if and only if
  that command was the start; and over all starts and stops the states reported are those of consecutive inferences,
  each on exactly the features of its windows, half of them shared with the inference before, at least one
  inference in each round after the last start but the first.\<close>

theorem keyword_task_exact:
  assumes "model_ok M cursor frames" and "event_laws G" and "ml_task_start M cursor T" and "cs \<noteq> []" and "0 < snd (snd (last cs))"
  shows "\<exists>T' k. ml_run n G M cs T = Some T' \<and> (phase T' = Processing \<longleftrightarrow> fst (last cs) = Start) \<and>
    ml_reports T' = fold (\<lambda>k. report_result n (the (inference_result M frames k))) [0..<k] (ml_reports T) \<and>
    (fst (last cs) = Start \<longrightarrow> snd (snd (last cs)) \<le> k + 1)"
proof -
  have "kNumRows M + 1 = 2 * reused M"
    using round_sizes(2) [of "kNumRows M" "frameStride M"] assms(1) by (simp add: model_ok_def reused_def)
  then have "task_inv n M cursor frames (ml_reports T) 0 T"
    using assms(3) unfolding ml_task_start_def task_inv_def cache_inv_def by simp
  from ml_run_inv [OF assms(1,2) this assms(4)] assms(5) show ?thesis unfolding task_inv_def by blast
qed
section \<open>A task for the witness\<close>

definition sample_kws :: "(nat, nat, nat) ml_model" where
  "sample_kws = \<lparr>mfcc_compute = head_feature, next_frame = count_windows,
     RunInference = (\<lambda>xs. Some (if sum_list xs < 10 then Some ''yes'' else None)), prvMlInterfaceInit_ok = True,
     kNumRows = 3, kNumCols = 1, frameLength = 10, frameStride = 5\<rparr>"

definition sample_ml_task :: "(nat, nat, nat, u32, unit, ml_processing_state list) ml_task" where
  "sample_ml_task = \<lparr>phase = Starting, events = 0, first_iteration = True, mfccAudioData = [], circularSlider = 0,
     mfccFeatures = \<lparr>featureCache = [[], []], tensorData = replicate 4 0\<rparr>, ml_reports = sample_reports\<rparr>"

theorem keyword_task_exact_witness:
  "\<exists>T' k. ml_run 20 word_events sample_kws [(Start, 0, 3), (Stop, 1, 2), (Start, 1, 4)] sample_ml_task = Some T' \<and>
     phase T' = Processing \<and> 3 \<le> k \<and>
     ml_reports T' = fold (\<lambda>k. report_result 20 (the (inference_result sample_kws (\<lambda>i. [i]) k))) [0..<k] sample_reports"
proof -
  have "reused sample_kws = 2" by code_simp
  then have "model_ok sample_kws (\<lambda>s. s) (\<lambda>i. [i])" "ml_task_start sample_kws (\<lambda>s. s) sample_ml_task"
    using count_windows_reads
    by (simp_all add: model_ok_def sample_kws_def ml_task_start_def sample_ml_task_def inference_result_def head_feature_def)
  from keyword_task_exact [OF this(1) word_events_laws this(2), of "[(Start, 0, 3), (Stop, 1, 2), (Start, 1, 4)]" 20]
  show ?thesis by (fastforce simp: sample_ml_task_def)
qed

end
