(* ===== verification/Boot.thy ===== *)
theory Boot
  imports Provisioning_Properties Keyword_Task
begin

text \<open>
  The start of the three applications, \<^verbatim>\<open>main.c\<close> of keyword detection, speech recognition and object
  detection: the order of the initialisations, the provisioning at the first start, the tasks that
  are created, and the hooks through which the OTA agent stops and starts the inferences; with both
  \<^verbatim>\<open>network_startup.c\<close>. The secure firmware, the kernel and the TCP stack are parameters.
\<close>

section \<open>State\<close>

datatype task =
    LoggingTask | SntpClientTask | MqttAgentTask | OtaTask | DeviceAdvisorTask | MlMqttTask | BlinkTask
  | VsiCallbackTask | MlTask | DspTask

text \<open>
  The globals of a start. What survives a reset is the token with the secure storage behind it; the
  tasks are those that were asked for, in order. \<open>key_handle\<close> is \<open>xOTACodeVerifyKeyHandle\<close>.
\<close>

record ('e, 'w) boot_state =
  boot_bundle :: ProvisioningParamsBundle
  boot_token :: "'w token_state"
  key_handle :: u32
  system_events :: "'e option"
  ml_queue :: bool
  boot_tasks :: "task list"

text \<open>
  The calls of the firmware and the kernel that can fail, the build options and the configured strings:
  \<open>over_sockets\<close> tells which of the two network stacks is linked.
\<close>

record ('e, 'w) boot_env =
  boot_prov :: "'w prov_env"
  boot_psa :: "'w psa_lib"
  first_handle :: handle
  AWS_OTA_SIGNATURE_KEY_LEN :: nat
  boot_group :: "'e event_ops"
  tfm_ns_interface_init :: int
  xQueueCreate_ok :: bool
  over_sockets :: bool
  DEVICE_ADVISOR_TEST_ACTIVE :: bool
  AUDIO_VSI :: bool
  clientcredentialMQTT_BROKER_ENDPOINT :: string
  clientcredentialIOT_THING_NAME :: string

definition prvAreAwsCredentialsValid :: "('e, 'w) boot_env \<Rightarrow> bool" where
  "prvAreAwsCredentialsValid E \<longleftrightarrow>
     \<not> (clientcredentialMQTT_BROKER_ENDPOINT E = ''dummy.endpointid.amazonaws.com'' \<or>
        clientcredentialIOT_THING_NAME E = ''dummy_thingname'')"

definition start_task :: "task \<Rightarrow> ('e, 'w) boot_state \<Rightarrow> ('e, 'w) boot_state" where
  "start_task t S = S\<lparr>boot_tasks := boot_tasks S @ [t]\<rparr>"

section \<open>The network\<close>

text \<open>Over the sockets of the host the network is up at once; \<open>None\<close> is a failed assertion.\<close>

definition network_startup_vsocket :: "'e event_ops \<Rightarrow> 'e \<Rightarrow> (int \<times> 'e) option" where
  "network_startup_vsocket G e =
     (let e = xEventGroupSetBits G e EVENT_MASK_NETWORK_UP; uxBits = xEventGroupGetBits G e
      in if uxBits AND EVENT_MASK_NETWORK_UP = 0 then None else Some (0, e))"

text \<open>The TCP stack is started, and calls the hook when the network comes up or goes down.\<close>

definition network_startup_tcp :: "'e \<Rightarrow> (int \<times> 'e) option" where
  "network_startup_tcp e = Some (0, e)"

datatype network_event = eNetworkUp | eNetworkDown

definition vApplicationIPNetworkEventHook :: "'e event_ops \<Rightarrow> network_event \<Rightarrow> 'e \<Rightarrow> 'e" where
  "vApplicationIPNetworkEventHook G eNetworkEvent e =
     (if eNetworkEvent = eNetworkUp then xEventGroupSetBits G e EVENT_MASK_NETWORK_UP
      else xEventGroupClearBits G e EVENT_MASK_NETWORK_UP)"

definition network_startup :: "('e, 'w) boot_env \<Rightarrow> ('e, 'w) boot_state \<Rightarrow> (int \<times> ('e, 'w) boot_state) option" where
  "network_startup E S =
     (case system_events S of
        None \<Rightarrow> None
      | Some e \<Rightarrow>
          (case (if over_sockets E then network_startup_vsocket (boot_group E) e else network_startup_tcp e) of
             None \<Rightarrow> None
           | Some (r, e) \<Rightarrow> Some (r, S\<lparr>system_events := Some e\<rparr>)))"

section \<open>The hooks of the OTA agent\<close>

definition vDspStart :: "'e event_ops \<Rightarrow> 'e option \<Rightarrow> 'e option" where
  "vDspStart G h = (case h of None \<Rightarrow> None | Some e \<Rightarrow> Some (xEventGroupSetBits G e EVENT_MASK_DSP_START))"

definition vDspStop :: "'e event_ops \<Rightarrow> 'e option \<Rightarrow> 'e option" where
  "vDspStop G h = (case h of None \<Rightarrow> None | Some e \<Rightarrow> Some (xEventGroupClearBits G e EVENT_MASK_DSP_START))"

datatype application = KeywordDetection | SpeechRecognition | ObjectDetection

fun vOtaActiveHook :: "application \<Rightarrow> ('e, 'w) boot_env \<Rightarrow> 'e option \<Rightarrow> 'e option" where
  "vOtaActiveHook SpeechRecognition E h = vDspStop (boot_group E) (vMlTaskInferenceStop (boot_group E) h)"
| "vOtaActiveHook _ E h = vMlTaskInferenceStop (boot_group E) h"

fun vOtaNotActiveHook :: "application \<Rightarrow> ('e, 'w) boot_env \<Rightarrow> 'e option \<Rightarrow> 'e option" where
  "vOtaNotActiveHook SpeechRecognition E h = vDspStart (boot_group E) (vMlTaskInferenceStart (boot_group E) h)"
| "vOtaNotActiveHook KeywordDetection E h =
     (if DEVICE_ADVISOR_TEST_ACTIVE E then h else vMlTaskInferenceStart (boot_group E) h)"
| "vOtaNotActiveHook ObjectDetection E h = vMlTaskInferenceStart (boot_group E) h"

section \<open>The initialisation all applications share\<close>

text \<open>Provisioning at the first start: whether the start goes on.\<close>

definition provision_once :: "('e, 'w) boot_env \<Rightarrow> ('e, 'w) boot_state \<Rightarrow> (bool \<times> ('e, 'w) boot_state) option" where
  "provision_once E S =
     (let (provisioned, t) = uxIsDeviceProvisioned (boot_psa E) (boot_token S); S = S\<lparr>boot_token := t\<rparr>
      in if provisioned then Some (True, S)
         else
           (case vDevModeKeyProvisioning (boot_prov E) (first_handle E) (boot_bundle S) (boot_token S) of
              None \<Rightarrow> None
            | Some (uxReturnValue, _, b, t) \<Rightarrow>
                (let S = S\<lparr>boot_bundle := b, boot_token := t\<rparr>
                 in if uxReturnValue \<noteq> CKR_OK then Some (False, S)
                    else
                      (case xOtaProvisionCodeSigningKey (boot_psa E) (AWS_OTA_SIGNATURE_KEY_LEN E) (boot_bundle S) (boot_token S) of
                         None \<Rightarrow> None
                       | Some (uxStatus, h, t) \<Rightarrow>
                           (let S = S\<lparr>key_handle := (case h of None \<Rightarrow> key_handle S | Some h \<Rightarrow> h), boot_token := t\<rparr>
                            in if uxStatus \<noteq> 0 then Some (False, S)
                               else
                                 (let (r, t) = xWriteDeviceProvisioned (boot_psa E) (boot_token S)
                                  in Some (r = 0, S\<lparr>boot_token := t\<rparr>)))))))"

definition boot_init :: "('e, 'w) boot_env \<Rightarrow> ('e, 'w) boot_state \<Rightarrow> (bool \<times> ('e, 'w) boot_state) option" where
  "boot_init E S =
     (let S = start_task LoggingTask S
      in if tfm_ns_interface_init E \<noteq> 0 then Some (False, S)
         else
           (let (r, h) = xEventHelperInit (boot_group E); S = S\<lparr>system_events := h\<rparr>
            in if r \<noteq> 0 then Some (False, S)
               else
                 (case provision_once E S of
                    None \<Rightarrow> None
                  | Some (goes_on, S) \<Rightarrow>
                      if \<not> goes_on then Some (False, S)
                      else (let S = S\<lparr>ml_queue := xQueueCreate_ok E\<rparr> in Some (xQueueCreate_ok E, S)))))"

section \<open>The applications\<close>

definition only_if :: "bool \<Rightarrow> ('s \<Rightarrow> 's) \<Rightarrow> 's \<Rightarrow> 's" where
  "only_if b f s = (if b then f s else s)"

definition set_events :: "('e option \<Rightarrow> 'e option) \<Rightarrow> ('e, 'w) boot_state \<Rightarrow> ('e, 'w) boot_state" where
  "set_events f S = S\<lparr>system_events := f (system_events S)\<rparr>"

text \<open>With valid credentials the network and the tasks that use it are started; whether the start goes on.\<close>

definition with_network ::
  "('e, 'w) boot_env \<Rightarrow> (('e, 'w) boot_state \<Rightarrow> ('e, 'w) boot_state) \<Rightarrow> (('e, 'w) boot_state \<Rightarrow> ('e, 'w) boot_state) \<Rightarrow>
   ('e, 'w) boot_state \<Rightarrow> (bool \<times> ('e, 'w) boot_state) option" where
  "with_network E online offline S =
     (if prvAreAwsCredentialsValid E
      then (case network_startup E S of
              None \<Rightarrow> None
            | Some (r, S) \<Rightarrow> Some (if r \<noteq> 0 then (False, S) else (True, online S)))
      else Some (True, offline S))"

definition and_then :: "(bool \<times> 's) option \<Rightarrow> ('s \<Rightarrow> (bool \<times> 's) option) \<Rightarrow> (bool \<times> 's) option" where
  "and_then r f = (case r of None \<Rightarrow> None | Some (goes_on, s) \<Rightarrow> if goes_on then f s else Some (False, s))"

text \<open>\<open>True\<close>: the scheduler runs; \<open>False\<close>: main has returned with a failure.\<close>

definition main_keyword :: "('e, 'w) boot_env \<Rightarrow> ('e, 'w) boot_state \<Rightarrow> (bool \<times> ('e, 'w) boot_state) option" where
  "main_keyword E S =
     and_then (boot_init E S) (\<lambda>S.
     and_then (with_network E
       (\<lambda>S. let S = only_if (DEVICE_ADVISOR_TEST_ACTIVE E) (start_task SntpClientTask) S
            in start_task (if DEVICE_ADVISOR_TEST_ACTIVE E then DeviceAdvisorTask else MlMqttTask)
                 (start_task OtaTask (start_task MqttAgentTask S)))
       (set_events (vMlTaskInferenceStart (boot_group E))) S) (\<lambda>S.
     Some (True, only_if (\<not> DEVICE_ADVISOR_TEST_ACTIVE E)
       (\<lambda>S. start_task MlTask (only_if (AUDIO_VSI E) (start_task VsiCallbackTask) (start_task BlinkTask S))) S)))"

definition main_speech :: "('e, 'w) boot_env \<Rightarrow> ('e, 'w) boot_state \<Rightarrow> (bool \<times> ('e, 'w) boot_state) option" where
  "main_speech E S =
     and_then (boot_init E S) (\<lambda>S.
     and_then (with_network E
       (\<lambda>S. start_task OtaTask (start_task MqttAgentTask (start_task MlMqttTask S)))
       (\<lambda>S. S) S) (\<lambda>S.
     let S = start_task DspTask (start_task MlTask (only_if (AUDIO_VSI E) (start_task VsiCallbackTask) (start_task BlinkTask S)))
     in Some (True, only_if (\<not> prvAreAwsCredentialsValid E) (set_events (vOtaNotActiveHook SpeechRecognition E)) S)))"

definition main_object :: "('e, 'w) boot_env \<Rightarrow> ('e, 'w) boot_state \<Rightarrow> (bool \<times> ('e, 'w) boot_state) option" where
  "main_object E S =
     and_then (boot_init E S) (\<lambda>S.
     and_then (with_network E
       (\<lambda>S. start_task MlMqttTask (start_task OtaTask (start_task MqttAgentTask S)))
       (set_events (vMlTaskInferenceStart (boot_group E)))
       (set_events (vMlTaskInferenceStop (boot_group E)) S)) (\<lambda>S.
     Some (True, start_task MlTask (start_task BlinkTask S))))"

fun main_of :: "application \<Rightarrow> ('e, 'w) boot_env \<Rightarrow> ('e, 'w) boot_state \<Rightarrow> (bool \<times> ('e, 'w) boot_state) option" where
  "main_of KeywordDetection = main_keyword"
| "main_of SpeechRecognition = main_speech"
| "main_of ObjectDetection = main_object"

section \<open>Initialisation order\<close>

text \<open>The tasks of an application.\<close>

fun online_tasks :: "application \<Rightarrow> ('e, 'w) boot_env \<Rightarrow> task list" where
  "online_tasks KeywordDetection E =
     (if DEVICE_ADVISOR_TEST_ACTIVE E then [SntpClientTask, MqttAgentTask, OtaTask, DeviceAdvisorTask]
      else [MqttAgentTask, OtaTask, MlMqttTask])"
| "online_tasks SpeechRecognition E = [MlMqttTask, MqttAgentTask, OtaTask]"
| "online_tasks ObjectDetection E = [MqttAgentTask, OtaTask, MlMqttTask]"

fun local_tasks :: "application \<Rightarrow> ('e, 'w) boot_env \<Rightarrow> task list" where
  "local_tasks KeywordDetection E =
     (if DEVICE_ADVISOR_TEST_ACTIVE E then [] else BlinkTask # (if AUDIO_VSI E then [VsiCallbackTask] else []) @ [MlTask])"
| "local_tasks SpeechRecognition E = BlinkTask # (if AUDIO_VSI E then [VsiCallbackTask] else []) @ [MlTask, DspTask]"
| "local_tasks ObjectDetection E = [BlinkTask, MlTask]"

definition ml_started :: "'e event_ops \<Rightarrow> 'e \<Rightarrow> bool" where
  "ml_started G e \<longleftrightarrow> wait_passes G EVENT_MASK_ML_START e"

lemma provision_once_frame:
  assumes "provision_once E S = Some (b, S')"
  shows "boot_tasks S' = boot_tasks S" "system_events S' = system_events S" "ml_queue S' = ml_queue S"
  using assms by (auto simp: provision_once_def Let_def split: prod.splits if_splits option.splits)

lemma boot_init_exact:
  assumes "boot_init E S = Some (True, S')"
  shows "boot_tasks S' = boot_tasks S @ [LoggingTask]" "ml_queue S'" "system_events S' = xEventGroupCreateStatic (boot_group E)"
    "system_events S' \<noteq> None"
  using assms
  by (auto simp: boot_init_def Let_def start_task_def xEventHelperInit_def dest: provision_once_frame
      split: prod.splits if_splits option.splits)

lemma network_up:
  assumes "event_laws G"
  shows "network_startup_vsocket G e = Some (0, xEventGroupSetBits G e EVENT_MASK_NETWORK_UP)"
proof -
  have "(x OR EVENT_MASK_NETWORK_UP) AND EVENT_MASK_NETWORK_UP \<noteq> 0" for x
    by (simp only: and_or_absorb) (simp add: event_masks)
  then show ?thesis using assms by (simp add: network_startup_vsocket_def Let_def)
qed
text \<open>The bits the later steps read, of a group that starts empty.\<close>

lemma ml_event_bits:
  assumes "event_laws G"
  shows "ml_started G (xEventGroupSetBits G (xEventGroupClearBits G e EVENT_MASK_ML_STOP) EVENT_MASK_ML_START)"
    "\<not> ml_started G (xEventGroupSetBits G (xEventGroupClearBits G e EVENT_MASK_ML_START) EVENT_MASK_ML_STOP)"
    "ml_started G (xEventGroupSetBits G e EVENT_MASK_NETWORK_UP) = ml_started G e"
    "ml_started G (xEventGroupSetBits G e EVENT_MASK_DSP_START) = ml_started G e"
    "wait_passes G EVENT_MASK_NETWORK_UP (xEventGroupSetBits G e EVENT_MASK_NETWORK_UP)"
    "wait_passes G EVENT_MASK_NETWORK_UP (xEventGroupSetBits G e EVENT_MASK_ML_START) = wait_passes G EVENT_MASK_NETWORK_UP e"
    "wait_passes G EVENT_MASK_NETWORK_UP (xEventGroupSetBits G e EVENT_MASK_ML_STOP) = wait_passes G EVENT_MASK_NETWORK_UP e"
    "wait_passes G EVENT_MASK_NETWORK_UP (xEventGroupSetBits G e EVENT_MASK_DSP_START) = wait_passes G EVENT_MASK_NETWORK_UP e"
    "wait_passes G EVENT_MASK_NETWORK_UP (xEventGroupClearBits G e EVENT_MASK_ML_START) = wait_passes G EVENT_MASK_NETWORK_UP e"
    "wait_passes G EVENT_MASK_NETWORK_UP (xEventGroupClearBits G e EVENT_MASK_ML_STOP) = wait_passes G EVENT_MASK_NETWORK_UP e"
proof -
  have set: "(x OR a) AND b = x AND b" if "a AND b = 0" for x a b :: u32 using that by (simp add: bit.conj_disj_distrib2)
  show "ml_started G (xEventGroupSetBits G (xEventGroupClearBits G e EVENT_MASK_ML_STOP) EVENT_MASK_ML_START)"
    "\<not> ml_started G (xEventGroupSetBits G (xEventGroupClearBits G e EVENT_MASK_ML_START) EVENT_MASK_ML_STOP)"
    using event_bits [OF assms] by (simp_all add: ml_started_def)
  show "ml_started G (xEventGroupSetBits G e EVENT_MASK_NETWORK_UP) = ml_started G e"
    "ml_started G (xEventGroupSetBits G e EVENT_MASK_DSP_START) = ml_started G e"
    "wait_passes G EVENT_MASK_NETWORK_UP (xEventGroupSetBits G e EVENT_MASK_ML_START) = wait_passes G EVENT_MASK_NETWORK_UP e"
    "wait_passes G EVENT_MASK_NETWORK_UP (xEventGroupSetBits G e EVENT_MASK_ML_STOP) = wait_passes G EVENT_MASK_NETWORK_UP e"
    "wait_passes G EVENT_MASK_NETWORK_UP (xEventGroupSetBits G e EVENT_MASK_DSP_START) = wait_passes G EVENT_MASK_NETWORK_UP e"
    using assms by (simp_all add: ml_started_def wait_passes_def set event_masks)
  show "wait_passes G EVENT_MASK_NETWORK_UP (xEventGroupClearBits G e EVENT_MASK_ML_START) = wait_passes G EVENT_MASK_NETWORK_UP e"
    "wait_passes G EVENT_MASK_NETWORK_UP (xEventGroupClearBits G e EVENT_MASK_ML_STOP) = wait_passes G EVENT_MASK_NETWORK_UP e"
    using assms by (simp_all add: wait_passes_def event_masks and.assoc)
  show "wait_passes G EVENT_MASK_NETWORK_UP (xEventGroupSetBits G e EVENT_MASK_NETWORK_UP)"
    using assms by (simp add: wait_passes_def and_or_absorb) (simp add: event_masks)
qed

lemma and_then_Some:
  "and_then r f = Some (b, s') \<longleftrightarrow> (\<exists>s. r = Some (True, s) \<and> f s = Some (b, s')) \<or> (\<not> b \<and> r = Some (False, s'))"
  by (auto simp: and_then_def split: option.splits prod.splits)

lemma main_exact:
  assumes G: "event_laws (boot_group E)" and main: "main_of app E S = Some (True, S')"
    and e0: "xEventGroupCreateStatic (boot_group E) = Some e0" "xEventGroupGetBits (boot_group E) e0 = 0"
  shows "boot_tasks S' = boot_tasks S @ LoggingTask # (if prvAreAwsCredentialsValid E then online_tasks app E else []) @ local_tasks app E \<and>
    ml_queue S' \<and>
    (\<exists>e. system_events S' = Some e \<and> (ml_started (boot_group E) e \<longleftrightarrow> \<not> prvAreAwsCredentialsValid E) \<and>
      (wait_passes (boot_group E) EVENT_MASK_NETWORK_UP e \<longleftrightarrow> prvAreAwsCredentialsValid E \<and> over_sockets E))"
proof -
  have "\<exists>S1. boot_init E S = Some (True, S1)"
    using main by (cases app) (auto simp: main_keyword_def main_speech_def main_object_def and_then_Some)
  then obtain S1 where 1: "boot_init E S = Some (True, S1)" by blast
  note i = boot_init_exact [OF 1]
  have e: "system_events S1 = Some e0" using i(3) e0(1) by simp
  have none: "\<not> ml_started (boot_group E) e0" "\<not> wait_passes (boot_group E) EVENT_MASK_NETWORK_UP e0"
    using e0(2) by (simp_all add: ml_started_def wait_passes_def)
  note defs = and_then_def with_network_def network_startup_def network_up [OF G] network_startup_tcp_def set_events_def
    only_if_def start_task_def vMlTaskInferenceStart_def vMlTaskInferenceStop_def vDspStart_def Let_def
  show ?thesis
    using main 1 i e none ml_event_bits [OF G]
    by (cases app) (auto simp: main_keyword_def main_speech_def main_object_def defs split: if_splits)
qed

text \<open>When an application has started, whatever was provisioned on the way, it has created its event group and its
  queue, and exactly these tasks: the logging task, with valid credentials the tasks that use the network, and those
  of the application. Without credentials the inferences run at once, and with them only when the OTA agent says
  so; the network counts as up at once only over the sockets of the host.\<close>

theorem start_exact:
  assumes "event_laws (boot_group E)" and "main_of app E S = Some (True, S')" and "boot_tasks S = []"
    and "xEventGroupCreateStatic (boot_group E) = Some e0" and "xEventGroupGetBits (boot_group E) e0 = 0"
  shows "boot_tasks S' = LoggingTask # (if prvAreAwsCredentialsValid E then online_tasks app E else []) @ local_tasks app E \<and>
    ml_queue S' \<and>
    (\<exists>e. system_events S' = Some e \<and> (ml_started (boot_group E) e \<longleftrightarrow> \<not> prvAreAwsCredentialsValid E) \<and>
      (wait_passes (boot_group E) EVENT_MASK_NETWORK_UP e \<longleftrightarrow> prvAreAwsCredentialsValid E \<and> over_sockets E))"
  using main_exact [OF assms(1,2,4,5)] unfolding assms(3) append_Nil .

section \<open>Starts after the first\<close>

text \<open>What the storage reads, and its laws: a value that was written is read back, and reading changes nothing of that.\<close>

definition flag_set :: "'w psa_lib \<Rightarrow> 'w \<Rightarrow> bool" where
  "flag_set A w \<longleftrightarrow> (\<exists>bs w'. psa_its_get A FIRST_BOOT_ITS_UID w = (0, BOOT_PATTERN # bs, w'))"

definition storage_laws :: "'w psa_lib \<Rightarrow> bool" where
  "storage_laws A \<longleftrightarrow>
     (\<forall>w w'. psa_its_set A FIRST_BOOT_ITS_UID [BOOT_PATTERN] w = (0, w') \<longrightarrow> flag_set A w') \<and>
     (\<forall>w r bs w'. psa_its_get A FIRST_BOOT_ITS_UID w = (r, bs, w') \<longrightarrow> (flag_set A w' \<longleftrightarrow> flag_set A w))"

lemma provisioned_flag:
  assumes "crypto_in_tfm A" and "storage_laws A" and "uxIsDeviceProvisioned A t = (b, t')"
  shows "b \<longleftrightarrow> flag_set A (token t)" "flag_set A (token t') \<longleftrightarrow> flag_set A (token t)"
proof -
  obtain r bs w where g: "psa_its_get A FIRST_BOOT_ITS_UID (token t) = (r, bs, w)" by (metis prod_cases3)
  show "b \<longleftrightarrow> flag_set A (token t)"
    using assms(1,3) g by (auto simp: uxIsDeviceProvisioned_def flag_set_def BOOT_PATTERN_def split: list.splits)
  show "flag_set A (token t') \<longleftrightarrow> flag_set A (token t)"
    using assms g by (auto simp: uxIsDeviceProvisioned_def storage_laws_def)
qed

lemma provision_once_flag:
  assumes A: "crypto_in_tfm (boot_psa E)" "storage_laws (boot_psa E)" and p: "provision_once E S = Some (b, S')"
  shows "b \<Longrightarrow> flag_set (boot_psa E) (token (boot_token S'))"
    "flag_set (boot_psa E) (token (boot_token S)) \<Longrightarrow> b \<and> key_handle S' = key_handle S \<and> boot_bundle S' = boot_bundle S \<and>
       S' = S\<lparr>boot_token := snd (uxIsDeviceProvisioned (boot_psa E) (boot_token S))\<rparr>"
proof -
  obtain pr t where q: "uxIsDeviceProvisioned (boot_psa E) (boot_token S) = (pr, t)" by fastforce
  note f = provisioned_flag [OF A q]
  show "b \<Longrightarrow> flag_set (boot_psa E) (token (boot_token S'))"
    using p q f A
    by (auto simp: provision_once_def xWriteDeviceProvisioned_def storage_laws_def Let_def split: if_splits option.splits prod.splits)
  show "flag_set (boot_psa E) (token (boot_token S)) \<Longrightarrow> b \<and> key_handle S' = key_handle S \<and> boot_bundle S' = boot_bundle S \<and>
       S' = S\<lparr>boot_token := snd (uxIsDeviceProvisioned (boot_psa E) (boot_token S))\<rparr>"
    using p q f by (auto simp: provision_once_def)
qed

lemma boot_init_flag:
  assumes A: "crypto_in_tfm (boot_psa E)" "storage_laws (boot_psa E)" and i: "boot_init E S = Some (b, S')"
  shows "b \<Longrightarrow> flag_set (boot_psa E) (token (boot_token S'))"
    "flag_set (boot_psa E) (token (boot_token S)) \<Longrightarrow> key_handle S' = key_handle S \<and> boot_bundle S' = boot_bundle S"
  using i provision_once_flag [OF A]
  by (auto simp: boot_init_def Let_def start_task_def split: prod.splits if_splits option.splits)

lemma after_init_keeps:
  assumes "main_of app E S = Some (b, S')"
  shows "\<exists>c S1. boot_init E S = Some (c, S1) \<and> (b \<longrightarrow> c) \<and> boot_token S' = boot_token S1 \<and>
    key_handle S' = key_handle S1 \<and> boot_bundle S' = boot_bundle S1"
  using assms
  by (cases app)
    (auto simp: main_keyword_def main_speech_def main_object_def and_then_def with_network_def network_startup_def
      set_events_def only_if_def start_task_def Let_def split: option.splits if_splits prod.splits)

text \<open>C28: Once an application has started, no later start knows the key that verifies firmware images: after a reset
  the device counts as provisioned, so the key is not imported again, and its handle stays 0.\<close>

theorem later_start_lacks_signing_key:
  assumes "crypto_in_tfm (boot_psa E)" and "storage_laws (boot_psa E)" and "main_of app E S = Some (True, S1)"
    and "token (boot_token S2) = token (boot_token S1)" and "key_handle S2 = 0" and "main_of app E S2 = Some (b, S3)"
  shows "key_handle S3 = 0 \<and> boot_bundle S3 = boot_bundle S2"
proof -
  obtain T1 where "boot_init E S = Some (True, T1)" "boot_token S1 = boot_token T1"
    using after_init_keeps [OF assms(3)] by auto
  then have "flag_set (boot_psa E) (token (boot_token S2))" using boot_init_flag(1) [OF assms(1,2)] assms(4) by auto
  then show ?thesis using after_init_keeps [OF assms(6)] boot_init_flag(2) [OF assms(1,2)] assms(5) by auto
qed
section \<open>A device for the witnesses\<close>

text \<open>The flag is kept among the objects of the token.\<close>

definition boot_flag :: token_object where "boot_flag = (200, ''boot'', CKO_SECRET_KEY)"

definition sample_psa :: "(token_object list) psa_lib" where
  "sample_psa = \<lparr>pem_to_der = (\<lambda>p n cap. (0, map of_char p)), parse_public = (\<lambda>_. 0), get_psa_attributes = (\<lambda>_. 0),
     import_rsa = (\<lambda>_ _ w. (0, 77, w)), import_ecdsa = (\<lambda>_ _ w. (0, 77, w)),
     psa_its_get = (\<lambda>_ w. if List.member w boot_flag then (0, [BOOT_PATTERN], w) else (1, [], w)),
     psa_its_set = (\<lambda>_ _ w. (0, boot_flag # w)), sign_rsa = True, crypto_in_tfm = True\<rparr>"

lemma sample_psa_laws: "crypto_in_tfm sample_psa" "storage_laws sample_psa"
  by (auto simp: sample_psa_def storage_laws_def flag_set_def)

definition sample_boot :: "(u32, token_object list) boot_env" where
  "sample_boot = \<lparr>boot_prov = sample_prov, boot_psa = sample_psa, first_handle = 0, AWS_OTA_SIGNATURE_KEY_LEN = 3072,
     boot_group = word_events, tfm_ns_interface_init = 0, xQueueCreate_ok = True, over_sockets = True,
     DEVICE_ADVISOR_TEST_ACTIVE = False, AUDIO_VSI = True,
     clientcredentialMQTT_BROKER_ENDPOINT = ''broker'', clientcredentialIOT_THING_NAME = ''thing''\<rparr>"

definition sample_reset :: "(token_object list) token_state \<Rightarrow> (u32, token_object list) boot_state" where
  "sample_reset t = \<lparr>boot_bundle = \<lparr>provisioningMagic1 = PROVISIONING_MAGIC, provisioningParams = sample_parameters,
       codeSigningPublicKey = ''pem'', provisioningMagic2 = PROVISIONING_MAGIC\<rparr>,
     boot_token = t, key_handle = 0, system_events = None, ml_queue = False, boot_tasks = []\<rparr>"

lemma sample_first_start:
  "map_option (\<lambda>(b, S). (b, key_handle S, map fst (token (boot_token S)))) (main_of KeywordDetection sample_boot (sample_reset sample_objects)) =
   Some (True, 77, [200, 5, 4, 1, 2, 3])"
  by code_simp

theorem start_exact_witness:
  "\<exists>S'. main_of KeywordDetection sample_boot (sample_reset sample_objects) = Some (True, S') \<and>
     boot_tasks S' = [LoggingTask, MqttAgentTask, OtaTask, MlMqttTask, BlinkTask, VsiCallbackTask, MlTask]"
proof -
  obtain S' where run: "main_of KeywordDetection sample_boot (sample_reset sample_objects) = Some (True, S')"
    using sample_first_start by auto
  have "event_laws (boot_group sample_boot)" "boot_tasks (sample_reset sample_objects) = []"
    "xEventGroupCreateStatic (boot_group sample_boot) = Some 0" "xEventGroupGetBits (boot_group sample_boot) 0 = 0"
    by (simp_all add: sample_boot_def sample_reset_def word_events_laws) (simp_all add: word_events_def)
  from start_exact [OF this(1) run this(2-4)] run show ?thesis
    by (simp add: sample_boot_def prvAreAwsCredentialsValid_def)
qed

theorem later_start_lacks_signing_key_witness:
  "\<exists>S1 S3. main_of KeywordDetection sample_boot (sample_reset sample_objects) = Some (True, S1) \<and> key_handle S1 = 77 \<and>
     main_of KeywordDetection sample_boot (sample_reset (boot_token S1)) = Some (True, S3) \<and> key_handle S3 = 0"
proof -
  obtain S1 where 1: "main_of KeywordDetection sample_boot (sample_reset sample_objects) = Some (True, S1)" "key_handle S1 = 77"
    using sample_first_start by auto
  have "map_option fst (case main_of KeywordDetection sample_boot (sample_reset sample_objects) of
      Some (b, S) \<Rightarrow> main_of KeywordDetection sample_boot (sample_reset (boot_token S)) | None \<Rightarrow> None) = Some True"
    by code_simp
  then obtain S3 where 3: "main_of KeywordDetection sample_boot (sample_reset (boot_token S1)) = Some (True, S3)"
    using 1(1) by auto
  have "crypto_in_tfm (boot_psa sample_boot)" "storage_laws (boot_psa sample_boot)"
    using sample_psa_laws by (simp_all add: sample_boot_def)
  from later_start_lacks_signing_key [OF this 1(1) _ _ 3] 1 3 show ?thesis by (auto simp: sample_reset_def)
qed

end
