(* ===== verification/Device_Advisor.thy ===== *)
theory Device_Advisor
  imports Mqtt_Types
begin

text \<open>
  The task for the device advisor test, \<^verbatim>\<open>aws_device_advisor_task.c\<close>: it subscribes to one topic and
  prints what is published there. The MQTT agent and the kernel's notifications are parameters; the agent
  task runs the callbacks while the task waits.
\<close>

section \<open>State\<close>

definition deviceAdvisorMAX_COMMAND_SEND_BLOCK_TIME_MS :: u32 where "deviceAdvisorMAX_COMMAND_SEND_BLOCK_TIME_MS = 5000"
definition deviceAdvisorTOPIC_FORMAT :: string where "deviceAdvisorTOPIC_FORMAT = ''device_advisor_test''"
definition deviceAdvisorTOPIC_BUFFER_LENGTH :: nat where "deviceAdvisorTOPIC_BUFFER_LENGTH = strlen deviceAdvisorTOPIC_FORMAT"
definition deviceAdvisorSTRING_BUFFER_LENGTH :: nat where "deviceAdvisorSTRING_BUFFER_LENGTH = 20480"

text \<open>
  The static contexts of the two commands, the pending notification of the task, the table of
  subscriptions, the static buffer for a printed message and what was printed.
\<close>

record 'w da_state =
  da_subs :: sub_table
  da_subscribe_context :: MQTTAgentCommandContext
  da_publish_context :: MQTTAgentCommandContext
  da_pending :: notification
  cTerminatedString :: string
  da_printed :: "string list"
  da_world :: 'w

definition zero_context :: MQTTAgentCommandContext where
  "zero_context = \<lparr>xReturnStatus = MQTTSuccess, xTaskToNotify = None, pArgs = []\<rparr>"

definition da_init :: "sub_table \<Rightarrow> 'w \<Rightarrow> 'w da_state" where
  "da_init subs w = \<lparr>da_subs = subs, da_subscribe_context = zero_context, da_publish_context = zero_context,
     da_pending = None, cTerminatedString = replicate deviceAdvisorSTRING_BUFFER_LENGTH NUL, da_printed = [], da_world = w\<rparr>"

text \<open>What the agent task does for this task while it waits.\<close>

datatype da_step = Subscribe_done MQTTStatus | Publish_done MQTTStatus | Publish_received MQTTPublishInfo

text \<open>
  \<open>incoming_callback\<close> is the address of the callback for publishes, \<open>topic_at\<close> that of the topic
  filter on the stack of the task, which never returns.
\<close>

record 'w da_env =
  da_subscribe :: "MQTTSubscribeInfo \<Rightarrow> u32 \<Rightarrow> 'w \<Rightarrow> MQTTStatus \<times> 'w"
  da_publish :: "MQTTPublishInfo \<Rightarrow> MQTTQoS \<Rightarrow> u32 \<Rightarrow> 'w \<Rightarrow> MQTTStatus \<times> 'w"
  agent_steps :: "u32 \<Rightarrow> 'w \<Rightarrow> da_step list \<times> 'w"
  da_task_handle :: nat
  incoming_callback :: ptr
  topic_at :: ptr
  da_memory :: memory

section \<open>Callbacks\<close>

text \<open>
  \<open>None\<close>: when the table refuses the subscription the log call passes a pointer as the precision and the
  length as the string, so that it reads at an address that is a length.
\<close>

definition prvRegisterSubscribeCallback :: "'w da_env \<Rightarrow> ptr \<Rightarrow> u16 \<Rightarrow> 'w da_state \<Rightarrow> 'w da_state option" where
  "prvRegisterSubscribeCallback E filter_at len s =
     (let (subscriptionAdded, subs) = addSubscription (da_memory E) filter_at len (incoming_callback E) 0 (da_subs s)
      in if subscriptionAdded then Some (s\<lparr>da_subs := subs\<rparr>) else None)"

definition notify_task :: "MQTTAgentCommandContext \<Rightarrow> MQTTStatus \<Rightarrow> notification \<Rightarrow> notification" where
  "notify_task ctx code n = (if xTaskToNotify ctx \<noteq> None then Some (mqtt_status_code code) else n)"

definition prvSubscribeCommandCallback :: "'w da_env \<Rightarrow> MQTTStatus \<Rightarrow> 'w da_state \<Rightarrow> 'w da_state option" where
  "prvSubscribeCommandCallback E code s =
     (let finish = (\<lambda>s. s\<lparr>da_subscribe_context := (da_subscribe_context s)\<lparr>xReturnStatus := code\<rparr>,
                         da_pending := notify_task (da_subscribe_context s) code (da_pending s)\<rparr>)
      in if code = MQTTSuccess
         then (case pArgs (da_subscribe_context s) of
                 [] \<Rightarrow> None
               | info # _ \<Rightarrow> map_option finish (prvRegisterSubscribeCallback E (pTopicFilter info) (topicFilterLength info) s))
         else Some (finish s))"

text \<open>It does not store the status.\<close>

definition prvPublishCommandCallback :: "MQTTStatus \<Rightarrow> 'w da_state \<Rightarrow> 'w da_state" where
  "prvPublishCommandCallback code s =
     s\<lparr>da_pending := notify_task (da_publish_context s) code (da_pending s)\<rparr>"

definition prvIncomingPublishCallback_da :: "MQTTPublishInfo \<Rightarrow> 'w da_state \<Rightarrow> 'w da_state" where
  "prvIncomingPublishCallback_da pub s =
     (let buf = (if payloadLength pub < deviceAdvisorSTRING_BUFFER_LENGTH
        then (buf_write (cTerminatedString s) 0 (take (payloadLength pub) (pPayload pub)))[payloadLength pub := NUL]
        else (buf_write (cTerminatedString s) 0 (take deviceAdvisorSTRING_BUFFER_LENGTH (pPayload pub)))
               [deviceAdvisorSTRING_BUFFER_LENGTH - 1 := NUL])
      in s\<lparr>cTerminatedString := buf, da_printed := da_printed s @ [c_str buf]\<rparr>)"

fun da_exec :: "'w da_env \<Rightarrow> da_step \<Rightarrow> 'w da_state \<Rightarrow> 'w da_state option" where
  "da_exec E (Subscribe_done code) s = prvSubscribeCommandCallback E code s"
| "da_exec E (Publish_done code) s = Some (prvPublishCommandCallback code s)"
| "da_exec E (Publish_received pub) s = Some (prvIncomingPublishCallback_da pub s)"

fun da_execs :: "'w da_env \<Rightarrow> da_step list \<Rightarrow> 'w da_state \<Rightarrow> 'w da_state option" where
  "da_execs E [] s = Some s"
| "da_execs E (x # xs) s = (case da_exec E x s of None \<Rightarrow> None | Some s \<Rightarrow> da_execs E xs s)"

section \<open>Commands\<close>

text \<open>Waiting for the notification: whether one is pending in the end; it is then cleared.\<close>

definition da_wait :: "'w da_env \<Rightarrow> u32 \<Rightarrow> 'w da_state \<Rightarrow> (bool \<times> 'w da_state) option" where
  "da_wait E ticks s =
     (let (steps, w) = agent_steps E ticks (da_world s)
      in case da_execs E steps (s\<lparr>da_world := w\<rparr>) of
           None \<Rightarrow> None
         | Some s \<Rightarrow> Some (da_pending s \<noteq> None, s\<lparr>da_pending := None\<rparr>))"

text \<open>The subscription waits for a number of ticks equal to that of milliseconds.\<close>

definition prvSubscribeToTopic :: "'w da_env \<Rightarrow> MQTTQoS \<Rightarrow> ptr \<Rightarrow> nat \<Rightarrow> 'w da_state \<Rightarrow> (MQTTStatus \<times> 'w da_state) option" where
  "prvSubscribeToTopic E qos filter_at len s =
     (let info = \<lparr>sub_qos = qos, pTopicFilter = filter_at, topicFilterLength = of_nat len\<rparr>;
          s = s\<lparr>da_subscribe_context := (da_subscribe_context s)\<lparr>xTaskToNotify := Some (da_task_handle E), pArgs := [info]\<rparr>,
                da_pending := None\<rparr>;
          (xCommandStatus, w) = da_subscribe E info deviceAdvisorMAX_COMMAND_SEND_BLOCK_TIME_MS (da_world s);
          s = s\<lparr>da_world := w\<rparr>
      in if xCommandStatus = MQTTSuccess
         then (case da_wait E deviceAdvisorMAX_COMMAND_SEND_BLOCK_TIME_MS s of
                 None \<Rightarrow> None
               | Some (result, s) \<Rightarrow>
                   Some (if result then xReturnStatus (da_subscribe_context s) else MQTTSendFailed, s))
         else Some (xCommandStatus, s))"

definition prvPublishToTopic ::
  "'w da_env \<Rightarrow> MQTTQoS \<Rightarrow> string \<Rightarrow> nat \<Rightarrow> string \<Rightarrow> nat \<Rightarrow> 'w da_state \<Rightarrow> (MQTTStatus \<times> 'w da_state) option" where
  "prvPublishToTopic E qos topic len payload size_of s =
     (let info = \<lparr>pTopicName = topic, topicNameLength = of_nat len, pPayload = payload, payloadLength = size_of\<rparr>;
          s = s\<lparr>da_publish_context := (da_publish_context s)\<lparr>xTaskToNotify := Some (da_task_handle E)\<rparr>, da_pending := None\<rparr>;
          (xCommandStatus, w) = da_publish E info qos deviceAdvisorMAX_COMMAND_SEND_BLOCK_TIME_MS (da_world s);
          s = s\<lparr>da_world := w\<rparr>
      in if xCommandStatus = MQTTSuccess
         then (case da_wait E (pdMS_TO_TICKS deviceAdvisorMAX_COMMAND_SEND_BLOCK_TIME_MS) s of
                 None \<Rightarrow> None
               | Some (result, s) \<Rightarrow>
                   Some (if result then xReturnStatus (da_publish_context s) else MQTTSendFailed, s))
         else Some (xCommandStatus, s))"

text \<open>The task after the agent is connected: it subscribes, and then loops without end.\<close>

definition prvDeviceAdvisorTask :: "'w da_env \<Rightarrow> 'w da_state \<Rightarrow> (MQTTStatus \<times> 'w da_state) option" where
  "prvDeviceAdvisorTask E s = prvSubscribeToTopic E MQTTQoS1 (topic_at E) deviceAdvisorTOPIC_BUFFER_LENGTH s"

section \<open>Printed messages\<close>

lemma length_terminated [simp]:
  "length (cTerminatedString (prvIncomingPublishCallback_da pub s)) = length (cTerminatedString s)"
  by (simp add: prvIncomingPublishCallback_da_def Let_def)

lemma c_str_prefix:
  assumes "NUL \<notin> set xs" shows "c_str (xs @ NUL # ys) = xs"
  using assms by (simp add: c_str_def takeWhile_append)

lemma incoming_printed:
  assumes "length (cTerminatedString s) = deviceAdvisorSTRING_BUFFER_LENGTH" and "payloadLength pub \<le> length (pPayload pub)"
    and "NUL \<notin> set (take (payloadLength pub) (pPayload pub))"
  shows "da_printed (prvIncomingPublishCallback_da pub s) =
    da_printed s @ [take (min (payloadLength pub) (deviceAdvisorSTRING_BUFFER_LENGTH - 1)) (pPayload pub)]"
proof (cases "payloadLength pub < deviceAdvisorSTRING_BUFFER_LENGTH")
  case True
  let ?x = "take (payloadLength pub) (pPayload pub)"
  have "length ?x = payloadLength pub" using assms(2) by simp
  moreover have "buf_write (cTerminatedString s) 0 ?x = ?x @ drop (length ?x) (cTerminatedString s)"
    using True assms(1,2) by (intro buf_write_0) (simp add: buf_fits_def)
  ultimately have "(buf_write (cTerminatedString s) 0 ?x)[payloadLength pub := NUL] =
      ?x @ NUL # drop (Suc (payloadLength pub)) (cTerminatedString s)"
    using True assms(1) by (simp add: list_update_append Cons_nth_drop_Suc [symmetric])
  then show ?thesis using True assms(3) by (simp add: prvIncomingPublishCallback_da_def c_str_prefix)
next
  case False
  let ?n = "deviceAdvisorSTRING_BUFFER_LENGTH" let ?x = "take ?n (pPayload pub)"
  have n: "0 < ?n" by (simp add: deviceAdvisorSTRING_BUFFER_LENGTH_def)
  have len: "length ?x = ?n" using False assms(2) by simp
  have "buf_write (cTerminatedString s) 0 ?x = ?x"
    using buf_write_0 [of "cTerminatedString s" ?x] len assms(1) by (simp add: buf_fits_def)
  then have "(buf_write (cTerminatedString s) 0 ?x)[?n - 1 := NUL] = take (?n - 1) (pPayload pub) @ [NUL]"
    using n len False assms(2) by (simp add: upd_conv_take_nth_drop min_def)
  moreover have "set (take (?n - 1) (pPayload pub)) \<subseteq> set (take (payloadLength pub) (pPayload pub))"
    using False by (intro set_take_subset_set_take) simp
  then have "NUL \<notin> set (take (?n - 1) (pPayload pub))" using assms(3) by blast
  moreover have "\<not> payloadLength pub \<le> ?n - 1" using False n by linarith
  ultimately show ?thesis using False
    by (simp add: prvIncomingPublishCallback_da_def c_str_prefix [of _ "[]", simplified] min_def)
qed

section \<open>What the commands report\<close>

lemma execs_publish_context:
  "da_execs E steps s = Some s' \<Longrightarrow> da_publish_context s' = da_publish_context s"
proof (induction steps arbitrary: s)
  case (Cons x steps)
  then obtain s1 where 1: "da_exec E x s = Some s1" "da_execs E steps s1 = Some s'" by (auto split: option.splits)
  have "da_publish_context s1 = da_publish_context s"
    using 1(1)
    by (cases x) (auto simp: prvSubscribeCommandCallback_def prvPublishCommandCallback_def prvIncomingPublishCallback_da_def
        prvRegisterSubscribeCallback_def Let_def split: if_splits option.splits list.splits prod.splits)
  then show ?case using Cons.IH [OF 1(2)] by simp
qed simp

text \<open>The status of a publish is not the one the agent reports: the completion callback does not store it, so a
  publish that the agent took and completed, even with a failure, returns the initial value of the static context,
  which is success.\<close>

theorem publish_failure_reported_as_success:
  assumes "xReturnStatus (da_publish_context s) = MQTTSuccess" and "prvPublishToTopic E qos topic len payload n s = Some (r, s')"
    and "da_publish E \<lparr>pTopicName = topic, topicNameLength = of_nat len, pPayload = payload, payloadLength = n\<rparr> qos
      deviceAdvisorMAX_COMMAND_SEND_BLOCK_TIME_MS (da_world s) = (MQTTSuccess, w)"
    and "agent_steps E (pdMS_TO_TICKS deviceAdvisorMAX_COMMAND_SEND_BLOCK_TIME_MS) w = ([Publish_done code], w')"
  shows "r = MQTTSuccess \<and> xReturnStatus (da_publish_context s') = MQTTSuccess"
  using assms by (auto simp: prvPublishToTopic_def da_wait_def prvPublishCommandCallback_def notify_task_def)

text \<open>The steps of a subscription: its completions keep the invariant that the callback is registered after a success.\<close>

definition subscribed :: "'w da_env \<Rightarrow> ptr \<Rightarrow> u16 \<Rightarrow> 'w da_state \<Rightarrow> bool" where
  "subscribed E filter_at len s \<longleftrightarrow>
     (filter_text (da_memory E) filter_at len, len, incoming_callback E, 0) \<in> registrations (da_memory E) (da_subs s)"

fun no_publish :: "da_step \<Rightarrow> bool" where
  "no_publish (Publish_done code) = False"
| "no_publish _ = True"

lemma register_exact:
  assumes "table_ok (da_subs s)" and "prvRegisterSubscribeCallback E filter_at len s = Some s'"
  shows "subscribed E filter_at len s'" "table_ok (da_subs s')" "\<exists>subs. s' = s\<lparr>da_subs := subs\<rparr>"
proof -
  obtain subs where a: "addSubscription (da_memory E) filter_at len (incoming_callback E) 0 (da_subs s) = (True, subs)"
    and s': "s' = s\<lparr>da_subs := subs\<rparr>"
    using assms(2) by (auto simp: prvRegisterSubscribeCallback_def split: if_splits prod.splits)
  show "subscribed E filter_at len s'"
    using registrations_add [OF assms(1), of "da_memory E" filter_at len "incoming_callback E" 0] a
    by (simp add: s' subscribed_def)
  show "table_ok (da_subs s')"
    using table_ok_add [OF assms(1), of "da_memory E" filter_at len "incoming_callback E" 0] a by (simp add: s')
  show "\<exists>subs. s' = s\<lparr>da_subs := subs\<rparr>" using s' by blast
qed

definition subscribe_inv :: "'w da_env \<Rightarrow> MQTTSubscribeInfo \<Rightarrow> 'w da_state \<Rightarrow> bool" where
  "subscribe_inv E info s \<longleftrightarrow>
     table_ok (da_subs s) \<and> pArgs (da_subscribe_context s) = [info] \<and> xTaskToNotify (da_subscribe_context s) \<noteq> None \<and>
     (da_pending s \<noteq> None \<longrightarrow> da_pending s = Some (mqtt_status_code (xReturnStatus (da_subscribe_context s))) \<and>
        (xReturnStatus (da_subscribe_context s) = MQTTSuccess \<longrightarrow> subscribed E (pTopicFilter info) (topicFilterLength info) s))"

lemma subscribe_step:
  assumes "subscribe_inv E info s" and "no_publish x" and "da_exec E x s = Some s'"
  shows "subscribe_inv E info s'"
proof (cases x)
  case (Subscribe_done code)
  have ok: "table_ok (da_subs s)" "pArgs (da_subscribe_context s) = [info]" using assms(1) by (simp_all add: subscribe_inv_def)
  show ?thesis
  proof (cases "code = MQTTSuccess")
    case True
    then obtain s1 where r: "prvRegisterSubscribeCallback E (pTopicFilter info) (topicFilterLength info) s = Some s1"
      and s': "s' = s1\<lparr>da_subscribe_context := (da_subscribe_context s1)\<lparr>xReturnStatus := code\<rparr>,
        da_pending := notify_task (da_subscribe_context s1) code (da_pending s1)\<rparr>"
      using assms(3) Subscribe_done ok by (auto simp: prvSubscribeCommandCallback_def)
    note e = register_exact [OF ok(1) r]
    show ?thesis using e assms(1) by (auto simp: s' subscribe_inv_def notify_task_def subscribed_def)
  next
    case False
    then show ?thesis using assms(1,3) Subscribe_done
      by (auto simp: prvSubscribeCommandCallback_def subscribe_inv_def notify_task_def subscribed_def)
  qed
next
  case (Publish_received pub)
  then show ?thesis using assms(1,3)
    by (auto simp: prvIncomingPublishCallback_da_def subscribe_inv_def subscribed_def Let_def)
qed (use assms(2) in simp)

lemma subscribe_steps:
  "subscribe_inv E info s \<Longrightarrow> list_all no_publish steps \<Longrightarrow> da_execs E steps s = Some s' \<Longrightarrow> subscribe_inv E info s'"
proof (induction steps arbitrary: s)
  case (Cons x steps)
  then obtain s1 where "da_exec E x s = Some s1" "da_execs E steps s1 = Some s'" by (auto split: option.splits)
  then show ?case using Cons.IH [of s1] subscribe_step [of E info s x s1] Cons.prems by simp
qed simp

text \<open>When the task reports that it is subscribed, its callback is registered for the topic, whatever publishes
  arrive and however often the agent completes the subscription while the task waits.\<close>

theorem subscription_takes_effect:
  assumes "table_ok (da_subs s)" and "prvDeviceAdvisorTask E s = Some (MQTTSuccess, s')"
    and "\<And>t w. list_all no_publish (fst (agent_steps E t w))"
  shows "subscribed E (topic_at E) 19 s'"
proof -
  let ?info = "\<lparr>sub_qos = MQTTQoS1, pTopicFilter = topic_at E, topicFilterLength = 19\<rparr>"
  have len: "of_nat deviceAdvisorTOPIC_BUFFER_LENGTH = (19 :: u16)"
    by code_simp
  define s0 where "s0 = s\<lparr>da_subscribe_context := (da_subscribe_context s)\<lparr>xTaskToNotify := Some (da_task_handle E), pArgs := [?info]\<rparr>,
      da_pending := None\<rparr>"
  obtain w steps w' s1 where "agent_steps E deviceAdvisorMAX_COMMAND_SEND_BLOCK_TIME_MS w = (steps, w')"
    "da_execs E steps (s0\<lparr>da_world := w'\<rparr>) = Some s1" "da_pending s1 \<noteq> None"
    "xReturnStatus (da_subscribe_context s1) = MQTTSuccess" "s' = s1\<lparr>da_pending := None\<rparr>"
    using assms(2)
    by (auto simp: prvDeviceAdvisorTask_def prvSubscribeToTopic_def len s0_def [symmetric] da_wait_def Let_def
        split: prod.splits if_splits option.splits)
  moreover have "subscribe_inv E ?info (s0\<lparr>da_world := w'\<rparr>)"
    using assms(1) by (simp add: subscribe_inv_def s0_def)
  moreover have "list_all no_publish steps" using assms(3) [of deviceAdvisorMAX_COMMAND_SEND_BLOCK_TIME_MS w] calculation(1) by simp
  ultimately have "subscribe_inv E ?info s1" by (blast intro: subscribe_steps)
  with \<open>da_pending s1 \<noteq> None\<close> \<open>xReturnStatus (da_subscribe_context s1) = MQTTSuccess\<close> \<open>s' = s1\<lparr>da_pending := None\<rparr>\<close>
  show ?thesis by (auto simp: subscribe_inv_def subscribed_def)
qed

section \<open>An agent for the witnesses\<close>

definition sample_da :: "da_step list \<Rightarrow> unit da_env" where
  "sample_da steps = \<lparr>da_subscribe = (\<lambda>_ _ w. (MQTTSuccess, w)), da_publish = (\<lambda>_ _ _ w. (MQTTSuccess, w)),
     agent_steps = (\<lambda>_ w. (steps, w)), da_task_handle = 9, incoming_callback = 7, topic_at = 5,
     da_memory = (\<lambda>_. ''device_advisor_test'')\<rparr>"

theorem publish_failure_reported_as_success_witness:
  "\<exists>s'. prvPublishToTopic (sample_da [Publish_done MQTTSendFailed]) MQTTQoS1 ''t'' 1 ''m'' 1 (da_init xGlobalSubscriptionList_init ()) =
     Some (MQTTSuccess, s')"
proof -
  let ?E = "sample_da [Publish_done MQTTSendFailed]" and ?s = "da_init xGlobalSubscriptionList_init ()"
  obtain r s' where run: "prvPublishToTopic ?E MQTTQoS1 ''t'' 1 ''m'' 1 ?s = Some (r, s')"
    by (simp add: prvPublishToTopic_def sample_da_def da_wait_def Let_def)
  have "r = MQTTSuccess"
    using publish_failure_reported_as_success [OF _ run, of "()" MQTTSendFailed "()"]
    by (simp add: sample_da_def da_init_def zero_context_def)
  then show ?thesis using run by blast
qed

definition sample_da_state :: "unit da_state" where
  "sample_da_state = \<lparr>da_subs = xGlobalSubscriptionList_init, da_subscribe_context = zero_context, da_publish_context = zero_context,
     da_pending = None, cTerminatedString = [], da_printed = [], da_world = ()\<rparr>"

theorem subscription_takes_effect_witness:
  "\<exists>s'. prvDeviceAdvisorTask (sample_da [Subscribe_done MQTTSuccess]) (sample_da_state) = Some (MQTTSuccess, s') \<and>
     subscribed (sample_da [Subscribe_done MQTTSuccess]) 5 19 s'"
proof -
  let ?E = "sample_da [Subscribe_done MQTTSuccess]" and ?s = "sample_da_state"
  have "map_option fst (prvDeviceAdvisorTask ?E ?s) = Some MQTTSuccess" by code_simp
  then obtain s' where run: "prvDeviceAdvisorTask ?E ?s = Some (MQTTSuccess, s')" by auto
  have "subscribed ?E (topic_at ?E) 19 s'"
    by (rule subscription_takes_effect [OF _ run]) (simp_all add: sample_da_state_def table_ok_init sample_da_def)
  then show ?thesis using run by (auto simp: sample_da_def)
qed

end
