(* ===== verification/Serial.thy ===== *)
theory Serial
  imports Prelude
begin

text \<open>
  The serial output of the board, \<^verbatim>\<open>bsp_serial.c\<close>: the functions to which both C libraries redirect their
  output, that of armclang (\<^verbatim>\<open>_sys_*\<close>) and that of gcc (\<^verbatim>\<open>_write\<close>), over one USART. The driver and the
  mutex of the kernel are parameters.
\<close>

section \<open>State\<close>

text \<open>\<open>None\<close>: the mutex does not exist; else whether it is taken. \<open>'w\<close> is the state of the device.\<close>

record 'w serial_state =
  xLoggingMutex :: "bool option"
  serial_world :: 'w

text \<open>
  The driver: its set-up, \<open>Send\<close> with whether it succeeds, and the count of the characters sent so far. A mutex that
  is free is granted unless \<open>take_fails\<close>.
\<close>

record 'w usart =
  usart_setup :: "'w \<Rightarrow> 'w"
  usart_send :: "string \<Rightarrow> 'w \<Rightarrow> bool \<times> 'w"
  GetTxCount :: "'w \<Rightarrow> nat \<times> 'w"
  mutex_available :: "'w \<Rightarrow> bool"
  take_fails :: "'w \<Rightarrow> bool"
  open_w_bit :: nat
  open_a_bit :: nat

definition STDIN_FILENO :: int where "STDIN_FILENO = 0"
definition STDOUT_FILENO :: int where "STDOUT_FILENO = 1"
definition STDERR_FILENO :: int where "STDERR_FILENO = 2"

datatype WriteError = WRITE_ERROR_SEND_FAIL | WRITE_ERROR_SYNC_FAILED | WRITE_ERROR_INVALID_ARGS | WRITE_ERROR_NONE

fun write_error_code :: "WriteError \<Rightarrow> int" where
  "write_error_code WRITE_ERROR_SEND_FAIL = -3"
| "write_error_code WRITE_ERROR_SYNC_FAILED = -2"
| "write_error_code WRITE_ERROR_INVALID_ARGS = -1"
| "write_error_code WRITE_ERROR_NONE = 0"

record WriteResult =
  write_error :: WriteError
  charsWritten :: nat

section \<open>Operations\<close>

text \<open>\<open>None\<close> when the assertion on the new mutex fails.\<close>

definition bsp_serial_init :: "'w usart \<Rightarrow> 'w serial_state \<Rightarrow> 'w serial_state option" where
  "bsp_serial_init D s =
     (let s = s\<lparr>serial_world := usart_setup D (serial_world s)\<rparr>
      in case xLoggingMutex s of
           Some _ \<Rightarrow> Some s
         | None \<Rightarrow> if mutex_available D (serial_world s) then Some (s\<lparr>xLoggingMutex := Some False\<rparr>) else None)"

text \<open>The busy loop until the driver has sent \<open>n\<close> characters; \<open>None\<close> when that never happens.\<close>

partial_function (option) wait_sent :: "'w usart \<Rightarrow> nat \<Rightarrow> 'w \<Rightarrow> 'w option" where
  "wait_sent D n w =
     (case GetTxCount D w of (k, w) \<Rightarrow> if k = n then Some w else wait_sent D n w)"

definition bsp_serial_print :: "'w usart \<Rightarrow> string \<Rightarrow> 'w serial_state \<Rightarrow> 'w serial_state option" where
  "bsp_serial_print D str s =
     (let (_, w) = usart_send D (c_str str) (serial_world s)
      in map_option (\<lambda>w. s\<lparr>serial_world := w\<rparr>) (wait_sent D (strlen str) w))"

definition prvValidFdHandle :: "int \<Rightarrow> bool" where
  "prvValidFdHandle fd \<longleftrightarrow> fd = STDOUT_FILENO \<or> fd = STDERR_FILENO"

text \<open>
  \<open>str\<close> is the memory from the address passed, of which \<open>len\<close> characters are written. The mutex is taken and
  given within the call; a mutex that another task holds for ever, or that does not exist, is \<open>None\<close>.
\<close>

definition prvWriteChars :: "'w usart \<Rightarrow> int \<Rightarrow> string \<Rightarrow> nat \<Rightarrow> 'w serial_state \<Rightarrow> (WriteResult \<times> 'w serial_state) option" where
  "prvWriteChars D fd str len s =
     (if \<not> prvValidFdHandle fd then Some (\<lparr>write_error = WRITE_ERROR_INVALID_ARGS, charsWritten = 0\<rparr>, s)
      else if xLoggingMutex s \<noteq> Some False then None
      else if take_fails D (serial_world s) then Some (\<lparr>write_error = WRITE_ERROR_SYNC_FAILED, charsWritten = 0\<rparr>, s)
      else
        (let (allCharsWritten, w) = usart_send D (take len str) (serial_world s)
         in case wait_sent D len w of
              None \<Rightarrow> None
            | Some w \<Rightarrow>
                Some (if allCharsWritten then \<lparr>write_error = WRITE_ERROR_NONE, charsWritten = len\<rparr>
                      else \<lparr>write_error = WRITE_ERROR_SEND_FAIL, charsWritten = 0\<rparr>, s\<lparr>serial_world := w\<rparr>)))"

text \<open>For gcc; the results are those of \<^verbatim>\<open>int\<close> for lengths within its range.\<close>

definition write_gcc :: "'w usart \<Rightarrow> int \<Rightarrow> string \<Rightarrow> nat \<Rightarrow> 'w serial_state \<Rightarrow> (int \<times> 'w serial_state) option" where
  "write_gcc D fd str len s =
     map_option (\<lambda>(r, s). (if write_error r = WRITE_ERROR_NONE \<and> charsWritten r = len then int (charsWritten r) else -1, s))
       (prvWriteChars D fd str len s)"

text \<open>For armclang; the names of the standard streams are \<^verbatim>\<open>:tt\<close>, \<open>None\<close> is the null pointer.\<close>

definition sys_open :: "'w usart \<Rightarrow> string option \<Rightarrow> u32 \<Rightarrow> int" where
  "sys_open D name openmode =
     (case name of
        None \<Rightarrow> -1
      | Some name \<Rightarrow>
          if c_str name = '':tt''
          then (if bit openmode (open_w_bit D) then STDOUT_FILENO
                else if bit openmode (open_a_bit D) then STDERR_FILENO
                else STDIN_FILENO)
          else -1)"

definition sys_write :: "'w usart \<Rightarrow> int \<Rightarrow> string \<Rightarrow> nat \<Rightarrow> 'w serial_state \<Rightarrow> (int \<times> 'w serial_state) option" where
  "sys_write D fd str len s =
     map_option (\<lambda>(r, s).
         (if write_error r = WRITE_ERROR_NONE \<and> charsWritten r = len then 0
          else if write_error r = WRITE_ERROR_SEND_FAIL then int len - int (charsWritten r)
          else write_error_code (write_error r), s))
       (prvWriteChars D fd str len s)"

definition sys_close :: "int \<Rightarrow> int" where "sys_close fh = -1"
definition sys_read :: "int \<Rightarrow> nat \<Rightarrow> int" where "sys_read fd len = -1"
definition sys_istty :: "int \<Rightarrow> int" where "sys_istty fh = 0"
definition sys_flen :: "int \<Rightarrow> int" where "sys_flen fh = -1"
definition sys_seek :: "int \<Rightarrow> int \<Rightarrow> int" where "sys_seek fh offset = -1"

section \<open>Output\<close>

text \<open>
  What the documentation of the driver says: \<open>printed\<close> are the characters on the line. A \<open>Send\<close> that succeeds
  puts its characters there; its count reaches their number after \<open>left\<close> queries at most. A mutex is always granted.
\<close>

definition usart_ok :: "'w usart \<Rightarrow> ('w \<Rightarrow> string) \<Rightarrow> ('w \<Rightarrow> nat) \<Rightarrow> ('w \<Rightarrow> nat) \<Rightarrow> bool" where
  "usart_ok D printed goal left \<longleftrightarrow>
     (\<forall>w. \<not> take_fails D w) \<and>
     (\<forall>x w. fst (usart_send D x w) \<and> printed (snd (usart_send D x w)) = printed w @ x \<and> goal (snd (usart_send D x w)) = length x) \<and>
     (\<forall>w. printed (snd (GetTxCount D w)) = printed w \<and> goal (snd (GetTxCount D w)) = goal w \<and>
        (fst (GetTxCount D w) = goal w \<or> left (snd (GetTxCount D w)) < left w))"

lemma wait_sent_ends:
  assumes "usart_ok D printed goal left"
  shows "\<exists>w'. wait_sent D (goal w) w = Some w' \<and> printed w' = printed w"
proof (induction "left w" arbitrary: w rule: less_induct)
  case less
  obtain k w1 where q: "GetTxCount D w = (k, w1)" by fastforce
  have f: "printed w1 = printed w" "goal w1 = goal w" "k = goal w \<or> left w1 < left w"
    using assms q by (auto simp: usart_ok_def dest!: spec [of _ w])
  show ?case
  proof (cases "k = goal w")
    case True
    then show ?thesis using q f by (subst wait_sent.simps) simp
  next
    case False
    then obtain w2 where "wait_sent D (goal w1) w1 = Some w2" "printed w2 = printed w1" using less f(3) by blast
    then show ?thesis using q f False by (subst wait_sent.simps) simp
  qed
qed

lemma write_chars_exact:
  assumes D: "usart_ok D printed goal left" and "xLoggingMutex s = Some False" and "len \<le> length str" and "prvValidFdHandle fd"
  shows "\<exists>w. prvWriteChars D fd str len s = Some (\<lparr>write_error = WRITE_ERROR_NONE, charsWritten = len\<rparr>, s\<lparr>serial_world := w\<rparr>) \<and>
    printed w = printed (serial_world s) @ take len str"
proof -
  obtain b w1 where send: "usart_send D (take len str) (serial_world s) = (b, w1)" by fastforce
  have 1: "b" "printed w1 = printed (serial_world s) @ take len str" "goal w1 = len"
    using D send assms(3) by (auto simp: usart_ok_def dest!: spec [of _ "take len str"] spec [of _ "serial_world s"])
  obtain w2 where "wait_sent D len w1 = Some w2" "printed w2 = printed w1" using wait_sent_ends [OF D, of w1] 1(3) by auto
  moreover have "\<not> take_fails D (serial_world s)" using D by (simp add: usart_ok_def)
  ultimately show ?thesis using assms(2,4) 1 send by (intro exI [of _ w2]) (simp add: prvWriteChars_def)
qed

text \<open>With a driver that sends what it accepts, a write of either C library to the standard output or the error
  output ends, puts exactly its characters on the line, leaves the mutex free and reports success in the way of that
  library; a write to another descriptor has no effect and is refused.\<close>

theorem serial_write_exact:
  assumes "usart_ok D printed goal left" and "xLoggingMutex s = Some False" and "len \<le> length str"
  shows "\<exists>s1 s2. write_gcc D fd str len s = Some (if prvValidFdHandle fd then int len else -1, s1) \<and>
    sys_write D fd str len s = Some (if prvValidFdHandle fd then 0 else -1, s2) \<and> s1 = s2 \<and> xLoggingMutex s1 = Some False \<and>
    printed (serial_world s1) = printed (serial_world s) @ (if prvValidFdHandle fd then take len str else [])"
proof (cases "prvValidFdHandle fd")
  case True
  with write_chars_exact [OF assms] obtain w where
    "prvWriteChars D fd str len s = Some (\<lparr>write_error = WRITE_ERROR_NONE, charsWritten = len\<rparr>, s\<lparr>serial_world := w\<rparr>)"
    "printed w = printed (serial_world s) @ take len str" by blast
  then show ?thesis using True assms(2) by (simp add: write_gcc_def sys_write_def)
next
  case False
  then show ?thesis using assms(2) by (simp add: write_gcc_def sys_write_def prvWriteChars_def)
qed

section \<open>A failed transmission\<close>

lemma wait_sent_result: "wait_sent D n w = Some w' \<Longrightarrow> \<exists>v. GetTxCount D v = (n, w')"
proof (induction D n w w' rule: wait_sent.raw_induct [rotated, consumes 1])
  case (1 f D n w w')
  note IH = "1"(1) and body = "1"(2)
  obtain k w1 where "GetTxCount D w = (k, w1)" by fastforce
  then show ?case using body IH by (cases "k = n") auto
qed

text \<open>When a transmission fails, so that the driver never counts all its characters, the write does not report the
  failure: it never returns, and keeps the mutex, whichever C library called it.\<close>

theorem failed_send_hangs:
  assumes "\<And>v. fst (GetTxCount D v) < len" and "xLoggingMutex s = Some False" and "prvValidFdHandle fd"
    and "\<not> take_fails D (serial_world s)"
  shows "write_gcc D fd str len s = None \<and> sys_write D fd str len s = None"
proof -
  obtain b w where "usart_send D (take len str) (serial_world s) = (b, w)" by fastforce
  moreover have "wait_sent D len w = None"
  proof (rule ccontr)
    assume "wait_sent D len w \<noteq> None"
    then obtain w' where w': "wait_sent D len w = Some w'" by blast
    obtain v where "GetTxCount D v = (len, w')" using wait_sent_result [OF w'] by blast
    then show False using assms(1) [of v] by simp
  qed
  ultimately have "prvWriteChars D fd str len s = None" using assms by (simp add: prvWriteChars_def)
  then show ?thesis by (simp add: write_gcc_def sys_write_def)
qed

section \<open>A line for the witnesses\<close>

text \<open>The characters on the line, how many of the last are counted, and how many there are.\<close>

definition sample_usart :: "bool \<Rightarrow> (string \<times> nat \<times> nat) usart" where
  "sample_usart works = \<lparr>usart_setup = (\<lambda>w. w),
     usart_send = (\<lambda>x w. if works then (True, fst w @ x, 0, length x) else (False, w)),
     GetTxCount = (\<lambda>(p, k, n). if works then (k, p, if k < n then k + 1 else n, n) else (0, p, k, n)),
     mutex_available = (\<lambda>_. True), take_fails = (\<lambda>_. False), open_w_bit = 2, open_a_bit = 3\<rparr>"

lemma sample_usart_ok: "usart_ok (sample_usart True) fst (\<lambda>(p, k, n). n) (\<lambda>(p, k, n). (if k = n then 0 else if n < k then 1 else n - k + 2))"
  by (auto simp: usart_ok_def sample_usart_def)

theorem serial_write_exact_witness:
  "\<exists>s1. write_gcc (sample_usart True) 1 ''hello'' 4 \<lparr>xLoggingMutex = Some False, serial_world = (''> '', 0, 0)\<rparr> = Some (4, s1) \<and>
     fst (serial_world s1) = ''> hell''"
  using serial_write_exact [OF sample_usart_ok, of "\<lparr>xLoggingMutex = Some False, serial_world = (''> '', 0, 0)\<rparr>" 4 "''hello''" 1]
  by (auto simp: prvValidFdHandle_def STDOUT_FILENO_def)

theorem failed_send_hangs_witness:
  "write_gcc (sample_usart False) 1 ''hello'' 4 \<lparr>xLoggingMutex = Some False, serial_world = (''> '', 0, 0)\<rparr> = None"
  using failed_send_hangs [of "sample_usart False" 4 "\<lparr>xLoggingMutex = Some False, serial_world = (''> '', 0, 0)\<rparr>" 1 "''hello''"]
  by (simp add: sample_usart_def prvValidFdHandle_def STDOUT_FILENO_def split: prod.splits)

end
