(* ===== verification/Cdma.thy ===== *)
theory Cdma
  imports Prelude
begin

text \<open>
  The DMA layer of the image signal processor, \<^verbatim>\<open>system_cdma.c\<close>: a pool of two devices, scattered copies
  that are split into one tasklet per channel, and the thread that runs the tasklets from a linked list. The tasklets
  are part of the devices and linked through their own field \<^verbatim>\<open>next\<close>, so that the list can be damaged by
  queueing a tasklet twice. \<open>None\<close> is undefined behaviour and a loop without end. The mutex serialises the
  operations on the list, which are single steps here.
\<close>

section \<open>State\<close>

text \<open>Numbers of channels and of buffers per firmware context; they belong to the firmware library.\<close>

record cdma_config =
  SYSTEM_DMA_MAX_CHANNEL :: nat
  SYSTEM_DMA_TOGGLE_COUNT :: nat
  FIRMWARE_CONTEXT_NUMBER :: nat

definition NUM_CDMA_DEVICES :: nat where "NUM_CDMA_DEVICES = 2"

text \<open>A device is its number in the pool.\<close>

record mem_addr_pair =
  dev_addr :: ptr
  fw_addr :: ptr
  mem_size :: nat
  sys_back_ptr :: "nat option"

definition zero_pair :: mem_addr_pair where
  "zero_pair = \<lparr>dev_addr = 0, fw_addr = 0, mem_size = 0, sys_back_ptr = None\<rparr>"

datatype dma_direction = SYS_DMA_TO_DEVICE | SYS_DMA_FROM_DEVICE

text \<open>
  \<open>comp\<close> is \<open>None\<close> when there is no semaphore, else whether it was given; \<open>complete_func\<close> is a pointer.
\<close>

record cdma_device =
  sg_device_nents :: "nat \<Rightarrow> nat \<Rightarrow> u32"
  sg_fwmem_nents :: "nat \<Rightarrow> nat \<Rightarrow> u32"
  mem_addrs :: "nat \<Rightarrow> nat \<Rightarrow> nat \<Rightarrow> mem_addr_pair"
  cdma_buff_loc :: nat
  cdma_direction :: dma_direction
  cur_fw_ctx_id :: nat
  complete_func :: ptr
  nents_done :: u32
  comp :: "bool option"

text \<open>A tasklet is its place: device, context, buffer, channel.\<close>

type_synonym tasklet = "nat \<times> nat \<times> nat \<times> nat"

text \<open>
  The devices, the array of available ones, the list of tasklets, the memory, and the calls of completion
  functions so far, with device and context.
\<close>

record cdma_state =
  pool_cdma_devices :: "nat \<Rightarrow> cdma_device"
  avail_cdma_devices :: "nat option list"
  head_tasklet :: "tasklet option"
  next_tasklet :: "tasklet \<Rightarrow> tasklet option"
  memory_content :: "ptr \<Rightarrow> u8"
  completed :: "(nat \<times> nat) list"

definition update_device :: "nat \<Rightarrow> (cdma_device \<Rightarrow> cdma_device) \<Rightarrow> cdma_state \<Rightarrow> cdma_state" where
  "update_device d f s = s\<lparr>pool_cdma_devices := (pool_cdma_devices s)(d := f (pool_cdma_devices s d))\<rparr>"

section \<open>Tasklets\<close>

text \<open>The last element, found by following the links.\<close>

partial_function (option) last_tasklet :: "(tasklet \<Rightarrow> tasklet option) \<Rightarrow> tasklet \<Rightarrow> tasklet option" where
  "last_tasklet nxt cur = (case nxt cur of None \<Rightarrow> Some cur | Some l \<Rightarrow> last_tasklet nxt l)"

definition tasklet_schedule :: "tasklet \<Rightarrow> cdma_state \<Rightarrow> cdma_state option" where
  "tasklet_schedule new_tasklet s =
     (let nxt = (next_tasklet s)(new_tasklet := None)
      in case head_tasklet s of
           None \<Rightarrow> Some (s\<lparr>next_tasklet := nxt, head_tasklet := Some new_tasklet\<rparr>)
         | Some h \<Rightarrow>
             (case last_tasklet nxt h of
                None \<Rightarrow> None
              | Some l \<Rightarrow> Some (s\<lparr>next_tasklet := nxt(l := Some new_tasklet)\<rparr>)))"

section \<open>Completion\<close>

definition give_completion :: "cdma_device \<Rightarrow> cdma_device" where
  "give_completion D = (case comp D of None \<Rightarrow> D | Some _ \<Rightarrow> D\<lparr>comp := Some True\<rparr>)"

definition dma_complete_func :: "nat \<Rightarrow> cdma_state \<Rightarrow> cdma_state" where
  "dma_complete_func d s =
     (let s = update_device d (\<lambda>D. D\<lparr>nents_done := nents_done D + 1\<rparr>) s;
          D = pool_cdma_devices s d
      in if nents_done D \<ge> sg_device_nents D (cur_fw_ctx_id D) (cdma_buff_loc D)
         then (if complete_func D \<noteq> 0 then s\<lparr>completed := completed s @ [(d, cur_fw_ctx_id D)]\<rparr>
               else update_device d give_completion s)
         else s)"

text \<open>\<open>memcpy\<close>, which must not be given overlapping blocks.\<close>

definition mem_copy :: "ptr \<Rightarrow> ptr \<Rightarrow> nat \<Rightarrow> (ptr \<Rightarrow> u8) \<Rightarrow> ptr \<Rightarrow> u8" where
  "mem_copy dst src n m = (\<lambda>a. if dst \<le> a \<and> a < dst + n then m (src + (a - dst)) else m a)"

definition apart :: "ptr \<Rightarrow> ptr \<Rightarrow> nat \<Rightarrow> bool" where
  "apart dst src n \<longleftrightarrow> dst + n \<le> src \<or> src + n \<le> dst"

definition memcopy_func :: "tasklet \<Rightarrow> cdma_state \<Rightarrow> cdma_state option" where
  "memcopy_func t s =
     (let (d, c, b, i) = t; mem_addr = mem_addrs (pool_cdma_devices s d) c b i
      in case sys_back_ptr mem_addr of
           None \<Rightarrow> None
         | Some back \<Rightarrow>
             (let (dst_mem, src_mem) =
                (if cdma_direction (pool_cdma_devices s back) = SYS_DMA_TO_DEVICE
                 then (dev_addr mem_addr, fw_addr mem_addr) else (fw_addr mem_addr, dev_addr mem_addr))
              in if \<not> apart dst_mem src_mem (mem_size mem_addr) then None
                 else Some (dma_complete_func back
                        (s\<lparr>memory_content := mem_copy dst_mem src_mem (mem_size mem_addr) (memory_content s)\<rparr>))))"

text \<open>One round of the thread.\<close>

definition cdma_processing_round :: "cdma_state \<Rightarrow> cdma_state option" where
  "cdma_processing_round s =
     (case head_tasklet s of
        None \<Rightarrow> Some s
      | Some t \<Rightarrow> memcopy_func t (s\<lparr>head_tasklet := next_tasklet s t\<rparr>))"

fun cdma_rounds :: "nat \<Rightarrow> cdma_state \<Rightarrow> cdma_state option" where
  "cdma_rounds 0 s = Some s"
| "cdma_rounds (Suc k) s = (case cdma_processing_round s of None \<Rightarrow> None | Some s \<Rightarrow> cdma_rounds k s)"

section \<open>The pool\<close>

text \<open>The first available device; its number of channels is cleared along with everything that was set up.\<close>

fun first_available :: "nat option list \<Rightarrow> nat option \<times> nat option list" where
  "first_available [] = (None, [])"
| "first_available (Some d # ds) = (Some d, None # ds)"
| "first_available (None # ds) = (let (r, ds) = first_available ds in (r, None # ds))"

definition clear_device :: "cdma_config \<Rightarrow> cdma_device \<Rightarrow> cdma_device" where
  "clear_device C D = D\<lparr>
     sg_device_nents := (\<lambda>c b. if c < FIRMWARE_CONTEXT_NUMBER C \<and> b < SYSTEM_DMA_TOGGLE_COUNT C then 0 else sg_device_nents D c b),
     sg_fwmem_nents := (\<lambda>c b. if c < FIRMWARE_CONTEXT_NUMBER C \<and> b < SYSTEM_DMA_TOGGLE_COUNT C then 0 else sg_fwmem_nents D c b),
     mem_addrs := (\<lambda>c b i. if c < FIRMWARE_CONTEXT_NUMBER C \<and> b < SYSTEM_DMA_TOGGLE_COUNT C \<and> i < SYSTEM_DMA_MAX_CHANNEL C
                           then zero_pair else mem_addrs D c b i)\<rparr>"

text \<open>The result and what is stored through \<open>ctx\<close>, whose null pointer is \<open>ctx_given = False\<close>.\<close>

definition system_cdma_init :: "cdma_config \<Rightarrow> bool \<Rightarrow> cdma_state \<Rightarrow> int \<times> nat option \<times> cdma_state" where
  "system_cdma_init C ctx_given s =
     (if \<not> ctx_given then (-1, None, s)
      else
        (case first_available (avail_cdma_devices s) of
           (None, _) \<Rightarrow> (-1, None, s)
         | (Some d, avail) \<Rightarrow> (0, Some d, update_device d (clear_device C) (s\<lparr>avail_cdma_devices := avail\<rparr>))))"

text \<open>The check of the argument, an address: the number of a device, or something else; then the free place.\<close>

fun put_back :: "nat \<Rightarrow> nat option list \<Rightarrow> nat option list" where
  "put_back d [] = []"
| "put_back d (None # ds) = Some d # ds"
| "put_back d (Some x # ds) = Some x # put_back d ds"

definition destroyable :: "nat option list \<Rightarrow> nat \<Rightarrow> bool" where
  "destroyable avail d \<longleftrightarrow> d < NUM_CDMA_DEVICES \<and> Some d \<notin> set (take NUM_CDMA_DEVICES avail)"

definition system_cdma_destroy :: "nat option \<Rightarrow> cdma_state \<Rightarrow> int \<times> cdma_state" where
  "system_cdma_destroy ctx s =
     (case ctx of
        None \<Rightarrow> (-1, s)
      | Some d \<Rightarrow>
          if destroyable (avail_cdma_devices s) d
          then (0, s\<lparr>avail_cdma_devices := put_back d (avail_cdma_devices s)\<rparr>) else (-1, s))"

section \<open>Set-up of the copies\<close>

text \<open>Addresses and sizes from the caller: pairs of an address and a size. A null pointer is \<open>None\<close>.\<close>

definition set_device_pairs :: "nat \<Rightarrow> nat \<Rightarrow> nat \<Rightarrow> (ptr \<times> nat) list \<Rightarrow> nat \<Rightarrow> cdma_device \<Rightarrow> cdma_device" where
  "set_device_pairs d c b pairs n D =
     D\<lparr>mem_addrs := (mem_addrs D)(c := (mem_addrs D c)(b := (\<lambda>i. if i < n
         then (mem_addrs D c b i)\<lparr>dev_addr := fst (pairs ! i), mem_size := snd (pairs ! i), sys_back_ptr := Some d\<rparr>
         else mem_addrs D c b i)))\<rparr>"

definition set_fwmem_pairs :: "nat \<Rightarrow> nat \<Rightarrow> nat \<Rightarrow> (ptr \<times> nat) list \<Rightarrow> nat \<Rightarrow> cdma_device \<Rightarrow> cdma_device" where
  "set_fwmem_pairs d c b pairs n D =
     D\<lparr>mem_addrs := (mem_addrs D)(c := (mem_addrs D c)(b := (\<lambda>i. if i < n
         then (mem_addrs D c b i)\<lparr>fw_addr := fst (pairs ! i), mem_size := snd (pairs ! i), sys_back_ptr := Some d\<rparr>
         else mem_addrs D c b i)))\<rparr>"

text \<open>
  A negative buffer passes the checks and is used as an index, and a negative number of pairs becomes a large
  number of entries. \<open>None\<close> also when the array of pairs is shorter than the number given.
\<close>

definition system_cdma_sg_device_setup ::
  "cdma_config \<Rightarrow> nat option \<Rightarrow> int \<Rightarrow> (ptr \<times> nat) list option \<Rightarrow> int \<Rightarrow> nat \<Rightarrow> cdma_state \<Rightarrow> (int \<times> cdma_state) option" where
  "system_cdma_sg_device_setup C ctx buff_loc pairs addr_pairs c s =
     (case (ctx, pairs) of
        (Some d, Some ps) \<Rightarrow>
          if addr_pairs = 0 \<or> buff_loc \<ge> int (SYSTEM_DMA_TOGGLE_COUNT C) \<or> addr_pairs > int (SYSTEM_DMA_MAX_CHANNEL C) \<or>
             c \<ge> FIRMWARE_CONTEXT_NUMBER C
          then Some (-1, s)
          else if buff_loc < 0 \<or> nat addr_pairs > length ps then None
          else
            (let b = nat buff_loc; n = nat addr_pairs
             in Some (0, update_device d (\<lambda>D. set_device_pairs d c b ps n
                  (D\<lparr>sg_device_nents := (sg_device_nents D)(c := (sg_device_nents D c)(b := of_int addr_pairs))\<rparr>)) s))
      | _ \<Rightarrow> Some (-1, s))"

text \<open>The number of pairs is not compared with the number of channels: more of them are written behind the array.\<close>

definition system_cdma_sg_fwmem_setup ::
  "cdma_config \<Rightarrow> nat option \<Rightarrow> int \<Rightarrow> (ptr \<times> nat) list option \<Rightarrow> int \<Rightarrow> nat \<Rightarrow> cdma_state \<Rightarrow> (int \<times> cdma_state) option" where
  "system_cdma_sg_fwmem_setup C ctx buff_loc pairs addr_pairs c s =
     (case (ctx, pairs) of
        (Some d, Some ps) \<Rightarrow>
          if addr_pairs = 0 \<or> buff_loc \<ge> int (SYSTEM_DMA_TOGGLE_COUNT C) \<or> c \<ge> FIRMWARE_CONTEXT_NUMBER C
          then Some (-1, s)
          else if buff_loc < 0 \<or> addr_pairs > int (SYSTEM_DMA_MAX_CHANNEL C) \<or> nat addr_pairs > length ps then None
          else
            (let b = nat buff_loc; n = nat addr_pairs
             in Some (0, update_device d (\<lambda>D. set_fwmem_pairs d c b ps n
                  (D\<lparr>sg_fwmem_nents := (sg_fwmem_nents D)(c := (sg_fwmem_nents D c)(b := of_int addr_pairs))\<rparr>)) s))
      | _ \<Rightarrow> Some (-1, s))"

section \<open>The copy\<close>

text \<open>
  The loop over all channels of the device; after each tasklet is queued the thread, which has a higher priority,
  may run some rounds.
\<close>

fun schedule_channels :: "(nat \<Rightarrow> nat) \<Rightarrow> nat \<Rightarrow> nat \<Rightarrow> nat \<Rightarrow> nat list \<Rightarrow> cdma_state \<Rightarrow> cdma_state option" where
  "schedule_channels between d c b [] s = Some s"
| "schedule_channels between d c b (i # is) s =
     (case tasklet_schedule (d, c, b, i) s of
        None \<Rightarrow> None
      | Some s \<Rightarrow>
          (case cdma_rounds (between i) s of
             None \<Rightarrow> None
           | Some s \<Rightarrow> schedule_channels between d c b is s))"

text \<open>Blocking until the semaphore is given; \<open>None\<close> when no tasklet is left that could give it.\<close>

partial_function (option) wait_for_completion :: "nat \<Rightarrow> cdma_state \<Rightarrow> cdma_state option" where
  "wait_for_completion d s =
     (case comp (pool_cdma_devices s d) of
        None \<Rightarrow> Some s
      | Some given \<Rightarrow>
          if given then Some (update_device d (\<lambda>D. D\<lparr>comp := None\<rparr>) s)
          else if head_tasklet s = None then None
          else (case cdma_processing_round s of None \<Rightarrow> None | Some s \<Rightarrow> wait_for_completion d s))"

definition start_copy :: "nat \<Rightarrow> nat \<Rightarrow> dma_direction \<Rightarrow> ptr \<Rightarrow> cdma_device \<Rightarrow> cdma_device" where
  "start_copy c b direction func D =
     (let D = D\<lparr>cur_fw_ctx_id := c, nents_done := 0\<rparr>;
          D = (if func = 0 then D\<lparr>complete_func := 0, comp := Some False\<rparr> else D\<lparr>complete_func := func\<rparr>)
      in D\<lparr>cdma_direction := direction, cdma_buff_loc := b\<rparr>)"

definition system_cdma_copy_sg ::
  "cdma_config \<Rightarrow> (nat \<Rightarrow> nat) \<Rightarrow> nat option \<Rightarrow> int \<Rightarrow> dma_direction \<Rightarrow> ptr \<Rightarrow> nat \<Rightarrow> cdma_state \<Rightarrow> (int \<times> cdma_state) option" where
  "system_cdma_copy_sg C between ctx buff_loc direction func c s =
     (case ctx of
        None \<Rightarrow> Some (-1, s)
      | Some d \<Rightarrow>
          if buff_loc < 0 \<or> buff_loc \<ge> int (SYSTEM_DMA_TOGGLE_COUNT C) \<or> c \<ge> FIRMWARE_CONTEXT_NUMBER C then None
          else
            (let b = nat buff_loc; D = pool_cdma_devices s d; src_nents = sg_device_nents D c b
             in if src_nents \<noteq> sg_fwmem_nents D c b \<or> src_nents = 0 then Some (-1, s)
                else
                  (case schedule_channels between d c b [0..<SYSTEM_DMA_MAX_CHANNEL C] (update_device d (start_copy c b direction func) s) of
                     None \<Rightarrow> None
                   | Some s \<Rightarrow>
                       if func = 0 then map_option (Pair 0) (wait_for_completion d s) else Some (0, s))))"

section \<open>The pool of devices\<close>

definition devices_ok :: "nat option list \<Rightarrow> bool" where
  "devices_ok avail \<longleftrightarrow> length avail = NUM_CDMA_DEVICES \<and> distinct (filter (\<lambda>x. x \<noteq> None) avail) \<and>
     (\<forall>d. Some d \<in> set avail \<longrightarrow> d < NUM_CDMA_DEVICES)"

definition devices_used :: "nat option list \<Rightarrow> nat set" where
  "devices_used avail = {d. d < NUM_CDMA_DEVICES \<and> Some d \<notin> set avail}"

definition destroy_device :: "nat \<Rightarrow> nat option list \<Rightarrow> nat option list" where
  "destroy_device d avail = (if destroyable avail d then put_back d avail else avail)"

lemma devices_cases:
  assumes "devices_ok avail"
  obtains "avail = [None, None]" | "avail = [Some 0, None]" | "avail = [Some 1, None]" | "avail = [None, Some 0]"
    | "avail = [None, Some 1]" | "avail = [Some 0, Some 1]" | "avail = [Some 1, Some 0]"
proof -
  obtain x y where "avail = [x, y]" using assms by (auto simp: devices_ok_def NUM_CDMA_DEVICES_def numeral_2_eq_2 length_Suc_conv)
  then show ?thesis using assms that
    by (cases x; cases y) (auto simp: devices_ok_def NUM_CDMA_DEVICES_def less_2_cases_iff)
qed

text \<open>The pool keeps the contract of a pool of slots.\<close>

interpretation cdma_pool: slot_pool first_available destroy_device devices_used NUM_CDMA_DEVICES devices_ok
proof unfold_locales
  fix p :: "nat option list" and i :: nat
  assume ok: "devices_ok p"
  note defs = devices_ok_def devices_used_def destroy_device_def destroyable_def NUM_CDMA_DEVICES_def less_2_cases_iff
  show "devices_ok (snd (first_available p))" using ok by (cases rule: devices_cases) (auto simp: defs)
  show "devices_ok (destroy_device i p)" using ok by (cases rule: devices_cases) (auto simp: defs)
  show "devices_used p \<subseteq> {..<NUM_CDMA_DEVICES}" by (auto simp: devices_used_def)
  have "devices_used p = {..<NUM_CDMA_DEVICES} \<longleftrightarrow> (\<forall>d<NUM_CDMA_DEVICES. Some d \<notin> set p)"
    unfolding devices_used_def by blast
  also have "\<dots> \<longleftrightarrow> Some 0 \<notin> set p \<and> Some 1 \<notin> set p" by (auto simp: NUM_CDMA_DEVICES_def less_2_cases_iff)
  finally have all: "devices_used p = {..<NUM_CDMA_DEVICES} \<longleftrightarrow> Some 0 \<notin> set p \<and> Some 1 \<notin> set p" .
  show "fst (first_available p) = None \<longleftrightarrow> devices_used p = {..<NUM_CDMA_DEVICES}"
    unfolding all using ok by (cases rule: devices_cases) simp_all
  show "fst (first_available p) = None \<Longrightarrow> snd (first_available p) = p" using ok by (cases rule: devices_cases) auto
  show "fst (first_available p) = Some i \<Longrightarrow>
      i \<notin> devices_used p \<and> i < NUM_CDMA_DEVICES \<and> devices_used (snd (first_available p)) = insert i (devices_used p)"
    using ok by (cases rule: devices_cases) (auto simp: defs)
  show "devices_used (destroy_device i p) = devices_used p - {i}"
    using ok by (cases rule: devices_cases) (auto simp: defs)
qed

section \<open>The list of tasklets\<close>

text \<open>The links from \<open>h\<close> on spell the list \<open>ts\<close>.\<close>

fun chain :: "(tasklet \<Rightarrow> tasklet option) \<Rightarrow> tasklet option \<Rightarrow> tasklet list \<Rightarrow> bool" where
  "chain nxt h [] \<longleftrightarrow> h = None"
| "chain nxt h (t # ts) \<longleftrightarrow> h = Some t \<and> chain nxt (nxt t) ts"

abbreviation queued :: "cdma_state \<Rightarrow> tasklet list \<Rightarrow> bool" where
  "queued s ts \<equiv> chain (next_tasklet s) (head_tasklet s) ts"

lemma chain_update: "t \<notin> set ts \<Longrightarrow> chain (nxt(t := x)) h ts = chain nxt h ts"
  by (induction ts arbitrary: h) auto

lemma chain_unique: "chain nxt h ts \<Longrightarrow> chain nxt h us \<Longrightarrow> ts = us"
  by (induction ts arbitrary: h us) (case_tac us; force)+

lemma chain_suffix: "chain nxt h (xs @ t # ys) \<Longrightarrow> chain nxt (nxt t) ys"
  by (induction xs arbitrary: h) auto

lemma chain_distinct: "chain nxt h ts \<Longrightarrow> distinct ts"
proof (induction ts arbitrary: h)
  case (Cons t ts)
  have "t \<notin> set ts"
  proof
    assume "t \<in> set ts"
    then obtain xs ys where ts: "ts = xs @ t # ys" by (meson split_list)
    then have "chain nxt (nxt t) ys" "chain nxt (nxt t) ts" using Cons.prems chain_suffix [of nxt _ xs t ys] by auto
    then have "ys = ts" by (rule chain_unique)
    then show False using ts by simp
  qed
  then show ?case using Cons by auto
qed simp

lemma last_tasklet_chain:
  "chain nxt (nxt t) ts \<Longrightarrow> last_tasklet nxt t = Some (last (t # ts))"
proof (induction ts arbitrary: t)
  case Nil
  then show ?case by (subst last_tasklet.simps) simp
next
  case (Cons u ts)
  then show ?case by (subst last_tasklet.simps) simp
qed

lemma chain_append_one:
  "chain nxt h (ts @ [l]) \<Longrightarrow> t \<notin> set (ts @ [l]) \<Longrightarrow> nxt t = None \<Longrightarrow> chain (nxt(l := Some t)) h (ts @ [l, t])"
proof (induction ts arbitrary: h)
  case Nil
  then show ?case by simp
next
  case (Cons u ts)
  have "distinct ((u # ts) @ [l])" using Cons.prems(1) by (rule chain_distinct)
  then have "u \<noteq> l" by simp
  moreover have "chain (nxt(l := Some t)) (nxt u) (ts @ [l, t])"
    by (rule Cons.IH) (use Cons.prems in simp_all)
  moreover have "h = Some u" using Cons.prems(1) by simp
  ultimately show ?case by (simp del: fun_upd_apply) simp
qed

lemma schedule_queues:
  assumes "queued s ts" and "t \<notin> set ts"
  shows "\<exists>s'. tasklet_schedule t s = Some s' \<and> queued s' (ts @ [t]) \<and>
    s' = s\<lparr>next_tasklet := next_tasklet s', head_tasklet := head_tasklet s'\<rparr>"
proof (cases ts)
  case Nil
  then show ?thesis using assms by (simp add: tasklet_schedule_def)
next
  case (Cons h us)
  let ?nxt = "(next_tasklet s)(t := None)"
  have c: "chain ?nxt (head_tasklet s) ts" using assms by (simp add: chain_update)
  obtain vs l where ts: "ts = vs @ [l]" using Cons by (metis neq_Nil_conv rev_exhaust)
  have "head_tasklet s = Some h" using assms(1) Cons by simp
  moreover have "last_tasklet ?nxt h = Some l"
    using c Cons ts last_tasklet_chain [of ?nxt h us] by (metis chain.simps(2) last_snoc)
  ultimately have "tasklet_schedule t s = Some (s\<lparr>next_tasklet := ?nxt(l := Some t)\<rparr>)" by (simp add: tasklet_schedule_def)
  moreover have "chain (?nxt(l := Some t)) (head_tasklet s) (ts @ [t])"
    using chain_append_one [of ?nxt "head_tasklet s" vs l t] c ts assms(2) by simp
  ultimately show ?thesis by simp
qed

text \<open>Without an end the search does not return.\<close>

lemma last_tasklet_None:
  assumes "\<forall>x\<in>S. \<exists>y\<in>S. nxt x = Some y" and "t \<in> S"
  shows "last_tasklet nxt t = None"
proof -
  have "last_tasklet nxt t = Some r \<Longrightarrow> (\<forall>x\<in>S. \<exists>y\<in>S. nxt x = Some y) \<Longrightarrow> t \<in> S \<Longrightarrow> False" for nxt t r
  proof (induction nxt t r rule: last_tasklet.raw_induct [rotated, consumes 1])
    case (1 f nxt t r)
    note IH = "1"(1) and body = "1"(2)
    obtain y where y: "y \<in> S" "nxt t = Some y" using "1"(3,4) by blast
    then have "f nxt y = Some r" using body by simp
    from IH [OF this "1"(3) y(1)] show ?case .
  qed
  then show ?thesis using assms by (cases "last_tasklet nxt t") blast+
qed

section \<open>A whole copy\<close>

text \<open>What one tasklet copies, and a device whose channels are all set up.\<close>

definition pair_copy :: "dma_direction \<Rightarrow> mem_addr_pair \<Rightarrow> (ptr \<Rightarrow> u8) \<Rightarrow> ptr \<Rightarrow> u8" where
  "pair_copy direction p =
     (if direction = SYS_DMA_TO_DEVICE then mem_copy (dev_addr p) (fw_addr p) (mem_size p)
      else mem_copy (fw_addr p) (dev_addr p) (mem_size p))"

definition all_channels_ready :: "cdma_config \<Rightarrow> nat \<Rightarrow> nat \<Rightarrow> nat \<Rightarrow> cdma_state \<Rightarrow> bool" where
  "all_channels_ready C d c b s \<longleftrightarrow>
     (let D = pool_cdma_devices s d; n = SYSTEM_DMA_MAX_CHANNEL C
      in c < FIRMWARE_CONTEXT_NUMBER C \<and> b < SYSTEM_DMA_TOGGLE_COUNT C \<and> 0 < n \<and> n < 2 ^ 32 \<and>
         sg_device_nents D c b = of_nat n \<and> sg_fwmem_nents D c b = of_nat n \<and>
         (\<forall>i<n. sys_back_ptr (mem_addrs D c b i) = Some d \<and>
            apart (dev_addr (mem_addrs D c b i)) (fw_addr (mem_addrs D c b i)) (mem_size (mem_addrs D c b i))))"

text \<open>After the first \<open>i\<close> tasklets have been queued and \<open>j\<close> of them have run, from the state \<open>s0\<close> of the call.\<close>

definition copy_inv ::
  "cdma_config \<Rightarrow> nat \<Rightarrow> nat \<Rightarrow> nat \<Rightarrow> dma_direction \<Rightarrow> ptr \<Rightarrow> cdma_state \<Rightarrow> nat \<Rightarrow> nat \<Rightarrow> cdma_state \<Rightarrow> bool" where
  "copy_inv C d c b direction func s0 i j s \<longleftrightarrow>
     (let D = start_copy c b direction func (pool_cdma_devices s0 d); n = SYSTEM_DMA_MAX_CHANNEL C
      in queued s (map (\<lambda>k. (d, c, b, k)) [j..<i]) \<and>
         memory_content s = fold (\<lambda>k. pair_copy direction (mem_addrs (pool_cdma_devices s0 d) c b k)) [0..<j] (memory_content s0) \<and>
         pool_cdma_devices s = (pool_cdma_devices s0)(d := D\<lparr>nents_done := of_nat j,
           comp := (if func = 0 then Some (j = n) else comp D)\<rparr>) \<and>
         completed s = completed s0 @ (if func \<noteq> 0 \<and> j = n then [(d, c)] else []) \<and> j \<le> i \<and> i \<le> n)"

lemma start_copy_fields [simp]:
  "mem_addrs (start_copy c b direction func D) = mem_addrs D" "sg_device_nents (start_copy c b direction func D) = sg_device_nents D"
  "cdma_direction (start_copy c b direction func D) = direction" "cur_fw_ctx_id (start_copy c b direction func D) = c"
  "cdma_buff_loc (start_copy c b direction func D) = b" "complete_func (start_copy c b direction func D) = func"
  "nents_done (start_copy c b direction func D) = 0" "func = 0 \<Longrightarrow> comp (start_copy c b direction func D) = Some False"
  by (simp_all add: start_copy_def Let_def)

lemma nents_reached:
  assumes "n < 2 ^ 32" and "j < n"
  shows "(of_nat n :: u32) \<le> of_nat j + 1 \<longleftrightarrow> j + 1 = n"
proof -
  have "(of_nat n :: u32) \<le> of_nat j + 1 \<longleftrightarrow> (of_nat n :: u32) \<le> of_nat (j + 1)" by (simp add: add.commute)
  also have "\<dots> \<longleftrightarrow> n \<le> j + 1"
    using assms by (simp only: word_le_nat_alt unat_of_nat) (simp add: take_bit_nat_eq_self unsigned_of_nat)
  finally show ?thesis using assms(2) by linarith
qed

lemma copy_round:
  assumes r: "all_channels_ready C d c b s0" and inv: "copy_inv C d c b direction func s0 i j s" and j: "j < i"
  shows "\<exists>s'. cdma_processing_round s = Some s' \<and> copy_inv C d c b direction func s0 i (Suc j) s'"
proof -
  let ?n = "SYSTEM_DMA_MAX_CHANNEL C" and ?D0 = "pool_cdma_devices s0 d"
  let ?p = "mem_addrs ?D0 c b j"
  have in_: "i \<le> ?n" using inv by (simp add: copy_inv_def Let_def)
  have p: "sys_back_ptr ?p = Some d" "apart (dev_addr ?p) (fw_addr ?p) (mem_size ?p)" and n: "?n < 2 ^ 32"
    "sg_device_nents ?D0 c b = of_nat ?n"
    using r in_ j by (auto simp: all_channels_ready_def Let_def)
  have q: "head_tasklet s = Some (d, c, b, j)" "chain (next_tasklet s) (next_tasklet s (d, c, b, j)) (map (\<lambda>k. (d, c, b, k)) [Suc j..<i])"
    using inv j by (simp_all add: copy_inv_def Let_def upt_conv_Cons)
  have D: "pool_cdma_devices s d = (start_copy c b direction func ?D0)\<lparr>nents_done := of_nat j,
      comp := (if func = 0 then Some (j = ?n) else comp (start_copy c b direction func ?D0))\<rparr>"
    using inv by (simp add: copy_inv_def Let_def)
  have ap: "apart (fw_addr ?p) (dev_addr ?p) (mem_size ?p)" using p(2) by (auto simp: apart_def)
  have jn: "j < ?n" using in_ j by simp
  note reached = nents_reached [OF n(1) jn]
  have fin: "cdma_processing_round s = Some (dma_complete_func d (s\<lparr>head_tasklet := next_tasklet s (d, c, b, j),
      memory_content := pair_copy direction ?p (memory_content s)\<rparr>))"
    using q(1) D p ap by (simp add: cdma_processing_round_def memcopy_func_def pair_copy_def Let_def)
  show ?thesis
  proof (intro exI conjI, rule fin)
    show "copy_inv C d c b direction func s0 i (Suc j) (dma_complete_func d (s\<lparr>head_tasklet := next_tasklet s (d, c, b, j),
        memory_content := pair_copy direction ?p (memory_content s)\<rparr>))"
      using inv q(2) D n(2) reached jn j
      by (auto simp: copy_inv_def dma_complete_func_def update_device_def give_completion_def Let_def add.commute)
  qed
qed

lemma copy_rounds:
  assumes "all_channels_ready C d c b s0"
  shows "copy_inv C d c b direction func s0 i j s \<Longrightarrow>
    \<exists>s'. cdma_rounds k s = Some s' \<and> copy_inv C d c b direction func s0 i (min i (j + k)) s' \<and> (j = i \<longrightarrow> s' = s)"
proof (induction k arbitrary: j s)
  case 0
  then have "j \<le> i" by (simp add: copy_inv_def Let_def)
  then show ?case using 0 by (simp add: min_absorb2)
next
  case (Suc k)
  have ji: "j \<le> i" using Suc.prems by (simp add: copy_inv_def Let_def)
  show ?case
  proof (cases "j = i")
    case True
    then have "head_tasklet s = None" using Suc.prems by (simp add: copy_inv_def Let_def)
    then have "cdma_rounds (Suc k) s = cdma_rounds k s" by (simp add: cdma_processing_round_def)
    then show ?thesis using Suc.IH [OF Suc.prems] True by simp
  next
    case False
    then obtain s1 where 1: "cdma_processing_round s = Some s1" "copy_inv C d c b direction func s0 i (Suc j) s1"
      using copy_round [OF assms Suc.prems] ji by auto
    then show ?thesis using Suc.IH [OF 1(2)] False by auto
  qed
qed

lemma copy_schedule:
  assumes inv: "copy_inv C d c b direction func s0 i j s" and "i < SYSTEM_DMA_MAX_CHANNEL C"
  shows "\<exists>s'. tasklet_schedule (d, c, b, i) s = Some s' \<and> copy_inv C d c b direction func s0 (Suc i) j s'"
proof -
  have q: "queued s (map (\<lambda>k. (d, c, b, k)) [j..<i])" and ji: "j \<le> i" using inv by (simp_all add: copy_inv_def Let_def)
  have new: "(d, c, b, i) \<notin> set (map (\<lambda>k. (d, c, b, k)) [j..<i])" by auto
  obtain s' where 1: "tasklet_schedule (d, c, b, i) s = Some s'" "queued s' (map (\<lambda>k. (d, c, b, k)) [j..<i] @ [(d, c, b, i)])"
    "s' = s\<lparr>next_tasklet := next_tasklet s', head_tasklet := head_tasklet s'\<rparr>"
    using schedule_queues [OF q new] by (elim exE conjE that)
  have f: "pool_cdma_devices s' = pool_cdma_devices s" "memory_content s' = memory_content s" "completed s' = completed s"
    by (subst 1(3), simp)+
  have "copy_inv C d c b direction func s0 (Suc i) j s'"
    using inv 1(2) ji assms(2) f unfolding copy_inv_def Let_def by simp
  then show ?thesis using 1(1) by blast
qed

lemma copy_loop:
  assumes r: "all_channels_ready C d c b s0"
  shows "copy_inv C d c b direction func s0 i j s \<Longrightarrow> n = SYSTEM_DMA_MAX_CHANNEL C \<Longrightarrow>
    \<exists>s' j'. schedule_channels between d c b [i..<n] s = Some s' \<and> copy_inv C d c b direction func s0 n j' s'"
proof (induction "n - i" arbitrary: i j s)
  case 0
  then have "i = n" by (auto simp: copy_inv_def Let_def)
  then show ?case using 0 by auto
next
  case (Suc m)
  then have i: "i < n" by simp
  obtain s1 where 1: "tasklet_schedule (d, c, b, i) s = Some s1" "copy_inv C d c b direction func s0 (Suc i) j s1"
    using copy_schedule [OF Suc.prems(1)] i Suc.prems(2) by auto
  obtain s2 where 2: "cdma_rounds (between i) s1 = Some s2" "copy_inv C d c b direction func s0 (Suc i) (min (Suc i) (j + between i)) s2"
    using copy_rounds [OF r 1(2)] by blast
  have "m = n - Suc i" using Suc.hyps(2) by simp
  from Suc.hyps(1) [OF this 2(2) Suc.prems(2)] show ?case using 1(1) 2(1) i by (simp add: upt_conv_Cons)
qed

lemma copy_wait:
  assumes r: "all_channels_ready C d c b s0" and n: "n = SYSTEM_DMA_MAX_CHANNEL C" and f: "func = 0"
  shows "copy_inv C d c b direction func s0 n j s \<Longrightarrow>
    \<exists>s'. wait_for_completion d s = Some (update_device d (\<lambda>D. D\<lparr>comp := None\<rparr>) s') \<and> copy_inv C d c b direction func s0 n n s'"
proof (induction "n - j" arbitrary: j s)
  case 0
  then have "j = n" by (auto simp: copy_inv_def Let_def)
  then show ?case using 0 n f by (subst wait_for_completion.simps) (auto simp: copy_inv_def Let_def)
next
  case (Suc m)
  then have j: "j < n" by simp
  obtain s1 where 1: "cdma_processing_round s = Some s1" "copy_inv C d c b direction func s0 n (Suc j) s1"
    using copy_round [OF r Suc.prems j] by blast
  have "head_tasklet s = Some (d, c, b, j)" "comp (pool_cdma_devices s d) = Some False"
    using Suc.prems j n f by (simp_all add: copy_inv_def Let_def upt_conv_Cons)
  then have "wait_for_completion d s = wait_for_completion d s1"
    by (subst wait_for_completion.simps) (simp add: 1(1))
  moreover have "m = n - Suc j" using Suc.hyps(2) by simp
  ultimately show ?case using Suc.hyps(1) 1(2) by simp
qed
definition copied ::
  "cdma_config \<Rightarrow> nat \<Rightarrow> nat \<Rightarrow> nat \<Rightarrow> dma_direction \<Rightarrow> ptr \<Rightarrow> cdma_state \<Rightarrow> cdma_state \<Rightarrow> bool" where
  "copied C d c b direction func s0 s \<longleftrightarrow>
     head_tasklet s = None \<and>
     memory_content s = fold (\<lambda>k. pair_copy direction (mem_addrs (pool_cdma_devices s0 d) c b k)) [0..<SYSTEM_DMA_MAX_CHANNEL C]
       (memory_content s0) \<and>
     completed s = completed s0 @ (if func = 0 then [] else [(d, c)]) \<and>
     (\<forall>e. e \<noteq> d \<longrightarrow> pool_cdma_devices s e = pool_cdma_devices s0 e) \<and>
     (func = 0 \<longrightarrow> comp (pool_cdma_devices s d) = None)"

lemma copy_start:
  assumes "all_channels_ready C d c b s" and "head_tasklet s = None"
  shows "copy_inv C d c b direction func s 0 0 (update_device d (start_copy c b direction func) s)"
proof -
  have "0 < SYSTEM_DMA_MAX_CHANNEL C" using assms(1) by (simp add: all_channels_ready_def Let_def)
  moreover have same: "start_copy c b direction 0 D\<lparr>nents_done := 0, comp := Some False\<rparr> = start_copy c b direction 0 D"
    "func \<noteq> 0 \<Longrightarrow> start_copy c b direction func D\<lparr>nents_done := 0\<rparr> = start_copy c b direction func D" for D
    by (simp_all add: start_copy_def Let_def)
  ultimately show ?thesis using assms(2)
    by (cases "func = 0") (simp_all add: copy_inv_def update_device_def Let_def same del: neq0_conv)
qed

lemma copy_inv_copied:
  assumes "copy_inv C d c b direction func s0 (SYSTEM_DMA_MAX_CHANNEL C) (SYSTEM_DMA_MAX_CHANNEL C) s" and "func \<noteq> 0"
  shows "copied C d c b direction func s0 s"
  using assms by (simp add: copy_inv_def copied_def Let_def)

lemma copy_inv_copied_sync:
  assumes "copy_inv C d c b direction 0 s0 (SYSTEM_DMA_MAX_CHANNEL C) (SYSTEM_DMA_MAX_CHANNEL C) s"
  shows "copied C d c b direction 0 s0 (update_device d (\<lambda>D. D\<lparr>comp := None\<rparr>) s)"
  using assms by (simp add: copy_inv_def copied_def Let_def update_device_def)

lemma ready_nonzero:
  assumes "all_channels_ready C d c b s"
  shows "(of_nat (SYSTEM_DMA_MAX_CHANNEL C) :: u32) \<noteq> 0"
  using assms by (simp add: all_channels_ready_def Let_def unat_eq_0 [symmetric] unsigned_of_nat take_bit_nat_eq_self)

lemma copy_sg_scheduled:
  assumes r: "all_channels_ready C d c b s"
    and "schedule_channels between d c b [0..<SYSTEM_DMA_MAX_CHANNEL C] (update_device d (start_copy c b direction func) s) = Some s1"
  shows "system_cdma_copy_sg C between (Some d) (int b) direction func c s =
    (if func = 0 then map_option (Pair 0) (wait_for_completion d s1) else Some (0, s1))"
  using ready_nonzero [OF r] assms by (simp add: system_cdma_copy_sg_def all_channels_ready_def Let_def)

text \<open>C29: A scattered copy on a device whose channels are all set up, started when no tasklet is queued, ends whatever the
  thread does in between: without a completion function it returns only when every pair has been copied in its order;
  with one it returns at once, and as many rounds of the thread as there are channels finish the same copies and call
  the completion function exactly once. The list of tasklets is empty again and the other device is untouched.\<close>

theorem scattered_copy_exact:
  assumes "all_channels_ready C d c b s" and "head_tasklet s = None" and "SYSTEM_DMA_MAX_CHANNEL C \<le> k"
  shows "\<exists>s1 s2. system_cdma_copy_sg C between (Some d) (int b) direction func c s = Some (0, s1) \<and>
    cdma_rounds (if func = 0 then 0 else k) s1 = Some s2 \<and> copied C d c b direction func s s2"
proof -
  let ?n = "SYSTEM_DMA_MAX_CHANNEL C"
  obtain s1 j where 1: "schedule_channels between d c b [0..<?n] (update_device d (start_copy c b direction func) s) = Some s1"
    and inv: "copy_inv C d c b direction func s ?n j s1"
    using copy_loop [OF assms(1) copy_start [OF assms(1,2)] refl] by blast
  note copy = copy_sg_scheduled [OF assms(1) 1]
  show ?thesis
  proof (cases "func = 0")
    case True
    obtain s' where "wait_for_completion d s1 = Some (update_device d (\<lambda>D. D\<lparr>comp := None\<rparr>) s')"
      "copy_inv C d c b direction func s ?n ?n s'"
      using copy_wait [OF assms(1) refl True inv] by blast
    then show ?thesis using copy True copy_inv_copied_sync [of C d c b direction s s'] by simp
  next
    case False
    obtain s2 where "cdma_rounds k s1 = Some s2" "copy_inv C d c b direction func s ?n (min ?n (j + k)) s2"
      using copy_rounds [OF assms(1) inv] by blast
    moreover have "min ?n (j + k) = ?n" using assms(3) by simp
    ultimately show ?thesis using copy False copy_inv_copied by simp
  qed
qed

text \<open>The two set-ups with as many pairs as channels make a device ready, and a destroyed device can be had again.\<close>

lemma setups_ready:
  assumes "system_cdma_sg_device_setup C (Some d) (int b) (Some ps) (int n) c s = Some (0, s1)"
    and "system_cdma_sg_fwmem_setup C (Some d) (int b) (Some qs) (int n) c s1 = Some (0, s2)"
    and "n = SYSTEM_DMA_MAX_CHANNEL C" and "n < 2 ^ 32"
    and "\<And>i. i < n \<Longrightarrow> apart (fst (ps ! i)) (fst (qs ! i)) (snd (qs ! i))"
  shows "all_channels_ready C d c b s2"
  using assms
  by (auto simp: all_channels_ready_def system_cdma_sg_device_setup_def system_cdma_sg_fwmem_setup_def update_device_def
      set_device_pairs_def set_fwmem_pairs_def Let_def split: if_splits)

lemma destroyed_device_available:
  assumes "devices_ok (avail_cdma_devices s)" and "d < NUM_CDMA_DEVICES"
  shows "fst (system_cdma_init C True (snd (system_cdma_destroy (Some d) s))) = 0"
proof -
  have "fst (first_available (destroy_device d (avail_cdma_devices s))) \<noteq> None"
    using assms by (rule cdma_pool.get_after_put)
  moreover have "avail_cdma_devices (snd (system_cdma_destroy (Some d) s)) = destroy_device d (avail_cdma_devices s)"
    by (simp add: system_cdma_destroy_def destroy_device_def)
  ultimately show ?thesis
    by (auto simp: system_cdma_init_def split: prod.splits option.splits)
qed

text \<open>Device 0 with two channels: bytes 0, 1 go to 100, 101 and bytes 10..12 to 200..202.\<close>

definition example_cdma_config :: cdma_config where
  "example_cdma_config = \<lparr>SYSTEM_DMA_MAX_CHANNEL = 2, SYSTEM_DMA_TOGGLE_COUNT = 2, FIRMWARE_CONTEXT_NUMBER = 1\<rparr>"

definition blank_device :: cdma_device where
  "blank_device = \<lparr>sg_device_nents = \<lambda>_ _. 0, sg_fwmem_nents = \<lambda>_ _. 0, mem_addrs = \<lambda>_ _ _. zero_pair, cdma_buff_loc = 0,
     cdma_direction = SYS_DMA_FROM_DEVICE, cur_fw_ctx_id = 0, complete_func = 0, nents_done = 0, comp = None\<rparr>"

definition power_on :: cdma_state where
  "power_on = \<lparr>pool_cdma_devices = \<lambda>_. blank_device, avail_cdma_devices = [Some 0, Some 1], head_tasklet = None,
     next_tasklet = \<lambda>_. None, memory_content = \<lambda>a. of_nat a, completed = []\<rparr>"

text \<open>As left by the calls of the set-up.\<close>

definition example_cdma_state :: cdma_state where
  "example_cdma_state =
     (case system_cdma_sg_device_setup example_cdma_config (Some 0) 1 (Some [(100, 2), (200, 3)]) 2 0
        (snd (snd (system_cdma_init example_cdma_config True power_on))) of
        None \<Rightarrow> power_on
      | Some (_, s) \<Rightarrow> (case system_cdma_sg_fwmem_setup example_cdma_config (Some 0) 1 (Some [(0, 2), (10, 3)]) 2 0 s of
          None \<Rightarrow> power_on | Some (_, s) \<Rightarrow> s))"

lemmas example_cdma_defs = example_cdma_state_def example_cdma_config_def power_on_def blank_device_def
  system_cdma_sg_device_setup_def system_cdma_sg_fwmem_setup_def system_cdma_init_def update_device_def
  set_device_pairs_def set_fwmem_pairs_def clear_device_def zero_pair_def

lemma example_cdma_ready: "all_channels_ready example_cdma_config 0 0 1 example_cdma_state"
  by (simp add: all_channels_ready_def example_cdma_defs apart_def less_2_cases_iff Let_def)

lemma example_cdma_idle: "head_tasklet example_cdma_state = None"
  by (simp add: example_cdma_defs)

theorem scattered_copy_exact_witness:
  "\<exists>s1 s2. system_cdma_copy_sg example_cdma_config (\<lambda>i. i) (Some 0) (int 1) SYS_DMA_TO_DEVICE 77 0 example_cdma_state = Some (0, s1) \<and>
     cdma_rounds (if (77 :: ptr) = 0 then 0 else 2) s1 = Some s2 \<and>
     copied example_cdma_config 0 0 1 SYS_DMA_TO_DEVICE 77 example_cdma_state s2"
  by (rule scattered_copy_exact [OF example_cdma_ready example_cdma_idle]) (simp add: example_cdma_config_def)

lemma requeue_only:
  assumes "head_tasklet s = Some t"
  shows "tasklet_schedule t s = Some (s\<lparr>next_tasklet := (next_tasklet s)(t := Some t)\<rparr>)"
proof -
  have "last_tasklet ((next_tasklet s)(t := None)) t = Some t" by (subst last_tasklet.simps) simp
  then show ?thesis using assms by (simp add: tasklet_schedule_def)
qed

lemma schedule_behind_cycle:
  assumes "head_tasklet s = Some t" and "next_tasklet s t = Some t" and "u \<noteq> t"
  shows "tasklet_schedule u s = None"
proof -
  have "last_tasklet ((next_tasklet s)(u := None)) t = None"
    by (rule last_tasklet_None [of "{t}"]) (use assms in simp_all)
  then show ?thesis using assms(1) by (simp add: tasklet_schedule_def)
qed

text \<open>C30: A copy that is started again while its tasklets are still queued, before the thread has run any of them, never
  returns: the first tasklet, already the head of the list, is made its own successor and the rest of the list is lost, and
  the search for the end of the list for the second one is endless.\<close>

theorem restart_while_queued_hangs:
  assumes "all_channels_ready C d c b s" and "queued s ((d, c, b, 0) # ts)" and "2 \<le> SYSTEM_DMA_MAX_CHANNEL C"
    and "between 0 = 0"
  shows "system_cdma_copy_sg C between (Some d) (int b) direction func c s = None"
proof -
  let ?s = "update_device d (start_copy c b direction func) s" and ?n = "SYSTEM_DMA_MAX_CHANNEL C"
  have h: "head_tasklet ?s = Some (d, c, b, 0)" using assms(2) by (simp add: update_device_def)
  have l: "[0..<?n] = 0 # 1 # [2..<?n]" using assms(3) by (simp add: upt_conv_Cons numeral_2_eq_2)
  have "tasklet_schedule (d, c, b, 1) (?s\<lparr>next_tasklet := (next_tasklet ?s)((d, c, b, 0) := Some (d, c, b, 0))\<rparr>) = None"
    by (rule schedule_behind_cycle [where t = "(d, c, b, 0)"]) (use h in simp_all)
  then have "schedule_channels between d c b [0..<?n] ?s = None"
    unfolding l using assms(4) by (simp add: requeue_only [OF h])
  moreover have "(of_nat ?n :: u32) \<noteq> 0"
    using assms(1) by (intro ready_nonzero)
  ultimately show ?thesis using assms(1) by (simp add: system_cdma_copy_sg_def all_channels_ready_def Let_def)
qed

text \<open>The same copy twice in a row.\<close>

definition example_cdma_queued :: cdma_state where
  "example_cdma_queued = example_cdma_state\<lparr>head_tasklet := Some (0, 0, 1, 0),
     next_tasklet := [(0, 0, 1, 0) \<mapsto> (0, 0, 1, 1)]\<rparr>"

lemma example_cdma_queued_ready: "all_channels_ready example_cdma_config 0 0 1 example_cdma_queued"
  using example_cdma_ready by (simp add: all_channels_ready_def example_cdma_queued_def)

theorem restart_while_queued_hangs_witness:
  "system_cdma_copy_sg example_cdma_config (\<lambda>_. 0) (Some 0) (int 1) SYS_DMA_TO_DEVICE 77 0 example_cdma_queued = None"
  by (rule restart_while_queued_hangs [OF example_cdma_queued_ready, where ts = "[(0, 0, 1, 1)]"])
    (simp_all add: example_cdma_queued_def example_cdma_config_def)

end
