(* ===== verification/Dsp_Graph.thy ===== *)
theory Dsp_Graph
  imports Prelude Complex_Main "HOL-Library.Monad_Syntax"
begin

text \<open>
  The signal processing of speech recognition: the FIFOs and nodes of \<^verbatim>\<open>GenericNodes.h\<close> and \<^verbatim>\<open>AppNodes.h\<close> and the
  static schedule of \<^verbatim>\<open>scheduler.cpp\<close>, which moves the audio from the microphone through a noise filter and a
  sliding window to the inference. The nodes do not check the FIFOs: \<open>None\<close> is an access outside a buffer, a
  \<open>memcpy\<close> of overlapping blocks, or a loop without end. The lemmas show that the schedule never does that
  and that every window holds the samples it should.
\<close>

section \<open>FIFOs\<close>

record fifo =
  isArray :: bool
  mBuffer :: "u16 list"
  readPos :: nat
  writePos :: nat

definition new_fifo :: "bool \<Rightarrow> u16 list \<Rightarrow> nat \<Rightarrow> fifo" where
  "new_fifo arr buffer delay = \<lparr>isArray = arr, mBuffer = buffer, readPos = 0, writePos = delay\<rparr>"

text \<open>\<open>memcpy\<close> of \<open>n\<close> samples to and from a place of the buffer.\<close>

definition copy_in :: "nat \<Rightarrow> nat \<Rightarrow> u16 list \<Rightarrow> fifo \<Rightarrow> fifo option" where
  "copy_in p n xs f =
     (if p + n \<le> length (mBuffer f) \<and> n \<le> length xs
      then Some (f\<lparr>mBuffer := take p (mBuffer f) @ take n xs @ drop (p + n) (mBuffer f)\<rparr>) else None)"

definition copy_out :: "nat \<Rightarrow> nat \<Rightarrow> fifo \<Rightarrow> u16 list option" where
  "copy_out p n f = (if p + n \<le> length (mBuffer f) then Some (take n (drop p (mBuffer f))) else None)"

text \<open>Both return a position in the buffer; what was not read yet is first moved to the front.\<close>

definition move_down :: "fifo \<Rightarrow> fifo option" where
  "move_down f =
     (let n = writePos f - readPos f
      in if writePos f < readPos f \<or> (0 < n \<and> readPos f < n) then None
         else do {
           xs \<leftarrow> copy_out (readPos f) n f;
           f \<leftarrow> copy_in 0 n xs f;
           Some (f\<lparr>readPos := 0, writePos := n\<rparr>)
         })"

definition pxGetWriteBuffer :: "nat \<Rightarrow> fifo \<Rightarrow> (nat \<times> fifo) option" where
  "pxGetWriteBuffer nb f =
     (if isArray f then Some (0, f)
      else do {
        f \<leftarrow> (if readPos f > 0 then move_down f else Some f);
        Some (writePos f, f\<lparr>writePos := writePos f + nb\<rparr>)
      })"

definition pxGetReadBuffer :: "nat \<Rightarrow> fifo \<Rightarrow> nat \<times> fifo" where
  "pxGetReadBuffer nb f = (if isArray f then (0, f) else (readPos f, f\<lparr>readPos := readPos f + nb\<rparr>))"

section \<open>Nodes\<close>

definition FIFOSIZE0 :: nat where "FIFOSIZE0 = 1600"
definition FIFOSIZE1 :: nat where "FIFOSIZE1 = 16000"
definition FIFOSIZE2 :: nat where "FIFOSIZE2 = 47360"
definition SAMPLE_RATE :: nat where "SAMPLE_RATE = 16000"

text \<open>
  The graph: its FIFOs, the memory of the sliding window, the state of the noise filter (\<open>None\<close> when it is not built
  in or could not be allocated), the calls of the inference node so far up to 2, the time stamp, whose rounding as a
  \<^verbatim>\<open>float\<close> is left out, and everything else.
\<close>

record ('f, 'w) dsp_graph =
  fifo0 :: fifo
  fifo1 :: fifo
  fifo2 :: fifo
  win_memory :: "u16 list"
  mDen :: "'f option"
  mFrameCount :: u32
  audio_timestamp :: rat
  graph_world :: 'w

text \<open>
  The environment: the wait for a block and the memory from its first sample on, the two calls that hand a window to the
  inference, whether the start flag of the event group is set, the delay of the task, and the noise filter of the speex library.
\<close>

record ('f, 'w) dsp_env =
  mic_read :: "'w \<Rightarrow> (u16 list \<times> 'w) option"
  to_ml :: "u16 list \<Rightarrow> 'w \<Rightarrow> 'w option"
  dsp_started :: "'w \<Rightarrow> bool \<times> 'w"
  schedule_delay :: "'w \<Rightarrow> 'w"
  speex_init :: "'f option"
  speex_run :: "u16 list \<Rightarrow> 'f \<Rightarrow> u16 list \<times> 'f"

definition mic_run :: "('f, 'w) dsp_env \<Rightarrow> ('f, 'w) dsp_graph \<Rightarrow> ('f, 'w) dsp_graph option" where
  "mic_run E g = do {
     (current, w) \<leftarrow> mic_read E (graph_world g);
     (b, f) \<leftarrow> pxGetWriteBuffer 1600 (fifo0 g);
     f \<leftarrow> copy_in b 1600 current f;
     Some (g\<lparr>fifo0 := f, audio_timestamp := of_nat 1600 / of_nat SAMPLE_RATE, graph_world := w\<rparr>)
   }"

definition denoise :: "('f, 'w) dsp_env \<Rightarrow> u16 list \<Rightarrow> 'f option \<Rightarrow> u16 list \<times> 'f option" where
  "denoise E x den = (case den of None \<Rightarrow> (x, None) | Some d \<Rightarrow> map_prod id Some (speex_run E x d))"

definition dsp_run :: "('f, 'w) dsp_env \<Rightarrow> ('f, 'w) dsp_graph \<Rightarrow> ('f, 'w) dsp_graph option" where
  "dsp_run E g =
     (let (a, f0) = pxGetReadBuffer 320 (fifo0 g)
      in do {
        (b, f1) \<leftarrow> pxGetWriteBuffer 320 (fifo1 g);
        x \<leftarrow> copy_out a 320 f0;
        let (y, den) = denoise E x (mDen g);
        f1 \<leftarrow> copy_in b 320 y f1;
        Some (g\<lparr>fifo0 := f0, fifo1 := f1, mDen := den\<rparr>)
      })"

text \<open>The window has 47360 samples, of which 31360 are those of the window before.\<close>

definition sliding_run :: "('f, 'w) dsp_graph \<Rightarrow> ('f, 'w) dsp_graph option" where
  "sliding_run g =
     (let (a, f1) = pxGetReadBuffer (47360 - 31360) (fifo1 g)
      in do {
        (b, f2) \<leftarrow> pxGetWriteBuffer 47360 (fifo2 g);
        f2 \<leftarrow> copy_in b 31360 (win_memory g) f2;
        x \<leftarrow> copy_out a (47360 - 31360) f1;
        f2 \<leftarrow> copy_in (b + 31360) (47360 - 31360) x f2;
        m \<leftarrow> copy_out (b + (47360 - 31360)) 31360 f2;
        Some (g\<lparr>fifo1 := f1, fifo2 := f2, win_memory := m\<rparr>)
      })"

definition ml_run_node :: "('f, 'w) dsp_env \<Rightarrow> ('f, 'w) dsp_graph \<Rightarrow> ('f, 'w) dsp_graph option" where
  "ml_run_node E g =
     (let (b, f2) = pxGetReadBuffer 47360 (fifo2 g); g = g\<lparr>fifo2 := f2\<rparr>
      in if mFrameCount g < 2 then Some (g\<lparr>mFrameCount := mFrameCount g + 1\<rparr>)
         else do {
           w \<leftarrow> to_ml E (drop b (mBuffer f2)) (graph_world g);
           Some (g\<lparr>graph_world := w\<rparr>)
         })"

section \<open>Schedule\<close>

datatype node = Mic | Dsp | AudioWin | Ml

fun run_node :: "('f, 'w) dsp_env \<Rightarrow> node \<Rightarrow> ('f, 'w) dsp_graph \<Rightarrow> ('f, 'w) dsp_graph option" where
  "run_node E Mic g = mic_run E g"
| "run_node E Dsp g = dsp_run E g"
| "run_node E AudioWin g = sliding_run g"
| "run_node E Ml g = ml_run_node E g"

text \<open>The body of the loop, unrolled in the source.\<close>

definition schedule :: "node list" where
  "schedule = concat (replicate 10 (Mic # replicate 5 Dsp)) @ [AudioWin, Ml]"

text \<open>After each node, which never returns an error, the start flag is read; the loop is left when it is clear.\<close>

fun run_schedule :: "('f, 'w) dsp_env \<Rightarrow> node list \<Rightarrow> ('f, 'w) dsp_graph \<Rightarrow> (bool \<times> ('f, 'w) dsp_graph) option" where
  "run_schedule E [] g = Some (True, g)"
| "run_schedule E (n # ns) g = do {
     g \<leftarrow> run_node E n g;
     let (go, w) = dsp_started E (graph_world g);
     (if go then run_schedule E ns (g\<lparr>graph_world := w\<rparr>) else Some (False, g\<lparr>graph_world := w\<rparr>))
   }"

partial_function (option) schedule_loop ::
  "('f, 'w) dsp_env \<Rightarrow> u32 \<Rightarrow> ('f, 'w) dsp_graph \<Rightarrow> (u32 \<times> ('f, 'w) dsp_graph) option" where
  "schedule_loop E nbSchedule g =
     (case run_schedule E schedule g of
        None \<Rightarrow> None
      | Some (go, g) \<Rightarrow>
          if go then schedule_loop E (nbSchedule + 1) (g\<lparr>graph_world := schedule_delay E (graph_world g)\<rparr>)
          else Some (nbSchedule, g))"

text \<open>The FIFOs and nodes are new in every call, over the static buffers, whose contents stay.\<close>

definition new_graph :: "('f, 'w) dsp_env \<Rightarrow> u16 list \<Rightarrow> u16 list \<Rightarrow> u16 list \<Rightarrow> rat \<Rightarrow> 'w \<Rightarrow> ('f, 'w) dsp_graph" where
  "new_graph E buf0 buf1 buf2 stamp w =
     \<lparr>fifo0 = new_fifo False buf0 0, fifo1 = new_fifo False buf1 0, fifo2 = new_fifo True buf2 0,
      win_memory = replicate 31360 0, mDen = speex_init E, mFrameCount = 0, audio_timestamp = stamp, graph_world = w\<rparr>"

definition buffers_sized :: "('f, 'w) dsp_graph \<Rightarrow> bool" where
  "buffers_sized g \<longleftrightarrow> length (mBuffer (fifo0 g)) = FIFOSIZE0 \<and> length (mBuffer (fifo1 g)) = FIFOSIZE1 \<and>
     length (mBuffer (fifo2 g)) = FIFOSIZE2"

text \<open>The result, the number stored through \<open>error\<close>, and the state left.\<close>

definition ulScheduler ::
  "('f, 'w) dsp_env \<Rightarrow> u16 list \<Rightarrow> u16 list \<Rightarrow> u16 list \<Rightarrow> rat \<Rightarrow> 'w \<Rightarrow> (u32 \<times> int \<times> ('f, 'w) dsp_graph) option" where
  "ulScheduler E buf0 buf1 buf2 stamp w =
     map_option (\<lambda>(nb, g). (nb, 0, g)) (schedule_loop E 0 (new_graph E buf0 buf1 buf2 stamp w))"

section \<open>The FIFOs as queues\<close>

definition holds :: "nat \<Rightarrow> u16 list \<Rightarrow> fifo \<Rightarrow> bool" where
  "holds cap xs f \<longleftrightarrow> \<not> isArray f \<and> length (mBuffer f) = cap \<and> readPos f \<le> writePos f \<and> writePos f \<le> cap \<and>
     drop (readPos f) (take (writePos f) (mBuffer f)) = xs"

lemma holds_length:
  assumes "holds cap xs f"
  shows "writePos f = readPos f + length xs"
  using assms by (auto simp: holds_def min_def)

lemma fifo_write:
  assumes "holds cap xs f" and "readPos f = 0 \<or> xs = []" and "length ys = n" and "length xs + n \<le> cap"
  obtains p f1 f2 where "pxGetWriteBuffer n f = Some (p, f1)" and "copy_in p n ys f1 = Some f2"
    and "holds cap (xs @ ys) f2" and "readPos f2 = 0"
proof (cases "readPos f = 0")
  case True
  then have p: "pxGetWriteBuffer n f = Some (writePos f, f\<lparr>writePos := writePos f + n\<rparr>)" and w: "writePos f = length xs"
    and xs: "take (writePos f) (mBuffer f) = xs"
    using assms(1) holds_length [OF assms(1)] by (simp_all add: pxGetWriteBuffer_def holds_def)
  show thesis
    by (rule that [OF p, of "f\<lparr>mBuffer := xs @ ys @ drop (length xs + n) (mBuffer f), writePos := length xs + n\<rparr>"])
      (use assms w xs True in \<open>auto simp: copy_in_def holds_def\<close>)
next
  case False
  then have xs: "xs = []" using assms(2) by simp
  have p: "pxGetWriteBuffer n f = Some (0, f\<lparr>readPos := 0, writePos := n\<rparr>)"
    using assms(1) holds_length [OF assms(1)] False xs
    by (simp add: pxGetWriteBuffer_def holds_def move_down_def copy_out_def copy_in_def Let_def)
  show thesis
    by (rule that [OF p, of "f\<lparr>mBuffer := ys @ drop n (mBuffer f), readPos := 0, writePos := n\<rparr>"])
      (use assms xs in \<open>auto simp: copy_in_def holds_def\<close>)
qed

lemma fifo_read:
  assumes "holds cap (ys @ zs) f" and "length ys = n"
  obtains p f1 where "pxGetReadBuffer n f = (p, f1)" and "copy_out p n f1 = Some ys" and "holds cap zs f1"
proof (rule that)
  have w: "writePos f = readPos f + n + length zs" using holds_length [OF assms(1)] assms(2) by simp
  have b: "drop (readPos f) (take (writePos f) (mBuffer f)) = ys @ zs" and l: "writePos f \<le> length (mBuffer f)"
    using assms(1) by (simp_all add: holds_def)
  have eq: "take n (drop (readPos f) (take (writePos f) (mBuffer f))) = take n (drop (readPos f) (mBuffer f))"
    using w by (simp add: drop_take min_def)
  show "pxGetReadBuffer n f = (readPos f, f\<lparr>readPos := readPos f + n\<rparr>)"
    using assms(1) by (simp add: pxGetReadBuffer_def holds_def)
  show "copy_out (readPos f) n (f\<lparr>readPos := readPos f + n\<rparr>) = Some ys"
    using eq b w l assms(2) by (simp add: copy_out_def)
  have "drop (readPos f + n) (take (writePos f) (mBuffer f)) = drop n (ys @ zs)"
    unfolding b [symmetric] by (simp add: add.commute)
  then show "holds cap zs (f\<lparr>readPos := readPos f + n\<rparr>)"
    using assms w by (simp add: holds_def)
qed

section \<open>Counting firings\<close>

text \<open>
  What the schedule does to the numbers of firings of the four nodes, with the condition under which a node
  finds its samples and its room; a full round of the schedule meets them.
\<close>

type_synonym firings = "nat \<times> nat \<times> nat \<times> nat"

fun fire :: "node \<Rightarrow> firings \<Rightarrow> firings option" where
  "fire Mic (m, d, k, l) = (if d = 5 * m then Some (Suc m, d, k, l) else None)"
| "fire Dsp (m, d, k, l) = (if d < 5 * m \<and> 50 * k \<le> d \<and> d < 50 * Suc k then Some (m, Suc d, k, l) else None)"
| "fire AudioWin (m, d, k, l) = (if d = 50 * Suc k then Some (m, d, Suc k, l) else None)"
| "fire Ml (m, d, k, l) = (if k = Suc l then Some (m, d, k, Suc l) else None)"

fun fire_all :: "node list \<Rightarrow> firings \<Rightarrow> firings option" where
  "fire_all [] c = Some c"
| "fire_all (n # ns) c = (case fire n c of None \<Rightarrow> None | Some c \<Rightarrow> fire_all ns c)"

lemma fire_all_append:
  "fire_all (xs @ ys) c = (case fire_all xs c of None \<Rightarrow> None | Some c \<Rightarrow> fire_all ys c)"
  by (induction xs arbitrary: c) (auto split: option.splits)

lemma fire_dsps:
  "d + n \<le> 5 * m \<Longrightarrow> 50 * k \<le> d \<Longrightarrow> d + n \<le> 50 * Suc k \<Longrightarrow> fire_all (replicate n Dsp) (m, d, k, l) = Some (m, d + n, k, l)"
  by (induction n arbitrary: d) auto

lemma fire_groups:
  "50 * k \<le> 5 * m \<Longrightarrow> 5 * (m + n) \<le> 50 * Suc k \<Longrightarrow>
    fire_all (concat (replicate n (Mic # replicate 5 Dsp))) (m, 5 * m, k, l) = Some (m + n, 5 * (m + n), k, l)"
proof (induction n arbitrary: m)
  case (Suc n)
  have "fire_all (replicate 5 Dsp) (Suc m, 5 * m, k, l) = Some (Suc m, 5 * Suc m, k, l)"
    using fire_dsps [of "5 * m" 5 "Suc m" k l] Suc.prems by (simp add: add.commute)
  then show ?case using Suc.IH [of "Suc m"] Suc.prems by (simp add: fire_all_append del: mult_Suc_right)
qed simp

lemma fire_schedule: "fire_all schedule (10 * i, 50 * i, i, i) = Some (10 * Suc i, 50 * Suc i, Suc i, Suc i)"
  using fire_groups [of i "10 * i" 10 i] by (simp add: schedule_def fire_all_append)

lemma fire_ml_count: "fire_all ns (m, d, k, l) = Some (m', d', k', l') \<Longrightarrow> l' = l + count_list ns Ml"
proof (induction ns arbitrary: m d k l)
  case (Cons n ns)
  then show ?case by (cases n) (auto split: if_splits dest!: Cons.IH)
qed simp

lemma fire_mic_count: "fire_all ns (m, d, k, l) = Some (m', d', k', l') \<Longrightarrow> m' = m + count_list ns Mic"
proof (induction ns arbitrary: m d k l)
  case (Cons n ns)
  then show ?case by (cases n) (auto split: if_splits dest!: Cons.IH)
qed simp

text \<open>The blocks read by the first \<open>n\<close> nodes, round after round.\<close>

definition blocks_in :: "nat \<Rightarrow> nat" where
  "blocks_in n = 10 * (n div 62) + count_list (take (n mod 62) schedule) Mic"

lemma schedule_length: "length schedule = 62"
  by (simp add: schedule_def length_concat sum_list_replicate)

lemma schedule_ml: "n \<le> 61 \<Longrightarrow> count_list (take n schedule) Ml = 0"
proof -
  assume n: "n \<le> 61"
  let ?front = "concat (replicate 10 (Mic # replicate 5 Dsp)) @ [AudioWin]"
  have s: "schedule = ?front @ [Ml]" by (simp add: schedule_def)
  have l: "length ?front = 61" by (simp add: length_concat sum_list_replicate)
  have "take n schedule = take n ?front" unfolding s using n l by (simp del: append_assoc)
  moreover have "Ml \<notin> set ?front" by simp
  ultimately show ?thesis by (metis count_list_0_iff in_set_takeD)
qed

lemma schedule_mics: "count_list schedule Mic = 10"
  using fire_mic_count [OF fire_schedule [of 0]] by simp

lemma blocks_in_Suc: "blocks_in (62 + n) = 10 + blocks_in n"
  by (simp add: blocks_in_def)

lemma blocks_in_first: "n \<le> 62 \<Longrightarrow> blocks_in n = count_list (take n schedule) Mic"
  by (cases "n = 62") (simp_all add: blocks_in_def schedule_length schedule_mics)

section \<open>The stream\<close>

text \<open>Frame \<open>i\<close> of the blocks from number \<open>b0\<close> on, and what the noise filter makes of the first \<open>n\<close> frames.\<close>

definition frame :: "(nat \<Rightarrow> u16 list) \<Rightarrow> nat \<Rightarrow> nat \<Rightarrow> u16 list" where
  "frame blk b0 i = take 320 (drop (320 * (i mod 5)) (blk (b0 + i div 5)))"

fun processed :: "('f, 'w) dsp_env \<Rightarrow> (nat \<Rightarrow> u16 list) \<Rightarrow> nat \<Rightarrow> nat \<Rightarrow> u16 list \<times> 'f option" where
  "processed E blk b0 0 = ([], speex_init E)"
| "processed E blk b0 (Suc n) =
     (let (xs, den) = processed E blk b0 n; (y, den) = denoise E (frame blk b0 n) den in (xs @ y, den))"

text \<open>Window \<open>k\<close>, from 1: the last 47360 of the first 16000 k samples, with zeros before them.\<close>

definition window :: "('f, 'w) dsp_env \<Rightarrow> (nat \<Rightarrow> u16 list) \<Rightarrow> nat \<Rightarrow> nat \<Rightarrow> u16 list" where
  "window E blk b0 k = drop (16000 * (k - 1)) (replicate 31360 0 @ fst (processed E blk b0 (50 * k)))"

lemma block_frames:
  assumes "1600 \<le> length (blk (b0 + m))"
  shows "concat (map (frame blk b0) [5 * m..<5 * Suc m]) = take 1600 (blk (b0 + m))"
proof -
  let ?b = "blk (b0 + m)"
  have f: "frame blk b0 (5 * m + j) = take 320 (drop (320 * j) ?b)" if "j < 5" for j
    using that by (simp add: frame_def)
  have "[5 * m..<5 * Suc m] = map (\<lambda>j. 5 * m + j) [0..<5]"
    by (simp add: map_add_upt add.commute)
  moreover have "[0..<5::nat] = [0, 1, 2, 3, 4]" by (simp add: upt_rec)
  ultimately have "concat (map (frame blk b0) [5 * m..<5 * Suc m]) =
      take 320 ?b @ take 320 (drop 320 ?b) @ take 320 (drop 640 ?b) @ take 320 (drop 960 ?b) @ take 320 (drop 1280 ?b)"
    using f [of 0] f [of 1] f [of 2] f [of 3] f [of 4] by simp
  also have "\<dots> = take (320 + (320 + (320 + (320 + 320)))) ?b"
    unfolding take_add drop_drop by simp
  finally show ?thesis by simp
qed

section \<open>Running the graph\<close>

text \<open>
  The contract of the two ends: \<open>count\<close> is the number of blocks read, \<open>blk\<close> what is read, \<open>handed\<close> the windows handed to the
  inference, and \<open>left\<close> how often the start flag will still be found set. The client lemmas below hold for
  every provider.
\<close>

locale dsp_ends =
  fixes E :: "('f, 'w) dsp_env"
    and ok :: "'w \<Rightarrow> bool"
    and count :: "'w \<Rightarrow> nat"
    and blk :: "nat \<Rightarrow> u16 list"
    and handed :: "'w \<Rightarrow> u16 list list"
    and left :: "'w \<Rightarrow> nat"
  assumes mic: "ok w \<Longrightarrow> \<exists>w'. mic_read E w = Some (blk (count w), w') \<and> ok w' \<and> count w' = Suc (count w) \<and>
      handed w' = handed w \<and> left w' = left w"
    and block_size: "1600 \<le> length (blk i)"
    and sink: "ok w \<Longrightarrow> length x = 47360 \<Longrightarrow> \<exists>w'. to_ml E x w = Some w' \<and> ok w' \<and> count w' = count w \<and>
      handed w' = handed w @ [x] \<and> left w' = left w"
    and flag: "ok w \<Longrightarrow> fst (dsp_started E w) = (0 < left w) \<and> ok (snd (dsp_started E w)) \<and>
      count (snd (dsp_started E w)) = count w \<and> handed (snd (dsp_started E w)) = handed w \<and>
      left (snd (dsp_started E w)) = left w - 1"
    and delay: "ok w \<Longrightarrow> ok (schedule_delay E w) \<and> count (schedule_delay E w) = count w \<and>
      handed (schedule_delay E w) = handed w \<and> left (schedule_delay E w) = left w"
    and filter_size: "length (fst (speex_run E x f)) = length x"
begin

abbreviation out :: "nat \<Rightarrow> nat \<Rightarrow> u16 list" where
  "out b0 n \<equiv> fst (processed E blk b0 n)"

lemma frame_length: "length (frame blk b0 i) = 320"
proof -
  have "320 * (i mod 5) + 320 \<le> 1600" by simp
  then show ?thesis using block_size [of "b0 + i div 5"] by (simp add: frame_def)
qed

lemma denoise_length: "length (fst (denoise E x den)) = length x"
  by (simp add: denoise_def filter_size split: option.split)

lemma out_Suc: "out b0 (Suc n) = out b0 n @ fst (denoise E (frame blk b0 n) (snd (processed E blk b0 n)))"
  by (simp add: case_prod_unfold Let_def)

lemma den_Suc: "snd (processed E blk b0 (Suc n)) = snd (denoise E (frame blk b0 n) (snd (processed E blk b0 n)))"
  by (simp add: case_prod_unfold Let_def)

lemma out_0: "out b0 0 = []" "snd (processed E blk b0 0) = speex_init E" by simp_all

lemmas out_simps = out_0 out_Suc den_Suc

declare processed.simps [simp del]

lemma out_length: "length (out b0 n) = 320 * n"
  by (induction n) (simp_all add: out_simps denoise_length frame_length)

lemma out_prefix: "m \<le> n \<Longrightarrow> take (320 * m) (out b0 n) = out b0 m"
proof (induction n)
  case (Suc n)
  then show ?case by (cases "m = Suc n") (simp_all add: out_length out_Suc denoise_length frame_length)
qed (simp add: out_simps)

lemma window_length: "0 < k \<Longrightarrow> length (window E blk b0 k) = 47360"
  by (cases k) (simp_all add: window_def out_length)

text \<open>From the third on, a window consists of samples only.\<close>

lemma window_full:
  assumes "3 \<le> k"
  shows "window E blk b0 k = drop (16000 * k - 47360) (out b0 (50 * k))"
proof -
  have "16000 * (k - 1) = 31360 + (16000 * k - 47360)" using assms by simp
  then show ?thesis by (simp add: window_def)
qed

lemma window_Suc:
  "window E blk b0 (Suc k) = drop (16000 * k) (replicate 31360 0 @ out b0 (50 * k)) @ drop (16000 * k) (out b0 (50 * Suc k))"
proof -
  let ?z = "replicate 31360 (0 :: u16)"
  have "take (16000 * k) (out b0 (50 * Suc k)) = out b0 (50 * k)"
    using out_prefix [of "50 * k" "50 * Suc k" b0] by simp
  then have "out b0 (50 * Suc k) = out b0 (50 * k) @ drop (16000 * k) (out b0 (50 * Suc k))"
    using append_take_drop_id [of "16000 * k" "out b0 (50 * Suc k)"] by simp
  then have "window E blk b0 (Suc k) = drop (16000 * k) ((?z @ out b0 (50 * k)) @ drop (16000 * k) (out b0 (50 * Suc k)))"
    unfolding window_def by (metis append.assoc diff_Suc_1)
  moreover have "16000 * k \<le> length (?z @ out b0 (50 * k))" by (simp add: out_length)
  ultimately show ?thesis by (simp only: drop_append) simp
qed

fun graph_inv :: "nat \<Rightarrow> u16 list list \<Rightarrow> firings \<Rightarrow> ('f, 'w) dsp_graph \<Rightarrow> bool" where
  "graph_inv b0 h0 (m, d, k, l) g \<longleftrightarrow>
     ok (graph_world g) \<and> count (graph_world g) = b0 + m \<and>
     holds 1600 (concat (map (frame blk b0) [d..<5 * m])) (fifo0 g) \<and>
     holds 16000 (drop (16000 * k) (out b0 d)) (fifo1 g) \<and> (readPos (fifo1 g) = 0 \<or> drop (16000 * k) (out b0 d) = []) \<and>
     mDen g = snd (processed E blk b0 d) \<and>
     isArray (fifo2 g) \<and> length (mBuffer (fifo2 g)) = 47360 \<and> (k > 0 \<longrightarrow> mBuffer (fifo2 g) = window E blk b0 k) \<and>
     win_memory g = drop (16000 * k) (replicate 31360 0 @ out b0 (50 * k)) \<and>
     mFrameCount g = of_nat (min 2 l) \<and>
     handed (graph_world g) = h0 @ map (window E blk b0) [3..<Suc l]"

declare graph_inv.simps [simp del]

lemma mic_step:
  assumes "graph_inv b0 h0 (m, 5 * m, k, l) g"
  shows "\<exists>g'. mic_run E g = Some g' \<and> graph_inv b0 h0 (Suc m, 5 * m, k, l) g' \<and> left (graph_world g') = left (graph_world g)"
proof -
  note inv = assms [unfolded graph_inv.simps]
  obtain w' where w: "mic_read E (graph_world g) = Some (blk (b0 + m), w')" "ok w'" "count w' = b0 + Suc m"
    "handed w' = handed (graph_world g)" "left w' = left (graph_world g)"
    using mic [of "graph_world g"] inv by auto
  have h: "holds 1600 [] (fifo0 g)" using inv by simp
  let ?ys = "take 1600 (blk (b0 + m))"
  have ys: "length ?ys = 1600" and room: "length ([] :: u16 list) + 1600 \<le> 1600" using block_size [of "b0 + m"] by simp_all
  obtain p f1 f2 where f: "pxGetWriteBuffer 1600 (fifo0 g) = Some (p, f1)" "copy_in p 1600 ?ys f1 = Some f2" "holds 1600 ?ys f2"
    using fifo_write [OF h disjI2 [OF refl] ys room] unfolding append_Nil by blast
  have "copy_in p 1600 (blk (b0 + m)) f1 = copy_in p 1600 ?ys f1" using block_size [of "b0 + m"] by (simp add: copy_in_def)
  then have "mic_run E g = Some (g\<lparr>fifo0 := f2, audio_timestamp := of_nat 1600 / of_nat SAMPLE_RATE, graph_world := w'\<rparr>)"
    using w(1) f(1,2) by (simp add: mic_run_def)
  moreover have "graph_inv b0 h0 (Suc m, 5 * m, k, l)
      (g\<lparr>fifo0 := f2, audio_timestamp := of_nat 1600 / of_nat SAMPLE_RATE, graph_world := w'\<rparr>)"
    using inv w f(3) block_frames [of blk b0 m] block_size [of "b0 + m"] by (simp add: graph_inv.simps)
  ultimately show ?thesis using w(5) by simp
qed

lemma dsp_step:
  assumes "graph_inv b0 h0 (m, d, k, l) g" and "d < 5 * m" and "50 * k \<le> d" and "d < 50 * Suc k"
  shows "\<exists>g'. dsp_run E g = Some g' \<and> graph_inv b0 h0 (m, Suc d, k, l) g' \<and> left (graph_world g') = left (graph_world g)"
proof -
  note inv = assms(1) [unfolded graph_inv.simps]
  let ?x = "frame blk b0 d" and ?xs = "drop (16000 * k) (out b0 d)"
  let ?y = "denoise E ?x (mDen g)"
  have h0: "holds 1600 (?x @ concat (map (frame blk b0) [Suc d..<5 * m])) (fifo0 g)"
    using inv assms(2) by (simp add: upt_conv_Cons)
  obtain a f0 where f0: "pxGetReadBuffer 320 (fifo0 g) = (a, f0)" "copy_out a 320 f0 = Some ?x"
    "holds 1600 (concat (map (frame blk b0) [Suc d..<5 * m])) f0"
    using fifo_read [OF h0 frame_length] by blast
  have h1: "holds 16000 ?xs (fifo1 g)" "readPos (fifo1 g) = 0 \<or> ?xs = []" using inv by simp_all
  have y: "length (fst ?y) = 320" by (simp add: denoise_length frame_length)
  have room: "length ?xs + 320 \<le> 16000" using assms(3,4) by (simp add: out_length)
  obtain b f1 f1' where f1: "pxGetWriteBuffer 320 (fifo1 g) = Some (b, f1)" "copy_in b 320 (fst ?y) f1 = Some f1'"
    "holds 16000 (?xs @ fst ?y) f1'" "readPos f1' = 0"
    using fifo_write [OF h1 y room] by blast
  have den: "mDen g = snd (processed E blk b0 d)" using inv by simp
  have run: "dsp_run E g = Some (g\<lparr>fifo0 := f0, fifo1 := f1', mDen := snd ?y\<rparr>)"
    using f0(1,2) f1(1,2) by (simp add: dsp_run_def case_prod_unfold Let_def)
  have "drop (16000 * k) (out b0 (Suc d)) = ?xs @ fst ?y"
    using assms(3) by (simp add: out_Suc out_length den)
  then have "graph_inv b0 h0 (m, Suc d, k, l) (g\<lparr>fifo0 := f0, fifo1 := f1', mDen := snd ?y\<rparr>)"
    using inv f0(3) f1(3,4) by (simp add: graph_inv.simps den_Suc den)
  then show ?thesis using run by simp
qed

lemma window_step:
  assumes "graph_inv b0 h0 (m, 50 * Suc k, k, l) g"
  shows "\<exists>g'. sliding_run g = Some g' \<and> graph_inv b0 h0 (m, 50 * Suc k, Suc k, l) g' \<and> left (graph_world g') = left (graph_world g)"
proof -
  note inv = assms [unfolded graph_inv.simps]
  let ?x = "drop (16000 * k) (out b0 (50 * Suc k))"
  have x: "length ?x = 16000" by (simp add: out_length)
  have h: "holds 16000 (?x @ []) (fifo1 g)" using inv by simp
  obtain a f1 where f1: "pxGetReadBuffer 16000 (fifo1 g) = (a, f1)" "copy_out a 16000 f1 = Some ?x" "holds 16000 [] f1"
    using fifo_read [OF h x] by blast
  have m: "length (win_memory g) = 31360" "win_memory g = drop (16000 * k) (replicate 31360 0 @ out b0 (50 * k))"
    using inv by (simp_all add: out_length)
  have arr: "isArray (fifo2 g)" "length (mBuffer (fifo2 g)) = 47360" using inv by simp_all
  let ?w = "window E blk b0 (Suc k)"
  have w: "?w = win_memory g @ ?x" unfolding m(2) by (rule window_Suc)
  have wl: "length ?w = 47360" by (rule window_length) simp
  let ?f2 = "fifo2 g\<lparr>mBuffer := ?w\<rparr>"
  have run: "sliding_run g = Some (g\<lparr>fifo1 := f1, fifo2 := ?f2, win_memory := drop 16000 ?w\<rparr>)"
    using f1(1,2) arr m(1) x wl
    by (simp add: sliding_run_def pxGetWriteBuffer_def copy_in_def copy_out_def w)
  have "drop 16000 ?w = drop (16000 * Suc k) (replicate 31360 0 @ out b0 (50 * Suc k))"
    unfolding window_def drop_drop by (simp only: diff_Suc_1 mult_Suc_right)
  moreover have "drop (16000 * Suc k) (out b0 (50 * Suc k)) = []" by (simp add: out_length)
  ultimately have "graph_inv b0 h0 (m, 50 * Suc k, Suc k, l) (g\<lparr>fifo1 := f1, fifo2 := ?f2, win_memory := drop 16000 ?w\<rparr>)"
    using inv f1(3) wl by (simp add: graph_inv.simps)
  then show ?thesis using run by simp
qed

lemma ml_step:
  assumes "graph_inv b0 h0 (m, d, Suc l, l) g"
  shows "\<exists>g'. ml_run_node E g = Some g' \<and> graph_inv b0 h0 (m, d, Suc l, Suc l) g' \<and> left (graph_world g') = left (graph_world g)"
proof -
  note inv = assms [unfolded graph_inv.simps]
  have read: "pxGetReadBuffer 47360 (fifo2 g) = (0, fifo2 g)" using inv by (simp add: pxGetReadBuffer_def)
  show ?thesis
  proof (cases "l < 2")
    case True
    then have "ml_run_node E g = Some (g\<lparr>mFrameCount := mFrameCount g + 1\<rparr>)"
      using inv read by (auto simp: ml_run_node_def less_2_cases_iff)
    moreover have "graph_inv b0 h0 (m, d, Suc l, Suc l) (g\<lparr>mFrameCount := mFrameCount g + 1\<rparr>)"
      using inv True by (auto simp: graph_inv.simps less_2_cases_iff)
    ultimately show ?thesis by simp
  next
    case False
    let ?w = "window E blk b0 (Suc l)"
    have wl: "length ?w = 47360" by (rule window_length) simp
    then obtain w' where w: "to_ml E ?w (graph_world g) = Some w'" "ok w'" "count w' = count (graph_world g)"
      "handed w' = handed (graph_world g) @ [?w]" "left w' = left (graph_world g)"
      using sink [of "graph_world g" ?w] inv by auto
    have u: "[3..<Suc (Suc l)] = [3..<Suc l] @ [Suc l]" and m2: "min 2 l = 2" "min 2 (Suc l) = 2" "min (Suc 0) l = 1" using False by auto
    have "ml_run_node E g = Some (g\<lparr>graph_world := w'\<rparr>)"
      "graph_inv b0 h0 (m, d, Suc l, Suc l) (g\<lparr>graph_world := w'\<rparr>)"
      using inv read w wl by (simp_all add: ml_run_node_def graph_inv.simps u m2 del: upt_Suc)
    then show ?thesis using w(5) by simp
  qed
qed

lemma node_step:
  assumes "graph_inv b0 h0 c g" and "fire n c = Some c'"
  shows "\<exists>g'. run_node E n g = Some g' \<and> graph_inv b0 h0 c' g' \<and> left (graph_world g') = left (graph_world g)"
proof -
  obtain m d k l where c: "c = (m, d, k, l)" by (cases c)
  show ?thesis
    using assms mic_step dsp_step window_step ml_step unfolding c
    by (cases n) (auto split: if_splits)
qed

lemma run_schedule_steps:
  assumes "graph_inv b0 h0 c g" and "fire_all ns c = Some c'"
  shows "\<exists>g' c''. run_schedule E ns g = Some (length ns \<le> left (graph_world g), g') \<and>
    fire_all (take (Suc (left (graph_world g))) ns) c = Some c'' \<and> graph_inv b0 h0 c'' g' \<and>
    left (graph_world g') = left (graph_world g) - length ns"
  using assms
proof (induction ns arbitrary: c g)
  case Nil
  then show ?case by auto
next
  case (Cons n ns)
  then obtain c1 where c1: "fire n c = Some c1" "fire_all ns c1 = Some c'" by (auto split: option.splits)
  obtain g1 where g1: "run_node E n g = Some g1" "graph_inv b0 h0 c1 g1" "left (graph_world g1) = left (graph_world g)"
    using node_step [OF Cons.prems(1) c1(1)] by blast
  let ?m = "left (graph_world g)" and ?w = "snd (dsp_started E (graph_world g1))"
  have ok1: "ok (graph_world g1)" using g1(2) by (cases c1) (simp add: graph_inv.simps)
  note f = flag [OF ok1]
  have i2: "graph_inv b0 h0 c1 (g1\<lparr>graph_world := ?w\<rparr>)" using g1(2) f by (cases c1) (simp add: graph_inv.simps)
  have l2: "left ?w = ?m - 1" using f g1(3) by simp
  show ?case
  proof (cases "0 < ?m")
    case True
    obtain g' c'' where "run_schedule E ns (g1\<lparr>graph_world := ?w\<rparr>) = Some (length ns \<le> ?m - 1, g')"
      "fire_all (take (Suc (?m - 1)) ns) c1 = Some c''" "graph_inv b0 h0 c'' g'" "left (graph_world g') = ?m - 1 - length ns"
      using Cons.IH [OF i2 c1(2)] l2 by auto
    moreover have "(length ns \<le> ?m - 1) = (length (n # ns) \<le> ?m)" "Suc (?m - 1) = ?m" using True by auto
    ultimately show ?thesis using g1(1,3) c1(1) f True by (auto simp: case_prod_unfold Let_def)
  next
    case False
    then show ?thesis using g1(1,3) c1(1) f i2 l2 by (auto simp: case_prod_unfold Let_def)
  qed
qed

lemma delay_inv:
  assumes "graph_inv b0 h0 c g"
  shows "graph_inv b0 h0 c (g\<lparr>graph_world := schedule_delay E (graph_world g)\<rparr>) \<and>
    left (schedule_delay E (graph_world g)) = left (graph_world g)"
  using assms delay [of "graph_world g"] by (cases c) (simp add: graph_inv.simps)

lemma schedule_loop_exact:
  "graph_inv b0 h0 (10 * i, 50 * i, i, i) g \<Longrightarrow>
    \<exists>g'. schedule_loop E nb g = Some (nb + of_nat (left (graph_world g) div 62), g') \<and> ok (graph_world g') \<and>
      handed (graph_world g') = h0 @ map (window E blk b0) [3..<Suc (i + (left (graph_world g) + 1) div 62)] \<and>
      count (graph_world g') = b0 + 10 * i + blocks_in (left (graph_world g) + 1) \<and> buffers_sized g'"
proof (induction "left (graph_world g)" arbitrary: g i nb rule: less_induct)
  case less
  let ?m = "left (graph_world g)"
  obtain g' c'' where 1: "run_schedule E schedule g = Some (62 \<le> ?m, g')" "fire_all (take (Suc ?m) schedule) (10 * i, 50 * i, i, i) = Some c''"
    "graph_inv b0 h0 c'' g'" "left (graph_world g') = ?m - 62"
    using run_schedule_steps [OF less.prems fire_schedule] by (auto simp: schedule_length)
  show ?case
  proof (cases "62 \<le> ?m")
    case True
    have "c'' = (10 * Suc i, 50 * Suc i, Suc i, Suc i)" using 1(2) True fire_schedule [of i] by (simp add: schedule_length)
    then have inv: "graph_inv b0 h0 (10 * Suc i, 50 * Suc i, Suc i, Suc i) (g'\<lparr>graph_world := schedule_delay E (graph_world g')\<rparr>)"
      and l: "left (schedule_delay E (graph_world g')) = ?m - 62"
      using delay_inv 1(3,4) by simp_all
    obtain g2 where g2: "schedule_loop E (nb + 1) (g'\<lparr>graph_world := schedule_delay E (graph_world g')\<rparr>) =
        Some (nb + 1 + of_nat ((?m - 62) div 62), g2)" "ok (graph_world g2)"
      "handed (graph_world g2) = h0 @ map (window E blk b0) [3..<Suc (Suc i + (?m - 62 + 1) div 62)]"
      "count (graph_world g2) = b0 + 10 * Suc i + blocks_in (?m - 62 + 1)" "buffers_sized g2"
      using less.hyps [OF _ inv, of "nb + 1"] l True by auto
    have d: "?m div 62 = Suc ((?m - 62) div 62)" "(?m + 1) div 62 = Suc ((?m - 62 + 1) div 62)" using True by linarith+
    have b: "blocks_in (?m + 1) = 10 + blocks_in (?m - 62 + 1)" using True blocks_in_Suc [of "?m - 62 + 1"] by simp
    show ?thesis
      using 1(1) True g2 unfolding d b by (subst schedule_loop.simps) (simp add: add.assoc)
  next
    case False
    obtain m d k l where c: "c'' = (m, d, k, l)" by (cases c'')
    have "l = i + count_list (take (Suc ?m) schedule) Ml" using fire_ml_count [OF 1(2) [unfolded c]] .
    moreover have "count_list (take (Suc ?m) schedule) Ml = (?m + 1) div 62"
    proof (cases "?m = 61")
      case True
      then have "take (Suc ?m) schedule = schedule" by (simp add: schedule_length)
      then show ?thesis using True by (simp add: schedule_def)
    next
      case neq: False
      then show ?thesis using False schedule_ml [of "Suc ?m"] by simp
    qed
    moreover have "m = 10 * i + blocks_in (?m + 1)"
      using fire_mic_count [OF 1(2) [unfolded c]] False by (simp add: blocks_in_first)
    moreover have "ok (graph_world g')" "handed (graph_world g') = h0 @ map (window E blk b0) [3..<Suc l]"
      "count (graph_world g') = b0 + m" "buffers_sized g'"
      using 1(3)
      by (simp_all add: c graph_inv.simps holds_def buffers_sized_def FIFOSIZE0_def FIFOSIZE1_def FIFOSIZE2_def del: upt_Suc)
    ultimately show ?thesis using 1(1) False by (subst schedule_loop.simps) (simp del: upt_Suc)
  qed
qed

lemma new_graph_inv:
  assumes "ok w" and "length buf0 = FIFOSIZE0" and "length buf1 = FIFOSIZE1" and "length buf2 = FIFOSIZE2"
  shows "graph_inv (count w) (handed w) (10 * 0, 50 * 0, 0, 0) (new_graph E buf0 buf1 buf2 stamp w)"
  using assms
  by (simp add: graph_inv.simps new_graph_def new_fifo_def holds_def out_simps FIFOSIZE0_def FIFOSIZE1_def FIFOSIZE2_def)

text \<open>
  Every call of the scheduler ends, once the start flag is cleared, without an error; it has then handed over
  exactly the full windows of the samples that were processed in its complete rounds.
\<close>

lemma scheduler_exact:
  assumes "ok w" and "length buf0 = FIFOSIZE0" and "length buf1 = FIFOSIZE1" and "length buf2 = FIFOSIZE2"
  shows "\<exists>g. ulScheduler E buf0 buf1 buf2 stamp w = Some (of_nat (left w div 62), 0, g) \<and> ok (graph_world g) \<and>
    handed (graph_world g) =
      handed w @ map (\<lambda>k. drop (16000 * k - 47360) (out (count w) (50 * k))) [3..<Suc ((left w + 1) div 62)] \<and>
    count (graph_world g) = count w + blocks_in (left w + 1) \<and> buffers_sized g"
proof -
  obtain g where "schedule_loop E 0 (new_graph E buf0 buf1 buf2 stamp w) = Some (of_nat (left w div 62), g)" "ok (graph_world g)"
    "handed (graph_world g) = handed w @ map (window E blk (count w)) [3..<Suc ((left w + 1) div 62)]" "count (graph_world g) = count w + blocks_in (left w + 1)"
    "buffers_sized g"
    using schedule_loop_exact [OF new_graph_inv [OF assms], of 0 stamp] by (auto simp: new_graph_def simp del: upt_Suc)
  moreover have "map (window E blk (count w)) [3..<n] = map (\<lambda>k. drop (16000 * k - 47360) (out (count w) (50 * k))) [3..<n]" for n
    by (intro map_cong refl) (simp add: window_full)
  ultimately show ?thesis by (simp add: ulScheduler_def del: upt_Suc)
qed

end

end
