(* ===== verification/Dsp_Interfaces.thy ===== *)
theory Dsp_Interfaces
  imports Dsp_Graph
begin

text \<open>
  What connects the signal processing of speech recognition to the rest, \<^verbatim>\<open>dsp_interfaces.cpp\<close> and \<^verbatim>\<open>dsp_task.cc\<close>: the
  source of audio blocks, in both builds, the pair of buffers through which windows reach the inference, and the task.
  The task on a clip in memory is an instance of the graph of \<^verbatim>\<open>scheduler.cpp\<close>; what the inference
  gets when both sides run concurrently is a step relation.
\<close>

section \<open>Audio source\<close>

definition AUDIO_BLOCK_NUM :: nat where "AUDIO_BLOCK_NUM = 4"
definition AUDIO_BLOCK_SIZE :: nat where "AUDIO_BLOCK_SIZE = 3200"

text \<open>The semaphore is \<open>None\<close> when it could not be created, else whether it is given. The type is shared by both builds.\<close>

record dsp_source =
  block_count :: nat
  block_under_write :: nat
  current_block :: nat
  audiobuffer :: "u16 list"
  source_semaphore :: "bool option"

definition DspAudioSource :: "u16 list \<Rightarrow> nat \<Rightarrow> bool \<Rightarrow> dsp_source" where
  "DspAudioSource buffer n created =
     \<lparr>block_count = n, block_under_write = 0, current_block = 0, audiobuffer = buffer,
      source_semaphore = (if created then Some False else None)\<rparr>"

text \<open>The samples from the pointer on. \<open>None\<close> is a division by zero or a pointer behind the buffer.\<close>

definition pxGetCurrentBuffer :: "bool \<Rightarrow> dsp_source \<Rightarrow> (u16 list \<times> dsp_source) option" where
  "pxGetCurrentBuffer audio_vsi s =
     (if \<not> audio_vsi \<and> block_count s = 0 then None
      else
        (let s = (if audio_vsi then s else s\<lparr>current_block := (current_block s + 1) mod block_count s\<rparr>);
             p = current_block s * (AUDIO_BLOCK_SIZE div 2)
         in if p \<le> length (audiobuffer s) then Some (drop p (audiobuffer s), s) else None))"

text \<open>The wait ends only with the semaphore given: \<open>None\<close> while it blocks.\<close>

definition vWaitForNewBuffer :: "dsp_source \<Rightarrow> dsp_source option" where
  "vWaitForNewBuffer s = (if source_semaphore s = Some True then Some (s\<lparr>source_semaphore := Some False\<rparr>) else None)"

definition prvNewAudioBlockReceived :: "dsp_source \<Rightarrow> dsp_source" where
  "prvNewAudioBlockReceived s =
     s\<lparr>current_block := block_under_write s, block_under_write := (block_under_write s + 1) mod block_count s,
       source_semaphore := map_option (\<lambda>_. True) (source_semaphore s)\<rparr>"

section \<open>Interrupts of the streaming interface\<close>

text \<open>
  The interrupt stores the event and notifies the callback task, which clears the count of notifications
  when it runs and calls the source. The driver fills the blocks in turn.
\<close>

record vsi =
  vsi_source :: dsp_source
  vsi_task_created :: bool
  ulVsiEvent :: u32
  vsi_notified :: nat
  handler_set :: bool
  driver_block :: nat

definition prvArmSaiSignalEvent :: "u32 \<Rightarrow> vsi \<Rightarrow> vsi" where
  "prvArmSaiSignalEvent event v =
     (if \<not> vsi_task_created v then v else v\<lparr>ulVsiEvent := event, vsi_notified := vsi_notified v + 1\<rparr>)"

text \<open>\<open>receive_complete\<close> is a constant of the driver. The task blocks while there is no notification.\<close>

definition vVsiCallbackTask_round :: "u32 \<Rightarrow> vsi \<Rightarrow> vsi" where
  "vVsiCallbackTask_round receive_complete v =
     (if vsi_notified v = 0 then v
      else
        (let v = v\<lparr>vsi_notified := 0\<rparr>
         in if ulVsiEvent v AND receive_complete \<noteq> 0 \<and> handler_set v
            then v\<lparr>vsi_source := prvNewAudioBlockReceived (vsi_source v)\<rparr> else v))"

text \<open>The driver has filled the next block with \<open>x\<close> and interrupts.\<close>

definition driver_fills :: "u32 \<Rightarrow> u16 list \<Rightarrow> vsi \<Rightarrow> vsi" where
  "driver_fills event x v =
     (let s = vsi_source v; b = driver_block v; p = b * (AUDIO_BLOCK_SIZE div 2)
      in prvArmSaiSignalEvent event
           (v\<lparr>vsi_source := s\<lparr>audiobuffer := take p (audiobuffer s) @ x @ drop (p + length x) (audiobuffer s)\<rparr>,
              driver_block := (b + 1) mod block_count s\<rparr>))"

text \<open>The set-up of the driver stops at the first call that fails; the handler is set only at the end.\<close>

fun prvAudioDrvSetup :: "bool list \<Rightarrow> vsi \<Rightarrow> int \<times> vsi" where
  "prvAudioDrvSetup [] v = (0, v\<lparr>handler_set := True\<rparr>)"
| "prvAudioDrvSetup (driver_ok # rest) v = (if driver_ok then prvAudioDrvSetup rest v else (-1, v))"

text \<open>
  \<open>n\<close> blocks are filled, in a run in which the callback task runs after each of those whose flag is set.
  As long as it runs every time, source and driver agree; each time it does not, the source falls back by one block for good.
\<close>

fun vsi_run :: "u32 \<Rightarrow> (u16 list \<times> bool) list \<Rightarrow> vsi \<Rightarrow> vsi" where
  "vsi_run rc [] v = v"
| "vsi_run rc ((x, runs) # es) v =
     vsi_run rc es (let v = driver_fills rc x v in if runs then vVsiCallbackTask_round rc v else v)"

definition vsi_ready :: "u32 \<Rightarrow> vsi \<Rightarrow> bool" where
  "vsi_ready rc v \<longleftrightarrow> vsi_task_created v \<and> handler_set v \<and> rc \<noteq> 0 \<and> 0 < block_count (vsi_source v)"

lemma vsi_round:
  assumes "vsi_ready rc v"
  shows "vsi_ready rc (vVsiCallbackTask_round rc (driver_fills rc x v)) \<and>
    vsi_source (vVsiCallbackTask_round rc (driver_fills rc x v)) = prvNewAudioBlockReceived (vsi_source (driver_fills rc x v))"
  using assms
  by (simp add: vVsiCallbackTask_round_def driver_fills_def prvArmSaiSignalEvent_def vsi_ready_def prvNewAudioBlockReceived_def Let_def)

lemma vsi_lag:
  assumes "vsi_ready rc v" and "block_under_write (vsi_source v) < block_count (vsi_source v)"
    and "driver_block v = (block_under_write (vsi_source v) + k) mod block_count (vsi_source v)"
  shows "driver_block (vsi_run rc es v) =
      (block_under_write (vsi_source (vsi_run rc es v)) + k + length (filter (\<lambda>e. \<not> snd e) es)) mod block_count (vsi_source v)"
  using assms
proof (induction es arbitrary: v k)
  case Nil
  then show ?case by simp
next
  case (Cons e es)
  obtain x runs where e: "e = (x, runs)" by (cases e)
  let ?n = "block_count (vsi_source v)" and ?f = "driver_fills rc x v"
  have f: "block_count (vsi_source ?f) = ?n" "block_under_write (vsi_source ?f) = block_under_write (vsi_source v)"
    "driver_block ?f = (driver_block v + 1) mod ?n" "vsi_ready rc ?f"
    using Cons.prems(1) by (simp_all add: driver_fills_def prvArmSaiSignalEvent_def vsi_ready_def Let_def)
  show ?case
  proof (cases runs)
    case True
    let ?v = "vVsiCallbackTask_round rc ?f"
    note r = vsi_round [OF Cons.prems(1), of x]
    have s: "block_count (vsi_source ?v) = ?n" "block_under_write (vsi_source ?v) = (block_under_write (vsi_source v) + 1) mod ?n"
      using r f by (simp_all add: prvNewAudioBlockReceived_def)
    have d: "driver_block ?v = (driver_block v + 1) mod ?n"
      using f(3) by (simp add: vVsiCallbackTask_round_def Let_def)
    have "driver_block ?v = (block_under_write (vsi_source ?v) + k) mod ?n"
      unfolding d s(2) Cons.prems(3) by (simp add: mod_simps ac_simps)
    moreover have "0 < ?n" using Cons.prems(1) by (simp add: vsi_ready_def)
    ultimately show ?thesis using Cons.IH [of ?v k] r s True by (simp add: e)
  next
    case False
    have "driver_block ?f = (block_under_write (vsi_source ?f) + Suc k) mod block_count (vsi_source ?f)"
      unfolding f(1-3) Cons.prems(3) by (simp add: mod_simps ac_simps)
    then show ?thesis using Cons.IH [of ?f "Suc k"] f Cons.prems(2) False by (simp add: e)
  qed
qed

section \<open>Connection to the inference\<close>

text \<open>
  A buffer is \<open>None\<close> when its allocation failed; the constructor does not check. Without the mutex the calls would go on
  unprotected, which is a data race; that, and any use of a buffer or semaphore that does not exist, is \<open>None\<close>.
\<close>

record dspml =
  dspml_mutex :: bool
  dspml_semaphore :: "bool option"
  dspBuffer :: "u16 list option"
  mlBuffer :: "u16 list option"
  nbSamples :: nat

definition DSPML :: "nat \<Rightarrow> u16 list option \<Rightarrow> u16 list option \<Rightarrow> bool \<Rightarrow> bool \<Rightarrow> dspml" where
  "DSPML n bufferA bufferB mutex sem =
     \<lparr>dspml_mutex = mutex, dspml_semaphore = (if sem then Some False else None), dspBuffer = bufferA, mlBuffer = bufferB, nbSamples = n\<rparr>"

text \<open>Both locks succeed exactly when the mutex exists.\<close>

definition prvDspMlLock :: "dspml \<Rightarrow> bool" where
  "prvDspMlLock c = dspml_mutex c"

definition vCopyToDSPBufferFrom :: "u16 list \<Rightarrow> dspml \<Rightarrow> dspml option" where
  "vCopyToDSPBufferFrom buf c =
     (if \<not> prvDspMlLock c \<or> length buf < nbSamples c then None
      else map_option (\<lambda>b. c\<lparr>dspBuffer := Some (take (nbSamples c) buf @ drop (nbSamples c) b)\<rparr>) (dspBuffer c))"

definition vCopyFromMLBufferInto :: "dspml \<Rightarrow> u16 list option" where
  "vCopyFromMLBufferInto c = (if \<not> prvDspMlLock c then None else map_option (take (nbSamples c)) (mlBuffer c))"

definition vSwapBuffersAndWakeUpMLThread :: "dspml \<Rightarrow> dspml option" where
  "vSwapBuffersAndWakeUpMLThread c =
     (if \<not> prvDspMlLock c \<or> dspml_semaphore c = None then None
      else Some (c\<lparr>dspBuffer := mlBuffer c, mlBuffer := dspBuffer c, dspml_semaphore := Some True\<rparr>))"

text \<open>\<open>None\<close> while the task blocks.\<close>

definition vWaitForDSPData :: "dspml \<Rightarrow> dspml option" where
  "vWaitForDSPData c = (if dspml_semaphore c = Some True then Some (c\<lparr>dspml_semaphore := Some False\<rparr>) else None)"

definition connection_ok :: "dspml \<Rightarrow> bool" where
  "connection_ok c \<longleftrightarrow> dspml_mutex c \<and> dspml_semaphore c \<noteq> None \<and>
     (\<exists>a b. dspBuffer c = Some a \<and> mlBuffer c = Some b \<and> length a = nbSamples c \<and> length b = nbSamples c)"

lemma hand_over:
  assumes "connection_ok c" and "length x = nbSamples c"
  obtains c1 c2 where "vCopyToDSPBufferFrom x c = Some c1" and "connection_ok c1" and "nbSamples c1 = nbSamples c"
    and "dspBuffer c1 = Some x" and "mlBuffer c1 = mlBuffer c" and "dspml_semaphore c1 = dspml_semaphore c"
    and "vSwapBuffersAndWakeUpMLThread c1 = Some c2" and "connection_ok c2" and "nbSamples c2 = nbSamples c"
    and "mlBuffer c2 = Some x" and "dspml_semaphore c2 = Some True"
proof -
  let ?c1 = "c\<lparr>dspBuffer := Some x\<rparr>"
  let ?c2 = "?c1\<lparr>dspBuffer := mlBuffer c, mlBuffer := Some x, dspml_semaphore := Some True\<rparr>"
  have "vCopyToDSPBufferFrom x c = Some ?c1" "vSwapBuffersAndWakeUpMLThread ?c1 = Some ?c2" "connection_ok ?c1" "connection_ok ?c2"
    using assms by (auto simp: connection_ok_def vCopyToDSPBufferFrom_def vSwapBuffersAndWakeUpMLThread_def prvDspMlLock_def)
  then show thesis by (intro that [of ?c1 ?c2]) simp_all
qed

section \<open>The task on a clip\<close>

text \<open>
  What the task shares: the source, the connection, and how often the start flag will still be found set. \<open>reads\<close> and
  \<open>handed_over\<close> only record the blocks read and the windows handed over.
\<close>

record dsp_world =
  source :: dsp_source
  connection :: dspml
  flag_reads :: nat
  reads :: nat
  handed_over :: "u16 list list"

definition clip_env :: "'f option \<Rightarrow> (u16 list \<Rightarrow> 'f \<Rightarrow> u16 list \<times> 'f) \<Rightarrow> ('f, dsp_world) dsp_env" where
  "clip_env init speex =
     \<lparr>mic_read = (\<lambda>w. map_option (\<lambda>(x, s). (x, w\<lparr>source := s, reads := reads w + 1\<rparr>)) (pxGetCurrentBuffer False (source w))),
      to_ml = (\<lambda>x w. do {
        c \<leftarrow> vCopyToDSPBufferFrom x (connection w);
        c \<leftarrow> vSwapBuffersAndWakeUpMLThread c;
        Some (w\<lparr>connection := c, handed_over := handed_over w @ [take (nbSamples c) x]\<rparr>)
      }),
      dsp_started = (\<lambda>w. (0 < flag_reads w, w\<lparr>flag_reads := flag_reads w - 1\<rparr>)),
      schedule_delay = (\<lambda>w. w), speex_init = init, speex_run = speex\<rparr>"

text \<open>
  The loop of the task: each time the flag is set, and then found set \<open>n\<close> times, the scheduler runs. A task
  whose function returns, as this one does without a clip of at least one block, is undefined: \<open>None\<close>.
\<close>

fun dsp_rounds ::
  "('f, dsp_world) dsp_env \<Rightarrow> nat list \<Rightarrow> u16 list \<Rightarrow> u16 list \<Rightarrow> u16 list \<Rightarrow> rat \<Rightarrow> dsp_world \<Rightarrow> dsp_world option" where
  "dsp_rounds E [] b0 b1 b2 stamp w = Some w"
| "dsp_rounds E (n # ns) b0 b1 b2 stamp w =
     (case ulScheduler E b0 b1 b2 stamp (w\<lparr>flag_reads := n\<rparr>) of
        None \<Rightarrow> None
      | Some (_, _, g) \<Rightarrow>
          dsp_rounds E ns (mBuffer (fifo0 g)) (mBuffer (fifo1 g)) (mBuffer (fifo2 g)) (audio_timestamp g) (graph_world g))"

definition AUDIOFEATURELENGTH :: nat where "AUDIOFEATURELENGTH = 296 * 160"

definition pvDspGetMlConnection :: "u16 list option \<Rightarrow> u16 list option \<Rightarrow> bool \<Rightarrow> bool \<Rightarrow> dspml" where
  "pvDspGetMlConnection a b mutex sem = DSPML AUDIOFEATURELENGTH a b mutex sem"

definition vDspTask ::
  "('f, dsp_world) dsp_env \<Rightarrow> u16 list option \<Rightarrow> bool \<Rightarrow> dspml \<Rightarrow> nat list \<Rightarrow> dsp_world option" where
  "vDspTask E clip sem conn starts =
     (case clip of
        None \<Rightarrow> None
      | Some audioBuf \<Rightarrow>
          if length audioBuf < AUDIO_BLOCK_SIZE div 2 then None
          else dsp_rounds E starts (replicate FIFOSIZE0 0) (replicate FIFOSIZE1 0) (replicate FIFOSIZE2 0) 0
                 \<lparr>source = DspAudioSource audioBuf (length audioBuf div (AUDIO_BLOCK_SIZE div 2)) sem, connection = conn,
                  flag_reads = 0, reads = 0, handed_over = []\<rparr>)"

text \<open>
  Read \<open>i\<close> of the clip, from the block on: the first read is of block 1. The second case only makes the
  function total.
\<close>

definition clip_block :: "u16 list \<Rightarrow> nat \<Rightarrow> u16 list" where
  "clip_block clip i =
     (let n = length clip div 1600 in if 0 < n then drop (1600 * ((i + 1) mod n)) clip else replicate 1600 0)"

definition clip_ok :: "u16 list \<Rightarrow> dsp_world \<Rightarrow> bool" where
  "clip_ok clip w \<longleftrightarrow> 1600 \<le> length clip \<and> audiobuffer (source w) = clip \<and> block_count (source w) = length clip div 1600 \<and>
     current_block (source w) = reads w mod (length clip div 1600) \<and>
     connection_ok (connection w) \<and> nbSamples (connection w) = 47360 \<and>
     (handed_over w \<noteq> [] \<longrightarrow> mlBuffer (connection w) = Some (last (handed_over w)))"

text \<open>The noise filter works in place.\<close>

definition in_place :: "(u16 list \<Rightarrow> 'f \<Rightarrow> u16 list \<times> 'f) \<Rightarrow> bool" where
  "in_place speex \<longleftrightarrow> (\<forall>x f. length (fst (speex x f)) = length x)"

lemma clip_blocks: "1600 \<le> length clip \<Longrightarrow> 0 < length clip div 1600"
  by (simp add: div_greater_zero_iff)

lemma clip_block_size: "1600 \<le> length (clip_block clip i)"
proof -
  let ?n = "length clip div 1600"
  have "1600 * ((i + 1) mod ?n) + 1600 \<le> length clip" if "0 < ?n"
  proof -
    have "(i + 1) mod ?n + 1 \<le> ?n" using that by (simp add: Suc_leI)
    then have "1600 * ((i + 1) mod ?n + 1) \<le> 1600 * ?n" by (rule mult_le_mono2)
    also have "\<dots> \<le> length clip" by simp
    finally show ?thesis by simp
  qed
  then show ?thesis by (auto simp: clip_block_def Let_def)
qed

lemma clip_mic:
  assumes "clip_ok clip w"
  shows "\<exists>w'. mic_read (clip_env init speex) w = Some (clip_block clip (reads w), w') \<and> clip_ok clip w' \<and>
    reads w' = Suc (reads w) \<and> handed_over w' = handed_over w \<and> flag_reads w' = flag_reads w"
proof -
  let ?n = "length clip div 1600" and ?b = "(current_block (source w) + 1) mod (length clip div 1600)"
  have n: "0 < ?n" by (rule clip_blocks) (use assms in \<open>simp add: clip_ok_def\<close>)
  have b: "?b = (reads w + 1) mod ?n" using assms by (simp add: clip_ok_def mod_simps)
  have in_range: "1600 * ((reads w + 1) mod ?n) \<le> length clip"
    using clip_block_size [of clip "reads w"] n by (cases "1600 * ((reads w + 1) mod ?n) \<le> length clip") (simp_all add: clip_block_def Let_def)
  have "pxGetCurrentBuffer False (source w) = Some (clip_block clip (reads w), (source w)\<lparr>current_block := (reads w + 1) mod ?n\<rparr>)"
    using assms n b in_range
    by (simp add: pxGetCurrentBuffer_def clip_ok_def clip_block_def AUDIO_BLOCK_SIZE_def Let_def mult.commute)
  then show ?thesis using assms by (simp add: clip_env_def clip_ok_def)
qed

lemma clip_sink:
  assumes "clip_ok clip w" and "length x = 47360"
  shows "\<exists>w'. to_ml (clip_env init speex) x w = Some w' \<and> clip_ok clip w' \<and> reads w' = reads w \<and>
    handed_over w' = handed_over w @ [x] \<and> flag_reads w' = flag_reads w"
proof -
  have c: "connection_ok (connection w)" "length x = nbSamples (connection w)" using assms by (simp_all add: clip_ok_def)
  obtain c1 c2 where "vCopyToDSPBufferFrom x (connection w) = Some c1" "vSwapBuffersAndWakeUpMLThread c1 = Some c2"
    "connection_ok c2" "nbSamples c2 = nbSamples (connection w)" "mlBuffer c2 = Some x" using hand_over [OF c] by blast
  then show ?thesis using assms by (simp add: clip_env_def clip_ok_def)
qed

text \<open>A clip and a connection that exists keep the contract of the ends, with any filter that works in place.\<close>

lemma clip_ends:
  assumes "in_place speex"
  shows "dsp_ends (clip_env init speex) (clip_ok clip) reads (clip_block clip) handed_over flag_reads"
proof unfold_locales
  show "length (fst (speex_run (clip_env init speex) x f)) = length x" for x f using assms by (simp add: clip_env_def in_place_def)
qed (simp_all add: clip_mic clip_sink clip_block_size, simp_all add: clip_env_def clip_ok_def)

interpretation unfiltered: dsp_ends "clip_env None (\<lambda>x f. (x, f))" "clip_ok clip" reads "clip_block clip" handed_over flag_reads
  by (rule clip_ends) (simp add: in_place_def)

text \<open>The windows of starts in which the flag is found set so many times, from read number \<open>b\<close> on.\<close>

fun clip_windows :: "('f, dsp_world) dsp_env \<Rightarrow> u16 list \<Rightarrow> nat list \<Rightarrow> nat \<Rightarrow> u16 list list" where
  "clip_windows E clip [] b = []"
| "clip_windows E clip (n # ns) b =
     map (\<lambda>k. drop (16000 * k - 47360) (fst (processed E (clip_block clip) b (50 * k)))) [3..<Suc ((n + 1) div 62)] @
     clip_windows E clip ns (b + blocks_in (n + 1))"

lemma dsp_rounds_exact:
  assumes filt: "in_place speex"
  shows "clip_ok clip w \<Longrightarrow> length b0 = FIFOSIZE0 \<Longrightarrow> length b1 = FIFOSIZE1 \<Longrightarrow> length b2 = FIFOSIZE2 \<Longrightarrow>
    \<exists>w'. dsp_rounds (clip_env init speex) starts b0 b1 b2 stamp w = Some w' \<and> clip_ok clip w' \<and>
      handed_over w' = handed_over w @ clip_windows (clip_env init speex) clip starts (reads w)"
proof (induction starts arbitrary: b0 b1 b2 stamp w)
  case Nil
  then show ?case by simp
next
  case (Cons n ns)
  let ?E = "clip_env init speex" and ?w = "w\<lparr>flag_reads := n\<rparr>"
  have ok: "clip_ok clip ?w" using Cons.prems(1) by (simp add: clip_ok_def)
  obtain g where g: "ulScheduler ?E b0 b1 b2 stamp ?w = Some (of_nat (n div 62), 0, g)" "clip_ok clip (graph_world g)"
    "handed_over (graph_world g) = handed_over w @
       map (\<lambda>k. drop (16000 * k - 47360) (fst (processed ?E (clip_block clip) (reads w) (50 * k)))) [3..<Suc ((n + 1) div 62)]"
    "reads (graph_world g) = reads w + blocks_in (n + 1)" "buffers_sized g"
    using dsp_ends.scheduler_exact [OF clip_ends [OF filt, where init = init] ok Cons.prems(2-4), where stamp = stamp] by (auto simp del: upt_Suc)
  obtain w' where "dsp_rounds ?E ns (mBuffer (fifo0 g)) (mBuffer (fifo1 g)) (mBuffer (fifo2 g)) (audio_timestamp g) (graph_world g) = Some w'"
    "clip_ok clip w'" "handed_over w' = handed_over (graph_world g) @ clip_windows ?E clip ns (reads (graph_world g))"
    using Cons.IH [OF g(2)] g(5) unfolding buffers_sized_def by blast
  then show ?case using g by (simp del: upt_Suc)
qed

lemma task_start:
  assumes "1600 \<le> length clip" and "length a = 47360" and "length b = 47360"
  shows "clip_ok clip \<lparr>source = DspAudioSource clip (length clip div 1600) sem,
    connection = pvDspGetMlConnection (Some a) (Some b) True True, flag_reads = 0, reads = 0, handed_over = []\<rparr>"
  using assms
  by (simp add: clip_ok_def DspAudioSource_def pvDspGetMlConnection_def DSPML_def connection_ok_def AUDIOFEATURELENGTH_def)

text \<open>C31: On a clip of at least one block the signal processing task, started and stopped any number of times at any
  point of its schedule, never touches memory outside its FIFOs and ends every start; it hands to the inference exactly the
  windows of 47360 consecutive samples, 16000 apart, of the filtered blocks read since that start, beginning with the third of
  them, and the inference side of the connection holds the last.\<close>

theorem dsp_task_exact:
  assumes "1600 \<le> length clip" and "length a = 47360" and "length b = 47360"
    and "in_place speex"
  shows "\<exists>w. vDspTask (clip_env init speex) (Some clip) sem (pvDspGetMlConnection (Some a) (Some b) True True) starts = Some w \<and>
    handed_over w = clip_windows (clip_env init speex) clip starts 0 \<and>
    (handed_over w \<noteq> [] \<longrightarrow> mlBuffer (connection w) = Some (last (handed_over w)))"
proof -
  note start = task_start [OF assms(1-3), where sem = sem]
  note rounds = dsp_rounds_exact [OF assms(4) start, where init = init and starts = starts and stamp = 0,
    of "replicate FIFOSIZE0 0" "replicate FIFOSIZE1 0" "replicate FIFOSIZE2 0"]
  show ?thesis
    using rounds assms(1) by (auto simp: vDspTask_def AUDIO_BLOCK_SIZE_def clip_ok_def)
qed

text \<open>A clip of one block of a constant, without the filter, with the flag found set 200 times: one window.\<close>

theorem dsp_task_exact_witness:
  "\<exists>w. vDspTask (clip_env None (\<lambda>x (f :: unit). (x, f))) (Some (replicate 1600 7)) True
      (pvDspGetMlConnection (Some (replicate 47360 0)) (Some (replicate 47360 0)) True True) [200] = Some w \<and> length (handed_over w) = 1"
  using dsp_task_exact [of "replicate 1600 7" "replicate 47360 0" "replicate 47360 0" "\<lambda>x (f :: unit). (x, f)" None True "[200]"]
  by (auto simp: in_place_def)

end
