(* ===== verification/Dsp_Exchange.thy ===== *)
theory Dsp_Exchange
  imports Dsp_Interfaces
begin

text \<open>
  The two tasks at the connection of \<^verbatim>\<open>dsp_interfaces.cpp\<close>, running concurrently: the signal processing copies a window
  and swaps the buffers, the inference waits for the semaphore and copies a window out. Each call is one step, because the
  mutex protects it; between the calls the tasks interleave freely.
\<close>

text \<open>The window copied but not yet swapped, all windows swapped and received so far, and whether the inference has taken the semaphore.\<close>

record exchange =
  ex_conn :: dspml
  ex_copied :: "u16 list option"
  ex_swapped :: "u16 list list"
  ex_woken :: bool
  ex_received :: "u16 list list"

inductive exchange_step :: "exchange \<Rightarrow> exchange \<Rightarrow> bool" where
  dsp_copies: "ex_copied e = None \<Longrightarrow> length x = nbSamples (ex_conn e) \<Longrightarrow> vCopyToDSPBufferFrom x (ex_conn e) = Some c \<Longrightarrow>
    exchange_step e (e\<lparr>ex_conn := c, ex_copied := Some x\<rparr>)"
| dsp_swaps: "ex_copied e = Some x \<Longrightarrow> vSwapBuffersAndWakeUpMLThread (ex_conn e) = Some c \<Longrightarrow>
    exchange_step e (e\<lparr>ex_conn := c, ex_copied := None, ex_swapped := ex_swapped e @ [x]\<rparr>)"
| ml_wakes: "\<not> ex_woken e \<Longrightarrow> vWaitForDSPData (ex_conn e) = Some c \<Longrightarrow> exchange_step e (e\<lparr>ex_conn := c, ex_woken := True\<rparr>)"
| ml_copies: "ex_woken e \<Longrightarrow> vCopyFromMLBufferInto (ex_conn e) = Some x \<Longrightarrow>
    exchange_step e (e\<lparr>ex_woken := False, ex_received := ex_received e @ [x]\<rparr>)"

definition exchange_start :: "dspml \<Rightarrow> exchange" where
  "exchange_start c = \<lparr>ex_conn = c, ex_copied = None, ex_swapped = [], ex_woken = False, ex_received = []\<rparr>"

text \<open>The received windows are swapped ones, at positions that do not go back.\<close>

definition received_at :: "nat list \<Rightarrow> exchange \<Rightarrow> bool" where
  "received_at ps e \<longleftrightarrow> ex_received e = map (\<lambda>p. ex_swapped e ! p) ps \<and> sorted ps \<and> (\<forall>p\<in>set ps. p < length (ex_swapped e))"

definition pending :: "exchange \<Rightarrow> nat" where
  "pending e = of_bool (ex_woken e) + of_bool (dspml_semaphore (ex_conn e) = Some True)"

definition exchange_inv :: "exchange \<Rightarrow> bool" where
  "exchange_inv e \<longleftrightarrow>
     connection_ok (ex_conn e) \<and>
     (\<forall>x. ex_copied e = Some x \<longrightarrow> dspBuffer (ex_conn e) = Some x) \<and>
     (ex_swapped e \<noteq> [] \<longrightarrow> mlBuffer (ex_conn e) = Some (last (ex_swapped e))) \<and>
     length (ex_received e) + pending e \<le> length (ex_swapped e) \<and>
     (\<exists>ps. received_at ps e \<and> (pending e = 0 \<and> ex_swapped e \<noteq> [] \<longrightarrow> ps \<noteq> [] \<and> last ps = length (ex_swapped e) - 1))"

lemma received_at_append:
  assumes "received_at ps e"
  shows "received_at ps (e\<lparr>ex_conn := c, ex_copied := x, ex_swapped := ex_swapped e @ [y]\<rparr>)"
  using assms by (auto simp: received_at_def nth_append)

lemma received_at_last:
  assumes "received_at ps e" and "ex_swapped e \<noteq> []"
  shows "received_at (ps @ [length (ex_swapped e) - 1]) (e\<lparr>ex_woken := w, ex_received := ex_received e @ [last (ex_swapped e)]\<rparr>)"
  using assms by (auto simp: received_at_def sorted_append last_conv_nth)

lemma exchange_inv_start: "connection_ok c \<Longrightarrow> dspml_semaphore c = Some False \<Longrightarrow> exchange_inv (exchange_start c)"
  by (auto simp: exchange_inv_def exchange_start_def pending_def received_at_def)

lemma exchange_inv_step: "exchange_step e e' \<Longrightarrow> exchange_inv e \<Longrightarrow> exchange_inv e'"
proof (induction rule: exchange_step.induct)
  case (dsp_copies e x c)
  have ok: "connection_ok (ex_conn e)" using dsp_copies.prems by (simp add: exchange_inv_def)
  have c: "connection_ok c" "dspBuffer c = Some x" "mlBuffer c = mlBuffer (ex_conn e)" "dspml_semaphore c = dspml_semaphore (ex_conn e)"
    using hand_over [OF ok dsp_copies.hyps(2)] dsp_copies.hyps(3) by (metis option.inject)+
  show ?case using dsp_copies.prems c by (simp add: exchange_inv_def pending_def received_at_def)
next
  case (dsp_swaps e x c)
  have c: "connection_ok c" "mlBuffer c = Some x" "dspml_semaphore c = Some True"
    using dsp_swaps.prems dsp_swaps.hyps
    by (auto simp: exchange_inv_def vSwapBuffersAndWakeUpMLThread_def connection_ok_def split: if_splits)
  let ?e = "e\<lparr>ex_conn := c, ex_copied := None, ex_swapped := ex_swapped e @ [x]\<rparr>"
  obtain ps where "received_at ps e" using dsp_swaps.prems by (auto simp: exchange_inv_def)
  then have "received_at ps ?e" by (rule received_at_append)
  moreover have "length (ex_received e) + of_bool (ex_woken e) \<le> length (ex_swapped e)"
    using dsp_swaps.prems by (simp add: exchange_inv_def pending_def)
  ultimately show ?case using c by (auto simp: exchange_inv_def pending_def)
next
  case (ml_wakes e c)
  then show ?case
    by (auto simp: exchange_inv_def vWaitForDSPData_def connection_ok_def pending_def received_at_def split: if_splits)
next
  case (ml_copies e x)
  then have ne: "ex_swapped e \<noteq> []" by (auto simp: exchange_inv_def pending_def)
  then have x: "x = last (ex_swapped e)"
    using ml_copies by (auto simp: exchange_inv_def vCopyFromMLBufferInto_def connection_ok_def split: if_splits)
  obtain ps where ps: "received_at ps e" using ml_copies.prems by (auto simp: exchange_inv_def)
  let ?e = "e\<lparr>ex_woken := False, ex_received := ex_received e @ [x]\<rparr>"
  have "received_at (ps @ [length (ex_swapped e) - 1]) ?e" using received_at_last [OF ps ne] x by simp
  moreover have "length (ex_received ?e) + pending ?e \<le> length (ex_swapped ?e)"
    using ml_copies by (simp add: exchange_inv_def pending_def)
  moreover have "connection_ok (ex_conn e)" "ex_copied e = Some y \<longrightarrow> dspBuffer (ex_conn e) = Some y"
    "mlBuffer (ex_conn e) = Some (last (ex_swapped e))" for y
    using ml_copies.prems ne by (auto simp: exchange_inv_def)
  ultimately show ?case unfolding exchange_inv_def by (intro conjI exI [of _ "ps @ [length (ex_swapped e) - 1]"]) simp_all
qed

lemma exchange_inv_reachable: "exchange_step\<^sup>*\<^sup>* e e' \<Longrightarrow> exchange_inv e \<Longrightarrow> exchange_inv e'"
  by (induction rule: rtranclp_induct) (auto intro: exchange_inv_step)

text \<open>C32: However the signal processing and the inference interleave, the inference gets only whole windows that were handed
  over, in their order and never more of them than were handed over; and when it has nothing left to wait for it has the last.\<close>

theorem inference_gets_whole_windows:
  assumes "exchange_step\<^sup>*\<^sup>* (exchange_start (pvDspGetMlConnection (Some a) (Some b) True True)) e"
    and "length a = AUDIOFEATURELENGTH" and "length b = AUDIOFEATURELENGTH"
  shows "\<exists>ps. ex_received e = map (\<lambda>p. ex_swapped e ! p) ps \<and> sorted ps \<and> (\<forall>p\<in>set ps. p < length (ex_swapped e)) \<and>
    length ps \<le> length (ex_swapped e) \<and>
    (\<not> ex_woken e \<and> dspml_semaphore (ex_conn e) \<noteq> Some True \<and> ex_swapped e \<noteq> [] \<longrightarrow> last (ex_received e) = last (ex_swapped e))"
proof -
  have "exchange_inv e"
    by (rule exchange_inv_reachable [OF assms(1) exchange_inv_start])
      (use assms(2,3) in \<open>simp_all add: pvDspGetMlConnection_def DSPML_def connection_ok_def\<close>)
  then obtain ps where ps: "received_at ps e" "length (ex_received e) \<le> length (ex_swapped e)"
    "pending e = 0 \<and> ex_swapped e \<noteq> [] \<longrightarrow> ps \<noteq> [] \<and> last ps = length (ex_swapped e) - 1"
    by (auto simp: exchange_inv_def)
  then show ?thesis
    by (intro exI [of _ ps]) (auto simp: received_at_def pending_def last_map last_conv_nth)
qed

text \<open>The semaphore does not count: a window that arrives between the wait and the copy is received twice, and the one before never.\<close>

lemma window_received_twice:
  assumes "connection_ok c" and "dspml_semaphore c = Some False" and "length x = nbSamples c" and "length y = nbSamples c"
  shows "\<exists>e. exchange_step\<^sup>*\<^sup>* (exchange_start c) e \<and> ex_swapped e = [x, y] \<and> ex_received e = [y, y]"
proof -
  obtain c1 c2 where 1: "vCopyToDSPBufferFrom x c = Some c1" "vSwapBuffersAndWakeUpMLThread c1 = Some c2" "connection_ok c2"
    "nbSamples c2 = nbSamples c" "dspml_semaphore c2 = Some True" using hand_over [OF assms(1,3)] by metis
  let ?c2 = "c2\<lparr>dspml_semaphore := Some False\<rparr>"
  have w2: "vWaitForDSPData c2 = Some ?c2" using 1(5) by (simp add: vWaitForDSPData_def)
  have "connection_ok ?c2" "length y = nbSamples ?c2" using 1(3,4) assms(4) by (simp_all add: connection_ok_def)
  then obtain c3 c4 where 2: "vCopyToDSPBufferFrom y ?c2 = Some c3" "vSwapBuffersAndWakeUpMLThread c3 = Some c4" "connection_ok c4"
    "nbSamples c4 = nbSamples c" "mlBuffer c4 = Some y" "dspml_semaphore c4 = Some True" "nbSamples c3 = nbSamples c"
    using hand_over [of ?c2 y] 1(4) by (metis dspml.select_convs(5) dspml.update_convs(2) dspml.cases)
  let ?c4 = "c4\<lparr>dspml_semaphore := Some False\<rparr>"
  have w4: "vWaitForDSPData c4 = Some ?c4" using 2(6) by (simp add: vWaitForDSPData_def)
  have r: "vCopyFromMLBufferInto c4 = Some y" "vCopyFromMLBufferInto ?c4 = Some y"
    using 2(3-5) assms(4) by (simp_all add: vCopyFromMLBufferInto_def prvDspMlLock_def connection_ok_def)
  let ?e = "\<lambda>c p s w r. \<lparr>ex_conn = c, ex_copied = p, ex_swapped = s, ex_woken = w, ex_received = r\<rparr>"
  have s1: "exchange_step (exchange_start c) (?e c1 (Some x) [] False [])"
    using dsp_copies [of "exchange_start c" x c1] 1 assms(3) by (simp add: exchange_start_def)
  have s2: "exchange_step (?e c1 (Some x) [] False []) (?e c2 None [x] False [])"
    using dsp_swaps [of "?e c1 (Some x) [] False []" x c2] 1 by simp
  have s3: "exchange_step (?e c2 None [x] False []) (?e ?c2 None [x] True [])"
    using ml_wakes [of "?e c2 None [x] False []" ?c2] w2 by simp
  have s4: "exchange_step (?e ?c2 None [x] True []) (?e c3 (Some y) [x] True [])"
    using dsp_copies [of "?e ?c2 None [x] True []" y c3] 1 2 assms(4) by simp
  have s5: "exchange_step (?e c3 (Some y) [x] True []) (?e c4 None [x, y] True [])"
    using dsp_swaps [of "?e c3 (Some y) [x] True []" y c4] 2 by simp
  have s6: "exchange_step (?e c4 None [x, y] True []) (?e c4 None [x, y] False [y])"
    using ml_copies [of "?e c4 None [x, y] True []" y] r by simp
  have s7: "exchange_step (?e c4 None [x, y] False [y]) (?e ?c4 None [x, y] True [y])"
    using ml_wakes [of "?e c4 None [x, y] False [y]" ?c4] w4 by simp
  have s8: "exchange_step (?e ?c4 None [x, y] True [y]) (?e ?c4 None [x, y] False [y, y])"
    using ml_copies [of "?e ?c4 None [x, y] True [y]" y] r by simp
  note step = converse_rtranclp_into_rtranclp
  have "exchange_step\<^sup>*\<^sup>* (exchange_start c) (?e ?c4 None [x, y] False [y, y])"
    by (rule step [OF s1 step [OF s2 step [OF s3 step [OF s4 step [OF s5 step [OF s6 step [OF s7 r_into_rtranclp [of exchange_step, OF s8]]]]]]]])
  then show ?thesis by (intro exI [of _ "?e ?c4 None [x, y] False [y, y]"]) simp
qed

text \<open>One window, handed over and received.\<close>

theorem inference_gets_whole_windows_witness:
  "\<exists>e ps. exchange_step\<^sup>*\<^sup>* (exchange_start (pvDspGetMlConnection (Some (replicate 47360 0)) (Some (replicate 47360 0)) True True)) e \<and>
     ex_swapped e = [replicate 47360 1, replicate 47360 2] \<and> ex_received e = map (\<lambda>p. ex_swapped e ! p) ps \<and> sorted ps"
proof -
  let ?c = "pvDspGetMlConnection (Some (replicate 47360 0)) (Some (replicate 47360 0)) True True"
  have c: "connection_ok ?c" "dspml_semaphore ?c = Some False" "nbSamples ?c = 47360"
    by (simp_all add: pvDspGetMlConnection_def DSPML_def connection_ok_def AUDIOFEATURELENGTH_def)
  obtain e where e: "exchange_step\<^sup>*\<^sup>* (exchange_start ?c) e" "ex_swapped e = [replicate 47360 1, replicate 47360 2]"
    using window_received_twice [OF c(1,2), of "replicate 47360 1" "replicate 47360 2"] c(3) by auto
  obtain ps where "ex_received e = map (\<lambda>p. ex_swapped e ! p) ps" "sorted ps"
    using inference_gets_whole_windows [OF e(1)] by (auto simp: AUDIOFEATURELENGTH_def)
  then show ?thesis using e by blast
qed

end
