(* ===== verification/Asr_Task.thy ===== *)
theory Asr_Task
  imports Keyword_Task "HOL-Library.Sublist"
begin

text \<open>
  The inference of speech recognition, \<^verbatim>\<open>ml_interface.cc\<close>: the task that turns the windows of the signal processing into
  results, two at a time, and the queue and task that publish them. The neural network with its
  pre- and postprocessing, the MQTT agent and the kernel are parameters.
\<close>

section \<open>Inference task\<close>

text \<open>
  Whether an inference on a window succeeds, the classification of its output, and the decoder that makes a
  sentence of classifications.
\<close>

record 'r asr_model =
  asr_init_ok :: bool
  asr_RunInference :: "u16 list \<Rightarrow> bool"
  GetClassificationResults :: "u16 list \<Rightarrow> 'r list"
  DecodeOutput :: "'r list \<Rightarrow> string"

definition maxNbInference :: nat where "maxNbInference = 2"

text \<open>\<open>Listening\<close>: past the check of the stop event, waiting for the window.\<close>

datatype asr_phase = Initial | Checking | Listening | Halted | Returned

text \<open>
  \<open>arrived\<close> are the windows the connection will still deliver, \<open>presented\<close> the sentences passed on, and \<open>used\<close> records the windows
  of the inferences.
\<close>

record ('r, 'e) asr_task =
  asr_phase :: asr_phase
  asr_events :: 'e
  inferenceIndex :: nat
  asr_results :: "'r list list"
  arrived :: "u16 list list"
  presented :: "string list"
  used :: "u16 list list"

definition prvPresentInferenceResult :: "'r asr_model \<Rightarrow> ('r, 'e) asr_task \<Rightarrow> ('r, 'e) asr_task" where
  "prvPresentInferenceResult M T = T\<lparr>presented := presented T @ [DecodeOutput M (concat (asr_results T))]\<rparr>"

text \<open>The body of the inner loop after the wait for a window. A failed inference ends the task.\<close>

definition asr_inference :: "'r asr_model \<Rightarrow> u16 list \<Rightarrow> ('r, 'e) asr_task \<Rightarrow> ('r, 'e) asr_task" where
  "asr_inference M window T =
     (if \<not> asr_RunInference M window then T\<lparr>asr_phase := Returned\<rparr>
      else
        (let T = T\<lparr>asr_results := asr_results T @ [GetClassificationResults M window], inferenceIndex := inferenceIndex T + 1,
                   used := used T @ [window], asr_phase := Checking\<rparr>
         in if inferenceIndex T = maxNbInference
            then (prvPresentInferenceResult M (T\<lparr>inferenceIndex := 0\<rparr>))\<lparr>asr_results := []\<rparr>
            else T))"

text \<open>The task up to the next point where it may block; a blocked task stays as it is.\<close>

definition asr_round :: "'e event_ops \<Rightarrow> 'r asr_model \<Rightarrow> ('r, 'e) asr_task \<Rightarrow> ('r, 'e) asr_task" where
  "asr_round G M T =
     (case asr_phase T of
        Initial \<Rightarrow>
          (let (start, e) = take_event G EVENT_MASK_ML_START (asr_events T)
           in if start then T\<lparr>asr_events := e, asr_phase := if asr_init_ok M then Checking else Returned\<rparr> else T)
      | Checking \<Rightarrow>
          (let (stop, e) = take_event G EVENT_MASK_ML_STOP (asr_events T)
           in if stop then T\<lparr>asr_events := e, asr_phase := Halted\<rparr> else T\<lparr>asr_phase := Listening\<rparr>)
      | Listening \<Rightarrow>
          (case arrived T of [] \<Rightarrow> T | x # xs \<Rightarrow> asr_inference M x (T\<lparr>arrived := xs\<rparr>))
      | Halted \<Rightarrow>
          (let (start, e) = take_event G EVENT_MASK_ML_START (asr_events T)
           in if start then T\<lparr>asr_events := e, asr_phase := Checking\<rparr> else T)
      | Returned \<Rightarrow> T)"

text \<open>What happens: a round of the task, one of the two calls of a command, or the arrival of a window.\<close>

datatype asr_event = Round | FirstCall ml_command | SecondCall ml_command | Arrive "u16 list"

fun asr_step :: "'e event_ops \<Rightarrow> 'r asr_model \<Rightarrow> asr_event \<Rightarrow> ('r, 'e) asr_task \<Rightarrow> ('r, 'e) asr_task" where
  "asr_step G M Round T = asr_round G M T"
| "asr_step G M (FirstCall c) T = T\<lparr>asr_events := first_call G c (asr_events T)\<rparr>"
| "asr_step G M (SecondCall c) T = T\<lparr>asr_events := second_call G c (asr_events T)\<rparr>"
| "asr_step G M (Arrive x) T = T\<lparr>arrived := arrived T @ [x]\<rparr>"

fun arrivals :: "asr_event list \<Rightarrow> u16 list list" where
  "arrivals [] = []"
| "arrivals (Arrive x # es) = x # arrivals es"
| "arrivals (_ # es) = arrivals es"

definition asr_start :: "'e \<Rightarrow> ('r, 'e) asr_task" where
  "asr_start e = \<lparr>asr_phase = Initial, asr_events = e, inferenceIndex = 0, asr_results = [], arrived = [], presented = [], used = []\<rparr>"

text \<open>The sentences of consecutive pairs.\<close>

fun sentences :: "'r asr_model \<Rightarrow> u16 list list \<Rightarrow> string list" where
  "sentences M (x # y # xs) = DecodeOutput M (GetClassificationResults M x @ GetClassificationResults M y) # sentences M xs"
| "sentences M _ = []"

lemma sentences_even:
  "even (length xs) \<Longrightarrow> sentences M (xs @ [x]) = sentences M xs \<and>
    sentences M (xs @ [x, y]) = sentences M xs @ [DecodeOutput M (GetClassificationResults M x @ GetClassificationResults M y)]"
  by (induction M xs rule: sentences.induct) auto

definition asr_inv :: "'r asr_model \<Rightarrow> u16 list list \<Rightarrow> ('r, 'e) asr_task \<Rightarrow> bool" where
  "asr_inv M xs T \<longleftrightarrow> (\<exists>ys rest. used T = ys @ rest \<and> even (length ys) \<and> length rest = inferenceIndex T \<and> inferenceIndex T < 2 \<and>
      asr_results T = map (GetClassificationResults M) rest \<and> presented T = sentences M ys) \<and>
     (asr_phase T \<noteq> Returned \<longrightarrow> used T @ arrived T = xs)"

lemma asr_inv_inference:
  assumes "asr_inv M xs T" and "asr_phase T \<noteq> Returned" and "arrived T = x # zs"
  shows "asr_inv M xs (asr_inference M x (T\<lparr>arrived := zs\<rparr>))"
proof -
  obtain ys rest where 1: "used T = ys @ rest" "even (length ys)" "length rest = inferenceIndex T" "inferenceIndex T < 2"
    "asr_results T = map (GetClassificationResults M) rest" "presented T = sentences M ys" and xs: "used T @ x # zs = xs"
    using assms by (auto simp: asr_inv_def)
  consider "\<not> asr_RunInference M x" | "asr_RunInference M x" "rest = []" | r where "asr_RunInference M x" "rest = [r]"
    using 1(3,4) by (cases rest; cases "tl rest") auto
  then show ?thesis
  proof cases
    case 1
    then show ?thesis using assms by (auto simp: asr_inference_def asr_inv_def)
  next
    case 2
    have "used T @ [x] = ys @ [x]" using 1(1) 2(2) by simp
    then show ?thesis using 1 2 xs unfolding asr_inv_def
      by (intro conjI exI [of _ ys] exI [of _ "[x]"])
        (simp_all add: asr_inference_def maxNbInference_def Let_def)
  next
    case (3 r)
    then show ?thesis using 1 xs sentences_even [OF 1(2), of M r x] unfolding asr_inv_def
      by (intro conjI exI [of _ "ys @ [r, x]"] exI [of _ "[]"])
        (simp_all add: asr_inference_def maxNbInference_def prvPresentInferenceResult_def Let_def)
  qed
qed

lemma asr_inv_frame:
  "asr_inv M xs T \<Longrightarrow> asr_phase T \<noteq> Returned \<Longrightarrow> asr_inv M xs (T\<lparr>asr_events := e, asr_phase := p\<rparr>)"
  "asr_inv M xs T \<Longrightarrow> asr_inv M xs (T\<lparr>asr_events := e\<rparr>)"
  "asr_inv M xs T \<Longrightarrow> asr_phase T \<noteq> Returned \<Longrightarrow> asr_inv M xs (T\<lparr>asr_phase := p\<rparr>)"
  by (simp_all add: asr_inv_def)

lemma asr_inv_step:
  assumes "asr_inv M xs T"
  shows "asr_inv M (xs @ arrivals [e]) (asr_step G M e T)"
proof (cases e)
  case Round
  have "asr_inv M xs (asr_round G M T)"
  proof (cases "asr_phase T")
    case Listening
    then show ?thesis using assms asr_inv_inference [OF assms] by (cases "arrived T") (simp_all add: asr_round_def)
  qed (use assms asr_inv_frame [OF assms] in \<open>simp_all add: asr_round_def Let_def split: prod.split\<close>)
  then show ?thesis by (simp add: Round)
next
  case (Arrive x)
  then show ?thesis using assms by (simp add: asr_inv_def)
qed (use asr_inv_frame(2) [OF assms] in simp_all)

lemma arrivals_append: "arrivals (xs @ ys) = arrivals xs @ arrivals ys"
  by (induction xs rule: arrivals.induct) simp_all

lemma asr_inv_run: "asr_inv M xs T \<Longrightarrow> asr_inv M (xs @ arrivals es) (fold (asr_step G M) es T)"
proof (induction es arbitrary: xs T)
  case (Cons e es)
  then show ?case using Cons.IH [OF asr_inv_step [OF Cons.prems, of e G]] arrivals_append [of "[e]" es] by simp
qed simp

lemma sentences_rest: "even (length ys) \<Longrightarrow> length rest < 2 \<Longrightarrow> sentences M (ys @ rest) = sentences M ys"
  by (cases rest) (simp_all add: sentences_even)


section \<open>Publishing\<close>

text \<open>
  Each sentence is copied to a new heap block, whose address goes through the queue to the publishing task. The MQTT agent
  gets the address of the static \<^verbatim>\<open>publishInfo\<close>, and so reads the payload only when it transmits. \<open>sending\<close>
  is the block of the message the task waits for, \<open>commands\<close> how many commands the agent has not transmitted, \<open>unacked\<close> how
  many it has not completed, \<open>xNotified\<close> the notification of the task; \<open>sentences_given\<close> and \<open>transmitted\<close> are histories.
\<close>

record asr_publish =
  asr_heap :: "ptr \<Rightarrow> string option"
  asr_queue :: "ptr list option"
  sending :: "ptr option"
  publishInfo_payload :: ptr
  commands :: nat
  unacked :: nat
  xNotified :: "MQTTStatus option"
  sentences_given :: "string list"
  transmitted :: "string list"

text \<open>\<open>n\<close> is the length of the queue, \<open>malloc\<close> the allocator.\<close>

definition prvSetMlProcessingstate ::
  "nat \<Rightarrow> ((ptr \<Rightarrow> string option) \<Rightarrow> nat \<Rightarrow> ptr option) \<Rightarrow> string \<Rightarrow> asr_publish \<Rightarrow> asr_publish" where
  "prvSetMlProcessingstate n malloc res s =
     (case malloc (asr_heap s) (strlen res + 1) of
        None \<Rightarrow> s
      | Some msg_result \<Rightarrow>
          (case asr_queue s of
             None \<Rightarrow> s
           | Some q \<Rightarrow>
               if length q < n
               then s\<lparr>asr_heap := (asr_heap s)(msg_result := Some (c_str res)), asr_queue := Some (q @ [msg_result])\<rparr>
               else s))"

text \<open>
  The publishing task takes a message and gives the agent the command; the agent transmits and completes commands in order; the
  wait of the task ends with the notification or with the time limit, and then the message is freed.
\<close>

datatype publish_event = Given string | Taken_message MQTTStatus | Transmit | Complete MQTTStatus | Wake | Timeout

definition free_message :: "asr_publish \<Rightarrow> asr_publish" where
  "free_message s = (case sending s of None \<Rightarrow> s | Some p \<Rightarrow> s\<lparr>asr_heap := (asr_heap s)(p := None), sending := None, xNotified := None\<rparr>)"

definition take_message :: "MQTTStatus \<Rightarrow> asr_publish \<Rightarrow> asr_publish" where
  "take_message mqttStatus s =
     (case (sending s, asr_queue s) of
        (None, Some (p # q)) \<Rightarrow>
          (let s = s\<lparr>asr_queue := Some q, sending := Some p, publishInfo_payload := p, xNotified := None\<rparr>
           in if mqttStatus = MQTTSuccess then s\<lparr>commands := commands s + 1\<rparr> else free_message s)
      | _ \<Rightarrow> s)"

text \<open>\<open>None\<close> when the payload is not allocated any more.\<close>

definition agent_transmits :: "asr_publish \<Rightarrow> asr_publish option" where
  "agent_transmits s =
     (if commands s = 0 then Some s
      else map_option (\<lambda>x. s\<lparr>commands := commands s - 1, unacked := unacked s + 1, transmitted := transmitted s @ [x]\<rparr>)
             (asr_heap s (publishInfo_payload s)))"

fun publish_step ::
  "nat \<Rightarrow> ((ptr \<Rightarrow> string option) \<Rightarrow> nat \<Rightarrow> ptr option) \<Rightarrow> publish_event \<Rightarrow> asr_publish \<Rightarrow> asr_publish option" where
  "publish_step n malloc (Given x) s = Some (prvSetMlProcessingstate n malloc x (s\<lparr>sentences_given := sentences_given s @ [c_str x]\<rparr>))"
| "publish_step n malloc (Taken_message st) s = Some (take_message st s)"
| "publish_step n malloc Transmit s = agent_transmits s"
| "publish_step n malloc (Complete st) s =
     Some (if unacked s = 0 then s else s\<lparr>unacked := unacked s - 1, xNotified := Some st\<rparr>)"
| "publish_step n malloc Wake s = Some (if xNotified s = None then s else free_message s)"
| "publish_step n malloc Timeout s = Some (if xNotified s = None then free_message s else s)"

fun publish_run ::
  "nat \<Rightarrow> ((ptr \<Rightarrow> string option) \<Rightarrow> nat \<Rightarrow> ptr option) \<Rightarrow> publish_event list \<Rightarrow> asr_publish \<Rightarrow> asr_publish option" where
  "publish_run n malloc [] s = Some s"
| "publish_run n malloc (e # es) s = (case publish_step n malloc e s of None \<Rightarrow> None | Some s \<Rightarrow> publish_run n malloc es s)"

definition publish_start :: asr_publish where
  "publish_start = \<lparr>asr_heap = (\<lambda>_. None), asr_queue = Some [], sending = None, publishInfo_payload = 0, commands = 0, unacked = 0,
     xNotified = None, sentences_given = [], transmitted = []\<rparr>"

text \<open>What \<open>malloc\<close> returns is not allocated yet.\<close>

definition malloc_ok :: "((ptr \<Rightarrow> string option) \<Rightarrow> nat \<Rightarrow> ptr option) \<Rightarrow> bool" where
  "malloc_ok malloc \<longleftrightarrow> (\<forall>h n p. malloc h n = Some p \<longrightarrow> p \<noteq> 0 \<and> h p = None)"

definition publish_inv :: "asr_publish \<Rightarrow> bool" where
  "publish_inv s \<longleftrightarrow> (\<exists>q. asr_queue s = Some q \<and>
     distinct ((case sending s of None \<Rightarrow> [] | Some p \<Rightarrow> [p]) @ q) \<and>
     dom (asr_heap s) = set q \<union> set_option (sending s) \<and>
     commands s + unacked s \<le> 1 \<and>
     (commands s + unacked s = 1 \<longrightarrow> sending s = Some (publishInfo_payload s) \<and> xNotified s = None) \<and>
     subseq (transmitted s @ (if commands s = 1 then [the (asr_heap s (publishInfo_payload s))] else []) @ map (the \<circ> asr_heap s) q)
       (sentences_given s))"

lemma publish_inv_start: "publish_inv publish_start"
  by (simp add: publish_inv_def publish_start_def)

lemma map_heap_cong: "p \<notin> set q \<Longrightarrow> map (the \<circ> h(p := x)) q = map (the \<circ> h) q"
  by (intro map_cong) auto

lemma subseq_drop_middle: "subseq (xs @ ys @ zs) us \<Longrightarrow> subseq (xs @ zs) us"
proof -
  assume "subseq (xs @ ys @ zs) us"
  moreover have "subseq (xs @ zs) (xs @ ys @ zs)" unfolding subseq_append' by (rule list_emb_append2) simp
  ultimately show "subseq (xs @ zs) us" by (rule subseq_order.order_trans [rotated])
qed

lemma publish_inv_given:
  assumes "publish_inv s" and "malloc_ok malloc"
  shows "publish_inv (prvSetMlProcessingstate n malloc x (s\<lparr>sentences_given := sentences_given s @ [c_str x]\<rparr>))"
proof -
  obtain q where q: "asr_queue s = Some q" "distinct ((case sending s of None \<Rightarrow> [] | Some p \<Rightarrow> [p]) @ q)"
    "dom (asr_heap s) = set q \<union> set_option (sending s)" "commands s + unacked s \<le> 1"
    "commands s + unacked s = 1 \<longrightarrow> sending s = Some (publishInfo_payload s) \<and> xNotified s = None"
    "subseq (transmitted s @ (if commands s = 1 then [the (asr_heap s (publishInfo_payload s))] else []) @ map (the \<circ> asr_heap s) q)
       (sentences_given s)"
    using assms(1) by (auto simp: publish_inv_def)
  have same: "publish_inv (s\<lparr>sentences_given := sentences_given s @ [c_str x]\<rparr>)"
    using assms(1) by (auto simp: publish_inv_def intro: subseq_rev_drop_many)
  show ?thesis
  proof (cases "malloc (asr_heap s) (strlen x + 1)")
    case None
    then show ?thesis using same by (simp add: prvSetMlProcessingstate_def)
  next
    case (Some p)
    show ?thesis
    proof (cases "length q < n")
      case False
      then show ?thesis using same Some q(1) by (simp add: prvSetMlProcessingstate_def)
    next
      case True
      have free: "asr_heap s p = None" using assms(2) Some by (simp add: malloc_ok_def)
      then have "p \<notin> dom (asr_heap s)" by (simp add: dom_def)
      then have new: "p \<notin> set q" "sending s \<noteq> Some p" unfolding q(3) by auto
      have payload: "commands s = 1 \<Longrightarrow> publishInfo_payload s \<noteq> p" using q(5,4) new(2) by auto
      let ?h = "(asr_heap s)(p := Some (c_str x))"
      have m: "map (the \<circ> ?h) (q @ [p]) = map (the \<circ> asr_heap s) q @ [c_str x]"
        using map_heap_cong [OF new(1), of "asr_heap s" "Some (c_str x)"] by (simp del: map_eq_conv)
      have i: "(if commands s = 1 then [the (?h (publishInfo_payload s))] else []) =
          (if commands s = 1 then [the (asr_heap s (publishInfo_payload s))] else [])" using payload by simp
      have "subseq (transmitted s @ (if commands s = 1 then [the (?h (publishInfo_payload s))] else []) @ map (the \<circ> ?h) (q @ [p]))
          (sentences_given s @ [c_str x])"
        unfolding m i using q(6) by (simp only: append_assoc [symmetric] subseq_append)
      moreover have "distinct ((case sending s of None \<Rightarrow> [] | Some p \<Rightarrow> [p]) @ q @ [p])" using q(2) new by (auto split: option.splits)
      ultimately show ?thesis using q True Some
        by (auto simp: prvSetMlProcessingstate_def publish_inv_def)
    qed
  qed
qed

text \<open>Taking a message, and freeing it once the agent is done with it.\<close>

lemma publish_inv_free:
  assumes "publish_inv s" and "commands s = 0" and "unacked s = 0"
  shows "publish_inv (free_message s)"
proof (cases "sending s")
  case None
  then show ?thesis using assms(1) by (simp add: free_message_def)
next
  case (Some p)
  obtain q where q: "asr_queue s = Some q" "distinct (p # q)" "dom (asr_heap s) = insert p (set q)"
    "subseq (transmitted s @ map (the \<circ> asr_heap s) q) (sentences_given s)"
    using assms Some by (auto simp: publish_inv_def)
  have "dom ((asr_heap s)(p := None)) = set q" using q(2,3) by simp
  moreover have m: "map (the \<circ> (asr_heap s)(p := None)) q = map (the \<circ> asr_heap s) q" using q(2) by (intro map_heap_cong) simp
  have "subseq (transmitted s @ map (the \<circ> (asr_heap s)(p := None)) q) (sentences_given s)" using q(4) by (simp only: m)
  ultimately show ?thesis using q assms Some by (auto simp: publish_inv_def free_message_def)
qed

lemma publish_inv_take:
  assumes "publish_inv s"
  shows "publish_inv (take_message st s)"
proof (cases "sending s = None \<and> asr_queue s \<noteq> Some []")
  case False
  then show ?thesis using assms by (auto simp: take_message_def split: option.split list.split)
next
  case True
  obtain p q where q: "asr_queue s = Some (p # q)" "distinct (p # q)" "dom (asr_heap s) = insert p (set q)"
    "commands s = 0" "unacked s = 0"
    "subseq (transmitted s @ [the (asr_heap s p)] @ map (the \<circ> asr_heap s) q) (sentences_given s)"
    using assms True by (auto simp: publish_inv_def neq_Nil_conv)
  let ?s = "s\<lparr>asr_queue := Some q, sending := Some p, publishInfo_payload := p, xNotified := None\<rparr>"
  show ?thesis
  proof (cases "st = MQTTSuccess")
    case True
    then show ?thesis using q \<open>sending s = None \<and> _\<close> by (simp add: take_message_def publish_inv_def)
  next
    case False
    have "publish_inv ?s" using q subseq_drop_middle [OF q(6)] by (simp add: publish_inv_def)
    then have "publish_inv (free_message ?s)" by (rule publish_inv_free) (use q in simp_all)
    then show ?thesis using q False \<open>sending s = None \<and> _\<close> by (simp add: take_message_def Let_def)
  qed
qed

lemma publish_inv_transmit:
  assumes "publish_inv s"
  shows "\<exists>s'. agent_transmits s = Some s' \<and> publish_inv s'"
proof (cases "commands s = 0")
  case True
  then show ?thesis using assms by (simp add: agent_transmits_def)
next
  case False
  then have c: "commands s = 1" "unacked s = 0" "sending s = Some (publishInfo_payload s)" using assms by (auto simp: publish_inv_def)
  then have "publishInfo_payload s \<in> dom (asr_heap s)" using assms by (auto simp: publish_inv_def)
  then obtain x where "asr_heap s (publishInfo_payload s) = Some x" by blast
  then show ?thesis using assms c by (auto simp: agent_transmits_def publish_inv_def)
qed

lemma publish_inv_step:
  assumes "publish_inv s" and "malloc_ok malloc" and "e \<noteq> Timeout"
  shows "\<exists>s'. publish_step n malloc e s = Some s' \<and> publish_inv s'"
proof (cases e)
  case (Complete st)
  then show ?thesis using assms(1) by (auto simp: publish_inv_def)
next
  case Wake
  have "xNotified s \<noteq> None \<Longrightarrow> commands s = 0 \<and> unacked s = 0" using assms(1) by (auto simp: publish_inv_def)
  then show ?thesis using publish_inv_free [OF assms(1)] assms(1) Wake by auto
qed (use assms publish_inv_given publish_inv_take publish_inv_transmit in auto)

lemma publish_inv_run:
  "publish_inv s \<Longrightarrow> malloc_ok malloc \<Longrightarrow> Timeout \<notin> set es \<Longrightarrow> \<exists>s'. publish_run n malloc es s = Some s' \<and> publish_inv s'"
proof (induction es arbitrary: s)
  case (Cons e es)
  obtain s1 where "publish_step n malloc e s = Some s1" "publish_inv s1"
    using publish_inv_step [OF Cons.prems(1,2)] Cons.prems(3) by (metis list.set_intros(1))
  then show ?case using Cons.IH [of s1] Cons.prems by auto
qed simp

text \<open>C34: As long as the agent answers every command within the time limit, no freed sentence is ever read; the heap holds exactly
  the sentences in the queue and the one being sent; and what is transmitted is a subsequence of the sentences given: in their
  order, and none more often than it was given.\<close>

theorem publishing_owns_its_blocks:
  assumes "malloc_ok malloc" and "Timeout \<notin> set es"
  shows "\<exists>s q. publish_run n malloc es publish_start = Some s \<and> asr_queue s = Some q \<and>
    dom (asr_heap s) = set q \<union> set_option (sending s) \<and> subseq (transmitted s) (sentences_given s)"
proof -
  obtain s where s: "publish_run n malloc es publish_start = Some s" "publish_inv s"
    using publish_inv_run [OF publish_inv_start assms] by blast
  then obtain q xs where "asr_queue s = Some q" "dom (asr_heap s) = set q \<union> set_option (sending s)"
    "subseq (transmitted s @ xs) (sentences_given s)" by (auto simp: publish_inv_def)
  moreover from this(3) have "subseq (transmitted s) (sentences_given s)" by (meson list_emb_appendD subseq_drop_many subseq_order.order_trans subseq_rev_drop_many subseq_order.order_refl)
  ultimately show ?thesis using s(1) by blast
qed

text \<open>C35: When the time limit passes before the agent has transmitted, which the code allows, the sentence is freed while the command
  still refers to it, and the agent then reads freed memory.\<close>

theorem timed_out_publish_dangles:
  assumes "malloc_ok malloc" and "Timeout \<notin> set es" and "publish_run n malloc es publish_start = Some s" and "0 < commands s"
  shows "publish_run n malloc (es @ [Timeout, Transmit]) publish_start = None"
proof -
  have run: "publish_run n malloc (xs @ ys) t = (case publish_run n malloc xs t of None \<Rightarrow> None | Some t \<Rightarrow> publish_run n malloc ys t)"
    for xs ys t by (induction xs arbitrary: t) (auto split: option.split)
  have "publish_inv s" using publish_inv_run [OF publish_inv_start assms(1,2), of n] assms(3) by simp
  then have "sending s = Some (publishInfo_payload s)" "xNotified s = None" using assms(4) by (auto simp: publish_inv_def)
  then show ?thesis using assms(3,4) by (simp add: run free_message_def agent_transmits_def)
qed

section \<open>An allocator for the witnesses\<close>

text \<open>The smallest free address.\<close>

definition sample_malloc :: "(ptr \<Rightarrow> string option) \<Rightarrow> nat \<Rightarrow> ptr option" where
  "sample_malloc h n = (if h 1 = None then Some 1 else if h 2 = None then Some 2 else None)"

lemma sample_malloc_ok: "malloc_ok sample_malloc"
  by (simp add: malloc_ok_def sample_malloc_def)

theorem publishing_owns_its_blocks_witness:
  "\<exists>s q. publish_run 20 sample_malloc [Given ''yes'', Given ''no'', Taken_message MQTTSuccess, Transmit, Complete MQTTSuccess, Wake] publish_start = Some s \<and>
     asr_queue s = Some q \<and> dom (asr_heap s) = set q \<union> set_option (sending s) \<and> subseq (transmitted s) (sentences_given s)"
  by (rule publishing_owns_its_blocks [OF sample_malloc_ok]) simp

theorem timed_out_publish_dangles_witness:
  "publish_run 20 sample_malloc ([Given ''yes'', Taken_message MQTTSuccess] @ [Timeout, Transmit]) publish_start = None"
  by (rule timed_out_publish_dangles [OF sample_malloc_ok], simp,
    simp add: publish_start_def prvSetMlProcessingstate_def take_message_def sample_malloc_def, simp)
definition sample_asr :: "nat asr_model" where
  "sample_asr = \<lparr>asr_init_ok = True, asr_RunInference = (\<lambda>window. True), GetClassificationResults = (\<lambda>window. [length window]),
     DecodeOutput = (\<lambda>rs. if rs = [1, 2] then ''yes'' else ''no'')\<rparr>"

definition sample_asr_run :: "asr_event list" where
  "sample_asr_run = [Arrive [7], FirstCall Start, SecondCall Start, Round, Round, Round, Arrive [8, 9], Arrive [5], Round, Round]"


end
