(* ===== verification/Isp_Frames.thy ===== *)
theory Isp_Frames
  imports Asr_Task
begin

text \<open>
  The frames of the object detection: the memory and the streams that the application gives to the image signal processor
  (\<^verbatim>\<open>acamera_callbacks.c\<close>), and what it does with a finished frame (\<^verbatim>\<open>isp_config.c\<close> and
  \<^verbatim>\<open>ml_interface.cc\<close>): show the full one, run the inference on the small one, draw the boxes. The firmware, the display
  driver and the neural network are parameters. \<open>None\<close> is undefined behaviour or an endless loop.
\<close>

section \<open>Memory\<close>

text \<open>Sizes of \<^verbatim>\<open>isp_config.h\<close>, in bytes; the base address belongs to the device.\<close>

definition isp_configMAX_INPUT_FRAME_SIZE :: nat where "isp_configMAX_INPUT_FRAME_SIZE = 2048 * 1080 * 20 div 8"
definition isp_configMAX_OUTPUT_FRAME_SIZE :: nat where "isp_configMAX_OUTPUT_FRAME_SIZE = 2048 * 1080 * 4"
definition isp_configCOHERENT_DMA_MEMORY_SIZE :: nat where "isp_configCOHERENT_DMA_MEMORY_SIZE = isp_configMAX_INPUT_FRAME_SIZE"
definition isp_configMAX_BUFFERED_FRAMES :: nat where "isp_configMAX_BUFFERED_FRAMES = 4"

record isp_config =
  isp_configCOHERENT_DMA_MEMORY_BASE :: nat
  ISP_SOC_DMA_BUS_OFFSET :: u64
  pixel_width_of :: "u32 \<Rightarrow> u32"

definition isp_configFULL_RESOLUTION_BUFFER_BASE :: "isp_config \<Rightarrow> nat" where
  "isp_configFULL_RESOLUTION_BUFFER_BASE C = isp_configCOHERENT_DMA_MEMORY_BASE C + isp_configCOHERENT_DMA_MEMORY_SIZE"

definition isp_configDOWNSCALED_BUFFER_BASE :: "isp_config \<Rightarrow> nat" where
  "isp_configDOWNSCALED_BUFFER_BASE C =
     isp_configFULL_RESOLUTION_BUFFER_BASE C + isp_configMAX_OUTPUT_FRAME_SIZE * isp_configMAX_BUFFERED_FRAMES"

text \<open>All of it lies in the address space.\<close>

definition memory_fits :: "isp_config \<Rightarrow> bool" where
  "memory_fits C \<longleftrightarrow> 0 < isp_configCOHERENT_DMA_MEMORY_BASE C \<and>
     isp_configDOWNSCALED_BUFFER_BASE C + isp_configMAX_OUTPUT_FRAME_SIZE * isp_configMAX_BUFFERED_FRAMES < 2 ^ 32"

lemmas isp_sizes = isp_configMAX_INPUT_FRAME_SIZE_def isp_configMAX_OUTPUT_FRAME_SIZE_def isp_configCOHERENT_DMA_MEMORY_SIZE_def
  isp_configMAX_BUFFERED_FRAMES_def isp_configFULL_RESOLUTION_BUFFER_BASE_def isp_configDOWNSCALED_BUFFER_BASE_def

text \<open>The static variables.\<close>

record isp_memory =
  ulCoherentDmaAllocatedSize :: u32
  ulFullResolutionFrameCounter :: u32
  ulDownscaledFrameCounter :: u32

definition isp_memory_start :: isp_memory where
  "isp_memory_start = \<lparr>ulCoherentDmaAllocatedSize = 0, ulFullResolutionFrameCounter = 0, ulDownscaledFrameCounter = 0\<rparr>"

text \<open>The pointer, \<open>None\<close> for the null pointer, the bus address, and the new state. The comparison is one of 64 bits.\<close>

definition pvCallbackDmaAllocCoherent :: "isp_config \<Rightarrow> u64 \<Rightarrow> isp_memory \<Rightarrow> u32 option \<times> u64 \<times> isp_memory" where
  "pvCallbackDmaAllocCoherent C ullSize s =
     (if ucast (ulCoherentDmaAllocatedSize s) + ullSize > (of_nat isp_configCOHERENT_DMA_MEMORY_SIZE :: u64) then (None, 0, s)
      else
        (let ulAddress = of_nat (isp_configCOHERENT_DMA_MEMORY_BASE C) + ulCoherentDmaAllocatedSize s
         in (Some ulAddress, ucast ulAddress - ISP_SOC_DMA_BUS_OFFSET C,
             s\<lparr>ulCoherentDmaAllocatedSize := ucast (ucast (ulCoherentDmaAllocatedSize s) + ullSize :: u64)\<rparr>)))"

text \<open>Whatever is freed, everything is free afterwards; the pointer is only compared for a message.\<close>

definition vCallbackDmaFreeCoherent :: "u64 \<Rightarrow> u32 \<Rightarrow> isp_memory \<Rightarrow> isp_memory" where
  "vCallbackDmaFreeCoherent ullSize pvVirtualAddress s = s\<lparr>ulCoherentDmaAllocatedSize := 0\<rparr>"

datatype stream_type = ACAMERA_STREAM_FR | ACAMERA_STREAM_DS1 | ACAMERA_STREAM_OTHER

datatype frame_status = dma_buf_purge | dma_buf_empty | dma_buf_other

record aframe =
  frame_address :: u32
  frame_width :: u32
  frame_height :: u32
  frame_size :: u32
  frame_id :: u32
  frame_status :: frame_status

text \<open>All planes but the first are given back; the array must have them, and at least one.\<close>

definition lCallbackStreamGetFrame ::
  "isp_config \<Rightarrow> stream_type \<Rightarrow> aframe list \<Rightarrow> nat \<Rightarrow> isp_memory \<Rightarrow> (int \<times> aframe list \<times> isp_memory) option" where
  "lCallbackStreamGetFrame C xType pxAFrames ullNumPlanes s =
     (if length pxAFrames < max 1 ullNumPlanes then None
      else
        (let frames = map (\<lambda>i. if 1 \<le> i \<and> i < ullNumPlanes
                             then (pxAFrames ! i)\<lparr>frame_address := 0, frame_status := dma_buf_purge\<rparr> else pxAFrames ! i)
               [0..<length pxAFrames];
             (base, counter, s) =
               (case xType of
                  ACAMERA_STREAM_FR \<Rightarrow>
                    (isp_configFULL_RESOLUTION_BUFFER_BASE C, ulFullResolutionFrameCounter s,
                     s\<lparr>ulFullResolutionFrameCounter := ulFullResolutionFrameCounter s + 1\<rparr>)
                | ACAMERA_STREAM_DS1 \<Rightarrow>
                    (isp_configDOWNSCALED_BUFFER_BASE C, ulDownscaledFrameCounter s,
                     s\<lparr>ulDownscaledFrameCounter := ulDownscaledFrameCounter s + 1\<rparr>)
                | ACAMERA_STREAM_OTHER \<Rightarrow> (0, 0, s));
             ulAddress = (if xType = ACAMERA_STREAM_OTHER then 0
               else of_nat (base + unat (counter mod of_nat isp_configMAX_BUFFERED_FRAMES) * isp_configMAX_OUTPUT_FRAME_SIZE) :: u32)
         in if ulAddress = 0
            then Some (-1, frames[0 := (frames ! 0)\<lparr>frame_address := 0, frame_status := dma_buf_purge\<rparr>], s)
            else Some (0, frames[0 := (frames ! 0)\<lparr>frame_address := ulAddress, frame_status := dma_buf_empty\<rparr>], s)))"

text \<open>The blocks of a sequence of allocations: address and size of each that succeeds.\<close>

fun coherent_blocks :: "isp_config \<Rightarrow> u64 list \<Rightarrow> isp_memory \<Rightarrow> (nat \<times> nat) list" where
  "coherent_blocks C [] s = []"
| "coherent_blocks C (n # ns) s =
     (case pvCallbackDmaAllocCoherent C n s of
        (None, _, s) \<Rightarrow> coherent_blocks C ns s
      | (Some p, _, s) \<Rightarrow> (unat p, unat n) # coherent_blocks C ns s)"

text \<open>The buffers of a sequence of requests for frames, with the stream.\<close>

fun frame_buffers :: "isp_config \<Rightarrow> stream_type list \<Rightarrow> isp_memory \<Rightarrow> (stream_type \<times> nat) list" where
  "frame_buffers C [] s = []"
| "frame_buffers C (t # ts) s =
     (case lCallbackStreamGetFrame C t [\<lparr>frame_address = 0, frame_width = 0, frame_height = 0, frame_size = 0, frame_id = 0,
             frame_status = dma_buf_other\<rparr>] 1 s of
        None \<Rightarrow> []
      | Some (_, fs, s) \<Rightarrow> (t, unat (frame_address (hd fs))) # frame_buffers C ts s)"

definition region :: "nat \<Rightarrow> nat \<Rightarrow> nat set" where
  "region p n = {p..<p + n}"

lemma alloc_step:
  assumes "memory_fits C" and "unat (ulCoherentDmaAllocatedSize s) \<le> isp_configCOHERENT_DMA_MEMORY_SIZE" and "unat n < 2 ^ 63"
  shows "pvCallbackDmaAllocCoherent C n s =
    (if unat (ulCoherentDmaAllocatedSize s) + unat n > isp_configCOHERENT_DMA_MEMORY_SIZE then (None, 0, s)
     else (Some (of_nat (isp_configCOHERENT_DMA_MEMORY_BASE C + unat (ulCoherentDmaAllocatedSize s))),
           ucast (of_nat (isp_configCOHERENT_DMA_MEMORY_BASE C + unat (ulCoherentDmaAllocatedSize s)) :: u32) - ISP_SOC_DMA_BUS_OFFSET C,
           s\<lparr>ulCoherentDmaAllocatedSize := of_nat (unat (ulCoherentDmaAllocatedSize s) + unat n)\<rparr>))"
proof -
  let ?a = "unat (ulCoherentDmaAllocatedSize s)"
  have a: "?a < 2 ^ 32" using assms(2) by (simp add: isp_sizes)
  have widen: "(of_nat ?a :: u64) = ucast (ulCoherentDmaAllocatedSize s)"
    using a by (intro word_unat_eq_iff [THEN iffD2]) (simp add: unsigned_of_nat take_bit_nat_eq_self)
  have sum: "ucast (ulCoherentDmaAllocatedSize s) + n = (of_nat (?a + unat n) :: u64)" by (simp add: widen)
  have small: "?a + unat n < 2 ^ 64" using a assms(3) by simp
  have u: "unat (of_nat (?a + unat n) :: u64) = ?a + unat n" using small by (simp only: unsigned_of_nat) (simp add: take_bit_nat_eq_self)
  have big: "(of_nat (?a + unat n) :: u64) > of_nat isp_configCOHERENT_DMA_MEMORY_SIZE \<longleftrightarrow> ?a + unat n > isp_configCOHERENT_DMA_MEMORY_SIZE"
    unfolding word_less_nat_alt u by (simp add: isp_sizes)
  have narrow: "(ucast (of_nat (?a + unat n) :: u64) :: u32) = of_nat (?a + unat n)"
    by (intro word_unat_eq_iff [THEN iffD2]) (simp only: unsigned_ucast_eq u unsigned_of_nat, simp)
  have addr: "of_nat (isp_configCOHERENT_DMA_MEMORY_BASE C) + ulCoherentDmaAllocatedSize s =
      (of_nat (isp_configCOHERENT_DMA_MEMORY_BASE C + ?a) :: u32)" by simp
  show ?thesis unfolding pvCallbackDmaAllocCoherent_def sum big Let_def narrow addr ..
qed

text \<open>Whatever is asked for, the blocks follow each other inside the region; the frame buffers lie behind it.\<close>

lemma coherent_blocks_inside:
  assumes "memory_fits C"
  shows "unat (ulCoherentDmaAllocatedSize s) \<le> isp_configCOHERENT_DMA_MEMORY_SIZE \<Longrightarrow> \<forall>n\<in>set ns. unat n < 2 ^ 63 \<Longrightarrow>
    (\<forall>(p, n)\<in>set (coherent_blocks C ns s). isp_configCOHERENT_DMA_MEMORY_BASE C + unat (ulCoherentDmaAllocatedSize s) \<le> p \<and>
       p + n \<le> isp_configFULL_RESOLUTION_BUFFER_BASE C) \<and>
    sorted_wrt (\<lambda>(p, n) (q, m). p + n \<le> q) (coherent_blocks C ns s)"
proof (induction ns arbitrary: s)
  case (Cons n ns)
  let ?a = "unat (ulCoherentDmaAllocatedSize s)" and ?base = "isp_configCOHERENT_DMA_MEMORY_BASE C"
  have n: "unat n < 2 ^ 63" using Cons.prems(2) by simp
  note step = alloc_step [OF assms Cons.prems(1) n]
  show ?case
  proof (cases "?a + unat n > isp_configCOHERENT_DMA_MEMORY_SIZE")
    case True
    then show ?thesis using step Cons by simp
  next
    case False
    let ?s = "s\<lparr>ulCoherentDmaAllocatedSize := of_nat (?a + unat n)\<rparr>"
    have fit: "?base + ?a < 2 ^ 32" "?a + unat n < 2 ^ 32" using assms False by (simp_all add: memory_fits_def isp_sizes)
    have p: "unat (of_nat (?base + ?a) :: u32) = ?base + ?a" and a: "unat (of_nat (?a + unat n) :: u32) = ?a + unat n"
      using fit by (simp_all only: unsigned_of_nat) (simp_all add: take_bit_nat_eq_self)
    have alloc: "pvCallbackDmaAllocCoherent C n s = (Some (of_nat (?base + ?a)), ucast (of_nat (?base + ?a) :: u32) - ISP_SOC_DMA_BUS_OFFSET C, ?s)"
      using step False by (simp only: if_False)
    have eq: "coherent_blocks C (n # ns) s = (?base + ?a, unat n) # coherent_blocks C ns ?s"
      by (simp only: coherent_blocks.simps alloc prod.case option.case p)
    have sel: "ulCoherentDmaAllocatedSize (s\<lparr>ulCoherentDmaAllocatedSize := x\<rparr>) = x" for x by simp
    have "unat (ulCoherentDmaAllocatedSize ?s) \<le> isp_configCOHERENT_DMA_MEMORY_SIZE" unfolding sel a using False by simp
    moreover have "\<forall>n\<in>set ns. unat n < 2 ^ 63" using Cons.prems(2) by simp
    ultimately have IH: "\<forall>(p, m)\<in>set (coherent_blocks C ns ?s). ?base + (?a + unat n) \<le> p \<and> p + m \<le> isp_configFULL_RESOLUTION_BUFFER_BASE C"
      "sorted_wrt (\<lambda>(p, n) (q, m). p + n \<le> q) (coherent_blocks C ns ?s)"
      using Cons.IH [of ?s] unfolding sel a by simp_all
    have "?base + ?a + unat n \<le> isp_configFULL_RESOLUTION_BUFFER_BASE C" using False by (simp add: isp_configFULL_RESOLUTION_BUFFER_BASE_def)
    then show ?thesis unfolding eq using IH by fastforce
  qed
qed simp

definition buffer_base :: "isp_config \<Rightarrow> stream_type \<Rightarrow> nat" where
  "buffer_base C t = (case t of ACAMERA_STREAM_FR \<Rightarrow> isp_configFULL_RESOLUTION_BUFFER_BASE C
     | ACAMERA_STREAM_DS1 \<Rightarrow> isp_configDOWNSCALED_BUFFER_BASE C | ACAMERA_STREAM_OTHER \<Rightarrow> 0)"

definition frame_counter :: "stream_type \<Rightarrow> isp_memory \<Rightarrow> nat" where
  "frame_counter t s = unat (case t of ACAMERA_STREAM_FR \<Rightarrow> ulFullResolutionFrameCounter s
     | ACAMERA_STREAM_DS1 \<Rightarrow> ulDownscaledFrameCounter s | ACAMERA_STREAM_OTHER \<Rightarrow> 0)"

definition count_frame :: "stream_type \<Rightarrow> isp_memory \<Rightarrow> isp_memory" where
  "count_frame t s = (case t of
       ACAMERA_STREAM_FR \<Rightarrow> s\<lparr>ulFullResolutionFrameCounter := ulFullResolutionFrameCounter s + 1\<rparr>
     | ACAMERA_STREAM_DS1 \<Rightarrow> s\<lparr>ulDownscaledFrameCounter := ulDownscaledFrameCounter s + 1\<rparr>
     | ACAMERA_STREAM_OTHER \<Rightarrow> s)"

lemma counter_wraps: "unat (x + 1 :: u32) mod 4 = (unat x + 1) mod 4"
proof -
  have "unat (x + 1) = (unat x + 1) mod 2 ^ 32" by (simp add: unat_word_ariths)
  then show ?thesis by (simp add: mod_mod_cancel)
qed

lemma count_frame_counter:
  "u \<noteq> ACAMERA_STREAM_OTHER \<Longrightarrow> frame_counter u (count_frame t s) mod 4 = (frame_counter u s + (if u = t then 1 else 0)) mod 4"
  by (cases u; cases t) (simp_all add: frame_counter_def count_frame_def counter_wraps)

definition buffer_at :: "isp_config \<Rightarrow> stream_type \<Rightarrow> nat \<Rightarrow> nat" where
  "buffer_at C t n = buffer_base C t + n mod 4 * isp_configMAX_OUTPUT_FRAME_SIZE"

lemma buffer_at_range:
  assumes "memory_fits C" and "t \<noteq> ACAMERA_STREAM_OTHER"
  shows "0 < buffer_at C t n" and "unat (of_nat (buffer_at C t n) :: u32) = buffer_at C t n"
proof -
  have n: "n mod 4 \<le> 3" by simp
  show "0 < buffer_at C t n" using assms by (cases t) (simp_all add: memory_fits_def buffer_at_def buffer_base_def isp_sizes)
  have "buffer_at C t n < 2 ^ 32"
    using assms n by (cases t) (simp_all add: memory_fits_def buffer_at_def buffer_base_def isp_sizes)
  then show "unat (of_nat (buffer_at C t n) :: u32) = buffer_at C t n"
    by (simp only: unsigned_of_nat) (simp add: take_bit_nat_eq_self)
qed

lemma buffer_at_nonzero:
  assumes "memory_fits C" and "t \<noteq> ACAMERA_STREAM_OTHER"
  shows "(of_nat (buffer_at C t n) :: u32) \<noteq> 0"
  using buffer_at_range [OF assms, of n] by (metis less_numeral_extra(3) unat_0)

lemma get_frame:
  assumes "memory_fits C" and "t \<noteq> ACAMERA_STREAM_OTHER" and "1 \<le> length fs" and "n \<le> length fs"
  shows "\<exists>fs'. lCallbackStreamGetFrame C t fs n s = Some (0, fs', count_frame t s) \<and>
    frame_address (hd fs') = of_nat (buffer_at C t (frame_counter t s)) \<and> frame_status (hd fs') = dma_buf_empty"
proof -
  have m: "unat (c mod of_nat isp_configMAX_BUFFERED_FRAMES) = unat c mod 4" for c :: u32
    by (simp add: isp_configMAX_BUFFERED_FRAMES_def unat_mod_distrib)
  have addr: "(if t = ACAMERA_STREAM_OTHER then 0 else of_nat (buffer_base C t + frame_counter t s mod 4 * isp_configMAX_OUTPUT_FRAME_SIZE) :: u32)
      = of_nat (buffer_at C t (frame_counter t s))" using assms(2) unfolding buffer_at_def by simp
  note nz = buffer_at_nonzero [OF assms(1,2), of "frame_counter t s", unfolded buffer_at_def]
  have hd_update: "hd (xs[0 := x]) = x" if "length xs = length fs" for xs and x :: aframe
    using that assms(3) by (cases xs) auto
  show ?thesis
  proof (cases t)
    case ACAMERA_STREAM_FR
    then show ?thesis using assms nz
      by (simp add: lCallbackStreamGetFrame_def m buffer_base_def frame_counter_def count_frame_def buffer_at_def hd_update Let_def
          del: of_nat_add of_nat_mult)
  next
    case ACAMERA_STREAM_DS1
    then show ?thesis using assms nz
      by (simp add: lCallbackStreamGetFrame_def m buffer_base_def frame_counter_def count_frame_def buffer_at_def hd_update Let_def
          del: of_nat_add of_nat_mult)
  qed (use assms in simp)
qed

lemma get_frame_other: "\<exists>fs'. lCallbackStreamGetFrame C ACAMERA_STREAM_OTHER [f] 1 s = Some (-1, fs', s)"
  by (simp add: lCallbackStreamGetFrame_def Let_def)

lemma frame_buffers_exact:
  assumes "memory_fits C"
  shows "length (frame_buffers C ts s) = length ts \<and>
    (\<forall>i<length ts. ts ! i \<noteq> ACAMERA_STREAM_OTHER \<longrightarrow>
       frame_buffers C ts s ! i = (ts ! i, buffer_at C (ts ! i) (frame_counter (ts ! i) s + count_list (take i ts) (ts ! i))))"
proof (induction ts arbitrary: s)
  case (Cons t ts)
  let ?f = "\<lparr>frame_address = 0, frame_width = 0, frame_height = 0, frame_size = 0, frame_id = 0, frame_status = dma_buf_other\<rparr>"
  obtain x where eq: "frame_buffers C (t # ts) s = (t, x) # frame_buffers C ts (count_frame t s)"
    and x: "t \<noteq> ACAMERA_STREAM_OTHER \<Longrightarrow> x = buffer_at C t (frame_counter t s)"
  proof (cases "t = ACAMERA_STREAM_OTHER")
    case True
    then show thesis using that get_frame_other [of C ?f s] by (auto simp: count_frame_def)
  next
    case False
    obtain fs' where "lCallbackStreamGetFrame C t [?f] 1 s = Some (0, fs', count_frame t s)"
      "frame_address (hd fs') = of_nat (buffer_at C t (frame_counter t s))"
      using get_frame [OF assms False, of "[?f]" 1 s] by auto
    then show thesis using that buffer_at_range(2) [OF assms False] by simp
  qed
  have same: "buffer_at C u (frame_counter u (count_frame t s) + k) = buffer_at C u (frame_counter u s + (if u = t then 1 else 0) + k)"
    if "u \<noteq> ACAMERA_STREAM_OTHER" for u k
    unfolding buffer_at_def using count_frame_counter [OF that, of t s] by (metis mod_add_left_eq)
  show ?case
  proof (intro conjI allI impI)
    show "length (frame_buffers C (t # ts) s) = length (t # ts)" using Cons.IH by (simp only: eq length_Cons)
    fix i assume i: "i < length (t # ts)" "(t # ts) ! i \<noteq> ACAMERA_STREAM_OTHER"
    show "frame_buffers C (t # ts) s ! i =
        ((t # ts) ! i, buffer_at C ((t # ts) ! i) (frame_counter ((t # ts) ! i) s + count_list (take i (t # ts)) ((t # ts) ! i)))"
    proof (cases i)
      case 0
      then show ?thesis using i x by (simp only: eq) simp
    next
      case (Suc j)
      have u: "ts ! j \<noteq> ACAMERA_STREAM_OTHER" "j < length ts" using i Suc by simp_all
      show ?thesis
        using Cons.IH [of "count_frame t s"] u same [OF u(1), of "count_list (take j ts) (ts ! j)"]
        by (simp only: eq Suc) (simp add: ac_simps)
    qed
  qed
qed simp

lemma buffers_meet:
  assumes "region (buffer_at C t m) isp_configMAX_OUTPUT_FRAME_SIZE \<inter> region (buffer_at C u n) isp_configMAX_OUTPUT_FRAME_SIZE \<noteq> {}"
    and "t \<noteq> ACAMERA_STREAM_OTHER" and "u \<noteq> ACAMERA_STREAM_OTHER"
  shows "t = u \<and> m mod 4 = n mod 4"
proof -
  define a b where "a = m mod 4" and "b = n mod 4"
  have ab: "a \<le> 3" "b \<le> 3" by (simp_all add: a_def b_def)
  have lt: "buffer_base C t + a * isp_configMAX_OUTPUT_FRAME_SIZE < buffer_base C u + b * isp_configMAX_OUTPUT_FRAME_SIZE + isp_configMAX_OUTPUT_FRAME_SIZE"
    "buffer_base C u + b * isp_configMAX_OUTPUT_FRAME_SIZE < buffer_base C t + a * isp_configMAX_OUTPUT_FRAME_SIZE + isp_configMAX_OUTPUT_FRAME_SIZE"
    using assms(1) by (auto simp: region_def buffer_at_def a_def b_def)
  have "t = u" using lt ab assms(2,3) by (cases t; cases u) (simp_all add: buffer_base_def isp_sizes)
  moreover from this have "a = b" using lt by (simp add: isp_sizes)
  ultimately show ?thesis by (simp add: a_def b_def)
qed

lemma multiple_of_4: "m mod 4 = (m + e) mod 4 \<Longrightarrow> 4 dvd (e :: nat)"
  by presburger

lemma count_list_between: "i \<le> j \<Longrightarrow> count_list (take j ts) t = count_list (take i ts) t + count_list (take (j - i) (drop i ts)) t"
  by (metis count_list_append le_add_diff_inverse take_add)


definition example_isp_config :: isp_config where
  "example_isp_config = \<lparr>isp_configCOHERENT_DMA_MEMORY_BASE = 0x70000000, ISP_SOC_DMA_BUS_OFFSET = 0, pixel_width_of = (\<lambda>_. 16)\<rparr>"


end
