(* ===== verification/Hdlcd.thy ===== *)
theory Hdlcd
  imports Prelude
begin

text \<open>
  The pixel formats of the display, \<^verbatim>\<open>hdlcd_helper.c\<close>, and the two conversions between colour and grey of \<^verbatim>\<open>isp_config.c\<close>. The
  weighted sum of a conversion to grey, which is computed with floats, is a parameter. The structure of a channel comes from a
  header of the driver; it has here the fields that the code reads. The fields that only the driver reads, the default colour of a channel and
  the pixel format of a mode, are left out.
\<close>

unbundle bit_operations_syntax

section \<open>Formats\<close>

record color_field =
  bit_size :: nat
  bit_offset :: nat

record hdlcd_pixel_cfg =
  red :: color_field
  green :: color_field
  blue :: color_field

record hdlcd_mode =
  bytes_per_pixel :: nat
  default_highlight_color :: u32
  default_mask_color :: u32
  pixel_cfg :: hdlcd_pixel_cfg

datatype hdlcd_pixel_format =
  HDLCD_PIXEL_FORMAT_RGB565 | HDLCD_PIXEL_FORMAT_RGB32 | HDLCD_PIXEL_FORMAT_A2R10G10B10 | HDLCD_PIXEL_FORMAT_NOT_SUPPORTED

definition hdlcd_pixel_cfg_rgb565 :: hdlcd_pixel_cfg where
  "hdlcd_pixel_cfg_rgb565 = \<lparr>red = \<lparr>bit_size = 5, bit_offset = 0xb\<rparr>, green = \<lparr>bit_size = 6, bit_offset = 5\<rparr>,
     blue = \<lparr>bit_size = 5, bit_offset = 0\<rparr>\<rparr>"

definition hdlcd_pixel_cfg_rgb32 :: hdlcd_pixel_cfg where
  "hdlcd_pixel_cfg_rgb32 = \<lparr>red = \<lparr>bit_size = 8, bit_offset = 0x10\<rparr>, green = \<lparr>bit_size = 8, bit_offset = 8\<rparr>,
     blue = \<lparr>bit_size = 8, bit_offset = 0\<rparr>\<rparr>"

definition hdlcd_pixel_cfg_a2r10g10b10 :: hdlcd_pixel_cfg where
  "hdlcd_pixel_cfg_a2r10g10b10 = \<lparr>red = \<lparr>bit_size = 8, bit_offset = 0x16\<rparr>, green = \<lparr>bit_size = 8, bit_offset = 0xc\<rparr>,
     blue = \<lparr>bit_size = 8, bit_offset = 2\<rparr>\<rparr>"

definition HDLCD_MODES :: "hdlcd_mode list" where
  "HDLCD_MODES =
     [\<lparr>bytes_per_pixel = 2, default_highlight_color = 0xFFE0, default_mask_color = 0xF800, pixel_cfg = hdlcd_pixel_cfg_rgb565\<rparr>,
      \<lparr>bytes_per_pixel = 4, default_highlight_color = 0xFFFF00, default_mask_color = 0xFF0000, pixel_cfg = hdlcd_pixel_cfg_rgb32\<rparr>,
      \<lparr>bytes_per_pixel = 4, default_highlight_color = 0x3FFFFC00, default_mask_color = 0x3FF00000, pixel_cfg = hdlcd_pixel_cfg_a2r10g10b10\<rparr>]"

fun format_value :: "hdlcd_pixel_format \<Rightarrow> nat" where
  "format_value HDLCD_PIXEL_FORMAT_RGB565 = 0"
| "format_value HDLCD_PIXEL_FORMAT_RGB32 = 1"
| "format_value HDLCD_PIXEL_FORMAT_A2R10G10B10 = 2"
| "format_value HDLCD_PIXEL_FORMAT_NOT_SUPPORTED = 3"

text \<open>\<open>None\<close> for an index behind the table.\<close>

definition mode_of :: "hdlcd_pixel_format \<Rightarrow> hdlcd_mode option" where
  "mode_of eFormat = (if format_value eFormat < length HDLCD_MODES then Some (HDLCD_MODES ! format_value eFormat) else None)"

section \<open>Conversions\<close>

text \<open>Memory by addresses; a read of 4 bytes, the lowest first.\<close>

definition read_u32 :: "(nat \<Rightarrow> u8) \<Rightarrow> nat \<Rightarrow> u32" where
  "read_u32 m a = ucast (m a) OR push_bit 8 (ucast (m (a + 1))) OR push_bit 16 (ucast (m (a + 2))) OR push_bit 24 (ucast (m (a + 3)))"

definition channel :: "color_field \<Rightarrow> u32 \<Rightarrow> u32" where
  "channel c x = drop_bit (bit_offset c) x AND mask (bit_size c)"

text \<open>\<open>intensity\<close> is the weighted sum of the three channels, truncated.\<close>

definition gray_pixel :: "(hdlcd_pixel_cfg \<Rightarrow> u32 \<Rightarrow> u32 \<Rightarrow> u32 \<Rightarrow> u32) \<Rightarrow> hdlcd_pixel_cfg \<Rightarrow> u32 \<Rightarrow> u8" where
  "gray_pixel intensity c x =
     (let ulGrayIntensity = intensity c (channel (red c) x) (channel (green c) x) (channel (blue c) x)
      in if ulGrayIntensity \<le> 0xff then ucast ulGrayIntensity else 0xff)"

definition vRgbToGrayscale ::
  "(hdlcd_pixel_cfg \<Rightarrow> u32 \<Rightarrow> u32 \<Rightarrow> u32 \<Rightarrow> u32) \<Rightarrow> (nat \<Rightarrow> u8) \<Rightarrow> nat \<Rightarrow> nat \<Rightarrow> hdlcd_pixel_format \<Rightarrow> u8 list option" where
  "vRgbToGrayscale intensity m pucSrcImage xDstImageSize eFormat =
     map_option (\<lambda>md. map (\<lambda>i. gray_pixel intensity (pixel_cfg md) (read_u32 m (pucSrcImage + i * bytes_per_pixel md))) [0..<xDstImageSize])
       (mode_of eFormat)"

definition colored :: "color_field \<Rightarrow> u8 \<Rightarrow> u32" where
  "colored c x = push_bit (bit_offset c) (drop_bit (8 - bit_size c) (ucast x) AND mask (bit_size c))"

definition gray_color :: "hdlcd_pixel_cfg \<Rightarrow> u8 \<Rightarrow> u32" where
  "gray_color c x = colored (red c) x OR colored (green c) x OR colored (blue c) x"

definition color_bytes :: "u32 \<Rightarrow> u8 list" where
  "color_bytes x = map (\<lambda>j. ucast (drop_bit (8 * j) x)) [0..<4]"

text \<open>The bytes written, and the minimum and maximum that are logged.\<close>

definition vGrayscaleToRgb :: "u8 list \<Rightarrow> hdlcd_pixel_format \<Rightarrow> (u8 list \<times> u32 \<times> u32) option" where
  "vGrayscaleToRgb pucSrcImage eFormat =
     map_option (\<lambda>md. (concat (map (\<lambda>x. take (bytes_per_pixel md) (color_bytes (gray_color (pixel_cfg md) x))) pucSrcImage),
                      fold (\<lambda>x. min (ucast x)) pucSrcImage 0xff, fold (\<lambda>x. max (ucast x)) pucSrcImage 0))
       (mode_of eFormat)"

section \<open>A grey picture shown and read back\<close>

lemma read_u32_bit: "bit (read_u32 m a) k \<longleftrightarrow> k < 32 \<and> bit (m (a + k div 8)) (k mod 8)"
proof -
  consider "k < 8" | "8 \<le> k" "k < 16" | "16 \<le> k" "k < 24" | "24 \<le> k" "k < 32" | "32 \<le> k" by linarith
  then show ?thesis
  proof cases
    case 1
    then show ?thesis by (auto simp: read_u32_def bit_simps dest: bit_imp_le_length)
  next
    case 2
    then have d: "k div 8 = 1" by linarith
    then have "k mod 8 = k - 8" using minus_mult_div_eq_mod [of k 8] by simp
    then show ?thesis using 2 d by (auto simp: read_u32_def bit_simps dest: bit_imp_le_length)
  next
    case 3
    then have d: "k div 8 = 2" by linarith
    then have "k mod 8 = k - 16" using minus_mult_div_eq_mod [of k 8] by simp
    then show ?thesis using 3 d by (auto simp: read_u32_def bit_simps dest: bit_imp_le_length)
  next
    case 4
    then have d: "k div 8 = 3" by linarith
    then have "k mod 8 = k - 24" using minus_mult_div_eq_mod [of k 8] by simp
    then show ?thesis using 4 d by (auto simp: read_u32_def bit_simps dest: bit_imp_le_length)
  next
    case 5
    then show ?thesis by (auto dest: bit_imp_le_length)
  qed
qed

definition holds_bytes :: "(nat \<Rightarrow> u8) \<Rightarrow> nat \<Rightarrow> u8 list \<Rightarrow> bool" where
  "holds_bytes m a bs \<longleftrightarrow> (\<forall>i<length bs. m (a + i) = bs ! i)"

lemma concat_nth:
  "(\<And>x. length (f x) = b) \<Longrightarrow> i < length xs \<Longrightarrow> j < b \<Longrightarrow>
    i * b + j < length (concat (map f xs)) \<and> concat (map f xs) ! (i * b + j) = f (xs ! i) ! j"
proof (induction xs arbitrary: i)
  case (Cons x xs)
  show ?case
  proof (cases i)
    case 0
    then show ?thesis using Cons.prems by (simp add: nth_append)
  next
    case (Suc i')
    then show ?thesis using Cons.IH [of i'] Cons.prems by (simp add: nth_append)
  qed
qed simp

lemma stored_pixel_bit:
  assumes "holds_bytes m a (concat (map (\<lambda>x. take b (color_bytes (col x))) xs))" and "b \<le> 4" and "i < length xs" and "k < 8 * b"
  shows "bit (read_u32 m (a + i * b)) k = bit (col (xs ! i)) k"
proof -
  let ?f = "\<lambda>x. take b (color_bytes (col x))"
  have j: "k div 8 < b" using assms(4) by (simp add: less_mult_imp_div_less mult.commute)
  have len: "length (?f x) = b" for x using assms(2) by (simp add: color_bytes_def)
  have "m (a + (i * b + k div 8)) = ?f (xs ! i) ! (k div 8)"
    using concat_nth [of ?f, OF len assms(3) j] assms(1) by (simp add: holds_bytes_def)
  also have "\<dots> = ucast (drop_bit (8 * (k div 8)) (col (xs ! i)))" using j assms(2) by (simp add: color_bytes_def)
  finally have "bit (m (a + i * b + k div 8)) (k mod 8) = bit (col (xs ! i)) k"
    by (simp add: bit_simps add.assoc)
  then show ?thesis using assms(2,4) by (simp add: read_u32_bit)
qed

lemma channel_bits: "channel c x = channel c y" if "\<And>k. k < bit_offset c + bit_size c \<Longrightarrow> bit x k = bit y k"
  using that by (intro bit_word_eqI) (auto simp: channel_def bit_simps)

lemma mode_cases:
  assumes "mode_of f = Some md"
  obtains "bytes_per_pixel md = 2" and "pixel_cfg md = hdlcd_pixel_cfg_rgb565"
  | "bytes_per_pixel md = 4" and "pixel_cfg md = hdlcd_pixel_cfg_rgb32"
  | "bytes_per_pixel md = 4" and "pixel_cfg md = hdlcd_pixel_cfg_a2r10g10b10"
  using assms by (cases f) (auto simp: mode_of_def HDLCD_MODES_def)

lemmas pixel_cfgs = hdlcd_pixel_cfg_rgb565_def hdlcd_pixel_cfg_rgb32_def hdlcd_pixel_cfg_a2r10g10b10_def

lemma bit_byte: "bit (ucast (x :: u8) :: u32) k \<longleftrightarrow> k < 8 \<and> bit x k"
  by (auto simp: bit_simps dest: bit_imp_le_length)

lemma channel_or: "channel c (x OR y) = channel c x OR channel c y"
  by (auto simp: channel_def bit_simps intro!: bit_word_eqI)

lemma channel_same:
  assumes "bit_size c \<le> 8" and "bit_offset c + bit_size c \<le> 32"
  shows "channel c (colored c x) = drop_bit (8 - bit_size c) (ucast x)"
proof (rule bit_word_eqI)
  fix n assume "n < LENGTH(32)"
  have "n < bit_size c" if "bit x (8 - bit_size c + n)" using bit_imp_le_length [OF that] assms(1) by simp
  then show "bit (channel c (colored c x)) n = bit (drop_bit (8 - bit_size c) (ucast x) :: u32) n"
    using assms by (auto simp: channel_def colored_def bit_simps bit_byte)
qed

lemma channel_other:
  "bit_offset c + bit_size c \<le> bit_offset d \<or> bit_offset d + bit_size d \<le> bit_offset c \<Longrightarrow> channel c (colored d x) = 0"
  by (auto simp: channel_def colored_def bit_simps intro!: bit_word_eqI)

text \<open>Each channel of a grey colour holds the highest bits of the grey value.\<close>

lemma gray_channel:
  assumes "mode_of f = Some md" and "c \<in> {red (pixel_cfg md), green (pixel_cfg md), blue (pixel_cfg md)}"
  shows "channel c (gray_color (pixel_cfg md) x) = drop_bit (8 - bit_size c) (ucast x) \<and> bit_offset c + bit_size c \<le> 8 * bytes_per_pixel md"
  using assms(1)
  by (cases rule: mode_cases)
    (use assms(2) in \<open>auto simp: pixel_cfgs gray_color_def channel_or channel_same channel_other\<close>)

text \<open>A grey picture converted to any format of the display and back: each pixel is the weighted sum of its own highest bits, whatever is
  in memory around the picture, although every read takes 4 bytes, also behind a last pixel of 2.\<close>

theorem gray_read_back:
  assumes "mode_of f = Some md" and "vGrayscaleToRgb xs f = Some (bs, lo, hi)" and "holds_bytes m a bs"
  shows "vRgbToGrayscale intensity m a (length xs) f =
    Some (map (\<lambda>x. let top = (\<lambda>c. drop_bit (8 - bit_size c) (ucast x)) ;
                        v = intensity (pixel_cfg md) (top (red (pixel_cfg md))) (top (green (pixel_cfg md))) (top (blue (pixel_cfg md)))
                    in if v \<le> 0xff then ucast v else 0xff) xs)"
proof -
  let ?b = "bytes_per_pixel md" and ?col = "gray_color (pixel_cfg md)"
  have bs: "bs = concat (map (\<lambda>x. take ?b (color_bytes (?col x))) xs)" using assms(1,2) by (simp add: vGrayscaleToRgb_def)
  have b: "?b \<le> 4" using assms(1) by (cases rule: mode_cases) simp_all
  have ch: "channel c (read_u32 m (a + i * ?b)) = drop_bit (8 - bit_size c) (ucast (xs ! i))"
    if "i < length xs" "c \<in> {red (pixel_cfg md), green (pixel_cfg md), blue (pixel_cfg md)}" for c i
  proof -
    note g = gray_channel [OF assms(1) that(2), of "xs ! i"]
    have "channel c (read_u32 m (a + i * ?b)) = channel c (?col (xs ! i))"
      using stored_pixel_bit [OF assms(3) [unfolded bs] b that(1)] g by (intro channel_bits) simp
    then show ?thesis using g by simp
  qed
  show ?thesis unfolding vRgbToGrayscale_def assms(1) option.map option.inject gray_pixel_def
    by (rule nth_equalityI) (simp_all only: length_map length_upt nth_map nth_upt minus_nat.diff_0 add_0 ch insert_iff simp_thms Let_def)
qed

theorem gray_read_back_witness:
  "vRgbToGrayscale (\<lambda>c r g b. g) (\<lambda>i. [0x82, 0x10, 0xff, 0xff] ! (i mod 4)) 100 2 HDLCD_PIXEL_FORMAT_RGB565 = Some [4, 63]"
proof -
  have md: "mode_of HDLCD_PIXEL_FORMAT_RGB565 = Some (HDLCD_MODES ! 0)" by (simp add: mode_of_def HDLCD_MODES_def)
  have colors: "gray_color hdlcd_pixel_cfg_rgb565 0x10 = 0x1082" "gray_color hdlcd_pixel_cfg_rgb565 0xff = 0xffff" by code_simp+
  have rgb: "vGrayscaleToRgb [0x10, 0xff] HDLCD_PIXEL_FORMAT_RGB565 = Some ([0x82, 0x10, 0xff, 0xff], 0x10, 0xff)"
    by (simp add: vGrayscaleToRgb_def md HDLCD_MODES_def colors color_bytes_def upt_rec)
  have m: "holds_bytes (\<lambda>i. [0x82, 0x10, 0xff, 0xff] ! (i mod 4)) 100 [0x82, 0x10, 0xff, 0xff]"
  proof -
    have "(100 + i) mod 4 = i" if "i < 4" for i :: nat using that by presburger
    then show ?thesis by (simp add: holds_bytes_def)
  qed
  have "vRgbToGrayscale (\<lambda>c r g b. g) (\<lambda>i. [0x82, 0x10, 0xff, 0xff] ! (i mod 4)) 100 (length [0x10, 0xff :: u8]) HDLCD_PIXEL_FORMAT_RGB565 =
      Some [ucast (drop_bit 2 (0x10 :: u32)), ucast (drop_bit 2 (0xff :: u32))]"
    unfolding gray_read_back [OF md rgb m]
    by (simp add: HDLCD_MODES_def hdlcd_pixel_cfg_rgb565_def Let_def)
  then show ?thesis by (simp flip: numeral_2_eq_2)
qed

end
