(* ===== verification/Detection.thy ===== *)
theory Detection
  imports Isp_Frames Crt_Helpers Hdlcd
begin

text \<open>
  What the object detection does with a frame of the image signal processor: the callback that receives it
  (\<^verbatim>\<open>acamera_callbacks.c\<close>), the display of full frames and the inference on small ones (\<^verbatim>\<open>isp_config.c\<close>,
  \<^verbatim>\<open>ml_interface.cc\<close>). The network, the display driver and the drawing library are
  parameters. \<open>None\<close> is undefined behaviour, an assertion, or an endless loop.
\<close>

section \<open>State\<close>

record DetectRegion =
  ulX :: u32
  ulY :: u32
  ulW :: u32
  ulH :: u32

record LastFrame =
  ulDisplayed :: u32
  ulInferred :: u32
  fr_Mode :: u32
  fr_Width :: u32
  fr_Height :: u32

text \<open>A rectangle of the drawing library, whose coordinates have 16 bits, and the frame shown: address, width, height.\<close>

record arm_2d_region =
  iX :: int
  iY :: int
  iWidth :: int
  iHeight :: int

type_synonym root_tile = "u32 \<times> u32 \<times> u32"

text \<open>
  The statics, the message queue with its heap, and two histories: the frames shown, and the boxes drawn, each
  with the tile it was drawn on.
\<close>

record detection =
  xLastFrame :: LastFrame
  xRootTile :: "root_tile option"
  detect_publish :: asr_publish
  stream_semaphore :: bool
  handlers_set :: bool
  shown :: "root_tile list"
  drawn :: "(root_tile option \<times> arm_2d_region) list"

text \<open>
  The environment: the memory the frames lie in, the weighted sum of a conversion to grey, the boxes found in it (\<open>None\<close> when the model is not
  initialised or one of its steps fails), whether the two calls that configure the display succeed, whether its
  interrupts arrive, the format that the firmware reports for a stream, and the heap.
\<close>

record detect_env =
  memory_at :: "nat \<Rightarrow> u8"
  gray_intensity :: "hdlcd_pixel_cfg \<Rightarrow> u32 \<Rightarrow> u32 \<Rightarrow> u32 \<Rightarrow> u32"
  run_model :: "u8 list \<Rightarrow> DetectRegion list option"
  hdlcd_config_ok :: bool
  hdlcd_interrupts :: bool
  stream_format :: "stream_type \<Rightarrow> u32"
  detect_malloc :: "(ptr \<Rightarrow> string option) \<Rightarrow> nat \<Rightarrow> ptr option"
  detect_queue_length :: nat
  DMA_FORMAT_RGB565 :: u32
  DMA_FORMAT_RGB32 :: u32

definition isp_configMAX_DETECT_RESULTS :: nat where "isp_configMAX_DETECT_RESULTS = 10"
definition isp_configHIGHLIGHTED_FRAME_WIDTH :: int where "isp_configHIGHLIGHTED_FRAME_WIDTH = 2"
definition isp_configBORDER_BUFFER_SIZE :: int where "isp_configBORDER_BUFFER_SIZE = 320 * 240 * 4"
definition isp_configMAX_INFER_FRAME_SIZE :: nat where "isp_configMAX_INFER_FRAME_SIZE = 192 * 192"

section \<open>Inference\<close>

definition present_faces :: "detect_env \<Rightarrow> nat \<Rightarrow> asr_publish \<Rightarrow> asr_publish" where
  "present_faces E n p =
     prvSetMlProcessingstate (detect_queue_length E) (detect_malloc E) (''Detected faces: '' @ dec_string n) p"

text \<open>
  The result, the array and the number of results, and the messages. Elements of the array that were never
  written are \<open>None\<close>.
\<close>

definition prvProcessImage ::
  "detect_env \<Rightarrow> u8 list \<Rightarrow> DetectRegion option list \<Rightarrow> nat \<Rightarrow> asr_publish \<Rightarrow> int \<times> DetectRegion option list \<times> nat \<times> asr_publish" where
  "prvProcessImage E img pxCResults ulResultsNum p =
     (case run_model E img of
        None \<Rightarrow> (-1, pxCResults, ulResultsNum, p)
      | Some xResults \<Rightarrow>
          (let m = min (length xResults) ulResultsNum
           in (0, map Some (take m xResults) @ drop m pxCResults, m, present_faces E (length xResults) p)))"

text \<open>The result of the inference is not passed on.\<close>

definition lMLRunInference ::
  "detect_env \<Rightarrow> u8 list \<Rightarrow> DetectRegion option list \<Rightarrow> nat \<Rightarrow> asr_publish \<Rightarrow> int \<times> DetectRegion option list \<times> nat \<times> asr_publish" where
  "lMLRunInference E img xResults n p = (let (_, xResults, n, p) = prvProcessImage E img xResults n p in (0, xResults, n, p))"

section \<open>Drawing\<close>

text \<open>A product of an \<^verbatim>\<open>int\<close> and a \<^verbatim>\<open>float\<close> that is a small integer, stored in 16 bits.\<close>

definition to_int16 :: "int \<Rightarrow> int option" where
  "to_int16 x = (if -(2 ^ 15) \<le> x \<and> x < 2 ^ 15 then Some x else None)"

definition scaled :: "u32 \<Rightarrow> u32 \<Rightarrow> int option" where
  "scaled v factor = to_int16 (sint v * uint factor)"

definition frame_region :: "u32 \<Rightarrow> u32 \<Rightarrow> DetectRegion \<Rightarrow> arm_2d_region option" where
  "frame_region sx sy r =
     (case (scaled (ulW r) sx, scaled (ulH r) sy, scaled (ulX r) sx, scaled (ulY r) sy) of
        (Some w, Some h, Some x, Some y) \<Rightarrow>
          Some \<lparr>iX = x, iY = y, iWidth = max w (isp_configHIGHLIGHTED_FRAME_WIDTH * 3),
                iHeight = max h (isp_configHIGHLIGHTED_FRAME_WIDTH * 3)\<rparr>
      | _ \<Rightarrow> None)"

text \<open>The border is first drawn in a buffer of fixed size, of 2 bytes per pixel in the format that is always used.\<close>

definition prvDrawFrameOnTile :: "arm_2d_region \<Rightarrow> detection \<Rightarrow> detection option" where
  "prvDrawFrameOnTile r s =
     (if iWidth r * iHeight r * 2 > isp_configBORDER_BUFFER_SIZE then None
      else Some (s\<lparr>drawn := drawn s @ [(xRootTile s, r)]\<rparr>))"

fun draw_boxes :: "u32 \<Rightarrow> u32 \<Rightarrow> DetectRegion option list \<Rightarrow> detection \<Rightarrow> detection option" where
  "draw_boxes sx sy [] s = Some s"
| "draw_boxes sx sy (None # rs) s = None"
| "draw_boxes sx sy (Some r # rs) s =
     (case frame_region sx sy r of
        None \<Rightarrow> None
      | Some f \<Rightarrow> (case prvDrawFrameOnTile f s of None \<Rightarrow> None | Some s \<Rightarrow> draw_boxes sx sy rs s))"

section \<open>Frames\<close>

definition prvHdlcdShow :: "detect_env \<Rightarrow> root_tile \<Rightarrow> detection \<Rightarrow> detection option" where
  "prvHdlcdShow E t s = (if hdlcd_config_ok E then Some (s\<lparr>xRootTile := Some t, shown := shown s @ [t]\<rparr>) else None)"

definition prvHandleFullResolutionFrame :: "detect_env \<Rightarrow> root_tile \<Rightarrow> u32 \<Rightarrow> u32 \<Rightarrow> detection \<Rightarrow> detection option" where
  "prvHandleFullResolutionFrame E t ulMode ulFrameId s =
     (if ulDisplayed (xLastFrame s) = ulInferred (xLastFrame s)
      then prvHdlcdShow E t
        (s\<lparr>xLastFrame := (xLastFrame s)\<lparr>ulDisplayed := ulFrameId, fr_Mode := ulMode, fr_Width := fst (snd t), fr_Height := snd (snd t)\<rparr>\<rparr>)
      else Some s)"

text \<open>A small frame is always read as one of 16 bits for each pixel.\<close>

definition gray_frame :: "detect_env \<Rightarrow> u32 \<Rightarrow> nat \<Rightarrow> u8 list option" where
  "gray_frame E ulAddress n = vRgbToGrayscale (gray_intensity E) (memory_at E) (unat ulAddress) n HDLCD_PIXEL_FORMAT_RGB565"

text \<open>The factors are quotients of integers.\<close>

definition prvHandleDownscaledFrame :: "detect_env \<Rightarrow> root_tile \<Rightarrow> u32 \<Rightarrow> u32 \<Rightarrow> detection \<Rightarrow> detection option" where
  "prvHandleDownscaledFrame E t ulMode ulFrameId s =
     (let (ulAddress, ulWidth, ulHeight) = t;
          s = s\<lparr>xLastFrame := (xLastFrame s)\<lparr>ulInferred := ulFrameId\<rparr>\<rparr>
      in if ulWidth = 0 \<or> ulHeight = 0 then None
         else
           (let sx = fr_Width (xLastFrame s) div ulWidth; sy = fr_Height (xLastFrame s) div ulHeight
            in if unat (ulWidth * ulHeight) > isp_configMAX_INFER_FRAME_SIZE then Some s
               else
                 (case gray_frame E ulAddress (unat (ulWidth * ulHeight)) of
                    None \<Rightarrow> None
                  | Some gray \<Rightarrow>
                      (let (_, xResults, n, p) = lMLRunInference E gray (replicate isp_configMAX_DETECT_RESULTS None)
                             isp_configMAX_DETECT_RESULTS (detect_publish s)
                       in case draw_boxes sx sy (take n xResults) (s\<lparr>detect_publish := p\<rparr>) of
                            None \<Rightarrow> None
                          | Some s \<Rightarrow> if hdlcd_interrupts E then Some s else None))))"

text \<open>
  The callback of the firmware. Without an address the width, height and size that are used are not initialised.
\<close>

definition lCallbackStreamPutFrame ::
  "isp_config \<Rightarrow> detect_env \<Rightarrow> stream_type \<Rightarrow> aframe list \<Rightarrow> nat \<Rightarrow> detection \<Rightarrow> (aframe list \<times> detection) option" where
  "lCallbackStreamPutFrame C E xType pxAFrames ullNumPlanes s =
     (if length pxAFrames < max 1 ullNumPlanes then None
      else
        (let f = pxAFrames ! 0;
             frames = map (\<lambda>f. f\<lparr>frame_status := dma_buf_purge\<rparr>) (take ullNumPlanes pxAFrames) @ drop ullNumPlanes pxAFrames;
             t = (frame_address f, frame_width f, frame_height f);
             bpp = frame_size f div frame_width f div frame_height f;
             fmt = stream_format E xType;
             fmt = (if bpp \<noteq> pixel_width_of C fmt div 8 then (if bpp = 2 then DMA_FORMAT_RGB565 E else DMA_FORMAT_RGB32 E) else fmt)
         in if frame_address f \<noteq> 0 \<and> (frame_width f = 0 \<or> frame_height f = 0) then None
            else if xType = ACAMERA_STREAM_OTHER then Some (frames, s)
            else if frame_address f = 0 then None
            else
              (case (if \<not> handlers_set s then Some s
                     else if xType = ACAMERA_STREAM_DS1 then prvHandleDownscaledFrame E t fmt (frame_id f) s
                     else prvHandleFullResolutionFrame E t fmt (frame_id f) s) of
                 None \<Rightarrow> None
               | Some s \<Rightarrow> Some (frames, if xType = ACAMERA_STREAM_DS1 then s\<lparr>stream_semaphore := True\<rparr> else s))))"

section \<open>Detection of a frame\<close>

definition box_fits :: "u32 \<Rightarrow> u32 \<Rightarrow> DetectRegion \<Rightarrow> bool" where
  "box_fits sx sy r \<longleftrightarrow> (\<exists>f. frame_region sx sy r = Some f \<and> iWidth f * iHeight f * 2 \<le> isp_configBORDER_BUFFER_SIZE)"

lemma draw_boxes_exact:
  "draw_boxes sx sy (map Some rs) s =
     (if \<forall>r\<in>set rs. box_fits sx sy r
      then Some (s\<lparr>drawn := drawn s @ map (\<lambda>r. (xRootTile s, the (frame_region sx sy r))) rs\<rparr>) else None)"
  by (induction rs arbitrary: s) (auto simp: box_fits_def prvDrawFrameOnTile_def split: option.splits)

lemma draw_boxes_unset: "None \<in> set rs \<Longrightarrow> draw_boxes sx sy rs s = None"
proof (induction rs arbitrary: s)
  case (Cons r rs)
  then show ?case by (cases r) (auto split: option.splits)
qed simp

text \<open>The grey image of a frame of \<open>n\<close> pixels of 2 bytes.\<close>

definition gray_pixels :: "detect_env \<Rightarrow> u32 \<Rightarrow> nat \<Rightarrow> u8 list" where
  "gray_pixels E a n =
     map (\<lambda>i. gray_pixel (gray_intensity E) hdlcd_pixel_cfg_rgb565 (read_u32 (memory_at E) (unat a + i * 2))) [0..<n]"

lemma gray_frame_exact: "gray_frame E a n = Some (gray_pixels E a n)"
  by (simp add: gray_frame_def gray_pixels_def vRgbToGrayscale_def mode_of_def HDLCD_MODES_def)


section \<open>Which frames are shown\<close>

text \<open>A run of callbacks, each for one stream with the frames it brings.\<close>

fun frame_run :: "isp_config \<Rightarrow> detect_env \<Rightarrow> (stream_type \<times> aframe) list \<Rightarrow> detection \<Rightarrow> detection option" where
  "frame_run C E [] s = Some s"
| "frame_run C E ((t, f) # fs) s =
     (case lCallbackStreamPutFrame C E t [f] 1 s of None \<Rightarrow> None | Some (_, s) \<Rightarrow> frame_run C E fs s)"

lemma draw_boxes_keeps: "draw_boxes sx sy rs s = Some s' \<Longrightarrow> shown s' = shown s \<and> xLastFrame s' = xLastFrame s \<and> handlers_set s' = handlers_set s"
proof (induction rs arbitrary: s)
  case (Cons r rs)
  then show ?case by (cases r) (auto simp: prvDrawFrameOnTile_def split: option.splits if_splits)
qed simp

lemma downscaled_keeps:
  assumes "prvHandleDownscaledFrame E t m k s = Some s'"
  shows "shown s' = shown s \<and> ulDisplayed (xLastFrame s') = ulDisplayed (xLastFrame s) \<and> ulInferred (xLastFrame s') = k \<and>
    handlers_set s' = handlers_set s"
proof (cases t)
  case (fields a w h)
  then show ?thesis
    using assms draw_boxes_keeps
    by (fastforce simp: prvHandleDownscaledFrame_def lMLRunInference_def Let_def split: if_splits option.splits prod.splits)
qed

lemma frame_step_frozen:
  assumes "lCallbackStreamPutFrame C E t [f] 1 s = Some (fs, s')" and "handlers_set s"
    and "ulDisplayed (xLastFrame s) \<noteq> ulInferred (xLastFrame s)"
    and "t = ACAMERA_STREAM_DS1 \<Longrightarrow> frame_id f \<noteq> ulDisplayed (xLastFrame s)"
  shows "shown s' = shown s \<and> ulDisplayed (xLastFrame s') = ulDisplayed (xLastFrame s) \<and>
    ulDisplayed (xLastFrame s') \<noteq> ulInferred (xLastFrame s') \<and> handlers_set s'"
proof (cases t)
  case ACAMERA_STREAM_FR
  then show ?thesis using assms
    by (auto simp: lCallbackStreamPutFrame_def prvHandleFullResolutionFrame_def Let_def split: if_splits option.splits)
next
  case ACAMERA_STREAM_DS1
  then obtain t1 m s1 where "prvHandleDownscaledFrame E t1 m (frame_id f) s = Some s1" "s' = s1\<lparr>stream_semaphore := True\<rparr>"
    using assms(1,2) by (auto simp: lCallbackStreamPutFrame_def Let_def split: if_splits option.splits)
  then show ?thesis using downscaled_keeps [of E t1 m "frame_id f" s s1] assms(2-4) ACAMERA_STREAM_DS1 by auto
next
  case ACAMERA_STREAM_OTHER
  then show ?thesis using assms by (auto simp: lCallbackStreamPutFrame_def Let_def split: if_splits)
qed

text \<open>Once a small frame has been inferred whose number is not that of the full frame shown, and the numbers of the frames that
  follow do not come back to it, no full frame is ever shown again: the display stands still while inferences go on.\<close>

theorem display_freezes:
  assumes "handlers_set s" and "ulDisplayed (xLastFrame s) \<noteq> ulInferred (xLastFrame s)"
    and "\<forall>f\<in>set fs. frame_id (snd f) \<noteq> ulDisplayed (xLastFrame s)" and "frame_run C E fs s = Some s'"
  shows "shown s' = shown s"
  using assms
proof (induction fs arbitrary: s)
  case (Cons x fs)
  obtain t f where x: "x = (t, f)" by (cases x)
  obtain gs s1 where 1: "lCallbackStreamPutFrame C E t [f] 1 s = Some (gs, s1)" "frame_run C E fs s1 = Some s'"
    using Cons.prems(4) by (auto simp: x split: option.splits)
  note step = frame_step_frozen [OF 1(1) Cons.prems(1,2)]
  have "frame_id f \<noteq> ulDisplayed (xLastFrame s)" using Cons.prems(3) by (simp add: x)
  then show ?case using Cons.IH [of s1] Cons.prems(3) 1(2) step by auto
qed simp

section \<open>Witnesses\<close>

text \<open>A network that finds the given boxes, or fails.\<close>

definition example_detect_env :: "DetectRegion list option \<Rightarrow> detect_env" where
  "example_detect_env rs = \<lparr>memory_at = (\<lambda>_. 0), gray_intensity = (\<lambda>c r g b. r + g + b), run_model = (\<lambda>_. rs), hdlcd_config_ok = True,
     hdlcd_interrupts = True, stream_format = (\<lambda>_. 5), detect_malloc = sample_malloc, detect_queue_length = 20,
     DMA_FORMAT_RGB565 = 5, DMA_FORMAT_RGB32 = 6\<rparr>"

definition example_box :: "u32 \<Rightarrow> DetectRegion" where
  "example_box n = \<lparr>ulX = 10, ulY = 20, ulW = n, ulH = n\<rparr>"

text \<open>A full frame of 640 by 480 is shown.\<close>

definition example_detection :: detection where
  "example_detection = \<lparr>xLastFrame = \<lparr>ulDisplayed = 1, ulInferred = 0, fr_Mode = 0, fr_Width = 640, fr_Height = 480\<rparr>,
     xRootTile = Some (0x70546000, 640, 480), detect_publish = publish_start, stream_semaphore = False, handlers_set = True,
     shown = [(0x70546000, 640, 480)], drawn = []\<rparr>"

lemma example_factors:
  "fr_Width (xLastFrame example_detection) div 192 = 3" "fr_Height (xLastFrame example_detection) div 192 = 2"
  by (simp_all add: example_detection_def)


text \<open>The small frame 2 comes after the full frame 1; nothing is shown for the frames 3 and 4.\<close>

definition example_frames :: "(stream_type \<times> aframe) list" where
  "example_frames =
     (let f = (\<lambda>n w. \<lparr>frame_address = 0x70546000, frame_width = w, frame_height = w, frame_size = w * w * 2, frame_id = n,
                      frame_status = dma_buf_other\<rparr>)
      in [(ACAMERA_STREAM_DS1, f 2 16), (ACAMERA_STREAM_FR, f 3 480), (ACAMERA_STREAM_DS1, f 3 16), (ACAMERA_STREAM_FR, f 4 480)])"

theorem display_freezes_witness:
  "\<exists>s'. frame_run example_isp_config (example_detect_env (Some [])) example_frames example_detection = Some s' \<and>
     shown s' = [(0x70546000, 640, 480)]"
proof -
  have "\<exists>s'. frame_run example_isp_config (example_detect_env (Some [])) example_frames example_detection = Some s'"
    by (simp add: example_frames_def lCallbackStreamPutFrame_def prvHandleDownscaledFrame_def prvHandleFullResolutionFrame_def
        gray_frame_exact lMLRunInference_def prvProcessImage_def example_detect_env_def example_detection_def
        isp_configMAX_INFER_FRAME_SIZE_def Let_def)
  then obtain s' where s': "frame_run example_isp_config (example_detect_env (Some [])) example_frames example_detection = Some s'" by blast
  have "shown s' = shown example_detection"
    by (rule display_freezes [OF _ _ _ s']) (simp_all add: example_detection_def example_frames_def Let_def)
  then show ?thesis using s' by (simp add: example_detection_def)
qed

end
