(* ===== verification/Isp_Uart.thy ===== *)
theory Isp_Uart
  imports Prelude
begin

text \<open>
  The serial link to the control tool of the image signal processor, \<^verbatim>\<open>acamera_uart.c\<close>: a circular buffer that
  the receive interrupt fills byte by byte and a task reads. The driver is a parameter. The lemmas compare it with a
  queue of bytes.
\<close>

section \<open>State\<close>

definition ACAMERA_UART_RECEIVE_BUFFER_SIZE :: nat where "ACAMERA_UART_RECEIVE_BUFFER_SIZE = 4096"

text \<open>\<open>receiving\<close>: the driver was asked for the next byte; \<open>reported\<close>: the message about an overflow was printed.\<close>

record isp_uart =
  receive_buffer :: "u8 list"
  rb_last_read :: nat
  rb_next_free :: nat
  UART_PLEASE_HOLD_STREAM :: bool
  receiving :: bool
  reported :: bool

definition acamera_uart_init :: isp_uart where
  "acamera_uart_init = \<lparr>receive_buffer = replicate ACAMERA_UART_RECEIVE_BUFFER_SIZE 0, rb_last_read = 0, rb_next_free = 0,
     UART_PLEASE_HOLD_STREAM = False, receiving = True, reported = False\<rparr>"

text \<open>The interrupt; \<open>receive_complete\<close>: the event says that the byte is in the buffer.\<close>

definition uart_cb :: "bool \<Rightarrow> isp_uart \<Rightarrow> isp_uart" where
  "uart_cb receive_complete s =
     (if \<not> receive_complete then s
      else let s = s\<lparr>UART_PLEASE_HOLD_STREAM := True, rb_next_free := rb_next_free s + 1, receiving := False\<rparr>
      in if rb_next_free s \<ge> ACAMERA_UART_RECEIVE_BUFFER_SIZE
         then
           (let s = s\<lparr>rb_next_free := rb_next_free s - ACAMERA_UART_RECEIVE_BUFFER_SIZE\<rparr>
            in if rb_next_free s > rb_last_read s then s\<lparr>reported := True\<rparr> else s\<lparr>receiving := True\<rparr>)
         else s\<lparr>receiving := True\<rparr>)"

definition byte_arrives :: "u8 \<Rightarrow> isp_uart \<Rightarrow> isp_uart" where
  "byte_arrives b s =
     (if receiving s then uart_cb True (s\<lparr>receive_buffer := (receive_buffer s)[rb_next_free s := b]\<rparr>) else s)"

definition available :: "isp_uart \<Rightarrow> nat" where
  "available s =
     (if rb_next_free s < rb_last_read s then rb_next_free s + ACAMERA_UART_RECEIVE_BUFFER_SIZE - rb_last_read s
      else rb_next_free s - rb_last_read s)"

text \<open>The data and the state after the read; \<open>None\<close> while it waits for more bytes.\<close>

definition acamera_uart_read :: "nat \<Rightarrow> isp_uart \<Rightarrow> (u8 list \<times> isp_uart) option" where
  "acamera_uart_read n s =
     (if n = 0 then Some ([], s)
      else if available s < n then None
      else
        (let (first, s, n) =
           (if rb_last_read s + n > ACAMERA_UART_RECEIVE_BUFFER_SIZE
            then
              (let to_copy = ACAMERA_UART_RECEIVE_BUFFER_SIZE - rb_last_read s
               in (take to_copy (drop (rb_last_read s) (receive_buffer s)), s\<lparr>rb_last_read := 0\<rparr>, n - to_copy))
            else ([], s, n))
         in Some (first @ take n (drop (rb_last_read s) (receive_buffer s)), s\<lparr>rb_last_read := rb_last_read s + n\<rparr>)))"

text \<open>
  Sending, over the driver: the wait until it is not busy (\<open>None\<close> when it stays busy), during which bytes may arrive, the call,
  and the count of characters sent. The camera stream goes on once everything received was read.
\<close>

record 'w uart_driver =
  wait_not_busy :: "isp_uart \<times> 'w \<Rightarrow> (isp_uart \<times> 'w) option"
  driver_send :: "u8 list \<Rightarrow> 'w \<Rightarrow> bool \<times> 'w"
  driver_tx_count :: "'w \<Rightarrow> int"

definition acamera_uart_write :: "'w uart_driver \<Rightarrow> u8 list \<Rightarrow> isp_uart \<times> 'w \<Rightarrow> (int \<times> isp_uart \<times> 'w) option" where
  "acamera_uart_write D data sw =
     (case wait_not_busy D sw of
        None \<Rightarrow> None
      | Some (s, w) \<Rightarrow>
          (let (ok, w) = driver_send D data w
           in if \<not> ok then Some (0, s, w)
              else
                (case wait_not_busy D (s, w) of
                   None \<Rightarrow> None
                 | Some (s, w) \<Rightarrow>
                     Some (driver_tx_count D w, if available s = 0 then s\<lparr>UART_PLEASE_HOLD_STREAM := False\<rparr> else s, w))))"

section \<open>The buffer as a queue\<close>

definition uart_ok :: "isp_uart \<Rightarrow> bool" where
  "uart_ok s \<longleftrightarrow> length (receive_buffer s) = ACAMERA_UART_RECEIVE_BUFFER_SIZE \<and>
     rb_last_read s \<le> ACAMERA_UART_RECEIVE_BUFFER_SIZE \<and> rb_next_free s < ACAMERA_UART_RECEIVE_BUFFER_SIZE \<and> receiving s \<and> \<not> reported s"

definition contents :: "isp_uart \<Rightarrow> u8 list" where
  "contents s =
     (if rb_last_read s \<le> rb_next_free s then take (rb_next_free s - rb_last_read s) (drop (rb_last_read s) (receive_buffer s))
      else drop (rb_last_read s) (receive_buffer s) @ take (rb_next_free s) (receive_buffer s))"

lemma contents_available: "uart_ok s \<Longrightarrow> length (contents s) = available s"
  by (auto simp: uart_ok_def contents_def available_def)

lemma take_drop_snoc: "a \<le> b \<Longrightarrow> b < length xs \<Longrightarrow> take (Suc b - a) (drop a (xs[b := x])) = take (b - a) (drop a xs) @ [x]"
  by (intro nth_equalityI) (auto simp: nth_append nth_list_update)

lemma byte_queued:
  assumes "uart_ok s" and "length (contents s) < ACAMERA_UART_RECEIVE_BUFFER_SIZE - 1"
  shows "uart_ok (byte_arrives b s) \<and> contents (byte_arrives b s) = contents s @ [b]"
proof -
  let ?lr = "rb_last_read s" and ?nf = "rb_next_free s" and ?buf = "receive_buffer s"
  have l: "length ?buf = 4096" "?lr \<le> 4096" "?nf < 4096" "receiving s" "\<not> reported s"
    using assms(1) by (simp_all add: uart_ok_def ACAMERA_UART_RECEIVE_BUFFER_SIZE_def)
  have av: "available s < 4095" using assms contents_available by (simp add: ACAMERA_UART_RECEIVE_BUFFER_SIZE_def)
  show ?thesis
  proof (cases "?lr \<le> ?nf")
    case True
    then have c: "contents s @ [b] = take (Suc ?nf - ?lr) (drop ?lr (?buf[?nf := b]))"
      using l take_drop_snoc [of ?lr ?nf ?buf b] by (simp add: contents_def)
    show ?thesis
    proof (cases "Suc ?nf = 4096")
      case True
      then have "0 < ?lr" using av \<open>?lr \<le> ?nf\<close> by (auto simp: available_def ACAMERA_UART_RECEIVE_BUFFER_SIZE_def)
      then show ?thesis unfolding c using l True
        by (simp add: byte_arrives_def uart_cb_def uart_ok_def contents_def ACAMERA_UART_RECEIVE_BUFFER_SIZE_def Let_def)
    next
      case False
      then show ?thesis unfolding c using l True
        by (simp add: byte_arrives_def uart_cb_def uart_ok_def contents_def ACAMERA_UART_RECEIVE_BUFFER_SIZE_def Let_def)
    qed
  next
    case False
    then have "Suc ?nf < ?lr" using av l by (auto simp: available_def ACAMERA_UART_RECEIVE_BUFFER_SIZE_def)
    then show ?thesis using l False
      by (simp add: byte_arrives_def uart_cb_def uart_ok_def contents_def ACAMERA_UART_RECEIVE_BUFFER_SIZE_def Let_def
          take_Suc_conv_app_nth)
  qed
qed

lemma read_dequeues:
  assumes "uart_ok s"
  shows "acamera_uart_read n s = None \<longleftrightarrow> length (contents s) < n"
    and "n \<le> length (contents s) \<Longrightarrow> \<exists>s'. acamera_uart_read n s = Some (take n (contents s), s') \<and> uart_ok s' \<and> contents s' = drop n (contents s)"
proof -
  show "acamera_uart_read n s = None \<longleftrightarrow> length (contents s) < n"
    using contents_available [OF assms] by (auto simp: acamera_uart_read_def Let_def split: prod.splits)
  assume n: "n \<le> length (contents s)"
  let ?lr = "rb_last_read s" and ?nf = "rb_next_free s" and ?buf = "receive_buffer s"
  have l: "length ?buf = 4096" "?lr \<le> 4096" "?nf < 4096" "n \<le> available s"
    using assms n contents_available [OF assms] by (simp_all add: uart_ok_def ACAMERA_UART_RECEIVE_BUFFER_SIZE_def)
  consider "n = 0" | "0 < n" "?lr + n \<le> 4096" | "0 < n" "4096 < ?lr + n" by linarith
  then show "\<exists>s'. acamera_uart_read n s = Some (take n (contents s), s') \<and> uart_ok s' \<and> contents s' = drop n (contents s)"
  proof cases
    case 1
    then show ?thesis using assms by (simp add: acamera_uart_read_def)
  next
    case 2
    have read: "acamera_uart_read n s = Some (take n (drop ?lr ?buf), s\<lparr>rb_last_read := ?lr + n\<rparr>)"
      using 2 l by (simp add: acamera_uart_read_def ACAMERA_UART_RECEIVE_BUFFER_SIZE_def Let_def)
    show ?thesis
    proof (cases "?lr \<le> ?nf")
      case True
      then have "n \<le> ?nf - ?lr" "?lr + n \<le> ?nf" using l by (simp_all add: available_def)
      then show ?thesis using read True assms 2 l
        by (simp add: contents_def uart_ok_def ACAMERA_UART_RECEIVE_BUFFER_SIZE_def min_def drop_take add.commute)
    next
      case False
      then show ?thesis using read assms 2 l
        by (simp add: contents_def uart_ok_def ACAMERA_UART_RECEIVE_BUFFER_SIZE_def add.commute)
    qed
  next
    case 3
    then have wrapped: "?nf < ?lr" using l by (auto simp: available_def ACAMERA_UART_RECEIVE_BUFFER_SIZE_def split: if_splits)
    let ?rest = "n - (4096 - ?lr)"
    have rest: "?rest \<le> ?nf" using 3 l wrapped by (simp add: available_def ACAMERA_UART_RECEIVE_BUFFER_SIZE_def)
    have "acamera_uart_read n s = Some (drop ?lr ?buf @ take ?rest ?buf, s\<lparr>rb_last_read := ?rest\<rparr>)"
      using 3 l by (simp add: acamera_uart_read_def ACAMERA_UART_RECEIVE_BUFFER_SIZE_def Let_def)
    then show ?thesis using 3 l wrapped rest assms
      by (simp add: contents_def uart_ok_def ACAMERA_UART_RECEIVE_BUFFER_SIZE_def min_def drop_take)
  qed
qed

text \<open>When 4095 bytes are unread the next one empties the buffer, without the message.\<close>

lemma overflow_silent:
  assumes "uart_ok s" and "length (contents s) = ACAMERA_UART_RECEIVE_BUFFER_SIZE - 1"
  shows "uart_ok (byte_arrives b s) \<and> contents (byte_arrives b s) = []"
proof -
  have ok: "uart_ok (byte_arrives b s)"
    using assms(1) by (simp add: byte_arrives_def uart_cb_def uart_ok_def Let_def)
  have "available s = 4095" using assms contents_available by (simp add: ACAMERA_UART_RECEIVE_BUFFER_SIZE_def)
  then have "available (byte_arrives b s) = 0"
    using assms(1)
    by (auto simp: available_def byte_arrives_def uart_cb_def uart_ok_def ACAMERA_UART_RECEIVE_BUFFER_SIZE_def Let_def
        split: if_splits)
  then show ?thesis using ok contents_available [OF ok] by simp
qed

section \<open>Runs\<close>

text \<open>
  Bytes arrive and the task reads, in any order. A read that has to wait is tried again, so it is no step. The first
  component collects the results of the reads.
\<close>

datatype uart_event = Byte u8 | Read_Bytes nat

fun uart_step :: "uart_event \<Rightarrow> u8 list list \<times> isp_uart \<Rightarrow> u8 list list \<times> isp_uart" where
  "uart_step (Byte b) (out, s) = (out, byte_arrives b s)"
| "uart_step (Read_Bytes n) (out, s) =
     (case acamera_uart_read n s of None \<Rightarrow> (out, s) | Some (data, s') \<Rightarrow> (out @ [data], s'))"

fun fifo_step :: "uart_event \<Rightarrow> u8 list list \<times> u8 list \<Rightarrow> u8 list list \<times> u8 list" where
  "fifo_step (Byte b) (out, q) = (if length q < 4095 then (out, q @ [b]) else (out, []))"
| "fifo_step (Read_Bytes n) (out, q) = (if n \<le> length q then (out @ [take n q], drop n q) else (out, q))"

lemma step_refines:
  assumes "uart_ok s"
  shows "fst (fifo_step e (out, contents s)) = fst (uart_step e (out, s)) \<and>
    snd (fifo_step e (out, contents s)) = contents (snd (uart_step e (out, s))) \<and> uart_ok (snd (uart_step e (out, s)))"
proof (cases e)
  case (Byte b)
  have "length (contents s) \<le> 4095"
    using assms contents_available [OF assms] by (auto simp: available_def uart_ok_def ACAMERA_UART_RECEIVE_BUFFER_SIZE_def)
  then consider "length (contents s) < ACAMERA_UART_RECEIVE_BUFFER_SIZE - 1"
    | "length (contents s) = ACAMERA_UART_RECEIVE_BUFFER_SIZE - 1"
    by (fastforce simp: ACAMERA_UART_RECEIVE_BUFFER_SIZE_def)
  then show ?thesis
    using Byte byte_queued [OF assms, of b] overflow_silent [OF assms, of b]
    by cases (simp_all add: ACAMERA_UART_RECEIVE_BUFFER_SIZE_def)
next
  case (Read_Bytes n)
  show ?thesis
  proof (cases "n \<le> length (contents s)")
    case True
    then obtain s' where "acamera_uart_read n s = Some (take n (contents s), s')" "uart_ok s'" "contents s' = drop n (contents s)"
      using read_dequeues(2) [OF assms] by blast
    then show ?thesis using Read_Bytes True by simp
  next
    case False
    then have "acamera_uart_read n s = None" using read_dequeues(1) [OF assms] by simp
    then show ?thesis using Read_Bytes False assms by simp
  qed
qed

lemma run_refines:
  "uart_ok s \<Longrightarrow> fold fifo_step es (out, contents s) = map_prod id contents (fold uart_step es (out, s))"
proof (induction es arbitrary: out s)
  case (Cons e es)
  obtain out' s' where e: "uart_step e (out, s) = (out', s')" by (cases "uart_step e (out, s)")
  then have "uart_ok s'" "fifo_step e (out, contents s) = (out', contents s')"
    using step_refines [OF Cons.prems, of e out] by (auto simp: prod_eq_iff)
  then show ?case using Cons.IH e by simp
qed simp

lemma init_uart: "uart_ok acamera_uart_init" "contents acamera_uart_init = []"
  by (simp_all add: acamera_uart_init_def uart_ok_def contents_def ACAMERA_UART_RECEIVE_BUFFER_SIZE_def)

text \<open>C38: The receive buffer is a queue of bytes that holds 4095: whatever the order in which bytes arrive and the task reads,
  the reads return what they would from the queue, and when one more byte arrives everything unread is lost.\<close>

theorem uart_refines_fifo:
  "fold fifo_step es ([], []) = map_prod id contents (fold uart_step es ([], acamera_uart_init))"
  using run_refines [OF init_uart(1), of es "[]"] by (simp add: init_uart(2))

text \<open>The queue is in order, as long as it is not full.\<close>

fun uart_bytes :: "uart_event list \<Rightarrow> u8 list" where
  "uart_bytes [] = []"
| "uart_bytes (Byte b # es) = b # uart_bytes es"
| "uart_bytes (Read_Bytes n # es) = uart_bytes es"

lemma uart_in_order:
  "length (uart_bytes es) + length q \<le> 4095 \<Longrightarrow>
     concat (fst (fold fifo_step es (out, q))) @ snd (fold fifo_step es (out, q)) = concat out @ q @ uart_bytes es"
proof (induction es arbitrary: out q)
  case (Cons e es)
  show ?case
  proof (cases e)
    case (Byte b)
    then show ?thesis using Cons.prems Cons.IH [of "q @ [b]" out] by simp
  next
    case (Read_Bytes n)
    have "concat out @ take n q @ drop n q @ uart_bytes es = concat out @ q @ uart_bytes es"
      by (simp add: append_take_drop_id [THEN arg_cong [where f = "\<lambda>xs. xs @ uart_bytes es"]] flip: append_assoc)
    then show ?thesis using Read_Bytes Cons.prems Cons.IH [of "drop n q" "out @ [take n q]"] Cons.IH [of q out] by simp
  qed
qed simp

text \<open>An instance: two bytes, a read of one, and a read of more than there is.\<close>

lemma uart_refines_fifo_instance:
  "map_prod id contents (fold uart_step [Byte 1, Byte 2, Read_Bytes 1, Read_Bytes 3] ([], acamera_uart_init)) = ([[1]], [2])"
  using run_refines [OF init_uart(1), of "[Byte 1, Byte 2, Read_Bytes 1, Read_Bytes 3]" "[]"] by (simp add: init_uart(2))

end
