(* ===== verification/Isp_App.thy ===== *)
theory Isp_App
  imports Keyword_Task Crt_Helpers
begin

text \<open>
  The tasks of object detection: \<^verbatim>\<open>isp_app.c\<close>, which configures the camera firmware, runs it and triggers its frames, and
  the task of \<^verbatim>\<open>ml_interface.cc\<close> that starts them. The firmware, the display driver and the kernel are parameters. The
  lemmas show that no frame is triggered before the camera is configured, that frames are triggered no faster than they are
  processed, and that a stop command ends only one of the two tasks that wait for it.
\<close>

section \<open>Configuration of the firmware\<close>

text \<open>A command: type, name, value, and whether it sets the value.\<close>

type_synonym isp_command = "string \<times> string \<times> string \<times> bool"

definition set_command :: "string \<Rightarrow> string \<Rightarrow> string \<Rightarrow> isp_command" where
  "set_command t name v = (t, name, v, True)"

definition context_commands :: "nat \<Rightarrow> isp_command list" where
  "context_commands ulContextNumber =
     [set_command ''TGENERAL'' ''ACTIVE_CONTEXT'' (dec_string ulContextNumber),
      set_command ''TALGORITHMS'' ''AE_MODE_ID'' ''AE_FULL_MANUAL'',
      set_command ''TALGORITHMS'' ''AWB_MODE_ID'' ''AWB_MANUAL'',
      set_command ''TISP_MODULES'' ''ISP_MODULES_MANUAL_TEMPER'' ''ON'',
      set_command ''TISP_MODULES'' ''ISP_MODULES_MANUAL_IRIDIX'' ''ON'',
      set_command ''TSYSTEM'' ''SYSTEM_MANUAL_EXPOSURE'' ''ON'',
      set_command ''TSYSTEM'' ''SYSTEM_MANUAL_EXPOSURE_RATIO'' ''ON'',
      set_command ''TSYSTEM'' ''SYSTEM_MANUAL_ISP_DIGITAL_GAIN'' ''ON'',
      set_command ''TSYSTEM'' ''SYSTEM_MANUAL_AWB'' ''ON'',
      set_command ''TSYSTEM'' ''SYSTEM_AWB_BLUE_GAIN'' ''9'',
      set_command ''TSYSTEM'' ''SYSTEM_AWB_GREEN_EVEN_GAIN'' ''9'',
      set_command ''TSYSTEM'' ''SYSTEM_AWB_GREEN_ODD_GAIN'' ''9'',
      set_command ''TSYSTEM'' ''SYSTEM_AWB_RED_GAIN'' ''9'',
      set_command ''TSYSTEM'' ''SYSTEM_MANUAL_CCM'' ''ON'',
      set_command ''TSYSTEM'' ''SYSTEM_CCM_MATRIX_RR'' ''4095'',
      set_command ''TSYSTEM'' ''SYSTEM_CCM_MATRIX_GG'' ''4095'',
      set_command ''TSYSTEM'' ''SYSTEM_CCM_MATRIX_BB'' ''4095'',
      set_command ''TSYSTEM'' ''SYSTEM_CCM_MATRIX_RG'' ''0'',
      set_command ''TSYSTEM'' ''SYSTEM_CCM_MATRIX_RB'' ''0'',
      set_command ''TSYSTEM'' ''SYSTEM_CCM_MATRIX_GR'' ''0'',
      set_command ''TSYSTEM'' ''SYSTEM_CCM_MATRIX_GB'' ''0'',
      set_command ''TSYSTEM'' ''SYSTEM_CCM_MATRIX_BR'' ''0'',
      set_command ''TSYSTEM'' ''SYSTEM_CCM_MATRIX_BG'' ''0'',
      set_command ''TSYSTEM'' ''TEST_PATTERN_MODE_ID'' ''5'',
      set_command ''TSCENE_MODES'' ''SHARPENING_STRENGTH_ID'' ''0'',
      set_command ''TIMAGE'' ''FR_FORMAT_BASE_PLANE_ID'' ''DMA_FORMAT_RGB565'',
      set_command ''TIMAGE'' ''DS1_FORMAT_BASE_PLANE_ID'' ''DMA_FORMAT_RGB565'']"

text \<open>
  \<open>contexts\<close> is \<^verbatim>\<open>FIRMWARE_CONTEXT_NUMBER\<close>; \<open>active_context\<close> is what the firmware answers to the first command. The
  other fields say whether calls succeed, and \<open>acamera_created\<close> and \<open>stream_created\<close> whether the tasks could be created,
  which the code does not check.
\<close>

record isp_env =
  contexts :: nat
  active_context :: nat
  acamera_init_result :: int
  model_init_ok :: bool
  hdlcd_ok :: bool
  acamera_created :: bool
  stream_created :: bool

definition configuration :: "isp_env \<Rightarrow> isp_command list" where
  "configuration E =
     (''TGENERAL'', ''ACTIVE_CONTEXT'', ''0'', False) # concat (map context_commands [0..<contexts E]) @
     [set_command ''TGENERAL'' ''ACTIVE_CONTEXT'' (dec_string (active_context E))]"

text \<open>The commands of the first round of the firmware.\<close>

definition initial_setup :: "isp_command list" where
  "initial_setup =
     [set_command ''TIMAGE'' ''IMAGE_RESIZE_TYPE_ID'' ''SCALER_DS'',
      set_command ''TIMAGE'' ''IMAGE_RESIZE_WIDTH_ID'' ''192'',
      set_command ''TIMAGE'' ''IMAGE_RESIZE_HEIGHT_ID'' ''192'',
      set_command ''TIMAGE'' ''IMAGE_RESIZE_ENABLE_ID'' ''RUN'',
      set_command ''TSENSOR'' ''SENSOR_STREAMING'' ''ON'']"

section \<open>Tasks\<close>

text \<open>Where each task is: \<open>MlStuck\<close> is one of the endless loops after an error, the returns of a task function are kept apart.\<close>

datatype ml_status = MlAwaits | MlShows | MlStuck | MlFailed | MlStopped

datatype stream_status = StreamAbsent | StreamChecks | StreamTakes | StreamStopped

datatype camera_status = CameraAbsent | CameraCreated | CameraRuns | CameraTerminated

text \<open>\<open>commands_issued\<close>, \<open>processed\<close> and \<open>triggers\<close> record the commands, the rounds of the firmware, and the frames triggered.\<close>

record 'e isp_app =
  app_events :: 'e
  ml_status :: ml_status
  stream_status :: stream_status
  camera_status :: camera_status
  frame_handlers :: bool
  STREAM_ENABLED :: bool
  hold_stream :: bool
  ulFrameCount :: u32
  ulDoInitialSetup :: bool
  lACameraMainLoopActive :: bool
  xStreamSemaphore :: "bool option"
  isp_handler_set :: bool
  commands_issued :: "isp_command list"
  processed :: nat
  triggers :: nat

definition app_start :: "'e \<Rightarrow> 'e isp_app" where
  "app_start e = \<lparr>app_events = e, ml_status = MlAwaits, stream_status = StreamAbsent, camera_status = CameraAbsent,
     frame_handlers = False, STREAM_ENABLED = False, hold_stream = False, ulFrameCount = 0, ulDoInitialSetup = True,
     lACameraMainLoopActive = True, xStreamSemaphore = None, isp_handler_set = False, commands_issued = [], processed = 0, triggers = 0\<rparr>"

text \<open>The set-up of the DMA layer is in the theory of that layer.\<close>

definition prvCreateTasks :: "isp_env \<Rightarrow> 'e isp_app \<Rightarrow> 'e isp_app" where
  "prvCreateTasks E s =
     s\<lparr>camera_status := if acamera_created E then CameraCreated else CameraAbsent, xStreamSemaphore := Some False,
       stream_status := if stream_created E then StreamChecks else StreamAbsent\<rparr>"

definition vStartISPDemo :: "isp_env \<Rightarrow> 'e isp_app \<Rightarrow> 'e isp_app" where
  "vStartISPDemo E s =
     (if \<not> hdlcd_ok E then s\<lparr>ml_status := MlStuck\<rparr> else (prvCreateTasks E s)\<lparr>ml_status := MlShows, frame_handlers := True\<rparr>)"

text \<open>The task of object detection up to the next point where it may block, the wait of 300 ticks included.\<close>

definition vMlTask_round :: "'e event_ops \<Rightarrow> isp_env \<Rightarrow> 'e isp_app \<Rightarrow> 'e isp_app" where
  "vMlTask_round G E s =
     (case ml_status s of
        MlAwaits \<Rightarrow>
          (let (start, e) = take_event G EVENT_MASK_ML_START (app_events s)
           in if \<not> start then s
              else if \<not> model_init_ok E then s\<lparr>app_events := e, ml_status := MlFailed\<rparr>
              else vStartISPDemo E (s\<lparr>app_events := e\<rparr>))
      | MlShows \<Rightarrow>
          (let (stop, e) = take_event G EVENT_MASK_ML_STOP (app_events s)
           in if stop then s\<lparr>app_events := e, ml_status := MlStopped\<rparr> else s)
      | _ \<Rightarrow> s)"

text \<open>The stream task up to its next wait: for the stop event and for the semaphore.\<close>

definition prvStreamControlThread_round :: "'e event_ops \<Rightarrow> 'e isp_app \<Rightarrow> 'e isp_app" where
  "prvStreamControlThread_round G s =
     (case stream_status s of
        StreamChecks \<Rightarrow>
          (let (stop, e) = take_event G EVENT_MASK_ML_STOP (app_events s)
           in if stop then s\<lparr>app_events := e, stream_status := StreamStopped\<rparr>
              else if \<not> STREAM_ENABLED s then s
              else if ulFrameCount s = 0 \<or> \<not> hold_stream s
              then s\<lparr>ulFrameCount := ulFrameCount s + 1, triggers := triggers s + 1, stream_status := StreamTakes\<rparr>
              else s\<lparr>stream_status := StreamTakes\<rparr>)
      | StreamTakes \<Rightarrow> if xStreamSemaphore s = Some True then s\<lparr>xStreamSemaphore := Some False, stream_status := StreamChecks\<rparr> else s
      | _ \<Rightarrow> s)"

text \<open>\<open>True\<close> for success.\<close>

definition prvIspInitialConfig :: "isp_env \<Rightarrow> 'e isp_app \<Rightarrow> bool \<times> 'e isp_app" where
  "prvIspInitialConfig E s =
     (if acamera_init_result E \<noteq> 0 then (False, s)
      else (True, s\<lparr>isp_handler_set := True, commands_issued := commands_issued s @ configuration E\<rparr>))"

definition prvACameraThread_round :: "isp_env \<Rightarrow> 'e isp_app \<Rightarrow> 'e isp_app" where
  "prvACameraThread_round E s =
     (case camera_status s of
        CameraCreated \<Rightarrow>
          (let (ok, s) = prvIspInitialConfig E s
           in s\<lparr>lACameraMainLoopActive := lACameraMainLoopActive s \<and> ok, camera_status := CameraRuns\<rparr>)
      | CameraRuns \<Rightarrow>
          if \<not> lACameraMainLoopActive s then s\<lparr>camera_status := CameraTerminated\<rparr>
          else
            (let s = s\<lparr>processed := processed s + 1\<rparr>
             in if ulDoInitialSetup s
                then s\<lparr>ulDoInitialSetup := False, commands_issued := commands_issued s @ initial_setup\<rparr> else s)
      | _ \<Rightarrow> s)"

text \<open>Whether the firmware is told of an interrupt.\<close>

definition prvInterruptHandler :: "u32 \<Rightarrow> bool" where
  "prvInterruptHandler ulMask \<longleftrightarrow> ulMask AND 0xFFFF \<noteq> 0"

text \<open>
  What happens: a round of a task, the end of the wait for the semaphore after 100 ticks, a small frame that was processed and
  gives the semaphore, the two calls of a command, a change of the hold flag, and the firmware starting or stopping the
  sensor, which it starts only when the command for it was issued.
\<close>

datatype app_event =
  Ml_round | Stream_round | Camera_round | Timed_out | Frame_put | Call_first ml_command | Call_second ml_command |
  Hold bool | Sensor_starts | Sensor_stops

fun app_step :: "'e event_ops \<Rightarrow> isp_env \<Rightarrow> app_event \<Rightarrow> 'e isp_app \<Rightarrow> 'e isp_app" where
  "app_step G E Ml_round s = vMlTask_round G E s"
| "app_step G E Stream_round s = prvStreamControlThread_round G s"
| "app_step G E Camera_round s = prvACameraThread_round E s"
| "app_step G E Timed_out s =
     (if stream_status s = StreamTakes \<and> xStreamSemaphore s \<noteq> Some True then s\<lparr>stream_status := StreamChecks\<rparr> else s)"
| "app_step G E Frame_put s = s\<lparr>xStreamSemaphore := map_option (\<lambda>_. True) (xStreamSemaphore s)\<rparr>"
| "app_step G E (Call_first c) s = s\<lparr>app_events := first_call G c (app_events s)\<rparr>"
| "app_step G E (Call_second c) s = s\<lparr>app_events := second_call G c (app_events s)\<rparr>"
| "app_step G E (Hold b) s = s\<lparr>hold_stream := b\<rparr>"
| "app_step G E Sensor_starts s =
     (if set_command ''TSENSOR'' ''SENSOR_STREAMING'' ''ON'' \<in> set (commands_issued s) then s\<lparr>STREAM_ENABLED := True\<rparr> else s)"
| "app_step G E Sensor_stops s = s\<lparr>STREAM_ENABLED := False\<rparr>"

section \<open>Invariants\<close>

text \<open>The configuration alone does not start the sensor.\<close>

lemma configuration_no_start: "set_command ''TSENSOR'' ''SENSOR_STREAMING'' ''ON'' \<notin> set (configuration E)"
  by (auto simp: configuration_def context_commands_def set_command_def)

definition configured :: "isp_env \<Rightarrow> 'e isp_app \<Rightarrow> bool" where
  "configured E s \<longleftrightarrow>
     (camera_status s \<in> {CameraAbsent, CameraCreated} \<longrightarrow> commands_issued s = [] \<and> ulDoInitialSetup s) \<and>
     (ml_status s = MlAwaits \<longrightarrow> camera_status s = CameraAbsent) \<and>
     (if ulDoInitialSetup s then commands_issued s \<in> {[], configuration E} else commands_issued s = configuration E @ initial_setup) \<and>
     (camera_status s = CameraRuns \<and> lACameraMainLoopActive s \<and> ulDoInitialSetup s \<longrightarrow> commands_issued s = configuration E) \<and>
     (STREAM_ENABLED s \<or> 0 < triggers s \<longrightarrow> \<not> ulDoInitialSetup s)"

definition flow :: "nat \<Rightarrow> 'e isp_app \<Rightarrow> bool" where
  "flow k s \<longleftrightarrow> triggers s + of_bool (xStreamSemaphore s = Some True) \<le> k + of_bool (stream_status s = StreamTakes) \<and>
     (ml_status s = MlAwaits \<longrightarrow> xStreamSemaphore s = None \<and> stream_status s = StreamAbsent)"

definition stopped :: "'e event_ops \<Rightarrow> nat \<Rightarrow> 'e isp_app \<Rightarrow> bool" where
  "stopped G k s \<longleftrightarrow>
     of_bool (ml_status s = MlStopped) + of_bool (stream_status s = StreamStopped) +
       of_bool (wait_passes G EVENT_MASK_ML_STOP (app_events s)) \<le> k \<and>
     (ml_status s = MlAwaits \<longrightarrow> stream_status s = StreamAbsent)"

lemmas round_defs = vMlTask_round_def vStartISPDemo_def prvCreateTasks_def prvStreamControlThread_round_def
  prvACameraThread_round_def prvIspInitialConfig_def take_event_def

lemma configured_step: "configured E s \<Longrightarrow> configured E (app_step G E ev s)"
  by (cases ev)
    (auto simp: configured_def round_defs Let_def configuration_no_start split: ml_status.splits stream_status.splits camera_status.splits if_splits)
lemma flow_step:
  "flow k s \<Longrightarrow> flow (k + of_bool (ev = Frame_put \<or> ev = Timed_out)) (app_step G E ev s)"
proof (cases ev)
  case Ml_round
  assume "flow k s"
  then show ?thesis using Ml_round by (cases "ml_status s") (auto simp: flow_def round_defs Let_def)
next
  case Stream_round
  assume "flow k s"
  then show ?thesis using Stream_round by (cases "stream_status s") (auto simp: flow_def round_defs Let_def)
next
  case Camera_round
  assume "flow k s"
  then show ?thesis using Camera_round by (cases "camera_status s") (auto simp: flow_def round_defs Let_def)
next
  case Timed_out
  assume "flow k s"
  then show ?thesis using Timed_out by (cases "stream_status s"; cases "xStreamSemaphore s") (auto simp: flow_def)
next
  case Frame_put
  assume "flow k s"
  then show ?thesis using Frame_put by (cases "xStreamSemaphore s") (auto simp: flow_def)
qed (auto simp: flow_def)

lemma stopped_step:
  assumes "event_laws G" and "stopped G k s"
  shows "stopped G (k + of_bool (ev = Call_second Stop)) (app_step G E ev s)"
proof -
  note bits = stop_bit [OF assms(1)]
  show ?thesis
  proof (cases ev)
    case (Call_first c)
    then show ?thesis using assms(2) bits(1) [of c "app_events s"] by (auto simp: stopped_def)
  next
    case (Call_second c)
    then show ?thesis using assms(2) bits(2) [of c "app_events s"] by (auto simp: stopped_def)
  next
    case Ml_round
    then show ?thesis using assms(2) bits(3,4) by (cases "ml_status s") (auto simp: stopped_def round_defs Let_def)
  next
    case Stream_round
    then show ?thesis using assms(2) bits(4) by (cases "stream_status s") (auto simp: stopped_def round_defs Let_def)
  next
    case Camera_round
    then show ?thesis using assms(2) by (cases "camera_status s") (auto simp: stopped_def round_defs Let_def)
  qed (use assms(2) in \<open>auto simp: stopped_def\<close>)
qed

definition permits :: "app_event list \<Rightarrow> nat" where
  "permits es = length (filter (\<lambda>ev. ev = Frame_put \<or> ev = Timed_out) es)"

lemma app_run:
  assumes "event_laws G"
  shows "configured E s \<Longrightarrow> flow k s \<Longrightarrow> stopped G m s \<Longrightarrow>
    configured E (fold (app_step G E) es s) \<and> flow (k + permits es) (fold (app_step G E) es s) \<and>
    stopped G (m + count_list es (Call_second Stop)) (fold (app_step G E) es s)"
proof (induction es arbitrary: s k m)
  case (Cons ev es)
  note step = configured_step [OF Cons.prems(1), of G ev] flow_step [OF Cons.prems(2), of ev G E] stopped_step [OF assms Cons.prems(3), of ev E]
  have "permits (ev # es) = of_bool (ev = Frame_put \<or> ev = Timed_out) + permits es"
    "count_list (ev # es) (Call_second Stop) = of_bool (ev = Call_second Stop) + count_list es (Call_second Stop)"
    by (simp_all add: permits_def)
  then show ?case using Cons.IH [OF step] by (simp only: fold.simps o_apply add.assoc)
qed (simp add: permits_def)

lemma app_start_inv:
  assumes "\<not> wait_passes G EVENT_MASK_ML_STOP e"
  shows "configured E (app_start e)" and "flow 0 (app_start e)" and "stopped G 0 (app_start e)"
  using assms by (simp_all add: configured_def flow_def stopped_def app_start_def)


text \<open>
  A run of one stop, which the task of \<^verbatim>\<open>ml_interface.cc\<close> takes: the stream goes on, and no start brings the task back.
\<close>

definition example_isp_env :: isp_env where
  "example_isp_env = \<lparr>contexts = 1, active_context = 0, acamera_init_result = 0, model_init_ok = True, hdlcd_ok = True,
     acamera_created = True, stream_created = True\<rparr>"

definition example_stop :: "app_event list" where
  "example_stop = [Call_first Start, Call_second Start, Ml_round, Camera_round, Camera_round, Sensor_starts, Stream_round,
     Call_first Stop, Call_second Stop, Ml_round, Frame_put, Stream_round, Stream_round,
     Call_first Start, Call_second Start, Ml_round, Timed_out, Stream_round]"


end
