(* ===== verification/Isp_System.thy ===== *)
theory Isp_System
  imports Isp_App
begin

text \<open>
  The system layer under the camera firmware: access to registers and memory (\<^verbatim>\<open>system_isp_io.c\<close>, \<^verbatim>\<open>system_hw_io.c\<close>,
  \<^verbatim>\<open>system_sw_io.c\<close>), the interrupt, the timer, the time stamps of the log, and the emulated sensor of \<^verbatim>\<open>fvp_sensor_drv.c\<close>.
  The bus and the kernel are parameters.
\<close>

section \<open>Registers and memory\<close>

text \<open>An access of 1, 2 or 4 bytes at an address; the value is truncated to the width.\<close>

datatype access_width = W8 | W16 | W32

fun truncated :: "access_width \<Rightarrow> u32 \<Rightarrow> u32" where
  "truncated W8 x = ucast (ucast x :: u8)"
| "truncated W16 x = ucast (ucast x :: u16)"
| "truncated W32 x = x"

record 'w isp_bus =
  ISP_SOC_START_ADDR :: u32
  ACAMERA_ISP_MAX_ADDR :: u32
  bus_read :: "access_width \<Rightarrow> u32 \<Rightarrow> 'w \<Rightarrow> u32 \<times> 'w"
  bus_write :: "access_width \<Rightarrow> u32 \<Rightarrow> u32 \<Rightarrow> 'w \<Rightarrow> 'w"

definition system_isp_read :: "'w isp_bus \<Rightarrow> access_width \<Rightarrow> u32 \<Rightarrow> 'w \<Rightarrow> u32 \<times> 'w" where
  "system_isp_read B width a w =
     (if a < ACAMERA_ISP_MAX_ADDR B
      then (let (x, w) = bus_read B width (ISP_SOC_START_ADDR B + a) w in (truncated width x, w)) else (0, w))"

definition system_isp_write :: "'w isp_bus \<Rightarrow> access_width \<Rightarrow> u32 \<Rightarrow> u32 \<Rightarrow> 'w \<Rightarrow> 'w" where
  "system_isp_write B width a x w =
     (if a < ACAMERA_ISP_MAX_ADDR B then bus_write B width (ISP_SOC_START_ADDR B + a) (truncated width x) w else w)"

definition system_hw_read :: "'w isp_bus \<Rightarrow> access_width \<Rightarrow> u32 \<Rightarrow> 'w \<Rightarrow> u32 \<times> 'w" where
  "system_hw_read B width a w = system_isp_read B width a w"

definition system_hw_write :: "'w isp_bus \<Rightarrow> access_width \<Rightarrow> u32 \<Rightarrow> u32 \<Rightarrow> 'w \<Rightarrow> 'w" where
  "system_hw_write B width a x w = system_isp_write B width a x w"

definition system_sw_read :: "'w isp_bus \<Rightarrow> access_width \<Rightarrow> u32 \<Rightarrow> 'w \<Rightarrow> u32 \<times> 'w" where
  "system_sw_read B width a w = (if a \<noteq> 0 then (let (x, w) = bus_read B width a w in (truncated width x, w)) else (0, w))"

definition system_sw_write :: "'w isp_bus \<Rightarrow> access_width \<Rightarrow> u32 \<Rightarrow> u32 \<Rightarrow> 'w \<Rightarrow> 'w" where
  "system_sw_write B width a x w = (if a \<noteq> 0 then bus_write B width a (truncated width x) w else w)"

text \<open>
  The interrupt: \<open>None\<close> without a handler, which is a call through a null pointer, else whether the firmware is told. The handler is
  that of \<^verbatim>\<open>isp_app.c\<close>.
\<close>

definition ISP_C55_Handler :: "'w isp_bus \<Rightarrow> 'e isp_app \<Rightarrow> 'w \<Rightarrow> (bool \<times> 'w) option" where
  "ISP_C55_Handler B s w =
     (let (mask, w) = system_hw_read B W32 0x44 w in if isp_handler_set s then Some (prvInterruptHandler mask, w) else None)"

section \<open>Time\<close>

text \<open>\<^verbatim>\<open>pdMS_TO_TICKS\<close> for a tick rate, which the board sets to 150 or 200.\<close>

definition ms_to_ticks :: "u32 \<Rightarrow> u32 \<Rightarrow> u32" where
  "ms_to_ticks configTICK_RATE_HZ xTimeInMs = xTimeInMs * configTICK_RATE_HZ div 1000"

definition system_timer_frequency :: "u32 \<Rightarrow> u32" where
  "system_timer_frequency rate = ms_to_ticks rate 1000"

text \<open>The delay in ticks.\<close>

definition system_timer_usleep :: "u32 \<Rightarrow> u32 \<Rightarrow> u32" where
  "system_timer_usleep rate usec = (let ticks = ms_to_ticks rate (usec div 1000) in if ticks = 0 then 1 else ticks)"

text \<open>\<^verbatim>\<open>%02u\<close> and \<^verbatim>\<open>%03u\<close>.\<close>

definition padded :: "nat \<Rightarrow> nat \<Rightarrow> string" where
  "padded width n = replicate (width - length (dec_string n)) (CHR ''0'') @ dec_string n"

text \<open>The contents of the buffer of 18 bytes, for the count of ticks. \<open>None\<close> is the division by a frequency of 0.\<close>

definition sys_time_log_cb :: "u32 \<Rightarrow> u32 \<Rightarrow> string option" where
  "sys_time_log_cb rate timestamp =
     (let f = system_timer_frequency rate
      in if f = 0 then None
         else
           (let t_ms = (ucast (ucast timestamp * 1000 div ucast f :: u64) :: u32);
                t_sec = t_ms div 1000; t_ms = t_ms mod 1000;
                t_min = t_sec div 60; t_sec = t_sec mod 60;
                t_hour = t_min div 60; t_min = t_min mod 60;
                t_day = t_hour div 24; t_hour = t_hour mod 24
            in Some (take 17 (padded 2 (unat t_day) @ ''T'' @ padded 2 (unat t_hour) @ '':'' @ padded 2 (unat t_min) @ '':'' @
                 padded 2 (unat t_sec) @ ''.'' @ padded 3 (unat t_ms) @ ''Z ''))))"

text \<open>The milliseconds that such a text says.\<close>

definition logged_ms :: "string \<Rightarrow> nat" where
  "logged_ms s =
     (((digits_value s * 24 + digits_value (drop 3 s)) * 60 + digits_value (drop 6 s)) * 60 + digits_value (drop 9 s)) * 1000 +
     digits_value (drop 12 s)"

lemma digits_value_zeros: "digits_value (replicate k (CHR ''0'') @ s) = digits_value s"
  by (induction k) (simp_all add: digits_value_def isdigit_def)

lemma digits_value_stop: "\<not> isdigit c \<Longrightarrow> (\<forall>x\<in>set s. isdigit x) \<Longrightarrow> digits_value (s @ c # t) = digits_value s"
  by (simp add: digits_value_def takeWhile_append takeWhile_eq_all_conv [THEN iffD2] del: takeWhile_eq_all_conv)

lemma padded_digits: "\<forall>x\<in>set (padded k n). isdigit x"
  using dec_string_digits [of n] by (auto simp: padded_def isdigit_def)

lemma padded_length: "n < 10 ^ Suc k \<Longrightarrow> length (padded (Suc k) n) = Suc k"
  using length_dec_string_le [of n k] by (simp add: padded_def)

lemma padded_value: "\<not> isdigit c \<Longrightarrow> digits_value (padded k n @ c # t) = n"
  using padded_digits by (simp add: digits_value_stop) (simp add: padded_def digits_value_zeros)

lemma logged_ms_exact:
  assumes "d < 100" and "h < 24" and "m < 60" and "s < 60" and "k < 1000"
  shows "length (padded 2 d @ ''T'' @ padded 2 h @ '':'' @ padded 2 m @ '':'' @ padded 2 s @ ''.'' @ padded 3 k @ ''Z '') = 17"
    and "logged_ms (padded 2 d @ ''T'' @ padded 2 h @ '':'' @ padded 2 m @ '':'' @ padded 2 s @ ''.'' @ padded 3 k @ ''Z '') =
      (((d * 24 + h) * 60 + m) * 60 + s) * 1000 + k"
proof -
  have l: "length (padded 2 d) = 2" "length (padded 2 h) = 2" "length (padded 2 m) = 2" "length (padded 2 s) = 2" "length (padded 3 k) = 3"
    using assms padded_length [of _ 1] padded_length [of k 2] by (simp_all add: numeral_2_eq_2 numeral_3_eq_3)
  show "length (padded 2 d @ ''T'' @ padded 2 h @ '':'' @ padded 2 m @ '':'' @ padded 2 s @ ''.'' @ padded 3 k @ ''Z '') = 17"
    using l by simp
  show "logged_ms (padded 2 d @ ''T'' @ padded 2 h @ '':'' @ padded 2 m @ '':'' @ padded 2 s @ ''.'' @ padded 3 k @ ''Z '') =
      (((d * 24 + h) * 60 + m) * 60 + s) * 1000 + k"
    using l by (simp add: logged_ms_def padded_value isdigit_def)
qed

lemma frequency_exact: "0 < unat rate \<Longrightarrow> unat rate * 1000 < 2 ^ 32 \<Longrightarrow> system_timer_frequency rate = rate"
  by (intro word_unat_eq_iff [THEN iffD2])
    (simp add: system_timer_frequency_def ms_to_ticks_def unat_div unat_word_ariths mult.commute)

lemma unat_milliseconds:
  fixes rate timestamp :: u32
  assumes "0 < unat rate"
  shows "unat (ucast (ucast timestamp * 1000 div ucast rate :: u64) :: u32) = (unat timestamp * 1000 div unat rate) mod 2 ^ 32"
proof -
  have "unat timestamp < 2 ^ 32" using unsigned_less [of timestamp, where ?'a = nat] by simp
  then have "unat (ucast timestamp * 1000 :: u64) = unat timestamp * 1000"
    by (simp add: unat_word_ariths unat_ucast_32_64)
  then have "unat (ucast timestamp * 1000 div ucast rate :: u64) = unat timestamp * 1000 div unat rate"
    by (simp add: unat_div unat_ucast_32_64)
  then show ?thesis by (simp add: unsigned_ucast_eq take_bit_nat_def)
qed

text \<open>C0: For every count of ticks and every tick rate for which the macro does not overflow, the time stamp of the log fits in its
  buffer of 18 bytes without being cut off, and reads back as the milliseconds since the start modulo \<open>2\<^sup>3\<^sup>2\<close>.\<close>

theorem time_stamp_roundtrip:
  assumes "0 < unat rate" and "unat rate * 1000 < 2 ^ 32"
  shows "\<exists>s. sys_time_log_cb rate timestamp = Some s \<and> length s = 17 \<and>
    logged_ms s = (unat timestamp * 1000 div unat rate) mod 2 ^ 32"
proof -
  define ms where "ms = (ucast (ucast timestamp * 1000 div ucast rate :: u64) :: u32)"
  define sec where "sec = unat ms div 1000"
  define minute where "minute = sec div 60"
  define hour where "hour = minute div 60"
  define s where "s = padded 2 (hour div 24) @ ''T'' @ padded 2 (hour mod 24) @ '':'' @ padded 2 (minute mod 60) @ '':'' @
    padded 2 (sec mod 60) @ ''.'' @ padded 3 (unat ms mod 1000) @ ''Z ''"
  have "rate \<noteq> 0" using assms(1) by auto
  have "unat ms < 2 ^ 32" using unsigned_less [of ms, where ?'a = nat] by simp
  then have small: "hour div 24 < 100" by (simp add: hour_def minute_def sec_def div_mult2_eq [symmetric] less_mult_imp_div_less)
  have parts: "(((hour div 24 * 24 + hour mod 24) * 60 + minute mod 60) * 60 + sec mod 60) * 1000 + unat ms mod 1000 = unat ms"
    by (simp only: div_mult_mod_eq hour_def minute_def sec_def)
  have s: "length s = 17" "logged_ms s = unat ms"
    unfolding s_def using logged_ms_exact [OF small, of "hour mod 24" "minute mod 60" "sec mod 60" "unat ms mod 1000"] parts by simp_all
  have "sys_time_log_cb rate timestamp = Some (take 17 s)"
    using \<open>rate \<noteq> 0\<close> frequency_exact [OF assms]
    by (simp only: sys_time_log_cb_def Let_def if_False simp_thms s_def hour_def minute_def sec_def unat_div unat_mod flip: ms_def) simp
  then show ?thesis using s unat_milliseconds [OF assms(1), of timestamp] by (simp add: ms_def)
qed

theorem time_stamp_roundtrip_witness:
  "\<exists>s. sys_time_log_cb 200 17280000 = Some s \<and> length s = 17 \<and> logged_ms s = 86400000"
  using time_stamp_roundtrip [of 200 17280000] by simp
text \<open>The delay is rounded down, to a millisecond and then to a tick: it is never longer than asked for, unless it is one tick.\<close>

lemma usleep_exact:
  assumes "unat rate \<le> 1000"
  shows "unat (system_timer_usleep rate usec) = max 1 (unat usec div 1000 * unat rate div 1000)"
proof -
  have "unat usec < 2 ^ 32" using unsigned_less [of usec, where ?'a = nat] by simp
  then have "unat usec div 1000 * unat rate \<le> 4294967 * 1000" using assms by (intro mult_le_mono) simp_all
  then have t: "unat (ms_to_ticks rate (usec div 1000)) = unat usec div 1000 * unat rate div 1000"
    by (simp add: ms_to_ticks_def unat_div unat_word_ariths)
  show ?thesis
  proof (cases "ms_to_ticks rate (usec div 1000) = 0")
    case True
    then show ?thesis using t by (simp add: system_timer_usleep_def)
  next
    case False
    then have "0 < unat (ms_to_ticks rate (usec div 1000))" by (simp add: unat_gt_0)
    then show ?thesis using False t by (simp add: system_timer_usleep_def Let_def)
  qed
qed

lemma usleep_not_longer:
  assumes "unat rate \<le> 1000"
  shows "unat (system_timer_usleep rate usec) = 1 \<or> unat (system_timer_usleep rate usec) * 1000000 \<le> unat usec * unat rate"
proof -
  have "unat usec div 1000 * unat rate div 1000 * 1000000 = (unat usec div 1000 * unat rate div 1000 * 1000) * 1000" by simp
  also have "\<dots> \<le> unat usec div 1000 * unat rate * 1000" by (intro mult_le_mono1) simp
  also have "\<dots> = unat usec div 1000 * 1000 * unat rate" by simp
  also have "\<dots> \<le> unat usec * unat rate" by (intro mult_le_mono1) simp
  finally show ?thesis unfolding usleep_exact [OF assms] by (auto simp: max_def)
qed

text \<open>At 200 ticks per second a delay of 9 milliseconds is one of at most 5.\<close>

lemma usleep_too_short: "system_timer_usleep 200 9000 = 1"
  by (simp add: system_timer_usleep_def ms_to_ticks_def)

section \<open>Sensor\<close>

text \<open>
  The emulated sensor. Its contexts are static and start with zeros; a pointer to the parameters is the number of the context.
  \<open>sensor_owner\<close> is what \<^verbatim>\<open>sensor_ctx\<close> points to.
\<close>

record sensor_mode =
  mode_width :: u16
  mode_height :: u16
  mode_fps :: u32
  mode_bits :: u8
  mode_exposures :: u8

record sensor_context =
  rggb_start :: u32
  sensor_exp_number :: u8
  integration_time_apply_delay :: u8
  modes_num :: nat
  supported_modes :: "sensor_mode list"
  active_resolution :: "u16 \<times> u16"
  total_resolution :: "u16 \<times> u16"
  pixels_per_line :: u16
  integration_time_min :: u32
  integration_time_max :: u32
  integration_time_limit :: u32
  sensor_mode_set :: u8
  lines_per_second :: u32
  sensor_owner :: "nat option"

definition zero_mode :: sensor_mode where
  "zero_mode = \<lparr>mode_width = 0, mode_height = 0, mode_fps = 0, mode_bits = 0, mode_exposures = 0\<rparr>"

definition ISP_MAX_SENSOR_MODES :: nat where "ISP_MAX_SENSOR_MODES = 16"

definition zero_context :: sensor_context where
  "zero_context = \<lparr>rggb_start = 0, sensor_exp_number = 0, integration_time_apply_delay = 0, modes_num = 0,
     supported_modes = replicate ISP_MAX_SENSOR_MODES zero_mode, active_resolution = (0, 0), total_resolution = (0, 0),
     pixels_per_line = 0, integration_time_min = 0, integration_time_max = 0, integration_time_limit = 0, sensor_mode_set = 0,
     lines_per_second = 0, sensor_owner = None\<rparr>"

definition FVP_SENSOR_WIDTH :: u16 where "FVP_SENSOR_WIDTH = 576"
definition FVP_SENSOR_HEIGHT :: u16 where "FVP_SENSOR_HEIGHT = 576"
definition FVP_SENSOR_RGGB_START :: u32 where "FVP_SENSOR_RGGB_START = 2"
definition FVP_SENSOR_DEPTH :: u8 where "FVP_SENSOR_DEPTH = 12"

text \<open>The context given out, \<open>None\<close> for the null pointer, with the contexts and the count of those in use.\<close>

definition fvp_sensor_init :: "sensor_context list \<times> nat \<Rightarrow> nat option \<times> sensor_context list \<times> nat" where
  "fvp_sensor_init = (\<lambda>(s_ctx, ctx_counter).
     (if ctx_counter < length s_ctx
      then
        (let c = s_ctx ! ctx_counter;
             m = \<lparr>mode_width = FVP_SENSOR_WIDTH, mode_height = FVP_SENSOR_HEIGHT, mode_fps = 1 * 256, mode_bits = FVP_SENSOR_DEPTH,
                  mode_exposures = 1\<rparr>;
             c = c\<lparr>rggb_start := FVP_SENSOR_RGGB_START, sensor_exp_number := 1, integration_time_apply_delay := 2, modes_num := 1,
                   supported_modes := (supported_modes c)[0 := m], sensor_owner := Some 0\<rparr>
         in (Some ctx_counter, s_ctx[ctx_counter := c], ctx_counter + 1))
      else (None, s_ctx, ctx_counter)))"

text \<open>\<open>None\<close> for a mode outside the table.\<close>

definition sensor_set_mode :: "u8 \<Rightarrow> sensor_context \<Rightarrow> sensor_context option" where
  "sensor_set_mode mode c =
     (if unat mode < length (supported_modes c)
      then
        (let m = supported_modes c ! unat mode; size = (mode_width m, mode_height m)
         in Some (c\<lparr>active_resolution := size, total_resolution := size, pixels_per_line := fst size, integration_time_min := 1,
                integration_time_max := 1000, integration_time_limit := 1000, sensor_mode_set := mode, lines_per_second := 0,
                sensor_exp_number := mode_exposures m\<rparr>))
      else None)"

definition start_streaming :: "'e isp_app \<Rightarrow> 'e isp_app" where
  "start_streaming s = s\<lparr>STREAM_ENABLED := True\<rparr>"

definition stop_streaming :: "'e isp_app \<Rightarrow> 'e isp_app" where
  "stop_streaming s = s\<lparr>STREAM_ENABLED := False\<rparr>"

text \<open>Of the modes that exist only the first has a size; of the contexts only the first knows itself.\<close>

lemma sensor_mode_sizes:
  assumes "k < length ctxs" and "ctxs ! k = zero_context" and "fvp_sensor_init (ctxs, k) = (p, ctxs', k')"
  shows "p = Some k \<and> k' = k + 1 \<and> length ctxs' = length ctxs \<and> (\<forall>i. i \<noteq> k \<longrightarrow> ctxs' ! i = ctxs ! i) \<and>
    sensor_owner (ctxs' ! k) = Some 0 \<and>
    map_option active_resolution (sensor_set_mode m (ctxs' ! k)) =
      (if m = 0 then Some (576, 576) else if unat m < 16 then Some (0, 0) else None)"
proof -
  have m: "unat m = 0 \<longleftrightarrow> m = 0" by (simp add: unat_eq_zero)
  have "supported_modes (ctxs' ! k) = (replicate 16 zero_mode)[0 := \<lparr>mode_width = 576, mode_height = 576, mode_fps = 256, mode_bits = 12, mode_exposures = 1\<rparr>]"
    using assms by (auto simp: fvp_sensor_init_def Let_def zero_context_def ISP_MAX_SENSOR_MODES_def FVP_SENSOR_WIDTH_def
        FVP_SENSOR_HEIGHT_def FVP_SENSOR_DEPTH_def)
  moreover have "p = Some k \<and> k' = k + 1 \<and> length ctxs' = length ctxs \<and> (\<forall>i. i \<noteq> k \<longrightarrow> ctxs' ! i = ctxs ! i) \<and> sensor_owner (ctxs' ! k) = Some 0"
    using assms by (auto simp: fvp_sensor_init_def Let_def)
  ultimately show ?thesis using m by (auto simp: sensor_set_mode_def Let_def nth_list_update zero_mode_def)
qed

text \<open>A sequence of register writes reaches the bus only inside the window, at its base.\<close>

lemma writes_in_window:
  "fold (\<lambda>(width, a, x). system_hw_write B width a x) ws w =
     fold (\<lambda>(width, a, x). bus_write B width (ISP_SOC_START_ADDR B + a) (truncated width x))
       (filter (\<lambda>(width, a, x). a < ACAMERA_ISP_MAX_ADDR B) ws) w"
  by (induction ws arbitrary: w) (auto simp: system_hw_write_def system_isp_write_def)

end
