(* ===== verification/Keyword_Clip.thy ===== *)
theory Keyword_Clip
  imports Keyword_Task
begin

text \<open>
  Keyword detection on a clip in memory, the other build of \<^verbatim>\<open>prvProcessAudio\<close> in \<^verbatim>\<open>ml_interface.cc\<close>: after each start
  the task slides through the clip and reports a result for every window, until the clip ends or it is stopped. The network with its
  pre- and postprocessing and the sliding window, which belongs to a library, are parameters.
\<close>

section \<open>The task\<close>

text \<open>
  \<open>tensors_ok\<close>: the model is initialised, its input tensor has the dimensions, and there is a feature calculator.
  \<open>clip_slices\<close> are the windows of the clip in order, \<open>None\<close> when there is no clip or it is shorter than a window. A window comes
  with its index.
\<close>

record 'a clip_model =
  interface_init_ok :: bool
  tensors_ok :: bool
  clip_slices :: "'a list list option"
  DoPreProcess :: "'a list \<Rightarrow> nat \<Rightarrow> bool"
  clip_RunInference :: "'a list \<Rightarrow> nat \<Rightarrow> bool"
  DoPostProcess :: "'a list \<Rightarrow> nat \<Rightarrow> bool"
  best_label :: "'a list \<Rightarrow> nat \<Rightarrow> string option"

datatype clip_phase = ClipStarting | ClipSliding | ClipWaiting | ClipEnded

record ('e, 'c, 'w) clip_task =
  clip_phase :: clip_phase
  clip_events :: 'e
  slider_index :: nat
  clip_reports :: "('c, 'w) reports"

definition clip_start :: "'e \<Rightarrow> ('c, 'w) reports \<Rightarrow> ('e, 'c, 'w) clip_task" where
  "clip_start e r = \<lparr>clip_phase = ClipStarting, clip_events = e, slider_index = 0, clip_reports = r\<rparr>"

text \<open>The body of the inner loop for the next window; \<open>n\<close> is the length of the queue.\<close>

definition clip_inference :: "nat \<Rightarrow> 'a clip_model \<Rightarrow> 'a list list \<Rightarrow> ('e, 'c, 'w) clip_task \<Rightarrow> ('e, 'c, 'w) clip_task" where
  "clip_inference n M ws T =
     (let i = slider_index T; inferenceWindow = ws ! i
      in if \<not> DoPreProcess M inferenceWindow i \<or> \<not> clip_RunInference M inferenceWindow i \<or> \<not> DoPostProcess M inferenceWindow i
         then T\<lparr>clip_phase := ClipEnded\<rparr>
         else T\<lparr>slider_index := i + 1, clip_reports := report_result n (best_label M inferenceWindow i) (clip_reports T)\<rparr>)"

text \<open>The start of the outer loop.\<close>

definition clip_begin :: "'a clip_model \<Rightarrow> ('e, 'c, 'w) clip_task \<Rightarrow> ('e, 'c, 'w) clip_task" where
  "clip_begin M T = (case clip_slices M of None \<Rightarrow> T\<lparr>clip_phase := ClipEnded\<rparr> | Some _ \<Rightarrow> T\<lparr>clip_phase := ClipSliding, slider_index := 0\<rparr>)"

text \<open>The task up to the next point where it may block.\<close>

definition clip_round ::
  "nat \<Rightarrow> 'e event_ops \<Rightarrow> 'a clip_model \<Rightarrow> ('e, 'c, 'w) clip_task \<Rightarrow> ('e, 'c, 'w) clip_task" where
  "clip_round n G M T =
     (case clip_phase T of
        ClipStarting \<Rightarrow>
          (let (start, e) = take_event G EVENT_MASK_ML_START (clip_events T)
           in if \<not> start then T
              else if \<not> interface_init_ok M \<or> \<not> tensors_ok M then T\<lparr>clip_events := e, clip_phase := ClipEnded\<rparr>
              else clip_begin M (T\<lparr>clip_events := e\<rparr>))
      | ClipSliding \<Rightarrow>
          (case clip_slices M of
             None \<Rightarrow> T
           | Some ws \<Rightarrow>
               if slider_index T < length ws
               then (let (stop, e) = take_event G EVENT_MASK_ML_STOP (clip_events T)
                     in if stop then T\<lparr>clip_events := e, clip_phase := ClipWaiting\<rparr> else clip_inference n M ws T)
               else T\<lparr>clip_phase := ClipWaiting\<rparr>)
      | ClipWaiting \<Rightarrow>
          (let (start, e) = take_event G EVENT_MASK_ML_START (clip_events T)
           in if start then clip_begin M (T\<lparr>clip_events := e\<rparr>) else T)
      | ClipEnded \<Rightarrow> T)"

datatype clip_event = Clip_round | Clip_first ml_command | Clip_second ml_command

fun clip_step ::
  "nat \<Rightarrow> 'e event_ops \<Rightarrow> 'a clip_model \<Rightarrow> clip_event \<Rightarrow> ('e, 'c, 'w) clip_task \<Rightarrow> ('e, 'c, 'w) clip_task" where
  "clip_step n G M Clip_round T = clip_round n G M T"
| "clip_step n G M (Clip_first c) T = T\<lparr>clip_events := first_call G c (clip_events T)\<rparr>"
| "clip_step n G M (Clip_second c) T = T\<lparr>clip_events := second_call G c (clip_events T)\<rparr>"

section \<open>What is reported\<close>

text \<open>The results of the whole clip.\<close>

definition clip_labels :: "'a clip_model \<Rightarrow> string option list" where
  "clip_labels M = (case clip_slices M of None \<Rightarrow> [] | Some ws \<Rightarrow> map (\<lambda>i. best_label M (ws ! i) i) [0..<length ws])"

definition incomplete :: "'a clip_model \<Rightarrow> nat list \<Rightarrow> nat" where
  "incomplete M ks = length (filter (\<lambda>k. k < length (clip_labels M)) ks)"

text \<open>
  \<open>ks\<close> are the numbers of windows of the passes through the clip that are over, the current one is counted by the slider. \<open>m\<close> is the number
  of stops.
\<close>

definition clip_inv ::
  "nat \<Rightarrow> 'e event_ops \<Rightarrow> 'a clip_model \<Rightarrow> ('c, 'w) reports \<Rightarrow> nat \<Rightarrow> ('e, 'c, 'w) clip_task \<Rightarrow> nat list \<Rightarrow> bool" where
  "clip_inv n G M r m T ks \<longleftrightarrow>
     (\<forall>k\<in>set ks. k \<le> length (clip_labels M)) \<and>
     clip_reports T =
       fold (report_result n)
         (concat (map (\<lambda>k. take k (clip_labels M)) (if clip_phase T = ClipSliding then ks @ [slider_index T] else ks))) r \<and>
     (clip_phase T = ClipSliding \<longrightarrow> slider_index T \<le> length (clip_labels M) \<and> clip_slices M \<noteq> None) \<and>
     incomplete M ks + of_bool (wait_passes G EVENT_MASK_ML_STOP (clip_events T)) \<le> m + of_bool (clip_phase T = ClipEnded)"

lemma clip_labels_length: "clip_slices M = Some ws \<Longrightarrow> length (clip_labels M) = length ws"
  by (simp add: clip_labels_def)

lemma clip_labels_Suc:
  "clip_slices M = Some ws \<Longrightarrow> i < length ws \<Longrightarrow> take (Suc i) (clip_labels M) = take i (clip_labels M) @ [best_label M (ws ! i) i]"
  by (simp add: clip_labels_def take_Suc_conv_app_nth)

lemma clip_begin_inv:
  assumes "clip_inv n G M r m T ks" and "clip_phase T \<in> {ClipStarting, ClipWaiting}"
    and "wait_passes G EVENT_MASK_ML_STOP e = wait_passes G EVENT_MASK_ML_STOP (clip_events T)"
  shows "clip_inv n G M r m (clip_begin M (T\<lparr>clip_events := e\<rparr>)) ks"
  using assms by (cases "clip_slices M") (auto simp: clip_inv_def clip_begin_def)

lemma clip_inference_inv:
  assumes "clip_inv n G M r m T ks" and "clip_phase T = ClipSliding" and "clip_slices M = Some ws" and "slider_index T < length ws"
    and "\<not> wait_passes G EVENT_MASK_ML_STOP (clip_events T)"
  shows "\<exists>ks. clip_inv n G M r m (clip_inference n M ws T) ks"
proof (cases "DoPreProcess M (ws ! slider_index T) (slider_index T) \<and> clip_RunInference M (ws ! slider_index T) (slider_index T) \<and>
    DoPostProcess M (ws ! slider_index T) (slider_index T)")
  case True
  then show ?thesis using assms clip_labels_Suc [OF assms(3,4)] clip_labels_length [OF assms(3)]
    by (intro exI [of _ ks]) (simp add: clip_inv_def clip_inference_def Let_def)
next
  case False
  then show ?thesis using assms
    by (intro exI [of _ "ks @ [slider_index T]"]) (auto simp: clip_inv_def clip_inference_def Let_def incomplete_def)
qed

lemma clip_round_inv:
  assumes "event_laws G" and "clip_inv n G M r m T ks"
  shows "\<exists>ks. clip_inv n G M r m (clip_round n G M T) ks"
proof -
  note bits = stop_bit(3,4) [OF assms(1)]
  show ?thesis
  proof (cases "clip_phase T")
    case ClipStarting
    then show ?thesis
      using assms(2) clip_begin_inv [OF assms(2), of "xEventGroupClearBits G (clip_events T) EVENT_MASK_ML_START"] bits(1)
      by (intro exI [of _ ks]) (auto simp: clip_round_def take_event_def clip_inv_def)
  next
    case ClipWaiting
    then show ?thesis
      using assms(2) clip_begin_inv [OF assms(2), of "xEventGroupClearBits G (clip_events T) EVENT_MASK_ML_START"] bits(1)
      by (intro exI [of _ ks]) (auto simp: clip_round_def take_event_def)
  next
    case ClipEnded
    then show ?thesis using assms(2) by (auto simp: clip_round_def)
  next
    case ClipSliding
    then obtain ws where ws: "clip_slices M = Some ws" using assms(2) by (auto simp: clip_inv_def)
    consider "slider_index T = length ws" | "slider_index T < length ws" "wait_passes G EVENT_MASK_ML_STOP (clip_events T)"
      | "slider_index T < length ws" "\<not> wait_passes G EVENT_MASK_ML_STOP (clip_events T)"
      using assms(2) ClipSliding clip_labels_length [OF ws] by (fastforce simp: clip_inv_def)
    then show ?thesis
    proof cases
      case 3
      then show ?thesis using clip_inference_inv [OF assms(2) ClipSliding ws] ClipSliding ws by (simp add: clip_round_def take_event_def)
    qed (use assms(2) ClipSliding ws bits(2) clip_labels_length [OF ws] in
        \<open>auto simp: clip_round_def take_event_def clip_inv_def incomplete_def intro!: exI [of _ "ks @ [slider_index T]"]\<close>)
  qed
qed

lemma clip_run_inv:
  assumes "event_laws G"
  shows "clip_inv n G M r m T ks \<Longrightarrow>
    \<exists>ks. clip_inv n G M r (m + count_list es (Clip_second Stop)) (fold (clip_step n G M) es T) ks"
proof (induction es arbitrary: m T ks)
  case (Cons ev es)
  have "\<exists>ks. clip_inv n G M r (m + of_bool (ev = Clip_second Stop)) (clip_step n G M ev T) ks"
  proof (cases ev)
    case Clip_round
    then show ?thesis using clip_round_inv [OF assms Cons.prems] by simp
  next
    case (Clip_first c)
    then show ?thesis using Cons.prems stop_bit(1) [OF assms, of c "clip_events T"]
      by (intro exI [of _ ks]) (auto simp: clip_inv_def)
  next
    case (Clip_second c)
    then show ?thesis using Cons.prems stop_bit(2) [OF assms, of c "clip_events T"]
      by (intro exI [of _ ks]) (auto simp: clip_inv_def)
  qed
  then obtain ks' where "clip_inv n G M r (m + of_bool (ev = Clip_second Stop)) (clip_step n G M ev T) ks'" by blast
  from Cons.IH [OF this]
  have "\<exists>ks. clip_inv n G M r (m + count_list (ev # es) (Clip_second Stop)) (fold (clip_step n G M) es (clip_step n G M ev T)) ks"
    by (cases "ev = Clip_second Stop") simp_all
  then show ?case by simp
qed auto


text \<open>A clip of two windows, heard once as a whole and once stopped after the first window.\<close>

definition sample_clip :: "nat clip_model" where
  "sample_clip = \<lparr>interface_init_ok = True, tensors_ok = True, clip_slices = Some [[1], [2]], DoPreProcess = (\<lambda>_ _. True),
     clip_RunInference = (\<lambda>_ _. True), DoPostProcess = (\<lambda>_ _. True), best_label = (\<lambda>w _. if w = [1] then Some ''yes'' else None)\<rparr>"

definition sample_clip_run :: "clip_event list" where
  "sample_clip_run = [Clip_first Start, Clip_second Start, Clip_round, Clip_round, Clip_round, Clip_round,
     Clip_first Start, Clip_second Start, Clip_round, Clip_round, Clip_first Stop, Clip_second Stop, Clip_round]"


end
