(* ===== verification/Spec2Isabelle.thy ===== *)
theory Spec2Isabelle
  imports Mqtt_Agent Ota_Properties Sntp_Client Provisioning_Properties Logging Transport_Properties Mbedtls_Port
    Boot Device_Advisor Serial Cdma Dsp_Exchange Detection Isp_Uart Isp_System Keyword_Clip
begin

text \<open>
  The reference integration of FreeRTOS for Arm Corstone-3xx: the firmware of an IoT device that connects to
  a cloud broker over MQTT and TLS, updates itself over the air, keeps the time by SNTP and runs machine learning
  applications. This development models the repository's own code; the libraries it integrates (coreMQTT,
  coreMQTT-Agent, coreSNTP, the Jobs and file-streams libraries, Mbed TLS, the PKCS\#11 module, TF-M and PSA, the
  network stacks, the kernel, the neural networks) are git submodules that are not part of it, and parameters here.

  Conventions. A theory models one part of the sources and names their files in its own introduction; a definition has
  the name of the C function, type or macro it models, or, for a piece of a long function, a descriptive one.
  Integers are words of their C width where a computation can wrap, and natural numbers for sizes and indices.
  Code outside the repository is a field of an environment record, a function on a state \<open>'w\<close> of everything outside; what
  the code relies on is a predicate over that record (\<open>event_laws\<close>, \<open>io_ok\<close>, \<open>storage_laws\<close>, ...), a hypothesis
  of the lemmas that need it, with an instance for which it is proved. A failed
  assertion, undefined behaviour, or a loop without end is the result \<open>None\<close>. Other tasks act where a task blocks:
  the environment says which steps they take, and the properties hold for every choice.

  \<^bold>\<open>Shared\<close>
  \<^item> \<open>Prelude\<close>: machine types, C strings, copies into buffers, and the interfaces, as locales: a bounded queue, a pool
    of slots, a table of registrations. The queues of \<open>Agent_Pool\<close>, \<open>Ota_Events\<close>, and the table of
    \<open>Subscription_Manager\<close> are interpretations of them; \<open>Ota_Invariant\<close> and \<open>Transport\<close> have locales of their own.
  \<^item> \<open>System_Events\<close> (\<^verbatim>\<open>events.c\<close>): the event group that signals progress between the tasks.
  \<^item> \<open>Crt_Helpers\<close>: \<^verbatim>\<open>app_strnlen.c\<close>, and \<^verbatim>\<open>snprintf\<close> and \<^verbatim>\<open>strtoul\<close> of the standard library on numbers.
  \<^item> \<open>Pkcs11\<close>: the interface of the PKCS\#11 module, with counts of the open sessions and live heap blocks.

  \<^bold>\<open>Start\<close>
  \<^item> \<open>Boot\<close> (\<^verbatim>\<open>main.c\<close> of three applications, both \<^verbatim>\<open>network_startup.c\<close>): the order of the initialisations; which tasks
    exist afterwards; that after a reset the key that verifies firmware images is missing.
  \<^item> \<open>Provisioning\<close>, \<open>Provisioning_Properties\<close> (\<^verbatim>\<open>dev_mode_key_provisioning.c\<close>): import of the credentials, key
    generation, the code signing key, the first-boot flag; no session or heap block is lost; the destruction of old objects.
  \<^item> \<open>Logging\<close> (\<^verbatim>\<open>iot_logging_task_dynamic_buffers.c\<close>): refinement of a bounded queue of messages, memory ownership.
  \<^item> \<open>Serial\<close> (\<^verbatim>\<open>bsp_serial.c\<close>): the retargeted output of the C library, for both compilers.
  \<^item> \<open>Mbedtls_Port\<close> (\<^verbatim>\<open>mbedtls_freertos_port.c\<close>): allocator and mutexes.

  \<^bold>\<open>Connection\<close>
  \<^item> \<open>Tls\<close>, \<open>Tls_Properties\<close> (\<^verbatim>\<open>iot_tls.c\<close>): set-up, handshake, sending and receiving, and the signing callback into the
    PKCS\#11 module; a successful set-up is secure, and every resource is returned.
  \<^item> \<open>Transport_Types\<close>, \<open>Transport\<close>, \<open>Transport_Vsocket\<close>, \<open>Transport_Tcp\<close>, \<open>Transport_Properties\<close>
    (\<^verbatim>\<open>transport_tls_iot_socket.c\<close>, \<^verbatim>\<open>transport_mbedtls.c\<close>): both implementations of the transport interface over the TLS layer.
  \<^item> \<open>Mqtt_Types\<close>, \<open>Subscription_Manager\<close>, \<open>Agent_Pool\<close>, \<open>Mqtt_Agent\<close> (\<^verbatim>\<open>subscription_manager.c\<close>,
    \<^verbatim>\<open>freertos_agent_message.c\<close>, \<^verbatim>\<open>freertos_command_pool.c\<close>, \<^verbatim>\<open>mqtt_agent_task.c\<close>): the table of subscriptions and the
    dispatch of publishes against reference definitions, the conservation of the command pool, and
    the connection loop with its backoff.
  \<^item> \<open>Device_Advisor\<close> (\<^verbatim>\<open>aws_device_advisor_task.c\<close>): a client of the agent that subscribes to a topic.

  \<^bold>\<open>Services\<close>
  \<^item> \<open>Ota_Types\<close>, \<open>Ota_Version\<close>, \<open>Ota_Events\<close>, \<open>Ota_Callbacks\<close>, \<open>Ota_Mqtt\<close>, \<open>Ota_Job\<close>, \<open>Ota_Orchestrator\<close>
    (\<^verbatim>\<open>ota_orchestrator.c\<close> and the files beside it): the event loop of the update agent with every handler and the callbacks
    that run in the MQTT agent task. \<open>Ota_Invariant\<close> proves what survives every interleaving, and
    \<open>Ota_Properties\<close> the accounting of a download, the self test and the reactions to events at the wrong moment.
  \<^item> \<open>Sntp_Clock\<close>, \<open>Sntp_Auth\<close>, \<open>Sntp_Client\<close> (\<^verbatim>\<open>sntp_client_task.c\<close>): the clock with its slew, the
    authentication of requests and responses, and the task, in which a call of coreSNTP is a tree of requests to the client.

  \<^bold>\<open>Applications\<close>
  \<^item> \<open>Leds\<close> (\<^verbatim>\<open>mps3_leds.c\<close>, \<^verbatim>\<open>blink_task.c\<close>): the LEDs and what they show.
  \<^item> \<open>Sliding_Window\<close>, \<open>Keyword_Detection\<close>, \<open>Keyword_Reports\<close>, \<open>Keyword_Task\<close> (\<^verbatim>\<open>ml_interface.cc\<close> of keyword
    detection): the circular audio buffer, the feature cache against computing every window anew, the reported
    changes of state, and the audio task with its start and stop, end to end.
  \<^item> \<open>Cdma\<close> (\<^verbatim>\<open>system_cdma.c\<close> of the image signal processor): the device pool, the linked queue of tasklets with its
    aliasing, and the scattered copy.
  \<^item> \<open>Dsp_Graph\<close>, \<open>Dsp_Interfaces\<close>, \<open>Dsp_Exchange\<close> (\<^verbatim>\<open>dsp\<close> of speech recognition): the FIFOs and nodes of the signal
    processing and its static schedule, proved to stay inside its buffers by counting firings; the audio sources, the
    task, and the exchange of windows with the inference. What a source and a sink must keep is the locale \<open>dsp_ends\<close>.
  \<^item> \<open>Asr_Task\<close> (\<^verbatim>\<open>ml_interface.cc\<close> of speech recognition): the inference task against the sentences of consecutive pairs of
    windows; the ownership of the heap blocks that carry the sentences to the MQTT agent.
  \<^item> \<open>Isp_Frames\<close>, \<open>Hdlcd\<close>, \<open>Detection\<close> (\<^verbatim>\<open>isp_config.c\<close>, \<^verbatim>\<open>acamera_callbacks.c\<close>, \<^verbatim>\<open>hdlcd_helper.c\<close>, \<^verbatim>\<open>ml_interface.cc\<close> of
    object detection): the memory for the frames, the pixel formats with a round trip of grey pictures through each of them,
    and what is displayed, detected and drawn; \<open>Isp_Uart\<close> (\<^verbatim>\<open>acamera_uart.c\<close>): the receive buffer
    as a queue of bytes.
  \<^item> \<open>Isp_App\<close>, \<open>Isp_System\<close> (\<^verbatim>\<open>isp_app.c\<close>, \<^verbatim>\<open>vMlTask\<close> of object detection, the small files of \<^verbatim>\<open>isp_mali-c55\<close>): the tasks that
    configure the camera firmware, trigger its frames and stop, in every interleaving; the layer below the firmware.
  \<^item> \<open>Keyword_Clip\<close> (\<^verbatim>\<open>ml_interface.cc\<close> of keyword detection): the build that runs on a clip in memory.

  \<^bold>\<open>Bounds.\<close> Loops whose end depends on the environment are \<open>partial_function (option)\<close>, with the result
  proved to exist where the property needs it; the others are structural or have a measure. There is no fuel.

  \<^bold>\<open>Not modelled\<close>: configuration headers, calibration tables and certificates, which are data; register definitions and
  the calls that only hand a value to a driver or to TF-M; the neural networks with their pre- and postprocessing and the
  initialisation of the NPU, which are calls of libraries; the weighted sum of a grey value, which is computed with floats;
  functions that are a single call of the kernel; the blink tasks that only toggle LEDs; the integration tests; the mocks of library headers.
  Timing, priorities and the weak memory of two cores are abstracted to the interleaving of steps.
\<close>

end
